(* ===== verification/Prelude.thy ===== *)
theory Prelude
  imports Main "HOL-Library.Word" "HOL-Library.List_Lexorder"
begin

section \<open>Types and lemmas shared by the components\<close>

text \<open>
  The identifiers and integers of the relayer, the ways in which a Rust call can end, and
  the generic lemmas the component theories share.

  \<^item> \<open>u16\<close>, \<open>u32\<close>, \<open>u64\<close> are machine words; \<open>uuid\<close> is the 128-bit \<open>uuid::Uuid\<close>, whose
    order is the numeric order of its big-endian bytes.
  \<^item> \<open>scalar\<close> is a \<open>curve25519_dalek\<close> scalar held as its canonical representative, so that
    equality of scalars is equality of these numbers.
  \<^item> \<open>WrappedPeerId\<close> holds the bytes of a libp2p peer id; the order on it only serves to
    enumerate finite sets of peers.
  \<^item> \<open>bytes\<close> stands for a value the relayer stores and forwards without looking inside
    (a proof, a signature, a witness): its serialization.
\<close>

type_synonym u8 = "8 word"
type_synonym u16 = "16 word"
type_synonym u32 = "32 word"
type_synonym u64 = "64 word"
type_synonym u128 = "128 word"
type_synonym uuid = "128 word"
type_synonym bytes = "u8 list"
type_synonym scalar = nat

text \<open>The identifiers of \<open>core/src/gossip/types.rs\<close>.\<close>

datatype WrappedPeerId = WrappedPeerId (peer_bytes: bytes)

datatype ClusterId = ClusterId (cluster_name: string)

instantiation WrappedPeerId :: linorder
begin

definition less_eq_WrappedPeerId :: "WrappedPeerId \<Rightarrow> WrappedPeerId \<Rightarrow> bool" where
  "less_eq_WrappedPeerId p q \<longleftrightarrow> peer_bytes p \<le> peer_bytes q"

definition less_WrappedPeerId :: "WrappedPeerId \<Rightarrow> WrappedPeerId \<Rightarrow> bool" where
  "less_WrappedPeerId p q \<longleftrightarrow> peer_bytes p < peer_bytes q"

instance
proof
  fix p q r :: WrappedPeerId
  show "(p < q) = (p \<le> q \<and> \<not> q \<le> p)"
    by (auto simp: less_eq_WrappedPeerId_def less_WrappedPeerId_def)
  show "p \<le> p"
    by (simp add: less_eq_WrappedPeerId_def)
  show "p \<le> q \<Longrightarrow> q \<le> r \<Longrightarrow> p \<le> r"
    by (auto simp: less_eq_WrappedPeerId_def)
  show "p \<le> q \<Longrightarrow> q \<le> p \<Longrightarrow> p = q"
    by (auto simp: less_eq_WrappedPeerId_def intro: WrappedPeerId.expand)
  show "p \<le> q \<or> q \<le> p"
    by (auto simp: less_eq_WrappedPeerId_def)
qed

end

text \<open>
  How a call ends. \<open>Result\<close> of Rust is \<open>Ok\<close>/\<open>Err\<close>. A call of an \<open>async fn\<close> either
  returns a value, panics (a failed \<open>assert!\<close>, an \<open>unwrap\<close> of \<open>None\<close>, an arithmetic
  overflow with overflow checks on), or waits for ever on a lock that will never be
  released.
\<close>

datatype ('a, 'e) Result = Ok 'a | Err 'e

datatype 'a call = Returns 'a | Panics | Blocks

fun bind_call :: "'a call \<Rightarrow> ('a \<Rightarrow> 'b call) \<Rightarrow> 'b call" where
  "bind_call (Returns x) f = f x"
| "bind_call Panics f = Panics"
| "bind_call Blocks f = Blocks"

fun is_ok :: "('a, 'e) Result \<Rightarrow> bool" where
  "is_ok (Ok _) = True"
| "is_ok (Err _) = False"

fun result_and :: "('a, 'e) Result \<Rightarrow> ('b, 'e) Result \<Rightarrow> ('b, 'e) Result" where
  "result_and (Ok _) r = r"
| "result_and (Err e) _ = Err e"

text \<open>
  Sequencing of fallible calls on a state \<open>'s\<close>: the question mark operator of Rust. The state
  reached so far is kept when a call returns early.
\<close>

fun and_then :: "('a, 'e) Result call \<times> 's \<Rightarrow> ('a \<Rightarrow> 's \<Rightarrow> ('b, 'e) Result call \<times> 's)
    \<Rightarrow> ('b, 'e) Result call \<times> 's" where
  "and_then (Returns (Ok x), s) f = f x s"
| "and_then (Returns (Err e), s) f = (Returns (Err e), s)"
| "and_then (Panics, s) f = (Panics, s)"
| "and_then (Blocks, s) f = (Blocks, s)"

text \<open>
  Unsigned arithmetic. With overflow checks (\<open>oc\<close>, the debug profile) an overflowing
  operation panics; without them (the release profile of \<open>Cargo.toml\<close>) it wraps.
\<close>

definition mul_u32 :: "bool \<Rightarrow> u32 \<Rightarrow> u32 \<Rightarrow> u32 call" where
  "mul_u32 oc a b = (if oc \<and> 2 ^ 32 \<le> unat a * unat b then Panics else Returns (a * b))"

definition sub_u64 :: "bool \<Rightarrow> u64 \<Rightarrow> u64 \<Rightarrow> u64 call" where
  "sub_u64 oc a b = (if oc \<and> a < b then Panics else Returns (a - b))"

text \<open>
  A channel: the messages accepted so far, oldest first, and whether the receiving half is
  still alive. \<open>send\<close> on a channel whose receiver was dropped returns an error and accepts
  nothing.
\<close>

record 'm channel =
  queued :: "'m list"
  receiver_alive :: bool

definition send :: "'m \<Rightarrow> 'm channel \<Rightarrow> 'm channel option" where
  "send m ch = (if receiver_alive ch then Some (ch\<lparr>queued := queued ch @ [m]\<rparr>) else None)"

text \<open>
  The iteration order of a Rust \<open>HashSet\<close> or \<open>HashMap\<close> is unspecified. Code that iterates
  over one takes the order as an argument \<open>iter\<close>; all that is known of it is that it lists
  each element once.
\<close>

locale hash_iteration =
  fixes iter :: "'a set \<Rightarrow> 'a list"
  assumes iter_set: "finite S \<Longrightarrow> set (iter S) = S"
    and iter_distinct: "finite S \<Longrightarrow> distinct (iter S)"
begin

lemma iter_empty: "iter {} = []"
  using iter_set [of "{}"] by simp

lemma iter_empty_iff: "finite S \<Longrightarrow> iter S = [] \<longleftrightarrow> S = {}"
  using iter_set [of S] by auto

lemma length_iter: "finite S \<Longrightarrow> length (iter S) = card S"
  using distinct_card [OF iter_distinct] iter_set by metis

lemma set_filter_iter: "finite S \<Longrightarrow> set (filter P (iter S)) = {x \<in> S. P x}"
  by (simp add: iter_set)

end

interpretation ascending: hash_iteration "sorted_list_of_set :: 'a::linorder set \<Rightarrow> 'a list"
  by unfold_locales simp_all

text \<open>Folding a state update over a list keeps what each update keeps.\<close>

locale preserved =
  fixes inv :: "'s \<Rightarrow> bool" and step :: "'e \<Rightarrow> 's \<Rightarrow> 's"
  assumes step_inv: "inv s \<Longrightarrow> inv (step e s)"
begin

lemma fold_inv: "inv s \<Longrightarrow> inv (fold step es s)"
  by (induction es arbitrary: s) (auto intro: step_inv)

end

lemma map_option_eq_None [simp]: "map_option f x = None \<longleftrightarrow> x = None"
  by (cases x) auto

lemma send_Some: "send m ch = Some ch' \<Longrightarrow> queued ch' = queued ch @ [m]"
  by (auto simp: send_def split: if_splits)

lemma mul_u32_one [simp]: "mul_u32 oc 1 1 = Returns 1"
  by (simp add: mul_u32_def)

lemma sub_u64_in_range: "b \<le> a \<Longrightarrow> sub_u64 oc a b = Returns (a - b)"
  by (auto simp: sub_u64_def)

lemma send_None [simp]: "send m ch = None \<longleftrightarrow> \<not> receiver_alive ch"
  by (simp add: send_def)

lemma and_then_elim:
  assumes "and_then m f = (res, s')"
  obtains (continues) x s where "m = (Returns (Ok x), s)" and "f x s = (res, s')"
    | (stops) "snd m = s'" and "\<And>x. fst m \<noteq> Returns (Ok x)" and "\<And>x. res \<noteq> Returns (Ok x)"
  using assms by (cases "(m, f)" rule: and_then.cases) auto

lemma outcome_cases [case_names ok err panics blocks]:
  obtains x where "r = Returns (Ok x)" | e where "r = Returns (Err e)" | "r = Panics" | "r = Blocks"
  by (cases r; metis Result.exhaust)

lemma and_then_unit: "snd (and_then m (\<lambda>_ s. (r, s))) = snd m"
  by (cases m; cases "fst m" rule: outcome_cases) auto

text \<open>
  A relation between the states before and after a call that is closed under sequencing. What
  every call of a handler respects, the handler respects.
\<close>

locale step_relation =
  fixes R :: "'s \<Rightarrow> 's \<Rightarrow> bool"
  assumes refl: "R s s" and trans: "R s t \<Longrightarrow> R t u \<Longrightarrow> R s u"
begin

lemma and_then_step:
  assumes "R s (snd m)" and "\<And>x t. R t (snd (f x t))"
  shows "R s (snd (and_then m f))"
  using assms by (cases "(m, f)" rule: and_then.cases) (auto intro: trans)

lemma and_then_step_ok:
  assumes "R s (snd m)" and "\<And>x. fst m = Returns (Ok x) \<Longrightarrow> R (snd m) (snd (f x (snd m)))"
  shows "R s (snd (and_then m f))"
  using assms by (cases "(m, f)" rule: and_then.cases) (auto intro: trans)

end

end
