(* ===== verification/Priority.thy ===== *)
theory Priority
  imports Prelude
begin

section \<open>Handshake priorities\<close>

text \<open>
  The model of \<open>core/src/state/priority.rs\<close>: the priorities the scheduler weighs orders
  by. A store maps clusters and orders to priorities; both have a default, and the
  effective priority of an order is the product of the two, a \<open>u32\<close> product.
\<close>

type_synonym OrderIdentifier = uuid

definition CLUSTER_DEFAULT_PRIORITY :: u32 where
  "CLUSTER_DEFAULT_PRIORITY = 1"

definition ORDER_DEFAULT_PRIORITY :: u32 where
  "ORDER_DEFAULT_PRIORITY = 1"

record OrderPriority =
  cluster_priority :: u32
  order_priority :: u32

definition OrderPriority_default :: OrderPriority where
  "OrderPriority_default =
     \<lparr>cluster_priority = CLUSTER_DEFAULT_PRIORITY, order_priority = ORDER_DEFAULT_PRIORITY\<rparr>"

definition get_effective_priority :: "bool \<Rightarrow> OrderPriority \<Rightarrow> u32 call" where
  "get_effective_priority oc p = mul_u32 oc (cluster_priority p) (order_priority p)"

record HandshakePriorityStore =
  cluster_priorities :: "ClusterId \<rightharpoonup> u32"
  order_priorities :: "OrderIdentifier \<rightharpoonup> OrderPriority"

definition HandshakePriorityStore_new :: HandshakePriorityStore where
  "HandshakePriorityStore_new = \<lparr>cluster_priorities = Map.empty, order_priorities = Map.empty\<rparr>"

definition read_order_priority :: "OrderIdentifier \<Rightarrow> HandshakePriorityStore \<Rightarrow> OrderPriority option" where
  "read_order_priority oid s = order_priorities s oid"

definition get_order_priority :: "OrderIdentifier \<Rightarrow> HandshakePriorityStore \<Rightarrow> OrderPriority" where
  "get_order_priority oid s =
     (case read_order_priority oid s of Some p \<Rightarrow> p | None \<Rightarrow> OrderPriority_default)"

definition get_cluster_priority :: "ClusterId \<Rightarrow> HandshakePriorityStore \<Rightarrow> u32" where
  "get_cluster_priority c s =
     (case cluster_priorities s c of Some p \<Rightarrow> p | None \<Rightarrow> CLUSTER_DEFAULT_PRIORITY)"

definition priority_new_order ::
  "OrderIdentifier \<Rightarrow> ClusterId \<Rightarrow> HandshakePriorityStore \<Rightarrow> HandshakePriorityStore" where
  "priority_new_order oid c s =
     s\<lparr>order_priorities := (order_priorities s)
        (oid \<mapsto> \<lparr>cluster_priority = get_cluster_priority c s,
                 order_priority = ORDER_DEFAULT_PRIORITY\<rparr>)\<rparr>"

definition priority_remove_order ::
  "OrderIdentifier \<Rightarrow> HandshakePriorityStore \<Rightarrow> HandshakePriorityStore" where
  "priority_remove_order oid s = s\<lparr>order_priorities := (order_priorities s)(oid := None)\<rparr>"

subsection \<open>The stores the relayer can build\<close>

text \<open>
  No operation writes the cluster priorities, so every store built by the operations holds
  default priorities only, and the product cannot overflow.
\<close>

definition default_priorities :: "HandshakePriorityStore \<Rightarrow> bool" where
  "default_priorities s \<longleftrightarrow>
     cluster_priorities s = Map.empty \<and> ran (order_priorities s) \<subseteq> {OrderPriority_default}"

lemma default_priorities_new [simp]: "default_priorities HandshakePriorityStore_new"
  by (simp add: default_priorities_def HandshakePriorityStore_new_def)

lemma default_priorities_new_order [simp]:
  "default_priorities s \<Longrightarrow> default_priorities (priority_new_order oid c s)"
  by (auto simp: default_priorities_def priority_new_order_def get_cluster_priority_def
      OrderPriority_default_def ran_def split: if_splits)

lemma default_priorities_remove_order [simp]:
  "default_priorities s \<Longrightarrow> default_priorities (priority_remove_order oid s)"
  by (auto simp: default_priorities_def priority_remove_order_def ran_def split: if_splits)

lemma get_order_priority_default:
  "default_priorities s \<Longrightarrow> get_order_priority oid s = OrderPriority_default"
  by (auto simp: default_priorities_def get_order_priority_def read_order_priority_def ran_def
      split: option.splits)

lemma effective_priority_default [simp]:
  "get_effective_priority oc OrderPriority_default = Returns 1"
  by (simp add: get_effective_priority_def OrderPriority_default_def
      CLUSTER_DEFAULT_PRIORITY_def ORDER_DEFAULT_PRIORITY_def)

end
