(* ===== verification/Orderbook.thy ===== *)
theory Orderbook
  imports Priority
begin

section \<open>The network order book\<close>

text \<open>
  The model of \<open>core/src/state/orderbook.rs\<close>. A \<open>NetworkOrder\<close> is a known order and its
  state; the \<open>NetworkOrderBook\<close> keeps all of them with three indices: the orders of each
  match nullifier, the orders managed locally and the orders in the \<open>Verified\<close> state.

  The locks around the entries are not part of the state: an operation is one function on
  the book, as it runs when nothing else holds a lock. The handle to the system bus is the
  log \<open>published\<close> of the publish calls. The proof bundle of \<open>VALID COMMITMENTS\<close> keeps its
  statement (\<open>circuits/src/zk_circuits/valid_commitments.rs\<close>); its commitment, proof and
  witness are opaque.
\<close>

record ValidCommitmentsStatement =
  nullifier :: scalar
  merkle_root :: scalar
  stmt_pk_settle :: scalar

record ValidCommitmentsBundle =
  commitment :: bytes
  statement :: ValidCommitmentsStatement
  proof_bytes :: bytes

type_synonym CommitmentsWitness = bytes

datatype NetworkOrderState =
    Received
  | Verified
  | Matched bool
  | Cancelled
  | Pruned

fun NetworkOrderState_fmt :: "NetworkOrderState \<Rightarrow> string" where
  "NetworkOrderState_fmt Received = ''Received''"
| "NetworkOrderState_fmt Verified = ''Verified''"
| "NetworkOrderState_fmt (Matched _) = ''Matched''"
| "NetworkOrderState_fmt Cancelled = ''Cancelled''"
| "NetworkOrderState_fmt Pruned = ''Pruned''"

text \<open>
  The messages of the system bus (\<open>core/src/types.rs\<close>). A price report's midpoint is kept
  as the bits of its \<open>f64\<close>.
\<close>

datatype Exchange = Binance | Coinbase | Kraken | Okx | UniswapV3

record PriceReport =
  base_token :: string
  quote_token :: string
  exchange :: "Exchange option"
  midpoint_price :: u64
  local_timestamp :: u128
  reported_timestamp :: "u128 option"

datatype SystemBusMessage =
    HandshakeInProgress OrderIdentifier OrderIdentifier
  | HandshakeCompleted OrderIdentifier OrderIdentifier
  | OrderStateChange OrderIdentifier NetworkOrderState NetworkOrderState
  | PriceReportMedian PriceReport
  | PriceReportExchange PriceReport

definition HANDSHAKE_STATUS_TOPIC :: string where
  "HANDSHAKE_STATUS_TOPIC = ''handshakes''"

definition ORDER_STATE_CHANGE_TOPIC :: string where
  "ORDER_STATE_CHANGE_TOPIC = ''order-state''"

type_synonym bus_log = "(string \<times> SystemBusMessage) list"

subsection \<open>An order\<close>

record NetworkOrder =
  order_id :: OrderIdentifier
  match_nullifier :: scalar
  order_local :: bool
  order_cluster :: ClusterId
  order_state :: NetworkOrderState
  valid_commit_proof :: "ValidCommitmentsBundle option"
  valid_commit_witness :: "CommitmentsWitness option"

definition NetworkOrder_new ::
  "OrderIdentifier \<Rightarrow> scalar \<Rightarrow> ClusterId \<Rightarrow> bool \<Rightarrow> NetworkOrder" where
  "NetworkOrder_new oid n c is_local =
     \<lparr>order_id = oid, match_nullifier = n, order_local = is_local, order_cluster = c,
      order_state = Received, valid_commit_proof = None, valid_commit_witness = None\<rparr>"

definition attach_commitment_proof :: "ValidCommitmentsBundle \<Rightarrow> NetworkOrder \<Rightarrow> NetworkOrder" where
  "attach_commitment_proof pf x =
     x\<lparr>order_state := Verified, match_nullifier := nullifier (statement pf),
       valid_commit_proof := Some pf\<rparr>"

definition order_transition_received :: "NetworkOrder \<Rightarrow> NetworkOrder" where
  "order_transition_received x = x\<lparr>order_state := Received\<rparr>"

definition order_transition_verified ::
  "ValidCommitmentsBundle \<Rightarrow> NetworkOrder \<Rightarrow> NetworkOrder call" where
  "order_transition_verified pf x =
     (if order_state x = Received then Returns (attach_commitment_proof pf x) else Panics)"

definition order_transition_matched :: "bool \<Rightarrow> NetworkOrder \<Rightarrow> NetworkOrder call" where
  "order_transition_matched by_local_node x =
     (if order_state x = Verified then Returns (x\<lparr>order_state := Matched by_local_node\<rparr>)
      else Panics)"

definition order_transition_cancelled :: "NetworkOrder \<Rightarrow> NetworkOrder" where
  "order_transition_cancelled x =
     x\<lparr>order_state := Cancelled, valid_commit_proof := None, valid_commit_witness := None\<rparr>"

definition order_transition_pruned :: "NetworkOrder \<Rightarrow> NetworkOrder" where
  "order_transition_pruned x =
     x\<lparr>order_state := Pruned, valid_commit_proof := None, valid_commit_witness := None\<rparr>"

lemmas order_transition_defs =
  attach_commitment_proof_def order_transition_received_def order_transition_verified_def
  order_transition_matched_def order_transition_cancelled_def order_transition_pruned_def

subsection \<open>The book and its getters\<close>

record NetworkOrderBook =
  order_map :: "OrderIdentifier \<rightharpoonup> NetworkOrder"
  orders_by_nullifier :: "scalar \<rightharpoonup> OrderIdentifier set"
  local_orders :: "OrderIdentifier set"
  verified_orders :: "OrderIdentifier set"
  published :: bus_log

definition NetworkOrderBook_new :: NetworkOrderBook where
  "NetworkOrderBook_new =
     \<lparr>order_map = Map.empty, orders_by_nullifier = Map.empty, local_orders = {},
      verified_orders = {}, published = []\<rparr>"

definition read_order :: "OrderIdentifier \<Rightarrow> NetworkOrderBook \<Rightarrow> NetworkOrder option" where
  "read_order oid b = order_map b oid"

definition read_nullifier_order_set ::
  "scalar \<Rightarrow> NetworkOrderBook \<Rightarrow> OrderIdentifier set option" where
  "read_nullifier_order_set n b = orders_by_nullifier b n"

definition contains_order :: "OrderIdentifier \<Rightarrow> NetworkOrderBook \<Rightarrow> bool" where
  "contains_order oid b \<longleftrightarrow> order_map b oid \<noteq> None"

definition get_order_info :: "OrderIdentifier \<Rightarrow> NetworkOrderBook \<Rightarrow> NetworkOrder option" where
  "get_order_info oid b = order_map b oid"

definition get_match_nullifier :: "OrderIdentifier \<Rightarrow> NetworkOrderBook \<Rightarrow> scalar option" where
  "get_match_nullifier oid b =
     (case read_order oid b of
        None \<Rightarrow> None
      | Some x \<Rightarrow> map_option (\<lambda>pf. nullifier (statement pf)) (valid_commit_proof x))"

definition get_orders_by_nullifier ::
  "(OrderIdentifier set \<Rightarrow> OrderIdentifier list) \<Rightarrow> scalar \<Rightarrow> NetworkOrderBook \<Rightarrow>
   OrderIdentifier list" where
  "get_orders_by_nullifier iter n b =
     (case read_nullifier_order_set n b of Some S \<Rightarrow> iter S | None \<Rightarrow> [])"

definition get_verified_orders ::
  "(OrderIdentifier set \<Rightarrow> OrderIdentifier list) \<Rightarrow> NetworkOrderBook \<Rightarrow> OrderIdentifier list" where
  "get_verified_orders iter b = iter (verified_orders b)"

definition has_validity_proof :: "OrderIdentifier \<Rightarrow> NetworkOrderBook \<Rightarrow> bool" where
  "has_validity_proof oid b =
     (case read_order oid b of Some x \<Rightarrow> valid_commit_proof x \<noteq> None | None \<Rightarrow> False)"

definition get_validity_proof ::
  "OrderIdentifier \<Rightarrow> NetworkOrderBook \<Rightarrow> ValidCommitmentsBundle option" where
  "get_validity_proof oid b =
     (case read_order oid b of Some x \<Rightarrow> valid_commit_proof x | None \<Rightarrow> None)"

definition has_validity_witness :: "OrderIdentifier \<Rightarrow> NetworkOrderBook \<Rightarrow> bool" where
  "has_validity_witness oid b =
     (case read_order oid b of Some x \<Rightarrow> valid_commit_witness x \<noteq> None | None \<Rightarrow> False)"

definition get_validity_proof_witness ::
  "OrderIdentifier \<Rightarrow> NetworkOrderBook \<Rightarrow> CommitmentsWitness option" where
  "get_validity_proof_witness oid b =
     (case read_order oid b of Some x \<Rightarrow> valid_commit_witness x | None \<Rightarrow> None)"

definition order_ready_for_handshake :: "OrderIdentifier \<Rightarrow> NetworkOrderBook \<Rightarrow> bool" where
  "order_ready_for_handshake oid b \<longleftrightarrow> has_validity_proof oid b \<and> has_validity_witness oid b"

definition get_local_scheduleable_orders ::
  "(OrderIdentifier set \<Rightarrow> OrderIdentifier list) \<Rightarrow> NetworkOrderBook \<Rightarrow> OrderIdentifier list" where
  "get_local_scheduleable_orders iter b =
     filter (\<lambda>oid. has_validity_witness oid b) (iter (verified_orders b \<inter> local_orders b))"

definition get_nonlocal_verified_orders ::
  "(OrderIdentifier set \<Rightarrow> OrderIdentifier list) \<Rightarrow> NetworkOrderBook \<Rightarrow> OrderIdentifier list" where
  "get_nonlocal_verified_orders iter b = iter (verified_orders b - local_orders b)"

definition get_order_owner_pairs ::
  "(OrderIdentifier set \<Rightarrow> OrderIdentifier list) \<Rightarrow> NetworkOrderBook \<Rightarrow>
   (OrderIdentifier \<times> ClusterId) list" where
  "get_order_owner_pairs iter b =
     map (\<lambda>oid. (oid, order_cluster (the (order_map b oid)))) (iter (dom (order_map b)))"

definition get_order_book_snapshot :: "NetworkOrderBook \<Rightarrow> (OrderIdentifier \<rightharpoonup> NetworkOrder)" where
  "get_order_book_snapshot b = order_map b"

subsection \<open>The setters\<close>

definition write_nullifier_insert ::
  "scalar \<Rightarrow> OrderIdentifier \<Rightarrow> NetworkOrderBook \<Rightarrow> NetworkOrderBook" where
  "write_nullifier_insert n oid b =
     b\<lparr>orders_by_nullifier := (orders_by_nullifier b)
        (n \<mapsto> insert oid (case orders_by_nullifier b n of Some S \<Rightarrow> S | None \<Rightarrow> {}))\<rparr>"

definition add_verified_order :: "OrderIdentifier \<Rightarrow> NetworkOrderBook \<Rightarrow> NetworkOrderBook" where
  "add_verified_order oid b =
     (if oid \<in> verified_orders b then b
      else b\<lparr>verified_orders := insert oid (verified_orders b)\<rparr>)"

definition remove_verified_order :: "OrderIdentifier \<Rightarrow> NetworkOrderBook \<Rightarrow> NetworkOrderBook" where
  "remove_verified_order oid b =
     (if oid \<in> verified_orders b then b\<lparr>verified_orders := verified_orders b - {oid}\<rparr> else b)"

definition add_order :: "NetworkOrder \<Rightarrow> NetworkOrderBook \<Rightarrow> NetworkOrderBook" where
  "add_order x b =
     (let b1 = (if order_local x then b\<lparr>local_orders := insert (order_id x) (local_orders b)\<rparr> else b);
          b2 = (if order_state x = Verified then add_verified_order (order_id x) b1 else b1);
          b3 = write_nullifier_insert (match_nullifier x) (order_id x) b2
      in b3\<lparr>order_map := (order_map b3)(order_id x \<mapsto> x)\<rparr>)"

definition update_order_validity_proof ::
  "OrderIdentifier \<Rightarrow> ValidCommitmentsBundle \<Rightarrow> NetworkOrderBook \<Rightarrow> NetworkOrderBook" where
  "update_order_validity_proof oid pf b =
     (let b1 = write_nullifier_insert (nullifier (statement pf)) oid b;
          b2 = (case order_map b1 oid of
                  Some x \<Rightarrow> b1\<lparr>order_map := (order_map b1)(oid \<mapsto> attach_commitment_proof pf x)\<rparr>
                | None \<Rightarrow> b1)
      in add_verified_order oid b2)"

definition attach_validity_proof_witness ::
  "OrderIdentifier \<Rightarrow> CommitmentsWitness \<Rightarrow> NetworkOrderBook \<Rightarrow> NetworkOrderBook" where
  "attach_validity_proof_witness oid w b =
     (case order_map b oid of
        Some x \<Rightarrow> b\<lparr>order_map := (order_map b)(oid \<mapsto> x\<lparr>valid_commit_witness := Some w\<rparr>)\<rparr>
      | None \<Rightarrow> b)"

text \<open>
  The state transitions. Each writes the order, updates the verified orders and publishes
  the change. \<open>transition_order_received\<close> builds the future of \<open>remove_verified_order\<close> but
  does not await it, so that call has no effect.
\<close>

definition put_order_state ::
  "OrderIdentifier \<Rightarrow> NetworkOrder \<Rightarrow> NetworkOrder \<Rightarrow> NetworkOrderBook \<Rightarrow> NetworkOrderBook" where
  "put_order_state oid x x' b =
     b\<lparr>order_map := (order_map b)(oid \<mapsto> x'),
       published := published b @
         [(ORDER_STATE_CHANGE_TOPIC, OrderStateChange oid (order_state x) (order_state x'))]\<rparr>"

definition book_transition_received :: "OrderIdentifier \<Rightarrow> NetworkOrderBook \<Rightarrow> NetworkOrderBook" where
  "book_transition_received oid b =
     (case order_map b oid of
        Some x \<Rightarrow> put_order_state oid x (order_transition_received x) b
      | None \<Rightarrow> b)"

definition book_transition_verified ::
  "OrderIdentifier \<Rightarrow> ValidCommitmentsBundle \<Rightarrow> NetworkOrderBook \<Rightarrow> NetworkOrderBook call" where
  "book_transition_verified oid pf b =
     (case order_map b oid of
        Some x \<Rightarrow> bind_call (order_transition_verified pf x)
                   (\<lambda>x'. Returns (put_order_state oid x x' (add_verified_order oid b)))
      | None \<Rightarrow> Returns b)"

definition book_transition_matched ::
  "OrderIdentifier \<Rightarrow> bool \<Rightarrow> NetworkOrderBook \<Rightarrow> NetworkOrderBook call" where
  "book_transition_matched oid by_local_node b =
     (case order_map b oid of
        Some x \<Rightarrow> bind_call (order_transition_matched by_local_node x)
                   (\<lambda>x'. Returns (put_order_state oid x x' (remove_verified_order oid b)))
      | None \<Rightarrow> Returns b)"

definition book_transition_cancelled :: "OrderIdentifier \<Rightarrow> NetworkOrderBook \<Rightarrow> NetworkOrderBook" where
  "book_transition_cancelled oid b =
     (case order_map b oid of
        Some x \<Rightarrow> put_order_state oid x (order_transition_cancelled x) (remove_verified_order oid b)
      | None \<Rightarrow> b)"

definition book_transition_pruned :: "OrderIdentifier \<Rightarrow> NetworkOrderBook \<Rightarrow> NetworkOrderBook" where
  "book_transition_pruned oid b =
     (case order_map b oid of
        Some x \<Rightarrow> put_order_state oid x (order_transition_pruned x) (remove_verified_order oid b)
      | None \<Rightarrow> b)"

subsection \<open>What the indices promise\<close>

text \<open>
  The invariants of the indices: an order is filed under its own identifier; it is found
  under its match nullifier; a local order is listed as local and a verified order as
  verified; and everything is finite.
\<close>

definition ids_agree :: "NetworkOrderBook \<Rightarrow> bool" where
  "ids_agree b \<longleftrightarrow> (\<forall>oid x. order_map b oid = Some x \<longrightarrow> order_id x = oid)"

definition nullifiers_indexed :: "NetworkOrderBook \<Rightarrow> bool" where
  "nullifiers_indexed b \<longleftrightarrow>
     (\<forall>oid x. order_map b oid = Some x \<longrightarrow>
        (\<exists>S. orders_by_nullifier b (match_nullifier x) = Some S \<and> oid \<in> S))"

definition locals_indexed :: "NetworkOrderBook \<Rightarrow> bool" where
  "locals_indexed b \<longleftrightarrow>
     (\<forall>oid x. order_map b oid = Some x \<longrightarrow> order_local x \<longrightarrow> oid \<in> local_orders b)"

definition verified_indexed :: "NetworkOrderBook \<Rightarrow> bool" where
  "verified_indexed b \<longleftrightarrow>
     (\<forall>oid x. order_map b oid = Some x \<longrightarrow> order_state x = Verified \<longrightarrow> oid \<in> verified_orders b)"

definition finite_book :: "NetworkOrderBook \<Rightarrow> bool" where
  "finite_book b \<longleftrightarrow>
     finite (dom (order_map b)) \<and> finite (local_orders b) \<and> finite (verified_orders b) \<and>
     (\<forall>n S. orders_by_nullifier b n = Some S \<longrightarrow> finite S)"

definition book_inv :: "NetworkOrderBook \<Rightarrow> bool" where
  "book_inv b \<longleftrightarrow> ids_agree b \<and> locals_indexed b \<and> verified_indexed b \<and> finite_book b"

lemmas index_defs =
  ids_agree_def nullifiers_indexed_def locals_indexed_def verified_indexed_def finite_book_def

text \<open>The effect of each setter on each field, in one bundle.\<close>

lemma add_order_fields:
  "order_map (add_order x b) = (order_map b)(order_id x \<mapsto> x)"
  "orders_by_nullifier (add_order x b) = (orders_by_nullifier b)
     (match_nullifier x \<mapsto> insert (order_id x)
        (case orders_by_nullifier b (match_nullifier x) of Some S \<Rightarrow> S | None \<Rightarrow> {}))"
  "local_orders (add_order x b) =
     (if order_local x then insert (order_id x) (local_orders b) else local_orders b)"
  "verified_orders (add_order x b) =
     (if order_state x = Verified then insert (order_id x) (verified_orders b) else verified_orders b)"
  "published (add_order x b) = published b"
  by (auto simp: add_order_def Let_def add_verified_order_def write_nullifier_insert_def)

lemma update_order_validity_proof_fields:
  "order_map (update_order_validity_proof oid pf b) =
     (case order_map b oid of
        Some x \<Rightarrow> (order_map b)(oid \<mapsto> attach_commitment_proof pf x)
      | None \<Rightarrow> order_map b)"
  "orders_by_nullifier (update_order_validity_proof oid pf b) = (orders_by_nullifier b)
     (nullifier (statement pf) \<mapsto> insert oid
        (case orders_by_nullifier b (nullifier (statement pf)) of Some S \<Rightarrow> S | None \<Rightarrow> {}))"
  "local_orders (update_order_validity_proof oid pf b) = local_orders b"
  "verified_orders (update_order_validity_proof oid pf b) = insert oid (verified_orders b)"
  "published (update_order_validity_proof oid pf b) = published b"
  by (auto simp: update_order_validity_proof_def Let_def add_verified_order_def
      write_nullifier_insert_def split: option.splits)

lemma put_order_state_fields:
  "order_map (put_order_state oid x x' b) = (order_map b)(oid \<mapsto> x')"
  "orders_by_nullifier (put_order_state oid x x' b) = orders_by_nullifier b"
  "local_orders (put_order_state oid x x' b) = local_orders b"
  "verified_orders (put_order_state oid x x' b) = verified_orders b"
  by (simp_all add: put_order_state_def)

lemma verified_order_fields:
  "order_map (add_verified_order oid b) = order_map b"
  "orders_by_nullifier (add_verified_order oid b) = orders_by_nullifier b"
  "local_orders (add_verified_order oid b) = local_orders b"
  "verified_orders (add_verified_order oid b) = insert oid (verified_orders b)"
  "order_map (remove_verified_order oid b) = order_map b"
  "orders_by_nullifier (remove_verified_order oid b) = orders_by_nullifier b"
  "local_orders (remove_verified_order oid b) = local_orders b"
  "verified_orders (remove_verified_order oid b) = verified_orders b - {oid}"
  by (auto simp: add_verified_order_def remove_verified_order_def)

lemmas book_fields =
  add_order_fields update_order_validity_proof_fields put_order_state_fields verified_order_fields

subsection \<open>Sequences of operations\<close>

text \<open>
  The operations of the book as data. An operation that panics leaves the book unchanged:
  its assertion is the first thing it does to the order. \<open>book_reachable A\<close> holds the
  books built from the empty one by operations in \<open>A\<close>.
\<close>

datatype book_op =
    AddOrder NetworkOrder
  | UpdateProof OrderIdentifier ValidCommitmentsBundle
  | AttachWitness OrderIdentifier CommitmentsWitness
  | ToReceived OrderIdentifier
  | ToVerified OrderIdentifier ValidCommitmentsBundle
  | ToMatched OrderIdentifier bool
  | ToCancelled OrderIdentifier
  | ToPruned OrderIdentifier

fun returned_or :: "'a \<Rightarrow> 'a call \<Rightarrow> 'a" where
  "returned_or d (Returns x) = x"
| "returned_or d _ = d"

fun book_step :: "book_op \<Rightarrow> NetworkOrderBook \<Rightarrow> NetworkOrderBook" where
  "book_step (AddOrder x) b = add_order x b"
| "book_step (UpdateProof oid pf) b = update_order_validity_proof oid pf b"
| "book_step (AttachWitness oid w) b = attach_validity_proof_witness oid w b"
| "book_step (ToReceived oid) b = book_transition_received oid b"
| "book_step (ToVerified oid pf) b = returned_or b (book_transition_verified oid pf b)"
| "book_step (ToMatched oid l) b = returned_or b (book_transition_matched oid l b)"
| "book_step (ToCancelled oid) b = book_transition_cancelled oid b"
| "book_step (ToPruned oid) b = book_transition_pruned oid b"

inductive book_reachable :: "book_op set \<Rightarrow> NetworkOrderBook \<Rightarrow> bool" for A where
  book_start: "book_reachable A NetworkOrderBook_new"
| book_next: "book_reachable A b \<Longrightarrow> oper \<in> A \<Longrightarrow> book_reachable A (book_step oper b)"

lemmas book_step_defs =
  attach_validity_proof_witness_def book_transition_received_def book_transition_verified_def
  book_transition_matched_def book_transition_cancelled_def book_transition_pruned_def

lemma book_inv_new [simp]: "book_inv NetworkOrderBook_new" "nullifiers_indexed NetworkOrderBook_new"
  by (simp_all add: book_inv_def index_defs NetworkOrderBook_new_def)

lemma ids_agree_step: "ids_agree b \<Longrightarrow> ids_agree (book_step oper b)"
  by (cases oper) (auto simp: ids_agree_def book_step_defs order_transition_defs book_fields
      split: option.splits if_splits)

lemma locals_indexed_step: "locals_indexed b \<Longrightarrow> locals_indexed (book_step oper b)"
  by (cases oper) (auto simp: locals_indexed_def book_step_defs order_transition_defs book_fields
      split: option.splits if_splits)

lemma verified_indexed_step: "verified_indexed b \<Longrightarrow> verified_indexed (book_step oper b)"
  by (cases oper) (auto simp: verified_indexed_def book_step_defs order_transition_defs book_fields
      split: option.splits if_splits)

lemma finite_book_step: "finite_book b \<Longrightarrow> finite_book (book_step oper b)"
  by (cases oper) (auto simp: finite_book_def book_step_defs order_transition_defs book_fields
      split: option.splits if_splits)

lemma nullifiers_indexed_step:
  "nullifiers_indexed b \<Longrightarrow> (\<And>oid pf. oper \<noteq> ToVerified oid pf) \<Longrightarrow>
   nullifiers_indexed (book_step oper b)"
  by (cases oper) (fastforce simp: nullifiers_indexed_def book_step_defs order_transition_defs book_fields
      split: option.splits if_splits)+

interpretation book: preserved book_inv book_step
  by unfold_locales
    (simp add: book_inv_def ids_agree_step locals_indexed_step verified_indexed_step finite_book_step)

lemma book_reachable_inv: "book_reachable A b \<Longrightarrow> book_inv b"
  by (induction rule: book_reachable.induct) (simp_all add: book.step_inv)

lemma book_reachable_nullifiers:
  assumes "book_reachable {oper. \<forall>oid pf. oper \<noteq> ToVerified oid pf} b"
  shows "nullifiers_indexed b"
  using assms by (induction rule: book_reachable.induct) (auto intro: nullifiers_indexed_step)

subsection \<open>When the verified index is exact\<close>

definition verified_exact :: "NetworkOrderBook \<Rightarrow> bool" where
  "verified_exact b \<longleftrightarrow>
     (\<forall>oid. oid \<in> verified_orders b \<longrightarrow>
        (\<exists>x. order_map b oid = Some x \<and> order_state x = Verified))"

fun keeps_verified :: "book_op \<Rightarrow> NetworkOrderBook \<Rightarrow> bool" where
  "keeps_verified (AddOrder x) b = (order_state x = Verified \<or> order_id x \<notin> verified_orders b)"
| "keeps_verified (UpdateProof oid pf) b = contains_order oid b"
| "keeps_verified (ToReceived oid) b = (oid \<notin> verified_orders b)"
| "keeps_verified _ b = True"

lemma verified_exactD:
  "verified_exact b \<Longrightarrow> oid \<in> verified_orders b \<Longrightarrow>
    \<exists>x. order_map b oid = Some x \<and> order_state x = Verified"
  unfolding verified_exact_def by blast

lemma verified_exact_received:
  assumes "verified_exact b"
  shows "verified_exact (book_transition_received oid b) \<longleftrightarrow> oid \<notin> verified_orders b"
proof (cases "order_map b oid")
  case None
  then show ?thesis
    using assms verified_exactD [OF assms, of oid] by (auto simp: book_transition_received_def)
next
  case (Some x)
  then have "verified_exact (book_transition_received oid b) \<longleftrightarrow>
    (\<forall>q. q \<in> verified_orders b \<longrightarrow> (\<exists>y. ((order_map b)(oid \<mapsto> x\<lparr>order_state := Received\<rparr>)) q = Some y
        \<and> order_state y = Verified))"
    by (simp add: verified_exact_def book_transition_received_def book_fields
        order_transition_received_def)
  then show ?thesis
    using verified_exactD [OF assms] by auto
qed

lemma verified_exact_update:
  assumes "verified_exact b"
  shows "verified_exact (update_order_validity_proof oid pf b) \<longleftrightarrow> contains_order oid b"
  using verified_exactD [OF assms]
  by (cases "order_map b oid")
    (auto simp: verified_exact_def book_fields contains_order_def attach_commitment_proof_def)

lemma verified_exact_add:
  assumes "verified_exact b"
  shows "verified_exact (add_order x b) \<longleftrightarrow>
    order_state x = Verified \<or> order_id x \<notin> verified_orders b"
  using verified_exactD [OF assms] by (auto simp: verified_exact_def book_fields)

lemma verified_exact_removed:
  assumes "verified_exact b"
  shows "verified_exact (put_order_state oid x x' (remove_verified_order oid b))"
  using verified_exactD [OF assms] by (auto simp: verified_exact_def book_fields)

lemma verified_exact_step:
  assumes "verified_exact b"
  shows "verified_exact (book_step oper b) \<longleftrightarrow> keeps_verified oper b"
proof (cases oper)
  case (AttachWitness oid w)
  then show ?thesis
    using assms
    by (fastforce simp: verified_exact_def attach_validity_proof_witness_def split: option.splits)
next
  case (ToVerified oid pf)
  then show ?thesis
    using verified_exactD [OF assms] assms
    by (auto simp: verified_exact_def book_transition_verified_def order_transition_verified_def
        attach_commitment_proof_def book_fields split: option.splits)
next
  case (ToMatched oid l)
  then show ?thesis
    using verified_exact_removed [OF assms] assms
    by (auto simp: book_transition_matched_def order_transition_matched_def split: option.splits)
next
  case (ToCancelled oid)
  then show ?thesis
    using verified_exact_removed [OF assms] assms
    by (auto simp: book_transition_cancelled_def split: option.splits)
next
  case (ToPruned oid)
  then show ?thesis
    using verified_exact_removed [OF assms] assms
    by (auto simp: book_transition_pruned_def split: option.splits)
qed (simp_all add: verified_exact_received verified_exact_update verified_exact_add assms)

definition example_order :: "OrderIdentifier \<Rightarrow> NetworkOrder" where
  "example_order oid = NetworkOrder_new oid 5 (ClusterId ''c'') True"

definition example_bundle :: ValidCommitmentsBundle where
  "example_bundle = \<lparr>commitment = [], statement = \<lparr>nullifier = 6, merkle_root = 1, stmt_pk_settle = 2\<rparr>,
     proof_bytes = []\<rparr>"

definition example_book :: NetworkOrderBook where
  "example_book = fold book_step
     [AddOrder (example_order 1), UpdateProof 1 example_bundle, AttachWitness 1 [7]]
     NetworkOrderBook_new"

lemmas example_book_defs =
  example_book_def example_order_def example_bundle_def NetworkOrder_new_def NetworkOrderBook_new_def

lemma example_book_fields:
  "order_map example_book = [1 \<mapsto> \<lparr>order_id = 1, match_nullifier = 6, order_local = True,
     order_cluster = ClusterId ''c'', order_state = Verified,
     valid_commit_proof = Some example_bundle, valid_commit_witness = Some [7]\<rparr>]"
  "verified_orders example_book = {1}" "local_orders example_book = {1}"
  "orders_by_nullifier example_book = [5 \<mapsto> {1}, 6 \<mapsto> {1}]"
  by (simp_all add: example_book_defs book_fields attach_validity_proof_witness_def
      attach_commitment_proof_def)

lemma example_book_reachable: "book_reachable UNIV example_book"
  unfolding example_book_def fold_simps id_apply by (intro book_reachable.intros UNIV_I)

lemma example_book_exact: "verified_exact example_book"
  by (simp add: verified_exact_def example_book_fields)

subsection \<open>Properties\<close>

text \<open>
  C12: in every order book that a sequence of operations of the interface can build, each
  order is filed under its own identifier, each local order is in the local index, and each
  order in the \<open>Verified\<close> state is in the verified index; all indices are finite.
\<close>

theorem book_indices_complete:
  assumes "book_reachable A b"
  shows "ids_agree b \<and> locals_indexed b \<and> verified_indexed b \<and> finite_book b"
  using book_reachable_inv [OF assms] by (simp add: book_inv_def)

theorem book_indices_complete_witness:
  "verified_indexed example_book \<and> verified_orders example_book = {1}"
  using book_indices_complete [OF example_book_reachable] by (simp add: example_book_fields)

text \<open>
  C13: exactly which operations keep the verified index exact (it lists only known orders in
  the \<open>Verified\<close> state). The exceptions are: adding again, in another state, an order that is
  listed; attaching a proof to an order that is not known; and sending a listed order back
  to \<open>Received\<close>, whose removal from the index is never awaited.
\<close>

theorem verified_index_exact_iff:
  assumes "verified_exact b"
  shows "verified_exact (book_step oper b) \<longleftrightarrow> keeps_verified oper b"
  by (rule verified_exact_step [OF assms])

theorem verified_index_exact_iff_witness:
  "\<not> verified_exact (book_transition_received 1 example_book)
   \<and> verified_exact (book_transition_cancelled 1 example_book)
   \<and> \<not> verified_exact (update_order_validity_proof 2 example_bundle example_book)"
  using verified_index_exact_iff [OF example_book_exact, of "ToReceived 1"]
    verified_index_exact_iff [OF example_book_exact, of "ToCancelled 1"]
    verified_index_exact_iff [OF example_book_exact, of "UpdateProof 2 example_bundle"]
  by (simp add: example_book_fields contains_order_def)

text \<open>
  An order that was matched, cancelled or pruned is not scheduled any more: it is in
  neither list from which handshakes are scheduled, for every iteration order of the sets.
  A transition to \<open>Matched\<close> panics exactly on a known order that is not \<open>Verified\<close>.
\<close>

theorem closed_orders_not_scheduled:
  assumes "hash_iteration iter" and "book_inv b" and "contains_order oid b"
  shows "oid \<notin> set (get_local_scheduleable_orders iter (book_transition_cancelled oid b))
    \<and> oid \<notin> set (get_nonlocal_verified_orders iter (book_transition_cancelled oid b))
    \<and> oid \<notin> set (get_local_scheduleable_orders iter (book_transition_pruned oid b))
    \<and> oid \<notin> set (get_nonlocal_verified_orders iter (book_transition_pruned oid b))
    \<and> (case book_transition_matched oid l b of
         Returns b' \<Rightarrow> oid \<notin> set (get_local_scheduleable_orders iter b')
           \<and> oid \<notin> set (get_nonlocal_verified_orders iter b')
       | Panics \<Rightarrow> order_state (the (order_map b oid)) \<noteq> Verified
       | Blocks \<Rightarrow> False)"
proof -
  obtain x where x: "order_map b oid = Some x"
    using assms(3) by (auto simp: contains_order_def)
  have fin: "finite (verified_orders b)" "finite (local_orders b)"
    using assms(2) by (simp_all add: book_inv_def finite_book_def)
  have closed: "oid \<notin> set (get_local_scheduleable_orders iter c)
      \<and> oid \<notin> set (get_nonlocal_verified_orders iter c)"
    if "verified_orders c = verified_orders b - {oid}" "local_orders c = local_orders b" for c
    using that fin
    by (simp add: get_local_scheduleable_orders_def get_nonlocal_verified_orders_def
        hash_iteration.iter_set [OF assms(1)])
  show ?thesis
    using closed x
    by (simp add: book_transition_cancelled_def book_transition_pruned_def
        book_transition_matched_def order_transition_matched_def book_fields)
qed

theorem closed_orders_not_scheduled_witness:
  "1 \<notin> set (get_local_scheduleable_orders sorted_list_of_set (book_transition_cancelled 1 example_book))
   \<and> 1 \<in> set (get_local_scheduleable_orders sorted_list_of_set example_book)"
  using closed_orders_not_scheduled [OF ascending.hash_iteration_axioms
      book_reachable_inv [OF example_book_reachable], of 1 True]
  by (simp add: contains_order_def example_book_fields get_local_scheduleable_orders_def
      has_validity_witness_def read_order_def)

end
