(* ===== verification/Scalars.thy ===== *)
theory Scalars
  imports Prelude
begin

section \<open>Scalars and their conversions\<close>

text \<open>
  The model of \<open>crypto/src/fields.rs\<close>. A dalek scalar is an integer modulo the group
  order, which the source fixes as the modulus of \<open>DalekRistrettoFieldConfig\<close>; it is held
  as its canonical representative, the number \<open>to_bytes\<close> encodes. An element of the
  arkworks field of the same modulus is the same number. The conversions from big integers
  go through byte arrays, as in the source: the little-endian magnitude, padded to 32 bytes
  and cut there, is reduced modulo the order, and the sign is applied at the end.

  The StarkNet field is that of the \<open>starknet\<close> crate: its modulus is an argument.
\<close>

definition field_modulus :: nat where
  "field_modulus =
     7237005577332262213973186563042994240857116359379907606001950938285454250989"

definition canonical :: "scalar \<Rightarrow> bool" where
  "canonical a \<longleftrightarrow> a < field_modulus"

lemma field_modulus_pos [simp]: "0 < field_modulus"
  by (simp add: field_modulus_def)

lemma field_modulus_bounds: "2 ^ 252 < field_modulus" "field_modulus < 2 ^ 253"
  by (simp_all add: field_modulus_def)

text \<open>The ring operations of \<open>Scalar\<close>.\<close>

definition scalar_add :: "scalar \<Rightarrow> scalar \<Rightarrow> scalar" where
  "scalar_add a b = (a + b) mod field_modulus"

definition scalar_neg :: "scalar \<Rightarrow> scalar" where
  "scalar_neg a = (field_modulus - a mod field_modulus) mod field_modulus"

definition scalar_mul :: "scalar \<Rightarrow> scalar \<Rightarrow> scalar" where
  "scalar_mul a b = (a * b) mod field_modulus"

definition scalar_of_u64 :: "u64 \<Rightarrow> scalar" where
  "scalar_of_u64 x = unat x"

subsection \<open>Bytes\<close>

fun le_value :: "nat list \<Rightarrow> nat" where
  "le_value [] = 0"
| "le_value (x # xs) = x + 256 * le_value xs"

fun digits_le :: "nat \<Rightarrow> nat list" where
  "digits_le n = (if n = 0 then [] else n mod 256 # digits_le (n div 256))"

declare digits_le.simps [simp del]

text \<open>\<open>BigInt::to_bytes_le\<close> on a magnitude: one zero byte for zero.\<close>

definition to_bytes_le :: "nat \<Rightarrow> nat list" where
  "to_bytes_le n = (if n = 0 then [0] else digits_le n)"

definition zero_pad_bytes :: "nat list \<Rightarrow> nat \<Rightarrow> nat list" where
  "zero_pad_bytes buf n = buf @ replicate (n - length buf) 0"

definition from_bytes_mod_order :: "nat list \<Rightarrow> scalar" where
  "from_bytes_mod_order bs = le_value bs mod field_modulus"

subsection \<open>Conversions\<close>

definition scalar_to_bigint :: "scalar \<Rightarrow> int" where
  "scalar_to_bigint a =
     (let bs = zero_pad_bytes (to_bytes_le a) 32; n = int (le_value bs)
      in if 128 \<le> last bs then n - 2 ^ 256 else n)"

definition scalar_to_biguint :: "scalar \<Rightarrow> nat" where
  "scalar_to_biguint a = le_value (zero_pad_bytes (to_bytes_le a) 32)"

definition bigint_to_scalar :: "int \<Rightarrow> scalar" where
  "bigint_to_scalar a =
     (let bs = to_bytes_le (nat \<bar>a\<bar>);
          padded = (if length bs < 32 then zero_pad_bytes bs 32 else bs);
          s = from_bytes_mod_order (take 32 padded)
      in if a < 0 then scalar_neg s else s)"

definition biguint_to_scalar :: "nat \<Rightarrow> scalar" where
  "biguint_to_scalar a = bigint_to_scalar (int a)"

definition scalar_to_prime_field :: "scalar \<Rightarrow> scalar" where
  "scalar_to_prime_field a = scalar_to_biguint a mod field_modulus"

definition biguint_to_prime_field :: "nat \<Rightarrow> scalar" where
  "biguint_to_prime_field a = scalar_to_prime_field (biguint_to_scalar a)"

definition prime_field_to_biguint :: "scalar \<Rightarrow> nat" where
  "prime_field_to_biguint e = e"

definition prime_field_to_bigint :: "scalar \<Rightarrow> int" where
  "prime_field_to_bigint e = int (prime_field_to_biguint e)"

definition prime_field_to_scalar :: "scalar \<Rightarrow> scalar" where
  "prime_field_to_scalar e = bigint_to_scalar (prime_field_to_bigint e)"

definition bigint_to_scalar_bits :: "nat \<Rightarrow> int \<Rightarrow> scalar list" where
  "bigint_to_scalar_bits D a = map (\<lambda>i. if bit a i then 1 else 0) [0..<D]"

text \<open>
  \<open>StarknetFieldElement::from_bytes_be\<close> fails on a value that is not below the StarkNet
  modulus \<open>p\<close>; the source unwraps the result.
\<close>

definition scalar_to_starknet_felt :: "nat \<Rightarrow> scalar \<Rightarrow> nat call" where
  "scalar_to_starknet_felt p a = (if scalar_to_biguint a < p then Returns (scalar_to_biguint a) else Panics)"

definition biguint_to_starknet_felt :: "nat \<Rightarrow> nat \<Rightarrow> nat call" where
  "biguint_to_starknet_felt p a = scalar_to_starknet_felt p (biguint_to_scalar a)"

definition starknet_felt_to_biguint :: "nat \<Rightarrow> nat" where
  "starknet_felt_to_biguint e = e"

definition starknet_felt_to_scalar :: "nat \<Rightarrow> scalar" where
  "starknet_felt_to_scalar e = e mod field_modulus"

definition starknet_felt_to_u64 :: "nat \<Rightarrow> u64" where
  "starknet_felt_to_u64 e = of_nat (e mod 2 ^ 64)"

subsection \<open>The byte routines compute residues\<close>

lemma le_value_append: "le_value (xs @ ys) = le_value xs + 256 ^ length xs * le_value ys"
  by (induction xs) (simp_all add: algebra_simps)

lemma le_value_zeros [simp]: "le_value (replicate n 0) = 0"
  by (induction n) simp_all

lemma le_value_digits: "le_value (digits_le n) = n"
proof (induction n rule: digits_le.induct)
  case (1 n)
  then show ?case
    by (subst digits_le.simps) (simp add: mult.commute)
qed

lemma digits_le_small: "x \<in> set (digits_le n) \<Longrightarrow> x < 256"
proof (induction n rule: digits_le.induct)
  case (1 n)
  then show ?case
    by (subst (asm) (2) digits_le.simps) (auto split: if_splits)
qed

lemma le_value_to_bytes [simp]: "le_value (to_bytes_le n) = n"
  by (simp add: to_bytes_le_def le_value_digits)

lemma to_bytes_small: "x \<in> set (to_bytes_le n) \<Longrightarrow> x < 256"
  by (auto simp: to_bytes_le_def dest: digits_le_small split: if_splits)

lemma le_value_bound: "(\<And>x. x \<in> set xs \<Longrightarrow> x < 256) \<Longrightarrow> le_value xs < 256 ^ length xs"
proof (induction xs)
  case Nil
  then show ?case by simp
next
  case (Cons x xs)
  have "x < 256" and "le_value xs < 256 ^ length xs"
    using Cons by auto
  then have "x + 256 * le_value xs < 256 + 256 * le_value xs"
    and "Suc (le_value xs) \<le> 256 ^ length xs"
    by simp_all
  then have "x + 256 * le_value xs < 256 * 256 ^ length xs"
    by (metis add.commute mult.commute mult_Suc_right mult_le_mono1 order_less_le_trans)
  then show ?case by simp
qed

lemma le_value_take:
  assumes "\<And>x. x \<in> set xs \<Longrightarrow> x < 256" and "k \<le> length xs"
  shows "le_value (take k xs) = le_value xs mod 256 ^ k"
proof -
  have "le_value (take k xs) < 256 ^ length (take k xs)"
    by (rule le_value_bound) (use assms(1) in_set_takeD in fastforce)
  moreover have "le_value xs = le_value (take k xs) + 256 ^ k * le_value (drop k xs)"
    using le_value_append [of "take k xs" "drop k xs"] assms(2) by (simp add: min_def)
  moreover have "length (take k xs) = k"
    using assms(2) by simp
  ultimately show ?thesis by simp
qed

lemma le_value_pad [simp]: "le_value (zero_pad_bytes bs n) = le_value bs"
  by (simp add: zero_pad_bytes_def le_value_append)

lemma scalar_to_biguint_id [simp]: "scalar_to_biguint a = a"
  by (simp add: scalar_to_biguint_def)

lemma pad_length: "length (zero_pad_bytes bs n) = max (length bs) n"
  by (simp add: zero_pad_bytes_def)

lemma pad_small: "(\<And>x. x \<in> set bs \<Longrightarrow> x < 256) \<Longrightarrow> x \<in> set (zero_pad_bytes bs n) \<Longrightarrow> x < 256"
  by (auto simp: zero_pad_bytes_def)

lemma cut_bytes:
  "le_value (take 32 (if length (to_bytes_le n) < 32 then zero_pad_bytes (to_bytes_le n) 32
      else to_bytes_le n)) = n mod 2 ^ 256"
proof -
  let ?bs = "if length (to_bytes_le n) < 32 then zero_pad_bytes (to_bytes_le n) 32 else to_bytes_le n"
  have "le_value (take 32 ?bs) = le_value ?bs mod 256 ^ 32"
    by (rule le_value_take)
      (auto simp: pad_length intro: to_bytes_small elim!: pad_small [rotated] split: if_splits)
  moreover have "(256 :: nat) ^ 32 = 2 ^ 256"
    by (simp add: power_mult [of 2 8 32, simplified])
  ultimately show ?thesis by (simp split: if_splits)
qed

lemma bigint_to_scalar_eq:
  "bigint_to_scalar a =
     (let s = (nat \<bar>a\<bar> mod 2 ^ 256) mod field_modulus in if a < 0 then scalar_neg s else s)"
  unfolding bigint_to_scalar_def from_bytes_mod_order_def Let_def cut_bytes by simp

lemma biguint_to_scalar_eq: "biguint_to_scalar a = (a mod 2 ^ 256) mod field_modulus"
  by (simp add: biguint_to_scalar_def bigint_to_scalar_eq Let_def)

lemma scalar_neg_int: "int (scalar_neg a) = (- int a) mod int field_modulus"
proof -
  let ?m = "int field_modulus"
  have "a mod field_modulus \<le> field_modulus"
    by (simp add: less_imp_le)
  then have "int (scalar_neg a) = (?m - int a mod ?m) mod ?m"
    by (simp add: scalar_neg_def of_nat_diff zmod_int)
  also have "\<dots> = (- int a) mod ?m"
    by (simp add: mod_minus_eq)
  finally show ?thesis .
qed

lemma bits_sum: "(\<Sum>i<D. 2 ^ i * int (bigint_to_scalar_bits D a ! i)) = a mod 2 ^ D"
proof -
  have "(\<Sum>i<D. 2 ^ i * int (bigint_to_scalar_bits D a ! i))
      = (\<Sum>i\<leftarrow>[0..<D]. of_bool (bit a i) * 2 ^ i)"
    by (simp add: bigint_to_scalar_bits_def sum_list_sum_nth atLeast0LessThan of_bool_def
        mult.commute if_distrib [of int] cong: if_cong)
  also have "\<dots> = horner_sum of_bool 2 (map (bit a) [0..<D])"
    by (simp add: horner_sum_eq_sum sum_list_sum_nth atLeast0LessThan mult.commute)
  also have "\<dots> = a mod 2 ^ D"
    by (simp add: horner_sum_bit_eq_take_bit take_bit_eq_mod)
  finally show ?thesis .
qed

lemma last_byte:
  assumes "\<And>x. x \<in> set xs \<Longrightarrow> x < 256" and "xs \<noteq> []"
  shows "256 ^ (length xs - 1) * last xs \<le> le_value xs"
  using le_value_append [of "butlast xs" "[last xs]"] assms(2)
  by (simp add: append_butlast_last_id)

lemma scalar_to_bigint_small:
  assumes "a < 2 ^ 253"
  shows "scalar_to_bigint a = int a"
proof -
  let ?bs = "zero_pad_bytes (to_bytes_le a) 32"
  have small: "x \<in> set ?bs \<Longrightarrow> x < 256" for x
    by (rule pad_small [OF to_bytes_small])
  have len: "32 \<le> length ?bs"
    by (simp add: pad_length)
  then have ne: "?bs \<noteq> []" by auto
  have "256 ^ (length ?bs - 1) * last ?bs \<le> a"
    using last_byte [OF small ne] by simp
  moreover have "(256 :: nat) ^ 31 * last ?bs \<le> 256 ^ (length ?bs - 1) * last ?bs"
    using len by (intro mult_le_mono1 power_increasing) auto
  ultimately have "256 ^ 31 * last ?bs < 2 ^ 253"
    using assms by linarith
  then have "last ?bs < 128" by simp
  then show ?thesis
    by (simp add: scalar_to_bigint_def Let_def)
qed

subsection \<open>Properties\<close>

text \<open>
  For every big integer of at most 256 bits, positive or negative, the byte routine
  \<open>bigint_to_scalar\<close> (little-endian magnitude, zero padding, cut at 32 bytes, reduction,
  negation) returns the residue of the integer modulo the group order, in canonical form.
\<close>

theorem bigint_to_scalar_residue:
  assumes "\<bar>a\<bar> < 2 ^ 256"
  shows "int (bigint_to_scalar a) = a mod int field_modulus \<and> canonical (bigint_to_scalar a)"
proof -
  define s where "s = nat \<bar>a\<bar> mod field_modulus"
  have "nat \<bar>a\<bar> < 2 ^ 256"
    using assms by (simp add: nat_less_iff)
  then have eq: "bigint_to_scalar a = (if a < 0 then scalar_neg s else s)"
    by (simp add: bigint_to_scalar_eq Let_def s_def)
  have s: "int s = \<bar>a\<bar> mod int field_modulus"
    by (simp add: s_def zmod_int)
  have "int (bigint_to_scalar a) = a mod int field_modulus"
    by (cases "a < 0") (simp_all add: eq s scalar_neg_int mod_minus_eq)
  moreover have "canonical (bigint_to_scalar a)"
    by (simp add: eq canonical_def s_def scalar_neg_def)
  ultimately show ?thesis by blast
qed

theorem bigint_to_scalar_residue_witness:
  "int (bigint_to_scalar (- 5)) = (- 5) mod int field_modulus \<and> canonical (bigint_to_scalar (- 5))"
  using bigint_to_scalar_residue [of "- 5"] by simp

text \<open>
  C34: converting a canonical scalar to a signed big integer, to an unsigned one or to an
  arkworks field element and back gives the scalar again; the signed conversion never
  yields a negative number, because the order is below \<open>2 ^ 255\<close>.
\<close>

theorem scalar_conversions_roundtrip:
  assumes "canonical a"
  shows "bigint_to_scalar (scalar_to_bigint a) = a \<and> 0 \<le> scalar_to_bigint a
    \<and> biguint_to_scalar (scalar_to_biguint a) = a
    \<and> prime_field_to_scalar (scalar_to_prime_field a) = a"
proof -
  have small: "a < 2 ^ 253"
    using assms field_modulus_bounds(2) by (simp add: canonical_def)
  have signed: "scalar_to_bigint a = int a"
    using small by (rule scalar_to_bigint_small)
  have "biguint_to_scalar a = a"
    using assms small by (simp add: biguint_to_scalar_eq canonical_def)
  then show ?thesis
    using assms signed
    by (simp add: biguint_to_scalar_def prime_field_to_scalar_def prime_field_to_bigint_def
        prime_field_to_biguint_def scalar_to_prime_field_def canonical_def)
qed

theorem scalar_conversions_roundtrip_witness:
  "canonical 77 \<and> bigint_to_scalar (scalar_to_bigint 77) = 77"
  using scalar_conversions_roundtrip [of 77] by (simp add: canonical_def field_modulus_def)

text \<open>
  \<open>bigint_to_scalar_bits\<close> is the little-endian binary expansion: the listed scalars are
  zero or one, there are exactly \<open>D\<close> of them, and weighted with powers of two they sum to
  the integer modulo \<open>2 ^ D\<close>, also for a negative integer (two's complement).
\<close>

theorem bigint_to_scalar_bits_value:
  "length (bigint_to_scalar_bits D a) = D \<and> set (bigint_to_scalar_bits D a) \<subseteq> {0, 1}
    \<and> (\<Sum>i<D. 2 ^ i * int (bigint_to_scalar_bits D a ! i)) = a mod 2 ^ D"
  by (simp add: bits_sum [symmetric]) (auto simp: bigint_to_scalar_bits_def)

end
