(* ===== verification/Circuit_Types.thy ===== *)
theory Circuit_Types
  imports Scalars
begin

section \<open>Native circuit types and commitments\<close>

text \<open>
  The native types of \<open>circuits/src/types\<close> (\<open>Order\<close>, \<open>Balance\<close>, \<open>Fee\<close>, \<open>KeyChain\<close>, \<open>Note\<close>,
  \<open>Wallet\<close>), the native half of \<open>circuits/src/zk_gadgets/fixed_point.rs\<close>, and
  \<open>native_helpers\<close> of \<open>circuits/src/lib.rs\<close>, which hash wallets and notes.

  A fixed point number \<open>z\<close> is the scalar \<open>z * 2 ^ 32\<close>. A finite binary float is the pair of
  an integer mantissa and a binary exponent, standing for \<open>m * 2 ^ e\<close>.

  The Poseidon sponge and \<open>scalar_to_u64\<close> come from other crates. They are the fields of
  \<open>sponge_env\<close>: \<open>squeeze\<close> maps the batches absorbed so far, in order, to the field element
  squeezed from the sponge. A batch of field elements and a batch of \<open>u64\<close> values are
  different things to the sponge.
\<close>

subsection \<open>Fixed point numbers\<close>

definition DEFAULT_PRECISION :: nat where
  "DEFAULT_PRECISION = 32"

definition TWO_TO_M :: nat where
  "TWO_TO_M = 2 ^ DEFAULT_PRECISION"

definition TWO_TO_M_SCALAR :: scalar where
  "TWO_TO_M_SCALAR = biguint_to_scalar TWO_TO_M"

datatype FixedPoint = FixedPoint (repr: scalar)

type_synonym float_val = "int \<times> int"

fun float_floor_shifted :: "float_val \<Rightarrow> nat \<Rightarrow> int" where
  "float_floor_shifted (m, e) k =
     (let e' = e + int k in if 0 \<le> e' then m * 2 ^ nat e' else m div 2 ^ nat (- e'))"

fun float_shifted_integral :: "float_val \<Rightarrow> nat \<Rightarrow> bool" where
  "float_shifted_integral (m, e) k =
     (let e' = e + int k in 0 \<le> e' \<or> m mod 2 ^ nat (- e') = 0)"

text \<open>A cast of a float to \<open>u64\<close> saturates.\<close>

definition saturate_u64 :: "int \<Rightarrow> u64" where
  "saturate_u64 x = of_nat (min (2 ^ 64 - 1) (nat x))"

definition from_integer :: "u64 \<Rightarrow> FixedPoint" where
  "from_integer val = FixedPoint (scalar_mul (scalar_of_u64 val) TWO_TO_M_SCALAR)"

definition from_f32_round_down :: "float_val \<Rightarrow> FixedPoint" where
  "from_f32_round_down val =
     FixedPoint (scalar_of_u64 (saturate_u64 (float_floor_shifted val DEFAULT_PRECISION)))"

definition FixedPoint_from_f32 :: "float_val \<Rightarrow> FixedPoint call" where
  "FixedPoint_from_f32 val =
     (if float_shifted_integral val DEFAULT_PRECISION
      then Returns (FixedPoint (scalar_of_u64 (saturate_u64 (float_floor_shifted val DEFAULT_PRECISION))))
      else Panics)"

definition FixedPoint_from_u64 :: "u64 \<Rightarrow> FixedPoint" where
  "FixedPoint_from_u64 val = FixedPoint (scalar_of_u64 val)"

definition fp_floor :: "FixedPoint \<Rightarrow> scalar" where
  "fp_floor a = bigint_to_scalar (drop_bit DEFAULT_PRECISION (scalar_to_bigint (repr a)))"

definition fp_add :: "FixedPoint \<Rightarrow> FixedPoint \<Rightarrow> FixedPoint" where
  "fp_add a b = FixedPoint (scalar_add (repr a) (repr b))"

definition fp_add_scalar :: "FixedPoint \<Rightarrow> scalar \<Rightarrow> FixedPoint" where
  "fp_add_scalar a s = FixedPoint (scalar_add (repr a) (scalar_mul TWO_TO_M_SCALAR s))"

definition fp_mul_scalar :: "FixedPoint \<Rightarrow> scalar \<Rightarrow> FixedPoint" where
  "fp_mul_scalar a s = FixedPoint (scalar_mul (repr a) s)"

definition fp_neg :: "FixedPoint \<Rightarrow> FixedPoint" where
  "fp_neg a = FixedPoint (scalar_neg (repr a))"

definition fp_sub :: "FixedPoint \<Rightarrow> FixedPoint \<Rightarrow> FixedPoint" where
  "fp_sub a b = fp_add a (fp_neg b)"

definition fp_sub_scalar :: "FixedPoint \<Rightarrow> scalar \<Rightarrow> FixedPoint" where
  "fp_sub_scalar a s = fp_add_scalar a (scalar_neg s)"

subsection \<open>Orders, balances, fees, keys, notes, wallets\<close>

datatype OrderSide = Buy | Sell

fun opposite :: "OrderSide \<Rightarrow> OrderSide" where
  "opposite Buy = Sell"
| "opposite Sell = Buy"

fun side_u64 :: "OrderSide \<Rightarrow> u64" where
  "side_u64 Buy = 0"
| "side_u64 Sell = 1"

definition side_of_u64 :: "u64 \<Rightarrow> OrderSide call" where
  "side_of_u64 v = (if v = 0 then Returns Buy else if v = 1 then Returns Sell else Panics)"

fun side_scalar :: "OrderSide \<Rightarrow> scalar" where
  "side_scalar Buy = 0"
| "side_scalar Sell = 1"

definition side_of_scalar :: "scalar \<Rightarrow> OrderSide call" where
  "side_of_scalar v = (if v = 0 then Returns Buy else if v = 1 then Returns Sell else Panics)"

record Order =
  quote_mint :: nat
  base_mint :: nat
  side :: OrderSide
  price :: FixedPoint
  amount :: u64
  timestamp :: u64

definition Order_default :: Order where
  "Order_default = \<lparr>quote_mint = 0, base_mint = 0, side = Buy, price = FixedPoint 0,
     amount = 0, timestamp = 0\<rparr>"

fun Order_try_from :: "u64 list \<Rightarrow> (Order, nat) Result" where
  "Order_try_from vs =
     (if length vs \<noteq> 6 then Err (length vs)
      else if \<not> (vs ! 2 = 0 \<or> vs ! 2 = 1) then Err (unat (vs ! 2))
      else Ok \<lparr>quote_mint = unat (vs ! 0), base_mint = unat (vs ! 1),
             side = (if vs ! 2 = 0 then Buy else Sell), price = FixedPoint (scalar_of_u64 (vs ! 3)),
             amount = vs ! 4, timestamp = vs ! 5\<rparr>)"

record Balance =
  balance_mint :: nat
  balance_amount :: u64

definition Balance_default :: Balance where
  "Balance_default = \<lparr>balance_mint = 0, balance_amount = 0\<rparr>"

record Fee =
  settle_key :: nat
  gas_addr :: nat
  gas_token_amount :: u64
  percentage_fee :: FixedPoint

definition Fee_default :: Fee where
  "Fee_default = \<lparr>settle_key = 0, gas_addr = 0, gas_token_amount = 0,
     percentage_fee = FixedPoint 0\<rparr>"

fun Fee_try_from :: "u64 list \<Rightarrow> (Fee, nat) Result" where
  "Fee_try_from vs =
     (if length vs \<noteq> 4 then Err (length vs)
      else Ok \<lparr>settle_key = unat (vs ! 0), gas_addr = unat (vs ! 1), gas_token_amount = vs ! 2,
             percentage_fee = FixedPoint (scalar_of_u64 (vs ! 3))\<rparr>)"

record KeyChain =
  pk_root :: scalar
  pk_match :: scalar
  pk_settle :: scalar
  pk_view :: scalar

definition NUM_KEYS :: nat where
  "NUM_KEYS = 4"

fun KeyChain_try_from :: "scalar list \<Rightarrow> (KeyChain, nat) Result" where
  "KeyChain_try_from vs =
     (if length vs \<noteq> NUM_KEYS then Err (length vs)
      else Ok \<lparr>pk_root = vs ! 0, pk_match = vs ! 1, pk_settle = vs ! 2, pk_view = vs ! 3\<rparr>)"

definition KeyChain_to_vec :: "KeyChain \<Rightarrow> scalar list" where
  "KeyChain_to_vec k = [pk_root k, pk_match k, pk_settle k, pk_view k]"

text \<open>The sequence a key chain is serialized to, and its visitor.\<close>

definition KeyChain_serialize :: "KeyChain \<Rightarrow> nat list" where
  "KeyChain_serialize k =
     [scalar_to_biguint (pk_root k), scalar_to_biguint (pk_match k),
      scalar_to_biguint (pk_settle k), scalar_to_biguint (pk_view k)]"

fun KeyChain_visit_seq :: "nat list \<Rightarrow> (KeyChain, string) Result" where
  "KeyChain_visit_seq [] = Err ''pk_root not found in serialized value''"
| "KeyChain_visit_seq [_] = Err ''pk_match not found in serialized value''"
| "KeyChain_visit_seq [_, _] = Err ''pk_settle not found in serialized value''"
| "KeyChain_visit_seq [_, _, _] = Err ''pk_view not found in serialized value''"
| "KeyChain_visit_seq (r # m # s # v # _) =
     Ok \<lparr>pk_root = biguint_to_scalar r, pk_match = biguint_to_scalar m,
         pk_settle = biguint_to_scalar s, pk_view = biguint_to_scalar v\<rparr>"

datatype NoteType = InternalTransfer | MatchNote

fun note_type_u64 :: "NoteType \<Rightarrow> u64" where
  "note_type_u64 InternalTransfer = 0"
| "note_type_u64 MatchNote = 1"

record Note =
  mint1 :: nat
  volume1 :: u64
  direction1 :: OrderSide
  mint2 :: nat
  volume2 :: u64
  direction2 :: OrderSide
  fee_mint :: nat
  fee_volume :: u64
  fee_direction :: OrderSide
  note_type :: NoteType
  note_randomness :: nat

record CircuitWallet =
  circuit_balances :: "Balance list"
  circuit_orders :: "Order list"
  circuit_fees :: "Fee list"
  circuit_keys :: KeyChain
  circuit_randomness :: scalar

subsection \<open>Hashing\<close>

datatype absorbed = Felts "scalar list" | U64s "u64 list"

record sponge_env =
  squeeze :: "absorbed list \<Rightarrow> scalar"
  scalar_to_u64 :: "scalar \<Rightarrow> u64"

definition compute_poseidon_hash :: "sponge_env \<Rightarrow> scalar list \<Rightarrow> scalar" where
  "compute_poseidon_hash env vals =
     prime_field_to_scalar (squeeze env [Felts (map scalar_to_prime_field vals)])"

definition absorb_balance :: "Balance \<Rightarrow> absorbed list" where
  "absorb_balance b = [Felts [biguint_to_prime_field (balance_mint b)], U64s [balance_amount b]]"

definition absorb_order :: "sponge_env \<Rightarrow> Order \<Rightarrow> absorbed list" where
  "absorb_order env ord =
     [Felts [biguint_to_prime_field (quote_mint ord), biguint_to_prime_field (base_mint ord)],
      U64s [side_u64 (side ord), scalar_to_u64 env (repr (price ord)), amount ord]]"

definition absorb_fee :: "sponge_env \<Rightarrow> Fee \<Rightarrow> absorbed list" where
  "absorb_fee env f =
     [Felts [biguint_to_prime_field (settle_key f), biguint_to_prime_field (gas_addr f)],
      U64s [gas_token_amount f, scalar_to_u64 env (repr (percentage_fee f))]]"

definition wallet_preimage :: "sponge_env \<Rightarrow> CircuitWallet \<Rightarrow> absorbed list" where
  "wallet_preimage env w =
     concat (map absorb_balance (circuit_balances w))
     @ concat (map (absorb_order env) (circuit_orders w))
     @ concat (map (absorb_fee env) (circuit_fees w))
     @ [Felts (map scalar_to_prime_field (KeyChain_to_vec (circuit_keys w))),
        Felts [scalar_to_prime_field (circuit_randomness w)]]"

definition compute_wallet_commitment :: "sponge_env \<Rightarrow> CircuitWallet \<Rightarrow> scalar" where
  "compute_wallet_commitment env w = squeeze env (wallet_preimage env w)"

definition note_preimage :: "Note \<Rightarrow> scalar \<Rightarrow> absorbed list" where
  "note_preimage n pk =
     [Felts [biguint_to_prime_field (mint1 n)], U64s [volume1 n, side_u64 (direction1 n)],
      Felts [biguint_to_prime_field (mint2 n)], U64s [volume2 n, side_u64 (direction2 n)],
      Felts [biguint_to_prime_field (fee_mint n)],
      U64s [fee_volume n, side_u64 (fee_direction n), note_type_u64 (note_type n)],
      Felts [biguint_to_prime_field (note_randomness n)], Felts [scalar_to_prime_field pk]]"

definition compute_note_commitment :: "sponge_env \<Rightarrow> Note \<Rightarrow> scalar \<Rightarrow> scalar" where
  "compute_note_commitment env n pk_settle_receiver = squeeze env (note_preimage n pk_settle_receiver)"

definition compute_wallet_spend_nullifier :: "sponge_env \<Rightarrow> CircuitWallet \<Rightarrow> scalar \<Rightarrow> scalar" where
  "compute_wallet_spend_nullifier env w c =
     squeeze env [Felts [c, scalar_to_prime_field (circuit_randomness w)]]"

definition compute_wallet_match_nullifier :: "sponge_env \<Rightarrow> CircuitWallet \<Rightarrow> scalar \<Rightarrow> scalar" where
  "compute_wallet_match_nullifier env w c =
     squeeze env [Felts [c, scalar_to_prime_field (scalar_add (circuit_randomness w) 1)]]"

definition compute_note_redeem_nullifier :: "sponge_env \<Rightarrow> scalar \<Rightarrow> scalar \<Rightarrow> scalar" where
  "compute_note_redeem_nullifier env note_commitment pk_settle_receiver =
     squeeze env [Felts [note_commitment, pk_settle_receiver]]"

subsection \<open>Fixed point arithmetic without wrap-around\<close>

lemma two_to_m_scalar [simp]: "TWO_TO_M_SCALAR = 2 ^ 32"
  by (simp add: TWO_TO_M_SCALAR_def TWO_TO_M_def DEFAULT_PRECISION_def biguint_to_scalar_eq
      field_modulus_def)

lemma biguint_to_prime_field_small [simp]:
  "a < field_modulus \<Longrightarrow> biguint_to_prime_field a = a"
  using field_modulus_bounds(2)
  by (simp add: biguint_to_prime_field_def scalar_to_prime_field_def biguint_to_scalar_eq)

lemma scalar_to_prime_field_canonical [simp]: "canonical a \<Longrightarrow> scalar_to_prime_field a = a"
  by (simp add: scalar_to_prime_field_def canonical_def)

lemma fp_floor_eq:
  assumes "canonical (repr a)"
  shows "fp_floor a = repr a div 2 ^ 32"
proof -
  have small: "repr a < 2 ^ 253"
    using assms field_modulus_bounds(2) by (simp add: canonical_def)
  have shift: "drop_bit 32 (int (repr a)) = int (repr a div 2 ^ 32)"
    by (simp add: drop_bit_eq_div zdiv_int)
  have le: "repr a div 2 ^ 32 \<le> repr a"
    by (rule div_le_dividend)
  have lt: "repr a div 2 ^ 32 < 2 ^ 256"
    using le small by (rule le_less_trans [OF _ less_trans]) simp
  have can: "repr a div 2 ^ 32 < field_modulus"
    using le assms by (simp add: canonical_def)
  show ?thesis
    unfolding fp_floor_def scalar_to_bigint_small [OF small] DEFAULT_PRECISION_def shift
    using lt can by (simp add: bigint_to_scalar_eq Let_def)
qed

lemma fp_mul_floor:
  assumes "repr p * v < field_modulus"
  shows "fp_floor (fp_mul_scalar p v) = repr p * v div 2 ^ 32"
  using assms by (subst fp_floor_eq) (simp_all add: fp_mul_scalar_def scalar_mul_def canonical_def)

lemma u64_product_small: "a < 2 ^ 64 \<Longrightarrow> a * unat (v :: u64) < field_modulus"
proof -
  assume "a < 2 ^ 64"
  moreover have "unat v < 2 ^ LENGTH(64)"
    by (rule unsigned_less)
  ultimately have "a * unat v < 2 ^ 64 * 2 ^ 64"
    by (intro mult_strict_mono) simp_all
  also have "(2 :: nat) ^ 64 * 2 ^ 64 \<le> 2 ^ 252" by simp
  finally show ?thesis
    using field_modulus_bounds(1) by linarith
qed

subsection \<open>What the hash inputs determine\<close>

lemma blocks_inject:
  assumes "\<And>x. length (f x) = k" and "length xs = length ys"
  shows "concat (map f xs) @ r = concat (map f ys) @ s \<longleftrightarrow> map f xs = map f ys \<and> r = s"
  using assms(2)
proof (induction xs ys rule: list_induct2)
  case Nil
  then show ?case by simp
next
  case (Cons x xs y ys)
  have "length (f x) = length (f y)"
    using assms(1) by simp
  then show ?case
    using Cons.IH by (auto simp: append_eq_append_conv)
qed

definition small_mints :: "CircuitWallet \<Rightarrow> bool" where
  "small_mints w \<longleftrightarrow>
     (\<forall>b\<in>set (circuit_balances w). balance_mint b < field_modulus)
     \<and> (\<forall>ord\<in>set (circuit_orders w). quote_mint ord < field_modulus \<and> base_mint ord < field_modulus)
     \<and> (\<forall>f\<in>set (circuit_fees w). settle_key f < field_modulus \<and> gas_addr f < field_modulus)
     \<and> (\<forall>k\<in>set (KeyChain_to_vec (circuit_keys w)). canonical k) \<and> canonical (circuit_randomness w)"

text \<open>The part of an order and of a fee that enters the commitment.\<close>

definition order_view :: "sponge_env \<Rightarrow> Order \<Rightarrow> nat \<times> nat \<times> OrderSide \<times> u64 \<times> u64" where
  "order_view env ord = (quote_mint ord, base_mint ord, side ord,
     scalar_to_u64 env (repr (price ord)), amount ord)"

definition fee_view :: "sponge_env \<Rightarrow> Fee \<Rightarrow> nat \<times> nat \<times> u64 \<times> u64" where
  "fee_view env f = (settle_key f, gas_addr f, gas_token_amount f,
     scalar_to_u64 env (repr (percentage_fee f)))"

lemma side_u64_inject [simp]: "side_u64 a = side_u64 b \<longleftrightarrow> a = b"
  by (cases a; cases b) simp_all

lemma note_type_u64_inject [simp]: "note_type_u64 a = note_type_u64 b \<longleftrightarrow> a = b"
  by (cases a; cases b) simp_all

lemma map_eq_views:
  assumes "length xs = length ys"
    and "\<And>x y. x \<in> set xs \<Longrightarrow> y \<in> set ys \<Longrightarrow> f x = f y \<longleftrightarrow> g x = g y"
  shows "map f xs = map f ys \<longleftrightarrow> map g xs = map g ys"
  using assms by (induction xs ys rule: list_induct2) auto

lemma balance_view:
  "balance_mint b < field_modulus \<Longrightarrow> balance_mint c < field_modulus \<Longrightarrow>
    absorb_balance b = absorb_balance c \<longleftrightarrow> b = c"
  by (auto simp: absorb_balance_def)

lemma order_view_absorb:
  "quote_mint a < field_modulus \<Longrightarrow> base_mint a < field_modulus \<Longrightarrow>
    quote_mint b < field_modulus \<Longrightarrow> base_mint b < field_modulus \<Longrightarrow>
    absorb_order env a = absorb_order env b \<longleftrightarrow> order_view env a = order_view env b"
  by (auto simp: absorb_order_def order_view_def)

lemma fee_view_absorb:
  "settle_key a < field_modulus \<Longrightarrow> gas_addr a < field_modulus \<Longrightarrow>
    settle_key b < field_modulus \<Longrightarrow> gas_addr b < field_modulus \<Longrightarrow>
    absorb_fee env a = absorb_fee env b \<longleftrightarrow> fee_view env a = fee_view env b"
  by (auto simp: absorb_fee_def fee_view_def)

lemma absorb_lengths [simp]:
  "length (absorb_balance b) = 2" "length (absorb_order env ord) = 2" "length (absorb_fee env f) = 2"
  by (simp_all add: absorb_balance_def absorb_order_def absorb_fee_def)

lemma keychain_vec_inject: "KeyChain_to_vec k = KeyChain_to_vec l \<longleftrightarrow> k = l"
  by (auto simp: KeyChain_to_vec_def)

lemma wallet_preimage_parts:
  assumes "length (circuit_balances v) = length (circuit_balances w)"
    and "length (circuit_orders v) = length (circuit_orders w)"
    and "length (circuit_fees v) = length (circuit_fees w)"
  shows "wallet_preimage env v = wallet_preimage env w \<longleftrightarrow>
    map absorb_balance (circuit_balances v) = map absorb_balance (circuit_balances w)
    \<and> map (absorb_order env) (circuit_orders v) = map (absorb_order env) (circuit_orders w)
    \<and> map (absorb_fee env) (circuit_fees v) = map (absorb_fee env) (circuit_fees w)
    \<and> map scalar_to_prime_field (KeyChain_to_vec (circuit_keys v))
        = map scalar_to_prime_field (KeyChain_to_vec (circuit_keys w))
    \<and> scalar_to_prime_field (circuit_randomness v) = scalar_to_prime_field (circuit_randomness w)"
  unfolding wallet_preimage_def
  by (simp only: blocks_inject [where k = 2, OF absorb_lengths(1) assms(1)]
      blocks_inject [where k = 2, OF absorb_lengths(2) assms(2)]
      blocks_inject [where k = 2, OF absorb_lengths(3) assms(3)]) simp

lemma balances_preimage:
  assumes "small_mints v" and "small_mints w"
    and "length (circuit_balances v) = length (circuit_balances w)"
  shows "map absorb_balance (circuit_balances v) = map absorb_balance (circuit_balances w)
    \<longleftrightarrow> circuit_balances v = circuit_balances w"
proof -
  have "map absorb_balance (circuit_balances v) = map absorb_balance (circuit_balances w)
    \<longleftrightarrow> map id (circuit_balances v) = map id (circuit_balances w)"
    using assms by (intro map_eq_views) (auto simp: small_mints_def balance_view)
  then show ?thesis by simp
qed

lemma orders_preimage:
  assumes "small_mints v" and "small_mints w"
    and "length (circuit_orders v) = length (circuit_orders w)"
  shows "map (absorb_order env) (circuit_orders v) = map (absorb_order env) (circuit_orders w)
    \<longleftrightarrow> map (order_view env) (circuit_orders v) = map (order_view env) (circuit_orders w)"
  using assms by (intro map_eq_views) (simp_all add: small_mints_def order_view_absorb)

lemma fees_preimage:
  assumes "small_mints v" and "small_mints w"
    and "length (circuit_fees v) = length (circuit_fees w)"
  shows "map (absorb_fee env) (circuit_fees v) = map (absorb_fee env) (circuit_fees w)
    \<longleftrightarrow> map (fee_view env) (circuit_fees v) = map (fee_view env) (circuit_fees w)"
  using assms by (intro map_eq_views) (simp_all add: small_mints_def fee_view_absorb)

lemma map_prime_field_canonical:
  "\<forall>k\<in>set xs. canonical k \<Longrightarrow> map scalar_to_prime_field xs = xs"
  by (induction xs) simp_all

subsection \<open>Properties\<close>

text \<open>
  What a wallet commitment binds. For two wallets of the same sizes whose mints and keys
  are field elements, the hash inputs agree if and only if the balances, keys and randomness
  agree, the fees agree up to the 64-bit reading of the percentage, and the orders agree up
  to their timestamp and the 64-bit reading of their price.
\<close>

theorem wallet_preimage_binds:
  assumes "small_mints v" and "small_mints w"
    and "length (circuit_balances v) = length (circuit_balances w)"
    and "length (circuit_orders v) = length (circuit_orders w)"
    and "length (circuit_fees v) = length (circuit_fees w)"
  shows "wallet_preimage env v = wallet_preimage env w \<longleftrightarrow>
    circuit_balances v = circuit_balances w
    \<and> map (order_view env) (circuit_orders v) = map (order_view env) (circuit_orders w)
    \<and> map (fee_view env) (circuit_fees v) = map (fee_view env) (circuit_fees w)
    \<and> circuit_keys v = circuit_keys w \<and> circuit_randomness v = circuit_randomness w"
proof -
  have "map scalar_to_prime_field (KeyChain_to_vec (circuit_keys v))
      = map scalar_to_prime_field (KeyChain_to_vec (circuit_keys w))
    \<longleftrightarrow> circuit_keys v = circuit_keys w"
    using assms(1,2) unfolding small_mints_def
    by (metis keychain_vec_inject map_prime_field_canonical)
  moreover have "scalar_to_prime_field (circuit_randomness v) = circuit_randomness v"
    "scalar_to_prime_field (circuit_randomness w) = circuit_randomness w"
    using assms(1,2) by (simp_all add: small_mints_def)
  ultimately show ?thesis
    using wallet_preimage_parts [OF assms(3-5)] balances_preimage [OF assms(1-3)]
      orders_preimage [OF assms(1,2,4)] fees_preimage [OF assms(1,2,5)] by simp
qed

definition low_env :: sponge_env where
  "low_env = \<lparr>squeeze = length, scalar_to_u64 = of_nat\<rparr>"

definition example_wallet :: "FixedPoint \<Rightarrow> CircuitWallet" where
  "example_wallet p = \<lparr>circuit_balances = [Balance_default],
     circuit_orders = [Order_default\<lparr>price := p, amount := 5\<rparr>], circuit_fees = [Fee_default],
     circuit_keys = \<lparr>pk_root = 1, pk_match = 2, pk_settle = 3, pk_view = 4\<rparr>,
     circuit_randomness = 9\<rparr>"

lemma example_wallet_small: "small_mints (example_wallet p)"
  by (simp add: small_mints_def example_wallet_def Balance_default_def Order_default_def
      Fee_default_def KeyChain_to_vec_def canonical_def field_modulus_def)

theorem wallet_preimage_binds_witness:
  "wallet_preimage low_env (example_wallet (FixedPoint 0))
     = wallet_preimage low_env (example_wallet (from_integer (2 ^ 32)))
   \<and> wallet_preimage low_env (example_wallet (FixedPoint 0))
     \<noteq> wallet_preimage low_env (example_wallet (FixedPoint 1))"
  using wallet_preimage_binds [OF example_wallet_small example_wallet_small, where env = low_env]
  by (simp add: example_wallet_def order_view_def low_env_def from_integer_def scalar_mul_def
      scalar_of_u64_def field_modulus_def)

text \<open>
  A note commitment binds every field of the note and the receiver's key: when the mints
  and the randomness are field elements, equal hash inputs come from equal notes.
\<close>

theorem note_preimage_binds:
  assumes "mint1 n < field_modulus" "mint2 n < field_modulus" "fee_mint n < field_modulus"
    "note_randomness n < field_modulus" "canonical pk"
    and "mint1 m < field_modulus" "mint2 m < field_modulus" "fee_mint m < field_modulus"
    "note_randomness m < field_modulus" "canonical pk'"
    and "note_preimage n pk = note_preimage m pk'"
  shows "n = m \<and> pk = pk'"
  using assms by (simp add: note_preimage_def)

definition example_note :: Note where
  "example_note = \<lparr>mint1 = 1, volume1 = 2, direction1 = Buy, mint2 = 3, volume2 = 4,
     direction2 = Sell, fee_mint = 5, fee_volume = 6, fee_direction = Sell, note_type = MatchNote,
     note_randomness = 7\<rparr>"

theorem note_preimage_binds_witness:
  "note_preimage example_note 1 \<noteq> note_preimage (example_note\<lparr>volume1 := 3\<rparr>) 1"
proof
  assume "note_preimage example_note 1 = note_preimage (example_note\<lparr>volume1 := 3\<rparr>) 1"
  from note_preimage_binds [OF _ _ _ _ _ _ _ _ _ _ this] show False
    by (simp add: example_note_def field_modulus_def canonical_def)
qed

text \<open>
  A key chain of canonical keys survives serialization as a sequence of big integers,
  and its conversion to a vector of scalars and back.
\<close>

theorem keychain_roundtrip:
  assumes "canonical (pk_root k)" "canonical (pk_match k)" "canonical (pk_settle k)"
    "canonical (pk_view k)"
  shows "KeyChain_visit_seq (KeyChain_serialize k) = Ok k
    \<and> KeyChain_try_from (KeyChain_to_vec k) = Ok k"
proof -
  have "biguint_to_scalar a = a" if "canonical a" for a
    using that field_modulus_bounds(2) by (simp add: biguint_to_scalar_eq canonical_def)
  then show ?thesis
    using assms by (simp add: KeyChain_serialize_def KeyChain_to_vec_def NUM_KEYS_def)
qed

theorem keychain_roundtrip_witness:
  "KeyChain_visit_seq (KeyChain_serialize \<lparr>pk_root = 1, pk_match = 2, pk_settle = 3, pk_view = 4\<rparr>)
     = Ok \<lparr>pk_root = 1, pk_match = 2, pk_settle = 3, pk_view = 4\<rparr>"
  using keychain_roundtrip [of "\<lparr>pk_root = 1, pk_match = 2, pk_settle = 3, pk_view = 4\<rparr>"]
  by (simp add: canonical_def field_modulus_def)

end
