(* ===== verification/Peers.thy ===== *)
theory Peers
  imports Prelude
begin

section \<open>Peers and the peer index\<close>

text \<open>
  The model of \<open>PeerInfo\<close>, \<open>WrappedPeerId\<close> and \<open>ClusterId\<close> (\<open>core/src/gossip/types.rs\<close>)
  and of \<open>PeerIndex\<close> (\<open>core/src/state/peers.rs\<close>).

  Signing, hashing, base64 and JSON are third-party code: they are the fields of a record
  \<open>cluster_crypto\<close> that the definitions take as an argument. The wall clock is the argument
  \<open>now\<close>, the random generator a function \<open>gen_range\<close> that picks an index below its
  argument, and the iteration order of a hash set the argument \<open>iter\<close>.
\<close>

record cluster_crypto =
  sha512 :: "bytes \<Rightarrow> bytes"
  peer_id_json :: "WrappedPeerId \<Rightarrow> bytes"
  public_of :: "bytes \<Rightarrow> bytes"
  public_from_bytes :: "bytes \<Rightarrow> bytes option"
  signature_from_bytes :: "bytes \<Rightarrow> bytes option"
  sign_prehashed :: "bytes \<Rightarrow> bytes \<Rightarrow> bytes option"
  verify_prehashed :: "bytes \<Rightarrow> bytes \<Rightarrow> bytes \<Rightarrow> bool"
  base64_encode :: "bytes \<Rightarrow> string"
  base64_decode :: "string \<Rightarrow> bytes option"

text \<open>The documented behaviour of these libraries that the code relies on.\<close>

definition crypto_complete :: "cluster_crypto \<Rightarrow> bool" where
  "crypto_complete c \<longleftrightarrow>
     (\<forall>bs. base64_decode c (base64_encode c bs) = Some bs)
     \<and> (\<forall>k. public_from_bytes c (public_of c k) = Some (public_of c k))
     \<and> (\<forall>k d. \<exists>s. sign_prehashed c k d = Some s \<and> signature_from_bytes c s = Some s
           \<and> verify_prehashed c (public_of c k) d s)"

subsection \<open>Cluster identifiers and peer information\<close>

definition ClusterId_new :: "cluster_crypto \<Rightarrow> bytes \<Rightarrow> ClusterId" where
  "ClusterId_new c pubkey = ClusterId (base64_encode c pubkey)"

definition CLUSTER_MANAGEMENT_TOPIC_PREFIX :: string where
  "CLUSTER_MANAGEMENT_TOPIC_PREFIX = ''cluster-management''"

definition get_management_topic :: "ClusterId \<Rightarrow> string" where
  "get_management_topic cid = CLUSTER_MANAGEMENT_TOPIC_PREFIX @ ''-'' @ cluster_name cid"

definition get_public_key :: "cluster_crypto \<Rightarrow> ClusterId \<Rightarrow> bytes option" where
  "get_public_key c cid = Option.bind (base64_decode c (cluster_name cid)) (public_from_bytes c)"

record PeerInfo =
  peer_id :: WrappedPeerId
  addr :: bytes
  last_heartbeat :: u64
  cluster_id :: ClusterId
  cluster_auth_signature :: bytes

definition PeerInfo_new :: "u64 \<Rightarrow> WrappedPeerId \<Rightarrow> ClusterId \<Rightarrow> bytes \<Rightarrow> bytes \<Rightarrow> PeerInfo" where
  "PeerInfo_new now pid cid a sig =
     \<lparr>peer_id = pid, addr = a, last_heartbeat = now, cluster_id = cid,
      cluster_auth_signature = sig\<rparr>"

definition new_with_cluster_secret_key ::
  "cluster_crypto \<Rightarrow> u64 \<Rightarrow> WrappedPeerId \<Rightarrow> ClusterId \<Rightarrow> bytes \<Rightarrow> bytes \<Rightarrow> PeerInfo call" where
  "new_with_cluster_secret_key c now pid cid a keypair =
     (case sign_prehashed c keypair (sha512 c (peer_id_json c pid)) of
        None \<Rightarrow> Panics
      | Some sig \<Rightarrow> Returns (PeerInfo_new now pid cid a sig))"

definition verify_cluster_auth_sig :: "cluster_crypto \<Rightarrow> PeerInfo \<Rightarrow> bool" where
  "verify_cluster_auth_sig c info =
     (case signature_from_bytes c (cluster_auth_signature info) of
        None \<Rightarrow> False
      | Some sig \<Rightarrow>
          (case get_public_key c (cluster_id info) of
             None \<Rightarrow> False
           | Some pubkey \<Rightarrow>
               verify_prehashed c pubkey (sha512 c (peer_id_json c (peer_id info))) sig))"

text \<open>
  \<open>PartialEq\<close> on \<open>PeerInfo\<close> compares every field but the signature; serialization skips the
  heartbeat timestamp, so that a peer received from the network has timestamp zero.
\<close>

definition PeerInfo_eq :: "PeerInfo \<Rightarrow> PeerInfo \<Rightarrow> bool" where
  "PeerInfo_eq a b \<longleftrightarrow> peer_id a = peer_id b \<and> addr a = addr b
     \<and> last_heartbeat a = last_heartbeat b \<and> cluster_id a = cluster_id b"

definition PeerInfo_over_the_wire :: "PeerInfo \<Rightarrow> PeerInfo" where
  "PeerInfo_over_the_wire info = info\<lparr>last_heartbeat := 0\<rparr>"

definition successful_heartbeat :: "u64 \<Rightarrow> PeerInfo \<Rightarrow> PeerInfo" where
  "successful_heartbeat now info = info\<lparr>last_heartbeat := now\<rparr>"

subsection \<open>The index\<close>

record PeerIndex =
  peer_map :: "WrappedPeerId \<rightharpoonup> PeerInfo"
  cluster_peers :: "ClusterId \<rightharpoonup> WrappedPeerId set"

definition PeerIndex_new :: PeerIndex where
  "PeerIndex_new = \<lparr>peer_map = Map.empty, cluster_peers = Map.empty\<rparr>"

definition read_peer :: "WrappedPeerId \<Rightarrow> PeerIndex \<Rightarrow> PeerInfo option" where
  "read_peer p ix = peer_map ix p"

definition read_cluster_peers :: "ClusterId \<Rightarrow> PeerIndex \<Rightarrow> WrappedPeerId set option" where
  "read_cluster_peers cid ix = cluster_peers ix cid"

definition peer_index_len :: "PeerIndex \<Rightarrow> nat" where
  "peer_index_len ix = card (dom (peer_map ix))"

definition get_peer_info :: "WrappedPeerId \<Rightarrow> PeerIndex \<Rightarrow> PeerInfo option" where
  "get_peer_info p ix = peer_map ix p"

definition contains_peer :: "WrappedPeerId \<Rightarrow> PeerIndex \<Rightarrow> bool" where
  "contains_peer p ix \<longleftrightarrow> peer_map ix p \<noteq> None"

definition get_all_cluster_peers ::
  "(WrappedPeerId set \<Rightarrow> WrappedPeerId list) \<Rightarrow> ClusterId \<Rightarrow> PeerIndex \<Rightarrow> WrappedPeerId list" where
  "get_all_cluster_peers iter cid ix =
     (case read_cluster_peers cid ix of Some S \<Rightarrow> iter S | None \<Rightarrow> [])"

definition sample_cluster_peer ::
  "(WrappedPeerId set \<Rightarrow> WrappedPeerId list) \<Rightarrow> (nat \<Rightarrow> nat) \<Rightarrow> ClusterId \<Rightarrow> PeerIndex
    \<Rightarrow> WrappedPeerId option" where
  "sample_cluster_peer iter gen_range cid ix =
     (case read_cluster_peers cid ix of
        None \<Rightarrow> None
      | Some S \<Rightarrow>
          if S = {} then None
          else (let i = gen_range (card S); xs = iter S
                in if i < length xs then Some (xs ! i) else None))"

definition peer_index_nth ::
  "(WrappedPeerId set \<Rightarrow> WrappedPeerId list) \<Rightarrow> nat \<Rightarrow> PeerIndex \<Rightarrow> PeerInfo option" where
  "peer_index_nth iter i ix =
     (let xs = iter (dom (peer_map ix)) in if i < length xs then peer_map ix (xs ! i) else None)"

definition get_all_peer_ids ::
  "(WrappedPeerId set \<Rightarrow> WrappedPeerId list) \<Rightarrow> PeerIndex \<Rightarrow> WrappedPeerId list" where
  "get_all_peer_ids iter ix = iter (dom (peer_map ix))"

definition get_info_map ::
  "(WrappedPeerId set \<Rightarrow> WrappedPeerId list) \<Rightarrow> PeerIndex \<Rightarrow> (WrappedPeerId \<rightharpoonup> PeerInfo)" where
  "get_info_map iter ix =
     fold (\<lambda>p res. case peer_map ix p of Some info \<Rightarrow> res(p \<mapsto> info) | None \<Rightarrow> res)
       (iter (dom (peer_map ix))) Map.empty"

definition add_peer :: "PeerInfo \<Rightarrow> PeerIndex \<Rightarrow> PeerIndex" where
  "add_peer info ix =
     (let members = (case cluster_peers ix (cluster_id info) of Some S \<Rightarrow> S | None \<Rightarrow> {});
          ix1 = ix\<lparr>cluster_peers := (cluster_peers ix)(cluster_id info \<mapsto> insert (peer_id info) members)\<rparr>
      in if peer_map ix1 (peer_id info) = None
         then ix1\<lparr>peer_map := (peer_map ix1)(peer_id info \<mapsto> info)\<rparr>
         else ix1)"

definition index_remove_peer :: "WrappedPeerId \<Rightarrow> PeerIndex \<Rightarrow> (PeerInfo option \<times> PeerIndex) call" where
  "index_remove_peer p ix =
     (case peer_map ix p of
        None \<Rightarrow> Returns (None, ix)
      | Some entry \<Rightarrow>
          (let ix1 = ix\<lparr>peer_map := (peer_map ix)(p := None)\<rparr>
           in case cluster_peers ix1 (cluster_id entry) of
                None \<Rightarrow> Panics
              | Some S \<Rightarrow>
                  Returns (Some entry,
                    ix1\<lparr>cluster_peers := (cluster_peers ix1)(cluster_id entry \<mapsto> S - {peer_id entry})\<rparr>)))"

definition index_record_heartbeat :: "u64 \<Rightarrow> WrappedPeerId \<Rightarrow> PeerIndex \<Rightarrow> PeerIndex" where
  "index_record_heartbeat now p ix =
     (case peer_map ix p of
        Some info \<Rightarrow> ix\<lparr>peer_map := (peer_map ix)(p \<mapsto> successful_heartbeat now info)\<rparr>
      | None \<Rightarrow> ix)"

lemmas peer_index_defs =
  add_peer_def index_remove_peer_def index_record_heartbeat_def successful_heartbeat_def Let_def

subsection \<open>Invariant\<close>

text \<open>
  Each indexed peer is stored under its own id and listed in the set of its cluster; the
  sets are finite.
\<close>

definition peers_wf :: "PeerIndex \<Rightarrow> bool" where
  "peers_wf ix \<longleftrightarrow>
     (\<forall>p info. peer_map ix p = Some info \<longrightarrow>
        peer_id info = p \<and> (\<exists>S. cluster_peers ix (cluster_id info) = Some S \<and> p \<in> S))
     \<and> finite (dom (peer_map ix)) \<and> (\<forall>c S. cluster_peers ix c = Some S \<longrightarrow> finite S)"

text \<open>The converse: a cluster lists only peers that are indexed as its members.\<close>

definition members_exact :: "PeerIndex \<Rightarrow> bool" where
  "members_exact ix \<longleftrightarrow>
     (\<forall>c S p. cluster_peers ix c = Some S \<longrightarrow> p \<in> S \<longrightarrow>
        (\<exists>info. peer_map ix p = Some info \<and> cluster_id info = c))"

lemma peers_wf_new: "peers_wf PeerIndex_new"
  by (simp add: peers_wf_def PeerIndex_new_def)

lemma members_exact_new: "members_exact PeerIndex_new"
  by (simp add: members_exact_def PeerIndex_new_def)

lemma peers_wf_entry:
  "peers_wf ix \<Longrightarrow> peer_map ix p = Some info \<Longrightarrow>
    peer_id info = p \<and> (\<exists>S. cluster_peers ix (cluster_id info) = Some S \<and> p \<in> S)"
  by (simp add: peers_wf_def)

lemma peers_wf_finite: "peers_wf ix \<Longrightarrow> finite (dom (peer_map ix))"
  by (simp add: peers_wf_def)

lemma peers_wf_members: "peers_wf ix \<Longrightarrow> cluster_peers ix c = Some S \<Longrightarrow> finite S"
  by (simp add: peers_wf_def)

lemma peers_wfI:
  "(\<And>p info. peer_map ix p = Some info \<Longrightarrow>
      peer_id info = p \<and> (\<exists>S. cluster_peers ix (cluster_id info) = Some S \<and> p \<in> S)) \<Longrightarrow>
    finite (dom (peer_map ix)) \<Longrightarrow> (\<And>c S. cluster_peers ix c = Some S \<Longrightarrow> finite S) \<Longrightarrow> peers_wf ix"
  by (simp add: peers_wf_def)

lemma add_peer_map:
  "peer_map (add_peer info ix) =
     (if peer_map ix (peer_id info) = None then (peer_map ix)(peer_id info \<mapsto> info) else peer_map ix)"
  by (simp add: add_peer_def Let_def)

lemma add_peer_clusters:
  "cluster_peers (add_peer info ix) = (cluster_peers ix)(cluster_id info \<mapsto>
     insert (peer_id info) (case cluster_peers ix (cluster_id info) of Some S \<Rightarrow> S | None \<Rightarrow> {}))"
  by (simp add: add_peer_def Let_def)

lemmas add_peer_fields = add_peer_map add_peer_clusters

lemma peers_wf_add:
  assumes "peers_wf ix"
  shows "peers_wf (add_peer info ix)"
proof (rule peers_wfI)
  fix p i
  assume i: "peer_map (add_peer info ix) p = Some i"
  show "peer_id i = p \<and> (\<exists>S. cluster_peers (add_peer info ix) (cluster_id i) = Some S \<and> p \<in> S)"
  proof (cases "peer_map ix p = Some i")
    case True
    then show ?thesis
      using peers_wf_entry [OF assms True] by (auto simp: add_peer_clusters)
  next
    case False
    then have "p = peer_id info \<and> i = info"
      using i by (auto simp: add_peer_map split: if_splits)
    then show ?thesis by (simp add: add_peer_clusters)
  qed
next
  show "finite (dom (peer_map (add_peer info ix)))"
    using peers_wf_finite [OF assms] by (simp add: add_peer_map)
next
  fix c S
  assume "cluster_peers (add_peer info ix) c = Some S"
  then show "finite S"
    using peers_wf_members [OF assms]
    by (cases "c = cluster_id info") (auto simp: add_peer_clusters split: option.splits)
qed

lemma peers_wf_heartbeat:
  assumes "peers_wf ix"
  shows "peers_wf (index_record_heartbeat now p ix)"
proof (cases "peer_map ix p")
  case None
  then show ?thesis
    using assms by (simp add: index_record_heartbeat_def)
next
  case (Some info)
  then have eq: "index_record_heartbeat now p ix =
      ix\<lparr>peer_map := (peer_map ix)(p \<mapsto> successful_heartbeat now info)\<rparr>"
    by (simp add: index_record_heartbeat_def)
  show ?thesis
    unfolding eq using assms peers_wf_entry [OF assms Some]
    by (intro peers_wfI)
      (auto simp: successful_heartbeat_def peers_wf_finite peers_wf_members
        dest: peers_wf_entry split: if_splits)
qed

lemma index_remove_peer_cases:
  assumes "peers_wf ix"
  obtains "peer_map ix p = None" "index_remove_peer p ix = Returns (None, ix)"
  | info S where "peer_map ix p = Some info" "cluster_peers ix (cluster_id info) = Some S" "p \<in> S"
      "index_remove_peer p ix = Returns (Some info,
         ix\<lparr>peer_map := (peer_map ix)(p := None),
            cluster_peers := (cluster_peers ix)(cluster_id info \<mapsto> S - {p})\<rparr>)"
  using assms by (cases "peer_map ix p") (auto simp: index_remove_peer_def dest!: peers_wf_entry)

lemma index_remove_peer_returns:
  assumes "peers_wf ix"
  shows "\<exists>ix'. index_remove_peer p ix = Returns (peer_map ix p, ix') \<and> peers_wf ix'
    \<and> peer_map ix' = (peer_map ix)(p := None)"
  using assms
proof (cases rule: index_remove_peer_cases [of ix p])
  case 1
  then show ?thesis using assms by (auto simp: fun_upd_idem)
next
  case (2 info S)
  have "peers_wf (ix\<lparr>peer_map := (peer_map ix)(p := None),
            cluster_peers := (cluster_peers ix)(cluster_id info \<mapsto> S - {p})\<rparr>)"
  proof (rule peers_wfI, goal_cases)
    case (1 q i)
    then have q: "peer_map ix q = Some i" "q \<noteq> p"
      by (auto split: if_splits)
    then show ?case
      using peers_wf_entry [OF assms q(1)] 2(2) by auto
  next
    case 2
    then show ?case using peers_wf_finite [OF assms] by simp
  next
    case (3 c T)
    then show ?case
      using peers_wf_members [OF assms] \<open>cluster_peers ix (cluster_id info) = Some S\<close>
      by (auto split: if_splits)
  qed
  then show ?thesis using 2 by simp
qed

subsection \<open>Reachable indices\<close>

inductive peers_reachable :: "PeerIndex \<Rightarrow> bool" where
  start: "peers_reachable PeerIndex_new"
| add: "peers_reachable ix \<Longrightarrow> peers_reachable (add_peer info ix)"
| heartbeat: "peers_reachable ix \<Longrightarrow> peers_reachable (index_record_heartbeat now p ix)"
| remove: "peers_reachable ix \<Longrightarrow> index_remove_peer p ix = Returns (r, ix') \<Longrightarrow> peers_reachable ix'"

inductive_cases index_reachable_cases: "peers_reachable ix"

lemma peers_reachable_wf: "peers_reachable ix \<Longrightarrow> peers_wf ix"
proof (induction rule: peers_reachable.induct)
  case (remove ix p r ix')
  then show ?case
    using index_remove_peer_returns [of ix p] by auto
qed (simp_all add: peers_wf_new peers_wf_add peers_wf_heartbeat)

lemma members_exact_remove:
  assumes "peers_wf ix" and "members_exact ix" and "index_remove_peer p ix = Returns (r, ix')"
  shows "members_exact ix'"
  using assms(1)
proof (cases rule: index_remove_peer_cases [of ix p])
  case 1
  then show ?thesis using assms by simp
next
  case (2 info S)
  then have ix': "ix' = ix\<lparr>peer_map := (peer_map ix)(p := None),
            cluster_peers := (cluster_peers ix)(cluster_id info \<mapsto> S - {p})\<rparr>"
    using assms(3) by simp
  have "q \<noteq> p \<and> (\<exists>i. peer_map ix q = Some i \<and> cluster_id i = c)"
    if "cluster_peers ix' c = Some T" "q \<in> T" for c T q
  proof (cases "c = cluster_id info")
    case True
    then show ?thesis
      using that 2 assms(2) unfolding ix' members_exact_def by auto
  next
    case False
    then have "\<exists>i. peer_map ix q = Some i \<and> cluster_id i = c"
      using that assms(2) unfolding ix' members_exact_def by auto
    then show ?thesis using False 2(1) by auto
  qed
  then show ?thesis unfolding members_exact_def ix' by auto
qed

lemma members_exactI:
  "(\<And>c S p. cluster_peers ix c = Some S \<Longrightarrow> p \<in> S \<Longrightarrow>
      \<exists>info. peer_map ix p = Some info \<and> cluster_id info = c) \<Longrightarrow> members_exact ix"
  unfolding members_exact_def by blast

lemma members_exactD:
  "members_exact ix \<Longrightarrow> cluster_peers ix c = Some S \<Longrightarrow> p \<in> S \<Longrightarrow>
    \<exists>info. peer_map ix p = Some info \<and> cluster_id info = c"
  unfolding members_exact_def by blast

lemma add_peer_member:
  assumes "cluster_peers (add_peer info ix) c = Some S" and "p \<in> S"
  shows "(p = peer_id info \<and> c = cluster_id info) \<or> (\<exists>T. cluster_peers ix c = Some T \<and> p \<in> T)"
  using assms by (auto simp: add_peer_clusters split: if_splits option.splits)

lemma members_exact_add:
  assumes "members_exact ix"
    and "\<And>old. peer_map ix (peer_id info) = Some old \<Longrightarrow> cluster_id old = cluster_id info"
  shows "members_exact (add_peer info ix)"
proof (rule members_exactI)
  fix c S p
  assume "cluster_peers (add_peer info ix) c = Some S" and "p \<in> S"
  from add_peer_member [OF this]
  show "\<exists>i. peer_map (add_peer info ix) p = Some i \<and> cluster_id i = c"
  proof (elim disjE conjE exE)
    assume "p = peer_id info" "c = cluster_id info"
    then show ?thesis
      using assms(2) by (cases "peer_map ix (peer_id info)") (simp_all add: add_peer_map)
  next
    fix T
    assume "cluster_peers ix c = Some T" "p \<in> T"
    from members_exactD [OF assms(1) this] show ?thesis
      by (auto simp: add_peer_map)
  qed
qed

lemma members_exact_add_iff:
  assumes "members_exact ix"
  shows "members_exact (add_peer info ix) \<longleftrightarrow>
    (case peer_map ix (peer_id info) of None \<Rightarrow> True | Some old \<Rightarrow> cluster_id old = cluster_id info)"
proof (cases "peer_map ix (peer_id info)")
  case None
  then show ?thesis
    using members_exact_add [OF assms, of info] by simp
next
  case (Some old)
  have "cluster_id old = cluster_id info" if "members_exact (add_peer info ix)"
    using members_exactD [OF that, of "cluster_id info" _ "peer_id info"] Some
    by (simp add: add_peer_fields)
  moreover have "members_exact (add_peer info ix)" if "cluster_id old = cluster_id info"
    using members_exact_add [OF assms, of info] that Some by simp
  ultimately show ?thesis using Some by auto
qed

subsection \<open>Properties\<close>

text \<open>
  On every peer index that additions, heartbeats and removals can build, removing a
  peer never fails on the cluster lookup the code unwraps: it returns the peer's information
  if the peer was known, and afterwards the index knows exactly the other peers.
\<close>

theorem remove_peer_total:
  assumes "peers_reachable ix"
  shows "\<exists>ix'. index_remove_peer p ix = Returns (get_peer_info p ix, ix')
    \<and> peer_map ix' = (peer_map ix)(p := None)"
  using index_remove_peer_returns [OF peers_reachable_wf [OF assms]]
  by (auto simp: get_peer_info_def)

definition example_peer :: PeerInfo where
  "example_peer = PeerInfo_new 7 (WrappedPeerId [1]) (ClusterId ''a'') [4] [9]"

theorem remove_peer_total_witness:
  "index_remove_peer (WrappedPeerId [1]) (add_peer example_peer PeerIndex_new) \<noteq> Panics"
proof -
  have "peers_reachable (add_peer example_peer PeerIndex_new)"
    by (intro peers_reachable.intros)
  from remove_peer_total [OF this, of "WrappedPeerId [1]"] show ?thesis by auto
qed

text \<open>
  Adding a peer keeps the cluster lists exact (each cluster lists only peers indexed as
  its members) if and only if the peer was not yet known, or known in the same cluster. A
  peer that announces itself under a second cluster is listed there while its information
  keeps the first cluster.
\<close>

theorem add_peer_exact_iff:
  assumes "members_exact ix"
  shows "members_exact (add_peer info ix) \<longleftrightarrow>
    (case get_peer_info (peer_id info) ix of
       None \<Rightarrow> True | Some old \<Rightarrow> cluster_id old = cluster_id info)"
  unfolding get_peer_info_def by (rule members_exact_add_iff [OF assms])

theorem add_peer_exact_iff_witness:
  "\<not> members_exact (add_peer (example_peer\<lparr>cluster_id := ClusterId ''b''\<rparr>)
       (add_peer example_peer PeerIndex_new))"
proof -
  have "members_exact (add_peer example_peer PeerIndex_new)"
    by (simp add: members_exact_add_iff [OF members_exact_new]) (simp add: PeerIndex_new_def)
  from add_peer_exact_iff [OF this, of "example_peer\<lparr>cluster_id := ClusterId ''b''\<rparr>"]
  show ?thesis
    by (simp add: get_peer_info_def add_peer_map PeerIndex_new_def example_peer_def PeerInfo_new_def)
qed

text \<open>
  Sampling a cluster peer returns a peer exactly when the cluster has one, and then a
  member of that cluster, for every iteration order of the set and every generator that
  stays in range: the index drawn never runs past the end of the iterator.
\<close>

theorem sample_cluster_peer_member:
  assumes "hash_iteration iter" and "\<And>n. 0 < n \<Longrightarrow> gen_range n < n" and "peers_wf ix"
  shows "case read_cluster_peers cid ix of
      None \<Rightarrow> sample_cluster_peer iter gen_range cid ix = None
    | Some S \<Rightarrow> (if S = {} then sample_cluster_peer iter gen_range cid ix = None
        else \<exists>p\<in>S. sample_cluster_peer iter gen_range cid ix = Some p)"
proof (cases "cluster_peers ix cid")
  case None
  then show ?thesis by (simp add: sample_cluster_peer_def read_cluster_peers_def)
next
  case (Some S)
  then have fin: "finite S"
    using peers_wf_members [OF assms(3)] by blast
  have "\<exists>p\<in>S. sample_cluster_peer iter gen_range cid ix = Some p" if "S \<noteq> {}"
  proof -
    have lt: "gen_range (card S) < length (iter S)"
      using that fin assms(2) hash_iteration.length_iter [OF assms(1) fin] by (simp add: card_gt_0_iff)
    then have "iter S ! gen_range (card S) \<in> S"
      using hash_iteration.iter_set [OF assms(1) fin] nth_mem by fastforce
    then show ?thesis
      using that lt Some by (simp add: sample_cluster_peer_def read_cluster_peers_def Let_def)
  qed
  then show ?thesis
    using Some by (auto simp: sample_cluster_peer_def read_cluster_peers_def)
qed

theorem sample_cluster_peer_member_witness:
  "\<exists>p\<in>{WrappedPeerId [1]}. sample_cluster_peer sorted_list_of_set (\<lambda>n. n - 1) (ClusterId ''a'')
     (add_peer example_peer PeerIndex_new) = Some p"
  using sample_cluster_peer_member [of sorted_list_of_set "\<lambda>n. n - 1"
      "add_peer example_peer PeerIndex_new" "ClusterId ''a''",
      OF ascending.hash_iteration_axioms _ peers_wf_add [OF peers_wf_new]]
  by (simp add: read_cluster_peers_def add_peer_clusters PeerIndex_new_def example_peer_def
      PeerInfo_new_def)

text \<open>
  Given signature, base64 and key libraries that behave as documented, a peer that
  builds its information with the keypair of its cluster passes the membership check every
  other peer makes, also after the information has crossed the network.
\<close>

theorem cluster_auth_sig_accepted:
  assumes "crypto_complete c"
  shows "\<exists>info. new_with_cluster_secret_key c now pid (ClusterId_new c (public_of c k)) a k = Returns info
    \<and> verify_cluster_auth_sig c info \<and> verify_cluster_auth_sig c (PeerInfo_over_the_wire info)"
proof -
  obtain s where s: "sign_prehashed c k (sha512 c (peer_id_json c pid)) = Some s"
      "signature_from_bytes c s = Some s"
      "verify_prehashed c (public_of c k) (sha512 c (peer_id_json c pid)) s"
    using assms unfolding crypto_complete_def by blast
  then show ?thesis
    using assms
    by (simp add: crypto_complete_def new_with_cluster_secret_key_def verify_cluster_auth_sig_def
        PeerInfo_new_def get_public_key_def ClusterId_new_def PeerInfo_over_the_wire_def)
qed

definition example_crypto :: cluster_crypto where
  "example_crypto = \<lparr>sha512 = (\<lambda>bs. [of_nat (length bs)]), peer_id_json = peer_bytes,
     public_of = (\<lambda>k. k), public_from_bytes = Some, signature_from_bytes = Some,
     sign_prehashed = (\<lambda>k d. Some (k @ d)), verify_prehashed = (\<lambda>pk d s. s = pk @ d),
     base64_encode = map (\<lambda>b. char_of (unat b)),
     base64_decode = (\<lambda>s. Some (map (\<lambda>ch. of_nat (of_char ch)) s))\<rparr>"

lemma byte_char [simp]: "of_nat (unat (b :: u8) mod 256) = b"
proof -
  have "unat b < 2 ^ LENGTH(8)"
    by (rule unsigned_less)
  then have "unat b mod 256 = unat b" by simp
  then show ?thesis by simp
qed

theorem cluster_auth_sig_accepted_witness:
  "\<exists>info. new_with_cluster_secret_key example_crypto 3 (WrappedPeerId [1])
        (ClusterId_new example_crypto (public_of example_crypto [8])) [] [8] = Returns info
    \<and> verify_cluster_auth_sig example_crypto info
    \<and> verify_cluster_auth_sig example_crypto (PeerInfo_over_the_wire info)"
proof -
  have "crypto_complete example_crypto"
    by (simp add: crypto_complete_def example_crypto_def comp_def)
  then show ?thesis by (rule cluster_auth_sig_accepted)
qed

end
