(* ===== verification/Wallets.thy ===== *)
theory Wallets
  imports Circuit_Types Peers Priority "HOL-Library.Log_Nat" "HOL-Library.Char_ord"
begin

section \<open>Wallets and the wallet index\<close>

text \<open>
  The model of \<open>core/src/state/wallet.rs\<close>: key chains and their serialization, Merkle
  authentication paths, wallets and their commitments, and the \<open>WalletIndex\<close>.

  The order in which a hash map lists its keys is an argument (\<open>iter_b\<close> for balances, \<open>iter_o\<close>
  for orders), as is everything from other crates: the sponge, the decimal form of a big
  integer, and the double that \<open>BigDecimal\<close> gives for a fixed point number. A finite
  non-negative double is a mantissa with a binary exponent.
\<close>

definition MAX_BALANCES :: nat where
  "MAX_BALANCES = 5"

definition MAX_ORDERS :: nat where
  "MAX_ORDERS = 5"

definition MAX_FEES :: nat where
  "MAX_FEES = 2"

definition MERKLE_HEIGHT :: nat where
  "MERKLE_HEIGHT = 32"

definition MERKLE_ROOT_HISTORY_LENGTH :: nat where
  "MERKLE_ROOT_HISTORY_LENGTH = 30"

text \<open>The staleness factor is the float 0.75; the product is cut to an integer.\<close>

definition STALENESS_THRESHOLD :: u32 where
  "STALENESS_THRESHOLD = of_int (float_floor_shifted (3 * int MERKLE_ROOT_HISTORY_LENGTH, - 2) 0)"

type_synonym WalletIdentifier = uuid

subsection \<open>Private keys\<close>

record PrivateKeyChain =
  sk_root :: "scalar option"
  sk_match :: scalar
  sk_settle :: scalar
  sk_view :: scalar

text \<open>The elements of the serialized sequence: an optional number, or a number.\<close>

datatype key_element = Null | Number nat

definition PrivateKeyChain_serialize :: "PrivateKeyChain \<Rightarrow> key_element list" where
  "PrivateKeyChain_serialize k =
     [(case sk_root k of None \<Rightarrow> Null | Some r \<Rightarrow> Number (scalar_to_biguint r)),
      Number (scalar_to_biguint (sk_match k)), Number (scalar_to_biguint (sk_settle k)),
      Number (scalar_to_biguint (sk_view k))]"

fun next_number :: "string \<Rightarrow> key_element list \<Rightarrow> (nat \<times> key_element list, string) Result" where
  "next_number what [] = Err (what @ '' not found in serialized value'')"
| "next_number what (Null # es) = Err ''invalid type''"
| "next_number what (Number n # es) = Ok (n, es)"

fun next_optional :: "string \<Rightarrow> key_element list \<Rightarrow> (nat option \<times> key_element list, string) Result" where
  "next_optional what [] = Err (what @ '' not found in serialized value'')"
| "next_optional what (Null # es) = Ok (None, es)"
| "next_optional what (Number n # es) = Ok (Some n, es)"

definition PrivateKeyChain_visit_seq :: "key_element list \<Rightarrow> (PrivateKeyChain, string) Result" where
  "PrivateKeyChain_visit_seq es =
     (case next_optional ''sk_root'' es of Err e \<Rightarrow> Err e | Ok (r, es1) \<Rightarrow>
     (case next_number ''sk_match'' es1 of Err e \<Rightarrow> Err e | Ok (m, es2) \<Rightarrow>
     (case next_number ''sk_settle'' es2 of Err e \<Rightarrow> Err e | Ok (s, es3) \<Rightarrow>
     (case next_number ''sk_view'' es3 of Err e \<Rightarrow> Err e | Ok (v, es4) \<Rightarrow>
        Ok \<lparr>sk_root = map_option biguint_to_scalar r, sk_match = biguint_to_scalar m,
            sk_settle = biguint_to_scalar s, sk_view = biguint_to_scalar v\<rparr>))))"

subsection \<open>Merkle authentication paths\<close>

type_synonym MerkleTreeCoords = "nat \<times> nat"

record MerkleAuthenticationPath =
  path_siblings :: "scalar list"
  leaf_index :: nat
  path_value :: scalar

definition sibling_index :: "nat \<Rightarrow> nat" where
  "sibling_index i = (if i mod 2 = 0 then i + 1 else i - 1)"

fun path_coords :: "nat \<Rightarrow> nat \<Rightarrow> MerkleTreeCoords list" where
  "path_coords 0 current_index = []"
| "path_coords (Suc h) current_index =
     (Suc h, sibling_index current_index) # path_coords h (current_index div 2)"

definition compute_authentication_path_coords ::
  "MerkleAuthenticationPath \<Rightarrow> MerkleTreeCoords list" where
  "compute_authentication_path_coords p = path_coords MERKLE_HEIGHT (leaf_index p)"

fun fold_path :: "sponge_env \<Rightarrow> scalar list \<Rightarrow> nat \<Rightarrow> scalar \<Rightarrow> scalar" where
  "fold_path env [] current_index current_value = current_value"
| "fold_path env (s # ss) current_index current_value =
     fold_path env ss (current_index div 2)
       (if current_index mod 2 = 0 then compute_poseidon_hash env [current_value, s]
        else compute_poseidon_hash env [s, current_value])"

definition compute_root :: "sponge_env \<Rightarrow> MerkleAuthenticationPath \<Rightarrow> scalar" where
  "compute_root env p = fold_path env (path_siblings p) (leaf_index p) (path_value p)"

record MerkleOpening =
  opening_elems :: "scalar list"
  opening_indices :: "scalar list"

definition MerkleOpening_from :: "MerkleAuthenticationPath \<Rightarrow> MerkleOpening" where
  "MerkleOpening_from p =
     \<lparr>opening_elems = path_siblings p,
      opening_indices = map (\<lambda>i. if bit (leaf_index p) i then 1 else 0) [0..<MERKLE_HEIGHT]\<rparr>"

subsection \<open>Wallets\<close>

record WalletMetadata =
  replicas :: "WrappedPeerId set"

record Wallet =
  wallet_id :: WalletIdentifier
  wallet_orders :: "OrderIdentifier \<rightharpoonup> Order"
  wallet_balances :: "nat \<rightharpoonup> Balance"
  wallet_fees :: "Fee list"
  public_keys :: KeyChain
  secret_keys :: PrivateKeyChain
  randomness :: nat
  metadata :: WalletMetadata
  merkle_proof :: "MerkleAuthenticationPath option"
  proof_staleness :: u32

text \<open>The balances are serialized in a map with string keys.\<close>

definition serialize_balances :: "(nat \<Rightarrow> string) \<Rightarrow> (nat set \<Rightarrow> nat list) \<Rightarrow> (nat \<rightharpoonup> Balance)
    \<Rightarrow> (string \<rightharpoonup> Balance)" where
  "serialize_balances to_string iter_b m =
     map_of (rev (map (\<lambda>k. (to_string k, the (m k))) (iter_b (dom m))))"

fun rekey :: "(string \<Rightarrow> nat option) \<Rightarrow> (string \<rightharpoonup> Balance) \<Rightarrow> string list \<Rightarrow> (nat \<rightharpoonup> Balance)
    \<Rightarrow> (nat \<rightharpoonup> Balance, string) Result" where
  "rekey from_str m [] res = Ok res"
| "rekey from_str m (k # ks) res =
     (case from_str k of
        None \<Rightarrow> Err k
      | Some n \<Rightarrow> rekey from_str m ks (res(n \<mapsto> the (m k))))"

definition deserialize_balances :: "(string \<Rightarrow> nat option) \<Rightarrow> (string set \<Rightarrow> string list)
    \<Rightarrow> (string \<rightharpoonup> Balance) \<Rightarrow> (nat \<rightharpoonup> Balance, string) Result" where
  "deserialize_balances from_str iter_s m = rekey from_str m (iter_s (dom m)) Map.empty"

definition pad_to :: "nat \<Rightarrow> 'a \<Rightarrow> 'a list \<Rightarrow> 'a list" where
  "pad_to n d xs = take n (xs @ replicate n d)"

definition map_values :: "('k set \<Rightarrow> 'k list) \<Rightarrow> ('k \<rightharpoonup> 'v) \<Rightarrow> 'v list" where
  "map_values iter m = map (\<lambda>k. the (m k)) (iter (dom m))"

definition CircuitWallet_from :: "(nat set \<Rightarrow> nat list) \<Rightarrow> (OrderIdentifier set \<Rightarrow> OrderIdentifier list)
    \<Rightarrow> Wallet \<Rightarrow> CircuitWallet" where
  "CircuitWallet_from iter_b iter_o w =
     \<lparr>circuit_balances = pad_to MAX_BALANCES Balance_default (map_values iter_b (wallet_balances w)),
      circuit_orders = pad_to MAX_ORDERS Order_default (map_values iter_o (wallet_orders w)),
      circuit_fees = pad_to MAX_FEES Fee_default (wallet_fees w),
      circuit_keys = public_keys w, circuit_randomness = biguint_to_scalar (randomness w)\<rparr>"

definition get_commitment :: "sponge_env \<Rightarrow> (nat set \<Rightarrow> nat list)
    \<Rightarrow> (OrderIdentifier set \<Rightarrow> OrderIdentifier list) \<Rightarrow> Wallet \<Rightarrow> scalar" where
  "get_commitment env iter_b iter_o w =
     prime_field_to_scalar (compute_wallet_commitment env (CircuitWallet_from iter_b iter_o w))"

definition wallet_match_nullifier :: "sponge_env \<Rightarrow> (nat set \<Rightarrow> nat list)
    \<Rightarrow> (OrderIdentifier set \<Rightarrow> OrderIdentifier list) \<Rightarrow> Wallet \<Rightarrow> scalar" where
  "wallet_match_nullifier env iter_b iter_o w =
     (let cw = CircuitWallet_from iter_b iter_o w
      in prime_field_to_scalar
           (compute_wallet_match_nullifier env cw (compute_wallet_commitment env cw)))"

definition needs_new_commitment_proof :: "Wallet \<Rightarrow> bool" where
  "needs_new_commitment_proof w \<longleftrightarrow> STALENESS_THRESHOLD < proof_staleness w"

subsection \<open>Doubles\<close>

type_synonym f64 = "nat \<times> int"

text \<open>Rounding to 53 bits, ties to even.\<close>

fun f64_round :: "nat \<times> int \<Rightarrow> f64" where
  "f64_round (m, e) =
     (if m < 2 ^ 53 then (m, e)
      else let s = floorlog 2 m - 53; q = m div 2 ^ s; r = m mod 2 ^ s; h = 2 ^ (s - 1)
           in (if h < r \<or> r = h \<and> odd q then q + 1 else q, e + int s))"

fun f64_mul :: "f64 \<Rightarrow> f64 \<Rightarrow> f64" where
  "f64_mul (m, e) (n, f) = f64_round (m * n, e + f)"

definition f64_of_u64 :: "u64 \<Rightarrow> f64" where
  "f64_of_u64 x = f64_round (unat x, 0)"

fun f64_to_u64 :: "f64 \<Rightarrow> u64" where
  "f64_to_u64 (m, e) = saturate_u64 (float_floor_shifted (int m, e) 0)"

subsection \<open>The index\<close>

record WalletIndex =
  index_peer_id :: WrappedPeerId
  wallet_map :: "WalletIdentifier \<rightharpoonup> Wallet"
  order_to_wallet :: "OrderIdentifier \<rightharpoonup> WalletIdentifier"

definition WalletIndex_new :: "WrappedPeerId \<Rightarrow> WalletIndex" where
  "WalletIndex_new p = \<lparr>index_peer_id = p, wallet_map = Map.empty, order_to_wallet = Map.empty\<rparr>"

definition get_wallet :: "WalletIdentifier \<Rightarrow> WalletIndex \<Rightarrow> Wallet option" where
  "get_wallet wid ix = wallet_map ix wid"

definition get_wallet_for_order :: "OrderIdentifier \<Rightarrow> WalletIndex \<Rightarrow> WalletIdentifier option" where
  "get_wallet_for_order oid ix = order_to_wallet ix oid"

definition get_all_wallet_ids :: "(WalletIdentifier set \<Rightarrow> WalletIdentifier list) \<Rightarrow> WalletIndex
    \<Rightarrow> WalletIdentifier list" where
  "get_all_wallet_ids iter ix = iter (dom (wallet_map ix))"

definition get_all_wallets :: "(WalletIdentifier set \<Rightarrow> WalletIdentifier list) \<Rightarrow> WalletIndex
    \<Rightarrow> Wallet list" where
  "get_all_wallets iter ix = map_values iter (wallet_map ix)"

definition get_metadata_map :: "WalletIndex \<Rightarrow> (WalletIdentifier \<rightharpoonup> WalletMetadata)" where
  "get_metadata_map ix = map_option metadata \<circ> wallet_map ix"

definition order_spend_mint :: "Order \<Rightarrow> nat" where
  "order_spend_mint ord = (case side ord of Buy \<Rightarrow> quote_mint ord | Sell \<Rightarrow> base_mint ord)"

definition order_spend_amount :: "(FixedPoint \<Rightarrow> f64) \<Rightarrow> Order \<Rightarrow> u64" where
  "order_spend_amount to_f64 ord =
     (case side ord of
        Buy \<Rightarrow> f64_to_u64 (f64_mul (f64_of_u64 (amount ord)) (to_f64 (price ord)))
      | Sell \<Rightarrow> amount ord)"

definition get_order_balance_and_fee :: "(FixedPoint \<Rightarrow> f64) \<Rightarrow> WalletIdentifier \<Rightarrow> OrderIdentifier
    \<Rightarrow> WalletIndex \<Rightarrow> (Order \<times> Balance \<times> Fee \<times> Balance) option" where
  "get_order_balance_and_fee to_f64 wid oid ix =
     (case wallet_map ix wid of None \<Rightarrow> None | Some w \<Rightarrow>
     (case wallet_orders w oid of None \<Rightarrow> None | Some ord \<Rightarrow>
     (case wallet_balances w (order_spend_mint ord) of None \<Rightarrow> None | Some bal \<Rightarrow>
      if balance_amount bal < order_spend_amount to_f64 ord then None
      else case wallet_fees w of [] \<Rightarrow> None | fee # _ \<Rightarrow>
     (case wallet_balances w (gas_addr fee) of None \<Rightarrow> None | Some fee_balance \<Rightarrow>
      if balance_amount fee_balance < gas_token_amount fee then None
      else Some (ord, bal, fee, fee_balance)))))"

definition add_wallet :: "Wallet \<Rightarrow> WalletIndex \<Rightarrow> WalletIndex" where
  "add_wallet w ix =
     (let ix1 = ix\<lparr>order_to_wallet :=
              (\<lambda>oid. if oid \<in> dom (wallet_orders w) then Some (wallet_id w) else order_to_wallet ix oid)\<rparr>;
          w1 = w\<lparr>metadata := \<lparr>replicas = insert (index_peer_id ix1) (replicas (metadata w))\<rparr>\<rparr>
      in ix1\<lparr>wallet_map := (wallet_map ix1)(wallet_id w1 \<mapsto> w1)\<rparr>)"

definition update_wallet :: "WalletIdentifier \<Rightarrow> (Wallet \<Rightarrow> Wallet) \<Rightarrow> WalletIndex \<Rightarrow> WalletIndex" where
  "update_wallet wid f ix =
     (case wallet_map ix wid of
        Some w \<Rightarrow> ix\<lparr>wallet_map := (wallet_map ix)(wid \<mapsto> f w)\<rparr>
      | None \<Rightarrow> ix)"

definition add_replica :: "WalletIdentifier \<Rightarrow> WrappedPeerId \<Rightarrow> WalletIndex \<Rightarrow> WalletIndex" where
  "add_replica wid p =
     update_wallet wid (\<lambda>w. w\<lparr>metadata := \<lparr>replicas = insert p (replicas (metadata w))\<rparr>\<rparr>)"

definition add_wallet_merkle_proof ::
  "WalletIdentifier \<Rightarrow> MerkleAuthenticationPath \<Rightarrow> WalletIndex \<Rightarrow> WalletIndex" where
  "add_wallet_merkle_proof wid p = update_wallet wid (\<lambda>w. w\<lparr>merkle_proof := Some p\<rparr>)"

definition merge_metadata :: "WalletIdentifier \<Rightarrow> WalletMetadata \<Rightarrow> WalletIndex \<Rightarrow> WalletIndex" where
  "merge_metadata wid md =
     update_wallet wid (\<lambda>w.
       if replicas md \<subseteq> replicas (metadata w) then w
       else w\<lparr>metadata := \<lparr>replicas = replicas (metadata w) \<union> replicas md\<rparr>\<rparr>)"

definition remove_peer_replicas :: "WrappedPeerId \<Rightarrow> WalletIndex \<Rightarrow> WalletIndex" where
  "remove_peer_replicas p ix =
     ix\<lparr>wallet_map := map_option (\<lambda>w. w\<lparr>metadata := \<lparr>replicas = replicas (metadata w) - {p}\<rparr>\<rparr>)
          \<circ> wallet_map ix\<rparr>"

subsection \<open>The tree an authentication path belongs to\<close>

text \<open>
  A reference definition: the value at level \<open>k\<close> above the leaves and position \<open>i\<close> of the
  binary hash tree over the leaves \<open>leaf\<close>.
\<close>

fun tree_node :: "sponge_env \<Rightarrow> (nat \<Rightarrow> scalar) \<Rightarrow> nat \<Rightarrow> nat \<Rightarrow> scalar" where
  "tree_node env leaf 0 i = leaf i"
| "tree_node env leaf (Suc k) i =
     compute_poseidon_hash env [tree_node env leaf k (2 * i), tree_node env leaf k (2 * i + 1)]"

lemma fold_path_tree:
  "h \<le> n \<Longrightarrow>
   fold_path env (map (\<lambda>(h', j). tree_node env leaf (n - h') j) (path_coords h i)) i
     (tree_node env leaf (n - h) i) = tree_node env leaf n (i div 2 ^ h)"
proof (induction h arbitrary: i)
  case 0
  then show ?case by simp
next
  case (Suc h)
  let ?k = "n - Suc h"
  have k: "n - h = Suc ?k"
    using Suc.prems by simp
  have "(if i mod 2 = 0
        then compute_poseidon_hash env [tree_node env leaf ?k i, tree_node env leaf ?k (sibling_index i)]
        else compute_poseidon_hash env [tree_node env leaf ?k (sibling_index i), tree_node env leaf ?k i])
      = tree_node env leaf (n - h) (i div 2)"
  proof (cases "i mod 2 = 0")
    case True
    then have "2 * (i div 2) = i" by (metis add.right_neutral mult_div_mod_eq)
    then show ?thesis using True by (simp add: k sibling_index_def)
  next
    case False
    then have "2 * (i div 2) + 1 = i" and "2 * (i div 2) = i - 1" by presburger+
    then show ?thesis using False by (simp add: k sibling_index_def)
  qed
  then show ?case
    using Suc by (simp add: div_mult2_eq)
qed

subsection \<open>The invariant of the index\<close>

definition wallets_wf :: "WalletIndex \<Rightarrow> bool" where
  "wallets_wf ix \<longleftrightarrow>
     (\<forall>wid w. wallet_map ix wid = Some w \<longrightarrow> wallet_id w = wid
        \<and> dom (wallet_orders w) \<subseteq> dom (order_to_wallet ix))
     \<and> (\<forall>oid wid. order_to_wallet ix oid = Some wid \<longrightarrow> wid \<in> dom (wallet_map ix))
     \<and> finite (dom (wallet_map ix))"

definition orders_exact :: "WalletIndex \<Rightarrow> bool" where
  "orders_exact ix \<longleftrightarrow>
     (\<forall>oid wid. order_to_wallet ix oid = Some wid \<longrightarrow>
        (\<exists>w. wallet_map ix wid = Some w \<and> oid \<in> dom (wallet_orders w)))"

datatype wallet_op =
    AddWallet Wallet
  | AddReplica WalletIdentifier WrappedPeerId
  | AddMerkleProof WalletIdentifier MerkleAuthenticationPath
  | MergeMetadata WalletIdentifier WalletMetadata
  | RemoveReplicas WrappedPeerId

fun wallet_step :: "wallet_op \<Rightarrow> WalletIndex \<Rightarrow> WalletIndex" where
  "wallet_step (AddWallet w) ix = add_wallet w ix"
| "wallet_step (AddReplica wid p) ix = add_replica wid p ix"
| "wallet_step (AddMerkleProof wid p) ix = add_wallet_merkle_proof wid p ix"
| "wallet_step (MergeMetadata wid md) ix = merge_metadata wid md ix"
| "wallet_step (RemoveReplicas p) ix = remove_peer_replicas p ix"

lemma add_wallet_fields:
  "wallet_map (add_wallet w ix) = (wallet_map ix)(wallet_id w \<mapsto>
     w\<lparr>metadata := \<lparr>replicas = insert (index_peer_id ix) (replicas (metadata w))\<rparr>\<rparr>)"
  "order_to_wallet (add_wallet w ix) =
     (\<lambda>oid. if oid \<in> dom (wallet_orders w) then Some (wallet_id w) else order_to_wallet ix oid)"
  "index_peer_id (add_wallet w ix) = index_peer_id ix"
  by (simp_all add: add_wallet_def Let_def)

text \<open>An update that keeps the identifier and the orders of a wallet keeps both indices.\<close>

lemma update_wallet_wf:
  assumes "wallets_wf ix" and "\<And>w. wallet_id (f w) = wallet_id w"
    and "\<And>w. wallet_orders (f w) = wallet_orders w"
  shows "wallets_wf (update_wallet wid f ix)"
  using assms unfolding wallets_wf_def update_wallet_def
  by (cases "wallet_map ix wid") (auto split: if_splits)

lemma remove_peer_replicas_wf: "wallets_wf ix \<Longrightarrow> wallets_wf (remove_peer_replicas p ix)"
  unfolding wallets_wf_def remove_peer_replicas_def by (fastforce simp: dom_map_option_comp)

lemma add_wallet_wf: "wallets_wf ix \<Longrightarrow> wallets_wf (add_wallet w ix)"
  unfolding wallets_wf_def add_wallet_fields by (auto split: if_splits) blast

interpretation wallets: preserved wallets_wf wallet_step
proof unfold_locales
  fix ix oper
  assume "wallets_wf ix"
  then show "wallets_wf (wallet_step oper ix)"
    by (cases oper)
      (auto simp: add_replica_def add_wallet_merkle_proof_def merge_metadata_def
        intro: update_wallet_wf remove_peer_replicas_wf add_wallet_wf)
qed

lemma wallets_wf_new: "wallets_wf (WalletIndex_new p)"
  by (simp add: wallets_wf_def WalletIndex_new_def)

lemma orders_exact_new: "orders_exact (WalletIndex_new p)"
  by (simp add: orders_exact_def WalletIndex_new_def)

lemma orders_exact_add:
  assumes "orders_exact ix"
  shows "orders_exact (add_wallet w ix) \<longleftrightarrow>
    (\<forall>oid. order_to_wallet ix oid = Some (wallet_id w) \<longrightarrow> oid \<in> dom (wallet_orders w))"
    (is "_ \<longleftrightarrow> ?kept")
proof
  assume exact: "orders_exact (add_wallet w ix)"
  show ?kept
  proof (intro allI impI)
    fix oid
    assume "order_to_wallet ix oid = Some (wallet_id w)"
    then have "order_to_wallet (add_wallet w ix) oid = Some (wallet_id w)"
      by (simp add: add_wallet_fields)
    then show "oid \<in> dom (wallet_orders w)"
      using exact [unfolded orders_exact_def, rule_format, of oid "wallet_id w"]
      by (simp add: add_wallet_fields)
  qed
next
  assume ?kept
  then show "orders_exact (add_wallet w ix)"
    using assms unfolding orders_exact_def add_wallet_fields by (auto split: if_splits)
qed

subsection \<open>Iteration orders and padding\<close>

lemma pad_to_length [simp]: "length (pad_to n d xs) = n"
  by (simp add: pad_to_def)

lemma pad_to_nth: "i < n \<Longrightarrow> i < length xs \<Longrightarrow> pad_to n d xs ! i = xs ! i"
  by (simp add: pad_to_def nth_append)

definition iter_from :: "'a::linorder \<Rightarrow> 'a set \<Rightarrow> 'a list" where
  "iter_from a S = (if a \<in> S then a # sorted_list_of_set (S - {a}) else sorted_list_of_set S)"

lemma iter_from_hash: "hash_iteration (iter_from a)"
  by unfold_locales (auto simp: iter_from_def)

lemma first_order:
  "oid \<in> dom (wallet_orders w) \<Longrightarrow>
   circuit_orders (CircuitWallet_from iter_b (iter_from oid) w) ! 0 = the (wallet_orders w oid)"
  by (simp add: CircuitWallet_from_def pad_to_nth MAX_ORDERS_def map_values_def iter_from_def)

lemma rekey_inverse:
  assumes "\<And>n. from_str (to_string n) = Some n"
    and "\<forall>k\<in>set ks. m (to_string k) = b k" and "\<forall>k\<in>set ks. b k \<noteq> None"
  shows "rekey from_str m (map to_string ks) res = Ok (\<lambda>n. if n \<in> set ks then b n else res n)"
  using assms(2,3)
proof (induction ks arbitrary: res)
  case Nil
  then show ?case by simp
next
  case (Cons k ks)
  have k: "Some (the (m (to_string k))) = b k"
    using Cons.prems by (metis option.collapse list.set_intros(1))
  have "rekey from_str m (map to_string (k # ks)) res
      = rekey from_str m (map to_string ks) (res(k := b k))"
    using assms(1) by (simp add: k)
  also have "\<dots> = Ok (\<lambda>n. if n \<in> set ks then b n else (res(k := b k)) n)"
    using Cons by simp
  finally show ?case by (auto simp: fun_eq_iff)
qed

lemma serialize_balances_lookup:
  assumes "hash_iteration iter_b" and "\<And>n. from_str (to_string n) = Some n" and "finite (dom m)"
  shows "serialize_balances to_string iter_b m =
    (\<lambda>t. case from_str t of Some n \<Rightarrow> (if to_string n = t then m n else None) | None \<Rightarrow> None)"
proof
  fix t
  have inj: "to_string a = to_string b \<Longrightarrow> a = b" for a b
    using assms(2) by (metis option.inject)
  let ?ps = "rev (map (\<lambda>k. (to_string k, the (m k))) (iter_b (dom m)))"
  have dist: "distinct (map fst ?ps)"
    using hash_iteration.iter_distinct [OF assms(1,3)] inj
    by (auto simp: rev_map [symmetric] distinct_map comp_def inj_on_def)
  have set: "set ?ps = {(to_string k, the (m k)) | k. k \<in> dom m}"
    using hash_iteration.iter_set [OF assms(1,3)] by auto
  show "serialize_balances to_string iter_b m t =
    (case from_str t of Some n \<Rightarrow> (if to_string n = t then m n else None) | None \<Rightarrow> None)"
  proof (cases "\<exists>n. t = to_string n \<and> n \<in> dom m")
    case True
    then obtain n v where n: "t = to_string n" "m n = Some v" by blast
    then have "(t, v) \<in> set ?ps" unfolding set by force
    then have "map_of ?ps t = Some v"
      using dist by (rule map_of_is_SomeI [rotated])
    then show ?thesis using n assms(2) by (simp add: serialize_balances_def)
  next
    case False
    then have "map_of ?ps t = None"
      using set by (subst map_of_eq_None_iff) force
    then show ?thesis
      using False
      by (auto simp: serialize_balances_def domIff split: option.splits)
  qed
qed

lemma balances_roundtrip:
  assumes "hash_iteration iter_b" and "hash_iteration iter_s"
    and "\<And>n. from_str (to_string n) = Some n" and "finite (dom m)"
  shows "deserialize_balances from_str iter_s (serialize_balances to_string iter_b m) = Ok m"
proof -
  let ?sm = "serialize_balances to_string iter_b m"
  have look: "?sm (to_string k) = m k" for k
    by (simp add: serialize_balances_lookup [OF assms(1,3,4)] assms(3))
  have dom: "dom ?sm = to_string ` dom m"
    using assms(3)
    by (auto simp: serialize_balances_lookup [OF assms(1,3,4)] dom_def split: option.splits if_splits)
  then have fin: "finite (dom ?sm)" using assms(4) by simp
  define ks where "ks = map (\<lambda>t. the (from_str t)) (iter_s (dom ?sm))"
  have set_iter: "set (iter_s (dom ?sm)) = to_string ` dom m"
    using hash_iteration.iter_set [OF assms(2) fin] dom by simp
  then have "map to_string ks = iter_s (dom ?sm)" and "set ks = dom m"
    using assms(3) by (auto simp: ks_def image_image intro!: map_idI)
  moreover have "rekey from_str ?sm (map to_string ks) Map.empty
      = Ok (\<lambda>n. if n \<in> set ks then m n else None)"
    using \<open>set ks = dom m\<close> assms(3) look by (intro rekey_inverse) auto
  moreover have "(\<lambda>n. if n \<in> dom m then m n else None) = m"
    by (simp add: fun_eq_iff domIff)
  ultimately show ?thesis
    by (simp add: deserialize_balances_def)
qed

subsection \<open>Properties\<close>

text \<open>
  The root of an authentication path. If the siblings of a path are the values of the
  hash tree at the coordinates \<open>compute_authentication_path_coords\<close> returns, and the
  authenticated value is the leaf at the path's index, then \<open>compute_root\<close> is the root of
  that tree, for every tree of the height the contract uses and every hash function.
\<close>

theorem compute_root_is_tree_root:
  assumes "leaf_index p < 2 ^ MERKLE_HEIGHT" and "path_value p = leaf (leaf_index p)"
    and "path_siblings p = map (\<lambda>(h, j). tree_node env leaf (MERKLE_HEIGHT - h) j)
      (compute_authentication_path_coords p)"
  shows "compute_root env p = tree_node env leaf MERKLE_HEIGHT 0"
  using fold_path_tree [of MERKLE_HEIGHT MERKLE_HEIGHT env leaf "leaf_index p"] assms
  by (simp add: compute_root_def compute_authentication_path_coords_def)

theorem compute_root_is_tree_root_witness:
  "compute_root low_env \<lparr>path_siblings = map (\<lambda>(h, j). tree_node low_env id (MERKLE_HEIGHT - h) j)
       (path_coords MERKLE_HEIGHT 6), leaf_index = 6, path_value = 6\<rparr>
     = tree_node low_env id MERKLE_HEIGHT 0"
  by (rule compute_root_is_tree_root [where leaf = id])
    (simp_all add: compute_authentication_path_coords_def MERKLE_HEIGHT_def)

text \<open>
  The commitment of a wallet, and with it the match nullifier, depends on the order in
  which the hash map lists the orders. For every wallet with two orders that are absorbed
  differently there are two admissible iteration orders under which the commitment hashes
  different inputs, so two replicas of one wallet can disagree on it.
\<close>

theorem commitment_depends_on_iteration_order:
  assumes "wallet_orders w oid1 = Some a" and "wallet_orders w oid2 = Some b"
    and "absorb_order env a \<noteq> absorb_order env b"
  shows "\<exists>it1 it2. hash_iteration it1 \<and> hash_iteration it2
    \<and> wallet_preimage env (CircuitWallet_from iter_b it1 w)
      \<noteq> wallet_preimage env (CircuitWallet_from iter_b it2 w)"
proof (intro exI conjI)
  let ?v = "CircuitWallet_from iter_b (iter_from oid1) w"
  let ?w = "CircuitWallet_from iter_b (iter_from oid2) w"
  have len: "length (circuit_orders ?v) = MAX_ORDERS" "length (circuit_orders ?w) = MAX_ORDERS"
    by (simp_all add: CircuitWallet_from_def)
  have first: "circuit_orders ?v ! 0 = a" "circuit_orders ?w ! 0 = b"
    using assms(1,2) first_order [of oid1 w] first_order [of oid2 w] by auto
  have "map (absorb_order env) (circuit_orders ?v) ! 0
      \<noteq> map (absorb_order env) (circuit_orders ?w) ! 0"
    using assms(3) len first by (simp add: MAX_ORDERS_def)
  then have "map (absorb_order env) (circuit_orders ?v) \<noteq> map (absorb_order env) (circuit_orders ?w)"
    by metis
  then show "wallet_preimage env ?v \<noteq> wallet_preimage env ?w"
    by (subst wallet_preimage_parts) (simp_all add: CircuitWallet_from_def)
qed (rule iter_from_hash)+

definition two_order_wallet :: Wallet where
  "two_order_wallet = \<lparr>wallet_id = 1,
     wallet_orders = [1 \<mapsto> Order_default\<lparr>amount := 1\<rparr>, 2 \<mapsto> Order_default\<lparr>amount := 2\<rparr>],
     wallet_balances = [7 \<mapsto> \<lparr>balance_mint = 7, balance_amount = 10\<rparr>], wallet_fees = [Fee_default],
     public_keys = \<lparr>pk_root = 1, pk_match = 2, pk_settle = 3, pk_view = 4\<rparr>,
     secret_keys = \<lparr>sk_root = None, sk_match = 2, sk_settle = 3, sk_view = 4\<rparr>, randomness = 9,
     metadata = \<lparr>replicas = {}\<rparr>, merkle_proof = None, proof_staleness = 0\<rparr>"

theorem commitment_depends_on_iteration_order_witness:
  "\<exists>it1 it2. hash_iteration it1 \<and> hash_iteration it2
    \<and> wallet_preimage low_env (CircuitWallet_from sorted_list_of_set it1 two_order_wallet)
      \<noteq> wallet_preimage low_env (CircuitWallet_from sorted_list_of_set it2 two_order_wallet)"
  by (rule commitment_depends_on_iteration_order
      [of _ 1 "Order_default\<lparr>amount := 1\<rparr>" 2 "Order_default\<lparr>amount := 2\<rparr>"])
    (simp_all add: two_order_wallet_def absorb_order_def)

text \<open>
  C19: the wallet index. Every sequence of its operations keeps each wallet under its own id,
  finds every order of every wallet in the reverse index, and never points the reverse index
  at a wallet that is not there. Re-adding a wallet keeps the reverse index exact if and only
  if the new version still holds every order that was filed under the wallet.
\<close>

theorem wallet_index_invariant:
  assumes "wallets_wf ix" and "orders_exact ix"
  shows "wallets_wf (fold wallet_step opers ix)
    \<and> (orders_exact (add_wallet w ix) \<longleftrightarrow>
        (\<forall>oid. get_wallet_for_order oid ix = Some (wallet_id w) \<longrightarrow> oid \<in> dom (wallet_orders w)))"
  using wallets.fold_inv [OF assms(1)] orders_exact_add [OF assms(2)]
  by (simp add: get_wallet_for_order_def)

theorem wallet_index_invariant_witness:
  "\<not> orders_exact (add_wallet (two_order_wallet\<lparr>wallet_orders := Map.empty\<rparr>)
       (add_wallet two_order_wallet (WalletIndex_new (WrappedPeerId [1]))))"
proof -
  let ?ix = "add_wallet two_order_wallet (WalletIndex_new (WrappedPeerId [1]))"
  have "wallets_wf ?ix" and "orders_exact ?ix"
    using orders_exact_add [OF orders_exact_new [of "WrappedPeerId [1]"], of two_order_wallet]
    by (simp_all add: add_wallet_wf wallets_wf_new)
      (simp add: WalletIndex_new_def)
  from wallet_index_invariant [OF this, of "[]" "two_order_wallet\<lparr>wallet_orders := Map.empty\<rparr>"]
  show ?thesis
    by (auto simp: get_wallet_for_order_def add_wallet_fields two_order_wallet_def)
qed

text \<open>
  The balance and the fee chosen for an order. A result holds the order itself, the
  wallet's balance of the mint the order spends with at least the amount it may spend, the
  wallet's first fee, and a balance that covers its gas; the two balances are checked
  separately, so one balance can be counted for both.
\<close>

theorem order_balance_and_fee_covers:
  assumes "get_order_balance_and_fee to_f64 wid oid ix = Some (ord, bal, fee, fee_bal)"
  shows "\<exists>w. get_wallet wid ix = Some w \<and> wallet_orders w oid = Some ord
    \<and> wallet_balances w (order_spend_mint ord) = Some bal
    \<and> order_spend_amount to_f64 ord \<le> balance_amount bal
    \<and> wallet_fees w \<noteq> [] \<and> fee = hd (wallet_fees w)
    \<and> wallet_balances w (gas_addr fee) = Some fee_bal
    \<and> gas_token_amount fee \<le> balance_amount fee_bal"
  using assms unfolding get_order_balance_and_fee_def get_wallet_def
  by (auto split: option.splits if_splits list.splits)

definition one_balance_wallet :: Wallet where
  "one_balance_wallet = two_order_wallet\<lparr>
     wallet_orders := [1 \<mapsto> Order_default\<lparr>side := Sell, base_mint := 7, amount := 10\<rparr>],
     wallet_fees := [Fee_default\<lparr>gas_addr := 7, gas_token_amount := 10\<rparr>]\<rparr>"

theorem order_balance_and_fee_covers_witness:
  "get_order_balance_and_fee (\<lambda>_. (0, 0)) 1 1 (add_wallet one_balance_wallet (WalletIndex_new (WrappedPeerId [1])))
     = Some (Order_default\<lparr>side := Sell, base_mint := 7, amount := 10\<rparr>,
         \<lparr>balance_mint = 7, balance_amount = 10\<rparr>, Fee_default\<lparr>gas_addr := 7, gas_token_amount := 10\<rparr>,
         \<lparr>balance_mint = 7, balance_amount = 10\<rparr>)
   \<and> gas_token_amount (Fee_default\<lparr>gas_addr := 7, gas_token_amount := 10\<rparr>) \<le> 10"
proof -
  have *: "get_order_balance_and_fee (\<lambda>_. (0, 0)) 1 1 (add_wallet one_balance_wallet (WalletIndex_new (WrappedPeerId [1])))
     = Some (Order_default\<lparr>side := Sell, base_mint := 7, amount := 10\<rparr>,
         \<lparr>balance_mint = 7, balance_amount = 10\<rparr>, Fee_default\<lparr>gas_addr := 7, gas_token_amount := 10\<rparr>,
         \<lparr>balance_mint = 7, balance_amount = 10\<rparr>)"
    by (simp add: get_order_balance_and_fee_def add_wallet_fields one_balance_wallet_def
        two_order_wallet_def order_spend_mint_def order_spend_amount_def Fee_default_def)
  then show ?thesis
    using order_balance_and_fee_covers [OF *] by auto
qed

text \<open>
  Serialization of a wallet's secrets and balances. A private key chain of canonical
  keys, with or without the root key, and a finite balance map are read back unchanged, for
  every iteration order on the writing and on the reading side.
\<close>

theorem wallet_serialization_roundtrip:
  assumes "hash_iteration iter_b" and "hash_iteration iter_s"
    and "\<And>n. from_str (to_string n) = Some n" and "finite (dom m)"
    and "canonical (sk_match k)" "canonical (sk_settle k)" "canonical (sk_view k)"
    and "pred_option canonical (sk_root k)"
  shows "deserialize_balances from_str iter_s (serialize_balances to_string iter_b m) = Ok m
    \<and> PrivateKeyChain_visit_seq (PrivateKeyChain_serialize k) = Ok k"
proof -
  have "biguint_to_scalar a = a" if "canonical a" for a
    using that field_modulus_bounds(2) by (simp add: biguint_to_scalar_eq canonical_def)
  then have "PrivateKeyChain_visit_seq (PrivateKeyChain_serialize k) = Ok k"
    using assms(5-8)
    by (cases "sk_root k") (simp_all add: PrivateKeyChain_visit_seq_def PrivateKeyChain_serialize_def)
  then show ?thesis
    using balances_roundtrip [OF assms(1-4)] by simp
qed

theorem wallet_serialization_roundtrip_witness:
  "deserialize_balances (\<lambda>t. Some (length t)) sorted_list_of_set
     (serialize_balances (\<lambda>n. replicate n CHR ''1'') sorted_list_of_set (wallet_balances two_order_wallet))
     = Ok (wallet_balances two_order_wallet)
   \<and> PrivateKeyChain_visit_seq (PrivateKeyChain_serialize (secret_keys two_order_wallet))
     = Ok (secret_keys two_order_wallet)"
  by (rule wallet_serialization_roundtrip [OF ascending.hash_iteration_axioms _])
    (simp_all add: two_order_wallet_def canonical_def field_modulus_def ascending.hash_iteration_axioms)

end
