(* ===== verification/Relayer_State.thy ===== *)
theory Relayer_State
  imports Orderbook Wallets
begin

section \<open>The global state of the relayer\<close>

text \<open>
  The model of \<open>core/src/state/state.rs\<close>: \<open>RelayerState\<close> and the operations that combine the
  wallet index, the peer index, the order book and the handshake priorities. Each operation
  is one function on the whole state.

  The weighted sampler of the \<open>rand\<close> crate is the record \<open>weighted_index\<close>: whether
  \<open>WeightedIndex::new\<close> accepts the weights, and the index \<open>sample\<close> draws. \<open>hash_orders\<close> groups
  the iteration orders of the hash tables involved.
\<close>

record weighted_index =
  weights_accepted :: "u32 list \<Rightarrow> bool"
  weighted_sample :: "u32 list \<Rightarrow> nat"

text \<open>
  The documented contract of the sampler: weights with a positive total that fits the type
  are accepted, and the drawn index has a positive weight.
\<close>

definition weighted_index_ok :: "weighted_index \<Rightarrow> bool" where
  "weighted_index_ok wi \<longleftrightarrow>
     (\<forall>ws. 0 < sum_list (map unat ws) \<longrightarrow> sum_list (map unat ws) < 2 ^ 32 \<longrightarrow>
        weights_accepted wi ws \<and> weighted_sample wi ws < length ws)"

record RelayerState =
  debug :: bool
  local_peer_id :: WrappedPeerId
  local_keypair :: bytes
  local_cluster_id :: ClusterId
  local_addr :: bytes
  wallet_index :: WalletIndex
  peer_index :: PeerIndex
  order_book :: NetworkOrderBook
  matched_order_pairs :: "(OrderIdentifier \<times> OrderIdentifier) list"
  handshake_priorities :: HandshakePriorityStore

definition initialize_global_state ::
  "(bytes \<Rightarrow> WrappedPeerId) \<Rightarrow> bytes \<Rightarrow> bool \<Rightarrow> Wallet list \<Rightarrow> ClusterId \<Rightarrow> RelayerState" where
  "initialize_global_state to_peer_id keypair dbg wallets cid =
     (let p = to_peer_id keypair
      in \<lparr>debug = dbg, local_peer_id = p, local_keypair = keypair, local_cluster_id = cid,
          local_addr = [], wallet_index = fold add_wallet wallets (WalletIndex_new p),
          peer_index = PeerIndex_new, order_book = NetworkOrderBook_new, matched_order_pairs = [],
          handshake_priorities = HandshakePriorityStore_new\<rparr>)"

definition local_peer_info :: "RelayerState \<Rightarrow> PeerInfo call" where
  "local_peer_info st =
     (case get_peer_info (local_peer_id st) (peer_index st) of
        Some info \<Rightarrow> Returns info
      | None \<Rightarrow> Panics)"

fun effective_priorities :: "bool \<Rightarrow> HandshakePriorityStore \<Rightarrow> OrderIdentifier list \<Rightarrow> u32 list call" where
  "effective_priorities oc store [] = Returns []"
| "effective_priorities oc store (oid # oids) =
     bind_call (get_effective_priority oc (get_order_priority oid store)) (\<lambda>p.
     bind_call (effective_priorities oc store oids) (\<lambda>ps. Returns (p # ps)))"

definition choose_handshake_order ::
  "bool \<Rightarrow> (OrderIdentifier set \<Rightarrow> OrderIdentifier list) \<Rightarrow> weighted_index \<Rightarrow> RelayerState
    \<Rightarrow> OrderIdentifier option call" where
  "choose_handshake_order oc iter wi st =
     (let verified = get_nonlocal_verified_orders iter (order_book st)
      in if verified = [] then Returns None
         else bind_call (effective_priorities oc (handshake_priorities st) verified) (\<lambda>ps.
           if weights_accepted wi ps
           then (let i = weighted_sample wi ps
                 in if i < length verified then Returns (Some (verified ! i)) else Panics)
           else Panics))"

definition get_peer_managing_order ::
  "(WrappedPeerId set \<Rightarrow> WrappedPeerId list) \<Rightarrow> (nat \<Rightarrow> nat) \<Rightarrow> OrderIdentifier \<Rightarrow> RelayerState
    \<Rightarrow> WrappedPeerId option" where
  "get_peer_managing_order iter gen_range oid st =
     (case get_order_info oid (order_book st) of
        None \<Rightarrow> None
      | Some x \<Rightarrow> sample_cluster_peer iter gen_range (order_cluster x) (peer_index st))"

subsection \<open>Peer index setters\<close>

definition add_known_peer ::
  "cluster_crypto \<Rightarrow> u64 \<Rightarrow> (WrappedPeerId \<rightharpoonup> PeerInfo) \<Rightarrow> WrappedPeerId \<Rightarrow> PeerIndex \<Rightarrow> PeerIndex" where
  "add_known_peer c now infos p ix =
     (case infos p of
        Some info \<Rightarrow>
          if verify_cluster_auth_sig c info then add_peer (successful_heartbeat now info) ix else ix
      | None \<Rightarrow> ix)"

definition add_peers ::
  "cluster_crypto \<Rightarrow> u64 \<Rightarrow> WrappedPeerId list \<Rightarrow> (WrappedPeerId \<rightharpoonup> PeerInfo) \<Rightarrow> RelayerState
    \<Rightarrow> RelayerState" where
  "add_peers c now peer_ids infos st =
     st\<lparr>peer_index := fold (add_known_peer c now infos) peer_ids (peer_index st)\<rparr>"

definition add_single_peer ::
  "cluster_crypto \<Rightarrow> u64 \<Rightarrow> WrappedPeerId \<Rightarrow> PeerInfo \<Rightarrow> RelayerState \<Rightarrow> RelayerState" where
  "add_single_peer c now p info st = add_peers c now [p] [p \<mapsto> info] st"

definition remove_peer :: "WrappedPeerId \<Rightarrow> RelayerState \<Rightarrow> RelayerState call" where
  "remove_peer p st =
     bind_call (index_remove_peer p (peer_index st)) (\<lambda>(_, ix).
       Returns (st\<lparr>peer_index := ix, wallet_index := remove_peer_replicas p (wallet_index st)\<rparr>))"

subsection \<open>Order book setters\<close>

definition state_add_order :: "NetworkOrder \<Rightarrow> RelayerState \<Rightarrow> RelayerState" where
  "state_add_order x st =
     st\<lparr>handshake_priorities := priority_new_order (order_id x) (order_cluster x) (handshake_priorities st),
        order_book := add_order x (order_book st)\<rparr>"

definition add_order_validity_proof ::
  "OrderIdentifier \<Rightarrow> ValidCommitmentsBundle \<Rightarrow> RelayerState \<Rightarrow> RelayerState" where
  "add_order_validity_proof oid pf st =
     st\<lparr>order_book := update_order_validity_proof oid pf (order_book st)\<rparr>"

definition nullify_orders ::
  "(OrderIdentifier set \<Rightarrow> OrderIdentifier list) \<Rightarrow> scalar \<Rightarrow> RelayerState \<Rightarrow> RelayerState" where
  "nullify_orders iter n st =
     st\<lparr>order_book :=
        fold book_transition_cancelled (get_orders_by_nullifier iter n (order_book st)) (order_book st)\<rparr>"

subsection \<open>Wallet index setters\<close>

definition add_one_wallet ::
  "sponge_env \<Rightarrow> (nat set \<Rightarrow> nat list) \<Rightarrow> (OrderIdentifier set \<Rightarrow> OrderIdentifier list) \<Rightarrow> Wallet
    \<Rightarrow> RelayerState \<Rightarrow> RelayerState" where
  "add_one_wallet env iter_b iter_o w st =
     (let n = wallet_match_nullifier env iter_b iter_o w
      in st\<lparr>wallet_index := add_wallet w (wallet_index st),
            order_book := fold (\<lambda>oid. add_order (NetworkOrder_new oid n (local_cluster_id st) True))
              (iter_o (dom (wallet_orders w))) (order_book st)\<rparr>)"

definition add_wallets ::
  "sponge_env \<Rightarrow> (nat set \<Rightarrow> nat list) \<Rightarrow> (OrderIdentifier set \<Rightarrow> OrderIdentifier list) \<Rightarrow> Wallet list
    \<Rightarrow> RelayerState \<Rightarrow> RelayerState" where
  "add_wallets env iter_b iter_o wallets st = fold (add_one_wallet env iter_b iter_o) wallets st"

definition mark_order_pair_matched ::
  "OrderIdentifier \<Rightarrow> OrderIdentifier \<Rightarrow> RelayerState \<Rightarrow> RelayerState" where
  "mark_order_pair_matched o1 o2 st =
     st\<lparr>handshake_priorities :=
          priority_remove_order o2 (priority_remove_order o1 (handshake_priorities st)),
        matched_order_pairs := matched_order_pairs st @ [(o1, o2)]\<rparr>"

subsection \<open>The heartbeat\<close>

record HeartbeatMessage =
  managed_wallets :: "WalletIdentifier \<rightharpoonup> WalletMetadata"
  known_peers :: "string \<rightharpoonup> PeerInfo"
  heartbeat_orders :: "(OrderIdentifier \<times> ClusterId) list"

definition construct_heartbeat ::
  "(WrappedPeerId \<Rightarrow> string) \<Rightarrow> (WrappedPeerId set \<Rightarrow> WrappedPeerId list)
    \<Rightarrow> (OrderIdentifier set \<Rightarrow> OrderIdentifier list) \<Rightarrow> RelayerState \<Rightarrow> HeartbeatMessage" where
  "construct_heartbeat to_string iter_p iter_o st =
     \<lparr>managed_wallets = get_metadata_map (wallet_index st),
      known_peers = map_of (rev (map (\<lambda>p. (to_string p, the (get_info_map iter_p (peer_index st) p)))
        (iter_p (dom (get_info_map iter_p (peer_index st)))))),
      heartbeat_orders = get_order_owner_pairs iter_o (order_book st)\<rparr>"

subsection \<open>The invariant of the whole state\<close>

text \<open>
  Every peer in the index carries a valid cluster signature.
\<close>

definition peers_authentic :: "cluster_crypto \<Rightarrow> PeerIndex \<Rightarrow> bool" where
  "peers_authentic c ix \<longleftrightarrow>
     (\<forall>p info. peer_map ix p = Some info \<longrightarrow> verify_cluster_auth_sig c info)"

definition relayer_inv :: "cluster_crypto \<Rightarrow> RelayerState \<Rightarrow> bool" where
  "relayer_inv c st \<longleftrightarrow>
     book_inv (order_book st) \<and> nullifiers_indexed (order_book st)
     \<and> peers_wf (peer_index st) \<and> peers_authentic c (peer_index st)
     \<and> wallets_wf (wallet_index st) \<and> default_priorities (handshake_priorities st)"

datatype relayer_op =
    OpAddPeers u64 "WrappedPeerId list" "WrappedPeerId \<rightharpoonup> PeerInfo"
  | OpRemovePeer WrappedPeerId
  | OpHeartbeat u64 WrappedPeerId
  | OpAddOrder NetworkOrder
  | OpAddProof OrderIdentifier ValidCommitmentsBundle
  | OpAttachWitness OrderIdentifier CommitmentsWitness
  | OpNullify scalar
  | OpAddWallets "Wallet list"
  | OpWallet wallet_op
  | OpMarkMatched OrderIdentifier OrderIdentifier

text \<open>A call that panics ends the calling task; the state is left as it was.\<close>

fun relayer_step :: "cluster_crypto \<Rightarrow> sponge_env \<Rightarrow> (nat set \<Rightarrow> nat list)
    \<Rightarrow> (OrderIdentifier set \<Rightarrow> OrderIdentifier list) \<Rightarrow> relayer_op \<Rightarrow> RelayerState \<Rightarrow> RelayerState" where
  "relayer_step c env ib io (OpAddPeers now ps infos) st = add_peers c now ps infos st"
| "relayer_step c env ib io (OpRemovePeer p) st = returned_or st (remove_peer p st)"
| "relayer_step c env ib io (OpHeartbeat now p) st =
     st\<lparr>peer_index := index_record_heartbeat now p (peer_index st)\<rparr>"
| "relayer_step c env ib io (OpAddOrder x) st = state_add_order x st"
| "relayer_step c env ib io (OpAddProof oid pf) st = add_order_validity_proof oid pf st"
| "relayer_step c env ib io (OpAttachWitness oid w) st =
     st\<lparr>order_book := attach_validity_proof_witness oid w (order_book st)\<rparr>"
| "relayer_step c env ib io (OpNullify n) st = nullify_orders io n st"
| "relayer_step c env ib io (OpAddWallets ws) st = add_wallets env ib io ws st"
| "relayer_step c env ib io (OpWallet oper) st =
     st\<lparr>wallet_index := wallet_step oper (wallet_index st)\<rparr>"
| "relayer_step c env ib io (OpMarkMatched o1 o2) st = mark_order_pair_matched o1 o2 st"

text \<open>What the components promise about single operations, collected for the whole state.\<close>

lemma book_ok_step:
  "book_inv b \<and> nullifiers_indexed b \<Longrightarrow> (\<And>oid pf. oper \<noteq> ToVerified oid pf) \<Longrightarrow>
   book_inv (book_step oper b) \<and> nullifiers_indexed (book_step oper b)"
  by (simp add: book.step_inv nullifiers_indexed_step)

lemma book_ok_add: "book_inv b \<and> nullifiers_indexed b \<Longrightarrow>
    book_inv (add_order x b) \<and> nullifiers_indexed (add_order x b)"
  using book_ok_step [of b "AddOrder x"] by simp

lemma book_ok_proof: "book_inv b \<and> nullifiers_indexed b \<Longrightarrow>
    book_inv (update_order_validity_proof oid pf b) \<and> nullifiers_indexed (update_order_validity_proof oid pf b)"
  using book_ok_step [of b "UpdateProof oid pf"] by simp

lemma book_ok_witness: "book_inv b \<and> nullifiers_indexed b \<Longrightarrow>
    book_inv (attach_validity_proof_witness oid w b) \<and> nullifiers_indexed (attach_validity_proof_witness oid w b)"
  using book_ok_step [of b "AttachWitness oid w"] by simp

lemma book_ok_cancelled: "book_inv b \<and> nullifiers_indexed b \<Longrightarrow>
    book_inv (book_transition_cancelled oid b) \<and> nullifiers_indexed (book_transition_cancelled oid b)"
  using book_ok_step [of b "ToCancelled oid"] by simp

interpretation cancelling: preserved "\<lambda>b. book_inv b \<and> nullifiers_indexed b" book_transition_cancelled
  by unfold_locales (rule book_ok_cancelled)

interpretation adding_orders:
  preserved "\<lambda>b. book_inv b \<and> nullifiers_indexed b" "\<lambda>oid. add_order (f oid)" for f
  by unfold_locales (rule book_ok_add)

lemma verify_ignores_heartbeat [simp]:
  "verify_cluster_auth_sig c (successful_heartbeat now info) = verify_cluster_auth_sig c info"
  by (simp add: verify_cluster_auth_sig_def successful_heartbeat_def cong: option.case_cong)

lemma peers_authentic_add:
  "peers_authentic c ix \<Longrightarrow> verify_cluster_auth_sig c info \<Longrightarrow> peers_authentic c (add_peer info ix)"
  by (simp add: peers_authentic_def add_peer_map)

lemma add_known_peer_inv:
  "peers_wf ix \<and> peers_authentic c ix \<Longrightarrow>
   peers_wf (add_known_peer c now infos p ix) \<and> peers_authentic c (add_known_peer c now infos p ix)"
  by (simp add: add_known_peer_def peers_wf_add peers_authentic_add split: option.split)

interpretation adding_peers:
  preserved "\<lambda>ix. peers_wf ix \<and> peers_authentic c ix" "add_known_peer c now infos" for c now infos
  by unfold_locales (rule add_known_peer_inv)

lemma peers_authentic_heartbeat:
  "peers_authentic c ix \<Longrightarrow> peers_authentic c (index_record_heartbeat now p ix)"
  by (auto simp: peers_authentic_def index_record_heartbeat_def split: option.split)

lemma relayer_inv_add_wallet:
  assumes "relayer_inv c st"
  shows "relayer_inv c (add_one_wallet env ib io w st)"
  using assms adding_orders.fold_inv [of "order_book st"]
  by (simp add: relayer_inv_def add_one_wallet_def Let_def add_wallet_wf)

interpretation adding_wallets: preserved "relayer_inv c" "add_one_wallet env ib io" for c env ib io
  by unfold_locales (rule relayer_inv_add_wallet)

lemma relayer_inv_remove_peer:
  assumes "relayer_inv c st"
  shows "\<exists>st'. remove_peer p st = Returns st' \<and> relayer_inv c st'
    \<and> peer_map (peer_index st') = (peer_map (peer_index st))(p := None)
    \<and> wallet_index st' = remove_peer_replicas p (wallet_index st)"
proof -
  obtain ix' where "index_remove_peer p (peer_index st) = Returns (peer_map (peer_index st) p, ix')"
    "peers_wf ix'" "peer_map ix' = (peer_map (peer_index st))(p := None)"
    using index_remove_peer_returns assms unfolding relayer_inv_def by blast
  then show ?thesis
    using assms
    by (simp add: remove_peer_def relayer_inv_def peers_authentic_def remove_peer_replicas_wf)
qed

lemma relayer_inv_step:
  assumes "relayer_inv c st"
  shows "relayer_inv c (relayer_step c env ib io oper st)"
proof (cases oper)
  case (OpAddPeers now ps infos)
  then show ?thesis
    using assms adding_peers.fold_inv [of "peer_index st" c]
    by (simp add: relayer_inv_def add_peers_def)
next
  case (OpRemovePeer p)
  then show ?thesis
    using relayer_inv_remove_peer [OF assms, of p] by auto
next
  case (OpNullify n)
  then show ?thesis
    using assms cancelling.fold_inv [of "order_book st"]
    by (simp add: relayer_inv_def nullify_orders_def)
next
  case (OpAddWallets ws)
  then show ?thesis
    using adding_wallets.fold_inv [OF assms] by (simp add: add_wallets_def)
next
  case (OpWallet w)
  then show ?thesis
    using assms wallets.step_inv by (simp add: relayer_inv_def)
qed (use assms in \<open>simp_all add: relayer_inv_def peers_wf_heartbeat peers_authentic_heartbeat
      state_add_order_def add_order_validity_proof_def mark_order_pair_matched_def
      book_ok_add book_ok_proof book_ok_witness\<close>)

interpretation relayer: preserved "relayer_inv c" "relayer_step c env ib io" for c env ib io
  by unfold_locales (rule relayer_inv_step)

lemma relayer_inv_init:
  "relayer_inv c (initialize_global_state to_peer_id keypair dbg wallets cid)"
proof -
  have "wallets_wf (fold add_wallet ws ix)" if "wallets_wf ix" for ws ix
    using that by (induction ws arbitrary: ix) (simp_all add: add_wallet_wf)
  moreover have "peers_authentic c PeerIndex_new"
    by (simp add: peers_authentic_def PeerIndex_new_def)
  ultimately show ?thesis
    by (simp add: relayer_inv_def initialize_global_state_def Let_def peers_wf_new wallets_wf_new)
qed

subsection \<open>Cancelling the orders of a nullifier\<close>

lemma cancelled_fields:
  "order_map (book_transition_cancelled oid b) =
     (\<lambda>q. if q = oid then map_option order_transition_cancelled (order_map b q) else order_map b q)"
  "verified_orders (book_transition_cancelled oid b) =
     (if order_map b oid = None then verified_orders b else verified_orders b - {oid})"
  by (auto simp: book_transition_cancelled_def book_fields fun_eq_iff split: option.splits)

lemma fold_cancelled:
  assumes "distinct oids"
  shows "order_map (fold book_transition_cancelled oids b) =
      (\<lambda>q. if q \<in> set oids then map_option order_transition_cancelled (order_map b q) else order_map b q)
    \<and> verified_orders (fold book_transition_cancelled oids b) =
      verified_orders b - (set oids \<inter> dom (order_map b))"
  using assms
proof (induction oids arbitrary: b)
  case Nil
  then show ?case by simp
next
  case (Cons oid oids)
  let ?b = "book_transition_cancelled oid b"
  have IH: "order_map (fold book_transition_cancelled oids ?b) =
      (\<lambda>q. if q \<in> set oids then map_option order_transition_cancelled (order_map ?b q) else order_map ?b q)"
    "verified_orders (fold book_transition_cancelled oids ?b) =
      verified_orders ?b - (set oids \<inter> dom (order_map ?b))"
    using Cons by simp_all
  have "dom (order_map ?b) = dom (order_map b)"
    by (auto simp: cancelled_fields dom_def split: if_splits)
  then show ?case
    using IH Cons.prems by (auto simp: cancelled_fields fun_eq_iff domIff)
qed

lemma priorities_all_default:
  "default_priorities s \<Longrightarrow> effective_priorities oc s oids = Returns (replicate (length oids) 1)"
  by (induction oids) (simp_all add: get_order_priority_default)

subsection \<open>Properties\<close>

text \<open>
  C8: the invariant of the relayer. Starting from the initial state, every sequence of
  operations keeps: the order book's indices (by id, nullifier, locality and verification)
  complete; every peer filed under its id and in its cluster, with a valid cluster
  signature; the wallet index consistent; and the handshake priorities free of overflow.
  In every such state removing a peer returns, and drops the peer from the index.
\<close>

theorem relayer_state_invariant:
  "let st = fold (relayer_step c env ib io) opers
       (initialize_global_state to_peer_id keypair dbg wallets cid)
   in relayer_inv c st
      \<and> (\<exists>st'. remove_peer p st = Returns st' \<and> \<not> contains_peer p (peer_index st'))"
proof -
  have "relayer_inv c (fold (relayer_step c env ib io) opers
       (initialize_global_state to_peer_id keypair dbg wallets cid))"
    by (rule relayer.fold_inv [OF relayer_inv_init])
  moreover from relayer_inv_remove_peer [OF this, of p]
  have "\<exists>st'. remove_peer p (fold (relayer_step c env ib io) opers
       (initialize_global_state to_peer_id keypair dbg wallets cid)) = Returns st'
     \<and> \<not> contains_peer p (peer_index st')"
    by (auto simp: contains_peer_def)
  ultimately show ?thesis by (simp add: Let_def)
qed

text \<open>
  C10: when a nullifier is seen on chain, \<open>nullify_orders\<close> cancels every order whose match
  nullifier it is: afterwards each is \<open>Cancelled\<close>, without proof or witness, and not in the
  verified index; an order that was never filed under the nullifier is left alone.
\<close>

theorem nullify_orders_cancels:
  assumes "hash_iteration io" and "relayer_inv c st"
  shows "case get_order_info oid (order_book st) of
      None \<Rightarrow> get_order_info oid (order_book (nullify_orders io n st)) = None
    | Some x \<Rightarrow>
        (if match_nullifier x = n
         then get_order_info oid (order_book (nullify_orders io n st)) = Some (order_transition_cancelled x)
           \<and> oid \<notin> verified_orders (order_book (nullify_orders io n st))
         else oid \<notin> set (get_orders_by_nullifier io n (order_book st)) \<longrightarrow>
           get_order_info oid (order_book (nullify_orders io n st)) = Some x)"
proof -
  let ?b = "order_book st"
  let ?oids = "get_orders_by_nullifier io n ?b"
  have fin: "orders_by_nullifier ?b k = Some S \<Longrightarrow> finite S" for k S
    using assms(2) by (simp add: relayer_inv_def book_inv_def finite_book_def)
  have dist: "distinct ?oids"
    using fin hash_iteration.iter_distinct [OF assms(1)]
    by (auto simp: get_orders_by_nullifier_def read_nullifier_order_set_def split: option.split)
  have found: "oid \<in> set ?oids" if x: "order_map ?b oid = Some x" "match_nullifier x = n" for x
  proof -
    obtain S where "orders_by_nullifier ?b n = Some S" "oid \<in> S"
      using assms(2) x unfolding relayer_inv_def nullifiers_indexed_def by blast
    then show ?thesis
      using fin hash_iteration.iter_set [OF assms(1)]
      by (simp add: get_orders_by_nullifier_def read_nullifier_order_set_def)
  qed
  have "order_map (order_book (nullify_orders io n st)) =
      (\<lambda>q. if q \<in> set ?oids then map_option order_transition_cancelled (order_map ?b q) else order_map ?b q)"
    and "verified_orders (order_book (nullify_orders io n st)) =
      verified_orders ?b - (set ?oids \<inter> dom (order_map ?b))"
    using fold_cancelled [OF dist, of ?b] by (simp_all add: nullify_orders_def)
  then show ?thesis
    using found by (cases "order_map ?b oid") (simp_all add: get_order_info_def domIff)
qed

definition example_state :: RelayerState where
  "example_state = (initialize_global_state (\<lambda>_. WrappedPeerId [0]) [] False [] (ClusterId ''c''))
     \<lparr>order_book := example_book\<rparr>"

lemma example_state_inv: "relayer_inv c example_state"
proof -
  have "nullifiers_indexed example_book"
    by (simp add: nullifiers_indexed_def example_book_fields)
  then show ?thesis
    using relayer_inv_init book_reachable_inv [OF example_book_reachable]
    by (simp add: relayer_inv_def example_state_def)
qed

theorem nullify_orders_cancels_witness:
  "get_order_info 1 (order_book (nullify_orders sorted_list_of_set 6 example_state))
     = Some (order_transition_cancelled (the (order_map example_book 1)))
   \<and> 1 \<notin> verified_orders (order_book (nullify_orders sorted_list_of_set 6 example_state))"
  using nullify_orders_cancels [OF ascending.hash_iteration_axioms example_state_inv, of 1 6]
  by (simp add: example_state_def get_order_info_def example_book_fields)

text \<open>
  C11: choosing an order to handshake on never panics: in every state the relayer can reach
  with fewer than \<open>2 ^ 32\<close> verified orders, it returns an order of the verified index that is
  not managed locally, and returns none exactly when there is no such order.
\<close>

theorem choose_handshake_order_total:
  assumes "hash_iteration io" and "weighted_index_ok wi" and "relayer_inv c st"
    and "card (verified_orders (order_book st)) < 2 ^ 32"
  shows "\<exists>r. choose_handshake_order oc io wi st = Returns r
    \<and> (case r of None \<Rightarrow> verified_orders (order_book st) \<subseteq> local_orders (order_book st)
       | Some oid \<Rightarrow> oid \<in> verified_orders (order_book st) - local_orders (order_book st))"
proof -
  let ?V = "verified_orders (order_book st) - local_orders (order_book st)"
  have fin: "finite (verified_orders (order_book st))"
    using assms(3) by (simp add: relayer_inv_def book_inv_def finite_book_def)
  then have V: "set (io ?V) = ?V" "length (io ?V) = card ?V"
    using hash_iteration.iter_set [OF assms(1)] hash_iteration.length_iter [OF assms(1)] by auto
  have "card ?V < 2 ^ 32"
    using assms(4) card_mono [OF fin, of ?V] by auto
  then have len: "length (io ?V) < 2 ^ 32" by (simp add: V)
  show ?thesis
  proof (cases "io ?V = []")
    case True
    then have "?V = {}" using V(1) by simp
    then show ?thesis
      using True by (auto simp: choose_handshake_order_def get_nonlocal_verified_orders_def Let_def)
  next
    case False
    let ?ps = "replicate (length (io ?V)) (1 :: u32)"
    have "sum_list (map unat ?ps) = length (io ?V)"
      by (simp add: sum_list_replicate)
    then have ok: "weights_accepted wi ?ps" "weighted_sample wi ?ps < length (io ?V)"
      using assms(2) [unfolded weighted_index_ok_def, rule_format, of ?ps] False len by simp_all
    then have "io ?V ! weighted_sample wi ?ps \<in> ?V"
      using V(1) nth_mem by blast
    then show ?thesis
      using False ok assms(3)
      by (simp add: choose_handshake_order_def get_nonlocal_verified_orders_def Let_def relayer_inv_def
          priorities_all_default)
  qed
qed

definition first_sampler :: weighted_index where
  "first_sampler = \<lparr>weights_accepted = (\<lambda>ws. 0 < sum_list (map unat ws)), weighted_sample = (\<lambda>_. 0)\<rparr>"

theorem choose_handshake_order_total_witness:
  "\<exists>r. choose_handshake_order True sorted_list_of_set first_sampler example_state = Returns r
    \<and> (case r of None \<Rightarrow> verified_orders (order_book example_state) \<subseteq> local_orders (order_book example_state)
       | Some oid \<Rightarrow> oid \<in> verified_orders (order_book example_state) - local_orders (order_book example_state))"
proof (rule choose_handshake_order_total [OF ascending.hash_iteration_axioms _ example_state_inv])
  show "weighted_index_ok first_sampler"
    unfolding weighted_index_ok_def
  proof (intro allI impI)
    fix ws :: "u32 list"
    assume "0 < sum_list (map unat ws)"
    then show "weights_accepted first_sampler ws \<and> weighted_sample first_sampler ws < length ws"
      by (cases ws) (simp_all add: first_sampler_def)
  qed
  show "card (verified_orders (order_book example_state)) < 2 ^ 32"
    by (simp add: example_state_def example_book_fields)
qed

end
