(* ===== verification/Gossip_Api.thy ===== *)
theory Gossip_Api
  imports Relayer_State
begin

section \<open>Messages between relayers\<close>

text \<open>
  The model of \<open>core/src/gossip_api\<close>: the messages relayers exchange, which of them must be
  signed with the cluster key, and the signing and checking of requests, responses and
  pubsub messages. The channel on which a libp2p response is sent is an opaque handle, a
  network address a sequence of bytes, and the JSON form of a message body a function
  \<open>to_json\<close>, an argument.
\<close>

type_synonym response_handle = nat
type_synonym multiaddr = bytes

subsection \<open>Handshake messages\<close>

datatype MatchRejectionReason = Cached | LocalOrderNotReady | NoValidityProof

datatype HandshakeMessage =
    HandshakeAck
  | ProposeMatchCandidate WrappedPeerId OrderIdentifier OrderIdentifier
  | RejectMatchCandidate WrappedPeerId OrderIdentifier OrderIdentifier MatchRejectionReason
  | ExecuteMatch WrappedPeerId u16 bool OrderIdentifier OrderIdentifier

subsection \<open>Cluster and order book management\<close>

record ClusterJoinMessage =
  join_peer_id :: WrappedPeerId
  join_peer_info :: PeerInfo
  join_addr :: multiaddr

datatype ClusterManagementMessage =
    Join ClusterJoinMessage
  | Replicated "WalletIdentifier list" WrappedPeerId
  | MatchInProgress OrderIdentifier OrderIdentifier
  | CacheSync OrderIdentifier OrderIdentifier
  | RequestOrderValidityProof "OrderIdentifier list" WrappedPeerId
  | RequestOrderValidityWitness OrderIdentifier WrappedPeerId

definition ORDER_BOOK_TOPIC :: string where
  "ORDER_BOOK_TOPIC = ''orderbook''"

datatype OrderBookManagementMessage =
    OrderReceived OrderIdentifier scalar ClusterId
  | OrderProofUpdated OrderIdentifier ClusterId ValidCommitmentsBundle

subsection \<open>Requests, responses, pubsub messages and directives\<close>

datatype GossipRequest =
    ReqBootstrap PeerInfo
  | ReqHeartbeat HeartbeatMessage
  | ReqHandshake uuid HandshakeMessage
  | ReqOrderInfo OrderIdentifier
  | ReqReplicate "Wallet list"
  | ReqValidityProof OrderIdentifier ValidCommitmentsBundle
  | ReqValidityWitness OrderIdentifier CommitmentsWitness

fun request_requires_cluster_auth :: "GossipRequest \<Rightarrow> bool" where
  "request_requires_cluster_auth (ReqBootstrap _) = False"
| "request_requires_cluster_auth (ReqHeartbeat _) = False"
| "request_requires_cluster_auth (ReqHandshake _ _) = False"
| "request_requires_cluster_auth (ReqOrderInfo _) = False"
| "request_requires_cluster_auth (ReqReplicate _) = False"
| "request_requires_cluster_auth (ReqValidityProof _ _) = True"
| "request_requires_cluster_auth (ReqValidityWitness _ _) = True"

datatype GossipResponse =
    RespAck
  | RespHeartbeat HeartbeatMessage
  | RespHandshake uuid HandshakeMessage
  | RespOrderInfo OrderIdentifier "NetworkOrder option"

fun response_requires_cluster_auth :: "GossipResponse \<Rightarrow> bool" where
  "response_requires_cluster_auth RespAck = False"
| "response_requires_cluster_auth (RespHeartbeat _) = False"
| "response_requires_cluster_auth (RespHandshake _ _) = False"
| "response_requires_cluster_auth (RespOrderInfo _ _) = False"

datatype PubsubMessage =
    ClusterManagement ClusterId ClusterManagementMessage
  | OrderBookManagement OrderBookManagementMessage

fun pubsub_requires_cluster_auth :: "PubsubMessage \<Rightarrow> bool" where
  "pubsub_requires_cluster_auth (ClusterManagement _ _) = True"
| "pubsub_requires_cluster_auth (OrderBookManagement _) = False"

datatype ConnectionRole = Dialer | Listener

fun get_party_id :: "ConnectionRole \<Rightarrow> u64" where
  "get_party_id Dialer = 0"
| "get_party_id Listener = 1"

datatype ManagerControlDirective =
    BrokerMpcNet uuid WrappedPeerId u16 u16 ConnectionRole
  | NewAddr WrappedPeerId multiaddr
  | GossipWarmupComplete

datatype GossipOutbound =
    OutRequest WrappedPeerId GossipRequest
  | OutResponse response_handle GossipResponse
  | OutPubsub string PubsubMessage
  | OutManagement ManagerControlDirective

subsection \<open>Signatures\<close>

text \<open>
  The three authenticated wrappers have the same code; \<open>requires\<close> and \<open>to_json\<close> are those of
  the wrapped type.
\<close>

record 'b authenticated =
  auth_sig :: bytes
  auth_body :: 'b

definition new_with_body ::
  "cluster_crypto \<Rightarrow> ('b \<Rightarrow> bytes) \<Rightarrow> ('b \<Rightarrow> bool) \<Rightarrow> 'b \<Rightarrow> bytes \<Rightarrow> 'b authenticated option" where
  "new_with_body c to_json requires body keypair =
     (if requires body
      then map_option (\<lambda>s. \<lparr>auth_sig = s, auth_body = body\<rparr>) (sign_prehashed c keypair (sha512 c (to_json body)))
      else Some \<lparr>auth_sig = [], auth_body = body\<rparr>)"

definition verify_cluster_auth ::
  "cluster_crypto \<Rightarrow> ('b \<Rightarrow> bytes) \<Rightarrow> ('b \<Rightarrow> bool) \<Rightarrow> bytes \<Rightarrow> 'b authenticated \<Rightarrow> bool" where
  "verify_cluster_auth c to_json requires pubkey msg =
     (if \<not> requires (auth_body msg) then True
      else case signature_from_bytes c (auth_sig msg) of
             Some sig \<Rightarrow> verify_prehashed c pubkey (sha512 c (to_json (auth_body msg))) sig
           | None \<Rightarrow> False)"

definition request_new_with_body ::
  "cluster_crypto \<Rightarrow> (GossipRequest \<Rightarrow> bytes) \<Rightarrow> GossipRequest \<Rightarrow> bytes \<Rightarrow> GossipRequest authenticated option" where
  "request_new_with_body c to_json = new_with_body c to_json request_requires_cluster_auth"

definition request_verify_cluster_auth ::
  "cluster_crypto \<Rightarrow> (GossipRequest \<Rightarrow> bytes) \<Rightarrow> bytes \<Rightarrow> GossipRequest authenticated \<Rightarrow> bool" where
  "request_verify_cluster_auth c to_json = verify_cluster_auth c to_json request_requires_cluster_auth"

definition response_new_ack :: "GossipResponse authenticated" where
  "response_new_ack = \<lparr>auth_sig = [], auth_body = RespAck\<rparr>"

definition response_new_with_body ::
  "cluster_crypto \<Rightarrow> (GossipResponse \<Rightarrow> bytes) \<Rightarrow> GossipResponse \<Rightarrow> bytes \<Rightarrow> GossipResponse authenticated option" where
  "response_new_with_body c to_json = new_with_body c to_json response_requires_cluster_auth"

definition response_verify_cluster_auth ::
  "cluster_crypto \<Rightarrow> (GossipResponse \<Rightarrow> bytes) \<Rightarrow> bytes \<Rightarrow> GossipResponse authenticated \<Rightarrow> bool" where
  "response_verify_cluster_auth c to_json = verify_cluster_auth c to_json response_requires_cluster_auth"

definition pubsub_new_with_body ::
  "cluster_crypto \<Rightarrow> (PubsubMessage \<Rightarrow> bytes) \<Rightarrow> PubsubMessage \<Rightarrow> bytes \<Rightarrow> PubsubMessage authenticated option" where
  "pubsub_new_with_body c to_json = new_with_body c to_json pubsub_requires_cluster_auth"

definition pubsub_verify_cluster_auth ::
  "cluster_crypto \<Rightarrow> (PubsubMessage \<Rightarrow> bytes) \<Rightarrow> bytes \<Rightarrow> PubsubMessage authenticated \<Rightarrow> bool" where
  "pubsub_verify_cluster_auth c to_json = verify_cluster_auth c to_json pubsub_requires_cluster_auth"

lemmas auth_defs =
  request_new_with_body_def request_verify_cluster_auth_def response_new_with_body_def
  response_verify_cluster_auth_def pubsub_new_with_body_def pubsub_verify_cluster_auth_def

lemma new_with_body_verifies:
  assumes "crypto_complete c"
  shows "\<exists>msg. new_with_body c to_json requires body k = Some msg \<and> auth_body msg = body
    \<and> verify_cluster_auth c to_json requires (public_of c k) msg"
proof (cases "requires body")
  case True
  obtain s where "sign_prehashed c k (sha512 c (to_json body)) = Some s"
    "signature_from_bytes c s = Some s" "verify_prehashed c (public_of c k) (sha512 c (to_json body)) s"
    using assms unfolding crypto_complete_def by blast
  then show ?thesis
    using True by (simp add: new_with_body_def verify_cluster_auth_def)
qed (simp add: new_with_body_def verify_cluster_auth_def)

lemma verify_cluster_auth_iff:
  "verify_cluster_auth c to_json requires pubkey \<lparr>auth_sig = s, auth_body = b\<rparr> \<longleftrightarrow>
    (requires b \<longrightarrow> (\<exists>sig. signature_from_bytes c s = Some sig
      \<and> verify_prehashed c pubkey (sha512 c (to_json b)) sig))"
  by (auto simp: verify_cluster_auth_def split: option.split)

subsection \<open>Properties\<close>

text \<open>
  Authentication of messages. Given signature libraries that behave as documented, every
  request, response and pubsub message a cluster member builds is accepted under the
  cluster's public key. Conversely, an accepted message whose kind requires authentication
  (a validity proof, a validity witness, a cluster management message) carries a signature
  that verifies under that key; every other kind is accepted with any signature.
\<close>

theorem cluster_messages_authenticated:
  assumes "crypto_complete c"
  shows "(\<exists>msg. request_new_with_body c to_json req k = Some msg \<and> auth_body msg = req
            \<and> request_verify_cluster_auth c to_json (public_of c k) msg)
    \<and> (\<exists>msg. pubsub_new_with_body c to_json' pm k = Some msg \<and> auth_body msg = pm
            \<and> pubsub_verify_cluster_auth c to_json' (public_of c k) msg)
    \<and> (request_verify_cluster_auth c to_json pubkey \<lparr>auth_sig = s, auth_body = req\<rparr> \<longleftrightarrow>
         ((\<exists>oid pf. req = ReqValidityProof oid pf) \<or> (\<exists>oid w. req = ReqValidityWitness oid w) \<longrightarrow>
          (\<exists>sig. signature_from_bytes c s = Some sig
             \<and> verify_prehashed c pubkey (sha512 c (to_json req)) sig)))
    \<and> (pubsub_verify_cluster_auth c to_json' pubkey \<lparr>auth_sig = s, auth_body = pm\<rparr> \<longleftrightarrow>
         ((\<exists>cid m. pm = ClusterManagement cid m) \<longrightarrow>
          (\<exists>sig. signature_from_bytes c s = Some sig
             \<and> verify_prehashed c pubkey (sha512 c (to_json' pm)) sig)))"
proof -
  have "request_requires_cluster_auth req \<longleftrightarrow>
      (\<exists>oid pf. req = ReqValidityProof oid pf) \<or> (\<exists>oid w. req = ReqValidityWitness oid w)"
    by (cases req) simp_all
  moreover have "pubsub_requires_cluster_auth pm \<longleftrightarrow> (\<exists>cid m. pm = ClusterManagement cid m)"
    by (cases pm) simp_all
  ultimately show ?thesis
    unfolding auth_defs verify_cluster_auth_iff
    by (intro conjI new_with_body_verifies [OF assms]) simp_all
qed

theorem cluster_messages_authenticated_witness:
  "\<not> pubsub_verify_cluster_auth example_crypto (\<lambda>_. [5]) [8]
       \<lparr>auth_sig = [0], auth_body = ClusterManagement (ClusterId ''a'') (CacheSync 1 2)\<rparr>
   \<and> request_verify_cluster_auth example_crypto (\<lambda>_. [5]) [8] \<lparr>auth_sig = [], auth_body = ReqReplicate []\<rparr>"
proof -
  have "crypto_complete example_crypto"
    by (simp add: crypto_complete_def example_crypto_def comp_def)
  from cluster_messages_authenticated [OF this, where to_json = "\<lambda>_. [5]" and to_json' = "\<lambda>_. [5]"
      and req = "ReqReplicate []" and pm = "ClusterManagement (ClusterId ''a'') (CacheSync 1 2)"
      and pubkey = "[8]"]
  show ?thesis
    by (simp add: example_crypto_def)
qed

end
