(* ===== verification/Handshake_State.thy ===== *)
theory Handshake_State
  imports Orderbook
begin

section \<open>The state machine of in-flight handshakes\<close>

text \<open>
  The model of \<open>core/src/handshake/state.rs\<close> and of the error type of
  \<open>core/src/handshake/error.rs\<close>. \<open>HandshakeStateIndex\<close> maps request identifiers to handshakes
  and nullifiers to the requests on them.

  The write lock on the state map is part of the state: \<open>state_map_held\<close> says that a task
  holds it and will not release it. The lock of \<open>tokio\<close> is not reentrant, so a method that
  asks for it then waits for ever. A method returns how the call ends together with the index
  it leaves behind; a task that panics drops its guards, a task that waits keeps them. A
  cancel channel is a handle, with \<open>alive\<close> telling whether its receiver still exists, and
  \<open>cancel_signals\<close> lists the handles a signal was sent on.
\<close>

datatype HandshakeManagerError =
    Multiprover string
  | InvalidRequest string
  | MpcNetwork string
  | ShootdownError
  | VerificationError string
  | ReceiveProof string
  | SendMessage string
  | SetupError string
  | StateNotFound string
  | CancelledError string

datatype State =
    OrderNegotiation
  | MatchInProgressState
  | CompletedState
  | ErrorState HandshakeManagerError

type_synonym cancel_handle = nat

record HandshakeState =
  request_id :: uuid
  peer_order_id :: OrderIdentifier
  local_order_id :: OrderIdentifier
  peer_match_nullifier :: scalar
  local_match_nullifier :: scalar
  handshake_state :: State
  cancel_channel :: "cancel_handle option"

definition HandshakeState_new ::
  "uuid \<Rightarrow> OrderIdentifier \<Rightarrow> OrderIdentifier \<Rightarrow> scalar \<Rightarrow> scalar \<Rightarrow> HandshakeState" where
  "HandshakeState_new r po lo pn ln =
     \<lparr>request_id = r, peer_order_id = po, local_order_id = lo, peer_match_nullifier = pn,
      local_match_nullifier = ln, handshake_state = OrderNegotiation, cancel_channel = None\<rparr>"

definition state_in_progress :: "HandshakeState \<Rightarrow> HandshakeState call" where
  "state_in_progress s =
     (if handshake_state s = OrderNegotiation
      then Returns (s\<lparr>handshake_state := MatchInProgressState\<rparr>) else Panics)"

definition state_completed :: "HandshakeState \<Rightarrow> HandshakeState call" where
  "state_completed s =
     (if handshake_state s = OrderNegotiation \<or> handshake_state s = MatchInProgressState
      then Returns (s\<lparr>handshake_state := CompletedState\<rparr>) else Panics)"

definition state_error :: "HandshakeManagerError \<Rightarrow> HandshakeState \<Rightarrow> HandshakeState" where
  "state_error e s = s\<lparr>handshake_state := ErrorState e\<rparr>"

subsection \<open>The index\<close>

record HandshakeStateIndex =
  state_map :: "uuid \<rightharpoonup> HandshakeState"
  nullifier_map :: "scalar \<rightharpoonup> uuid set"
  state_map_held :: bool
  cancel_signals :: "cancel_handle list"

definition HandshakeStateIndex_new :: HandshakeStateIndex where
  "HandshakeStateIndex_new =
     \<lparr>state_map = Map.empty, nullifier_map = Map.empty, state_map_held = False, cancel_signals = []\<rparr>"

definition insert_nullifier :: "scalar \<Rightarrow> uuid \<Rightarrow> (scalar \<rightharpoonup> uuid set) \<Rightarrow> (scalar \<rightharpoonup> uuid set)" where
  "insert_nullifier n r m = m(n \<mapsto> insert r (case m n of Some S \<Rightarrow> S | None \<Rightarrow> {}))"

definition drop_request :: "scalar \<Rightarrow> uuid \<Rightarrow> (scalar \<rightharpoonup> uuid set) \<Rightarrow> (scalar \<rightharpoonup> uuid set)" where
  "drop_request n r m = (case m n of Some S \<Rightarrow> m(n \<mapsto> S - {r}) | None \<Rightarrow> m)"

definition new_handshake ::
  "NetworkOrderBook \<Rightarrow> uuid \<Rightarrow> OrderIdentifier \<Rightarrow> OrderIdentifier \<Rightarrow> HandshakeStateIndex
    \<Rightarrow> (unit, HandshakeManagerError) Result call \<times> HandshakeStateIndex" where
  "new_handshake book r po lo ix =
     (case get_match_nullifier lo book of
        None \<Rightarrow> (Returns (Err (StateNotFound ''match nullifier not found for order'')), ix)
      | Some ln \<Rightarrow>
          (case get_match_nullifier po book of
             None \<Rightarrow> (Returns (Err (StateNotFound ''match nullifier not found for order'')), ix)
           | Some pn \<Rightarrow>
               if state_map_held ix then (Blocks, ix)
               else (Returns (Ok ()),
                 ix\<lparr>state_map := (state_map ix)(r \<mapsto> HandshakeState_new r po lo pn ln),
                    nullifier_map := insert_nullifier pn r (insert_nullifier ln r (nullifier_map ix))\<rparr>)))"

definition remove_handshake ::
  "uuid \<Rightarrow> HandshakeStateIndex \<Rightarrow> HandshakeState option call \<times> HandshakeStateIndex" where
  "remove_handshake r ix =
     (if state_map_held ix then (Blocks, ix)
      else
        let st = state_map ix r;
            ix1 = ix\<lparr>state_map := (state_map ix)(r := None)\<rparr>
        in case st of
             None \<Rightarrow> (Returns st, ix1)
           | Some s \<Rightarrow>
               (Returns st, ix1\<lparr>nullifier_map :=
                  drop_request (peer_match_nullifier s) r
                    (drop_request (local_match_nullifier s) r (nullifier_map ix1))\<rparr>))"

fun shootdown_requests ::
  "(cancel_handle \<Rightarrow> bool) \<Rightarrow> uuid list \<Rightarrow> HandshakeStateIndex
    \<Rightarrow> (unit, HandshakeManagerError) Result call \<times> HandshakeStateIndex" where
  "shootdown_requests alive [] ix = (Returns (Ok ()), ix)"
| "shootdown_requests alive (r # rs) ix =
     (case remove_handshake r ix of
        (Returns (Some s), ix') \<Rightarrow>
          (case cancel_channel s of
             None \<Rightarrow> shootdown_requests alive rs ix'
           | Some ch \<Rightarrow>
               if alive ch
               then shootdown_requests alive rs (ix'\<lparr>cancel_signals := cancel_signals ix' @ [ch]\<rparr>)
               else (Returns (Err (SendMessage ''sending on a disconnected channel'')), ix'))
      | (Returns None, ix') \<Rightarrow> shootdown_requests alive rs ix'
      | (Panics, ix') \<Rightarrow> (Panics, ix')
      | (Blocks, ix') \<Rightarrow> (Blocks, ix'))"

definition shootdown_nullifier ::
  "(uuid set \<Rightarrow> uuid list) \<Rightarrow> (cancel_handle \<Rightarrow> bool) \<Rightarrow> scalar \<Rightarrow> HandshakeStateIndex
    \<Rightarrow> (unit, HandshakeManagerError) Result call \<times> HandshakeStateIndex" where
  "shootdown_nullifier iter alive n ix =
     (let requests = (case nullifier_map ix n of Some S \<Rightarrow> S | None \<Rightarrow> {});
          ix1 = ix\<lparr>nullifier_map := (nullifier_map ix)(n := None)\<rparr>
      in shootdown_requests alive (iter requests) ix1)"

definition get_state :: "uuid \<Rightarrow> HandshakeStateIndex \<Rightarrow> HandshakeState option call" where
  "get_state r ix = (if state_map_held ix then Blocks else Returns (state_map ix r))"

definition index_in_progress ::
  "uuid \<Rightarrow> cancel_handle \<Rightarrow> HandshakeStateIndex \<Rightarrow> unit call \<times> HandshakeStateIndex" where
  "index_in_progress r ch ix =
     (if state_map_held ix then (Blocks, ix)
      else case state_map ix r of
             None \<Rightarrow> (Returns (), ix)
           | Some s \<Rightarrow>
               (case state_in_progress s of
                  Returns s' \<Rightarrow>
                    (Returns (), ix\<lparr>state_map := (state_map ix)(r \<mapsto> s'\<lparr>cancel_channel := Some ch\<rparr>)\<rparr>)
                | Panics \<Rightarrow> (Panics, ix)
                | Blocks \<Rightarrow> (Blocks, ix)))"

text \<open>
  \<open>completed\<close> and \<open>error\<close> take the write lock, update the entry and, with the guard still
  alive, await \<open>remove_handshake\<close>, which asks for the same lock. The guard is released when
  the method returns.
\<close>

definition then_remove :: "uuid \<Rightarrow> HandshakeStateIndex \<Rightarrow> unit call \<times> HandshakeStateIndex" where
  "then_remove r locked =
     (case remove_handshake r locked of
        (Returns _, ix') \<Rightarrow> (Returns (), ix'\<lparr>state_map_held := False\<rparr>)
      | (Panics, ix') \<Rightarrow> (Panics, ix'\<lparr>state_map_held := False\<rparr>)
      | (Blocks, ix') \<Rightarrow> (Blocks, ix'))"

definition index_completed :: "uuid \<Rightarrow> HandshakeStateIndex \<Rightarrow> unit call \<times> HandshakeStateIndex" where
  "index_completed r ix =
     (if state_map_held ix then (Blocks, ix)
      else let locked = ix\<lparr>state_map_held := True\<rparr>
           in case state_map locked r of
                None \<Rightarrow> then_remove r locked
              | Some s \<Rightarrow>
                  (case state_completed s of
                     Returns s' \<Rightarrow> then_remove r (locked\<lparr>state_map := (state_map locked)(r \<mapsto> s')\<rparr>)
                   | Panics \<Rightarrow> (Panics, ix)
                   | Blocks \<Rightarrow> (Blocks, locked)))"

definition index_error ::
  "uuid \<Rightarrow> HandshakeManagerError \<Rightarrow> HandshakeStateIndex \<Rightarrow> unit call \<times> HandshakeStateIndex" where
  "index_error r e ix =
     (if state_map_held ix then (Blocks, ix)
      else let locked = ix\<lparr>state_map_held := True\<rparr>
           in case state_map locked r of
                None \<Rightarrow> then_remove r locked
              | Some s \<Rightarrow> then_remove r (locked\<lparr>state_map := (state_map locked)(r \<mapsto> state_error e s)\<rparr>))"

subsection \<open>The invariant\<close>

text \<open>
  Each handshake is filed under its request identifier and under both of its nullifiers.
\<close>

definition handshakes_indexed :: "HandshakeStateIndex \<Rightarrow> bool" where
  "handshakes_indexed ix \<longleftrightarrow>
     (\<forall>r s. state_map ix r = Some s \<longrightarrow> request_id s = r
        \<and> (\<exists>S. nullifier_map ix (local_match_nullifier s) = Some S \<and> r \<in> S)
        \<and> (\<exists>S. nullifier_map ix (peer_match_nullifier s) = Some S \<and> r \<in> S))
     \<and> (\<forall>n S. nullifier_map ix n = Some S \<longrightarrow> finite S)"

lemma handshakes_indexed_new: "handshakes_indexed HandshakeStateIndex_new"
  by (simp add: handshakes_indexed_def HandshakeStateIndex_new_def)

lemma insert_nullifier_keeps:
  "m k = Some S \<Longrightarrow> r' \<in> S \<Longrightarrow> \<exists>T. insert_nullifier n r m k = Some T \<and> r' \<in> T"
  by (auto simp: insert_nullifier_def)

lemma insert_nullifier_has: "\<exists>T. insert_nullifier n r m n = Some T \<and> r \<in> T"
  by (simp add: insert_nullifier_def)

lemma insert_nullifier_finite:
  "(\<And>n S. m n = Some S \<Longrightarrow> finite S) \<Longrightarrow> insert_nullifier k r m n = Some S \<Longrightarrow> finite S"
  by (auto simp: insert_nullifier_def split: if_splits option.splits)

lemma drop_request_keeps:
  "m k = Some S \<Longrightarrow> r' \<in> S \<Longrightarrow> r' \<noteq> r \<Longrightarrow> \<exists>T. drop_request n r m k = Some T \<and> r' \<in> T"
  by (auto simp: drop_request_def split: option.split)

lemma drop_request_finite:
  "(\<And>n S. m n = Some S \<Longrightarrow> finite S) \<Longrightarrow> drop_request k r m n = Some S \<Longrightarrow> finite S"
  by (auto simp: drop_request_def split: if_splits option.splits)

lemma indexedI:
  assumes "\<And>r s. state_map ix r = Some s \<Longrightarrow> request_id s = r
      \<and> (\<exists>S. nullifier_map ix (local_match_nullifier s) = Some S \<and> r \<in> S)
      \<and> (\<exists>S. nullifier_map ix (peer_match_nullifier s) = Some S \<and> r \<in> S)"
    and "\<And>n S. nullifier_map ix n = Some S \<Longrightarrow> finite S"
  shows "handshakes_indexed ix"
  using assms unfolding handshakes_indexed_def by blast

lemma indexedD:
  assumes "handshakes_indexed ix" and "state_map ix r = Some s"
  shows "request_id s = r"
    and "\<exists>S. nullifier_map ix (local_match_nullifier s) = Some S \<and> r \<in> S"
    and "\<exists>S. nullifier_map ix (peer_match_nullifier s) = Some S \<and> r \<in> S"
  using assms unfolding handshakes_indexed_def by blast+

lemma indexed_finite:
  "handshakes_indexed ix \<Longrightarrow> nullifier_map ix n = Some S \<Longrightarrow> finite S"
  unfolding handshakes_indexed_def by blast

text \<open>Handshakes that agree with a map entry survive any change that keeps the request listed.\<close>

lemma indexed_update:
  assumes "handshakes_indexed ix"
    and "\<And>r s. state_map ix' r = Some s \<Longrightarrow> (\<exists>s0. state_map ix r = Some s0
        \<and> request_id s = request_id s0 \<and> local_match_nullifier s = local_match_nullifier s0
        \<and> peer_match_nullifier s = peer_match_nullifier s0)
        \<and> (\<forall>n S. nullifier_map ix n = Some S \<longrightarrow> r \<in> S \<longrightarrow> (\<exists>T. nullifier_map ix' n = Some T \<and> r \<in> T))"
    and "\<And>n S. nullifier_map ix' n = Some S \<Longrightarrow> finite S"
  shows "handshakes_indexed ix'"
proof (rule indexedI)
  fix r s
  assume "state_map ix' r = Some s"
  from assms(2) [OF this] obtain s0 where "state_map ix r = Some s0"
    "request_id s = request_id s0" "local_match_nullifier s = local_match_nullifier s0"
    "peer_match_nullifier s = peer_match_nullifier s0"
    and keep: "\<And>n S. nullifier_map ix n = Some S \<Longrightarrow> r \<in> S \<Longrightarrow> \<exists>T. nullifier_map ix' n = Some T \<and> r \<in> T"
    by blast
  then show "request_id s = r
      \<and> (\<exists>S. nullifier_map ix' (local_match_nullifier s) = Some S \<and> r \<in> S)
      \<and> (\<exists>S. nullifier_map ix' (peer_match_nullifier s) = Some S \<and> r \<in> S)"
    using indexedD [OF assms(1) \<open>state_map ix r = Some s0\<close>] keep by metis
qed (rule assms(3))

lemma remove_handshake_fields:
  assumes "\<not> state_map_held ix"
  obtains ix' where "remove_handshake r ix = (Returns (state_map ix r), ix')"
    "state_map ix' = (state_map ix)(r := None)" "\<not> state_map_held ix'"
    "cancel_signals ix' = cancel_signals ix"
    "\<And>n S r'. nullifier_map ix n = Some S \<Longrightarrow> r' \<in> S \<Longrightarrow> r' \<noteq> r \<Longrightarrow>
      \<exists>T. nullifier_map ix' n = Some T \<and> r' \<in> T"
    "(\<And>n S. nullifier_map ix n = Some S \<Longrightarrow> finite S) \<Longrightarrow>
      (\<And>n S. nullifier_map ix' n = Some S \<Longrightarrow> finite S)"
proof (cases "state_map ix r")
  case None
  show ?thesis
    by (rule that [of "ix\<lparr>state_map := (state_map ix)(r := None)\<rparr>"])
      (use assms None in \<open>auto simp: remove_handshake_def\<close>)
next
  case (Some s)
  let ?m = "drop_request (peer_match_nullifier s) r (drop_request (local_match_nullifier s) r (nullifier_map ix))"
  show ?thesis
  proof (rule that [of "ix\<lparr>state_map := (state_map ix)(r := None), nullifier_map := ?m\<rparr>"])
    show "remove_handshake r ix = (Returns (state_map ix r),
        ix\<lparr>state_map := (state_map ix)(r := None), nullifier_map := ?m\<rparr>)"
      using assms Some by (simp add: remove_handshake_def)
  next
    fix n S r'
    assume "nullifier_map ix n = Some S" "r' \<in> S" "r' \<noteq> r"
    then obtain T where "drop_request (local_match_nullifier s) r (nullifier_map ix) n = Some T" "r' \<in> T"
      using drop_request_keeps by metis
    then show "\<exists>T. nullifier_map (ix\<lparr>state_map := (state_map ix)(r := None), nullifier_map := ?m\<rparr>) n = Some T \<and> r' \<in> T"
      using drop_request_keeps \<open>r' \<noteq> r\<close> by simp
  next
    fix n S
    assume fin: "\<And>n S. nullifier_map ix n = Some S \<Longrightarrow> finite S"
      and "nullifier_map (ix\<lparr>state_map := (state_map ix)(r := None), nullifier_map := ?m\<rparr>) n = Some S"
    then have "?m n = Some S" by simp
    then show "finite S"
      by (rule drop_request_finite [rotated]) (rule drop_request_finite [OF fin])
  qed (use assms in simp_all)
qed

text \<open>
  What removing the requests \<open>R\<close> and signalling their cancel channels does: the requests are
  gone, every other request is listed as before, and the signals were sent.
\<close>

definition shot :: "uuid set \<Rightarrow> HandshakeStateIndex \<Rightarrow> HandshakeStateIndex \<Rightarrow> bool" where
  "shot R ix ix' \<longleftrightarrow>
     state_map ix' = (\<lambda>r. if r \<in> R then None else state_map ix r) \<and> \<not> state_map_held ix'
     \<and> (\<forall>n S r. nullifier_map ix n = Some S \<longrightarrow> r \<in> S \<longrightarrow> r \<notin> R \<longrightarrow>
          (\<exists>T. nullifier_map ix' n = Some T \<and> r \<in> T))
     \<and> ((\<forall>n S. nullifier_map ix n = Some S \<longrightarrow> finite S) \<longrightarrow>
          (\<forall>n S. nullifier_map ix' n = Some S \<longrightarrow> finite S))
     \<and> (\<forall>r\<in>R. \<forall>s ch. state_map ix r = Some s \<longrightarrow> cancel_channel s = Some ch \<longrightarrow>
          ch \<in> set (cancel_signals ix'))
     \<and> set (cancel_signals ix) \<subseteq> set (cancel_signals ix')"

lemma shot_empty: "\<not> state_map_held ix \<Longrightarrow> shot {} ix ix"
  by (simp add: shot_def)

lemma shotD:
  assumes "shot R ix ix'"
  shows "state_map ix' = (\<lambda>r. if r \<in> R then None else state_map ix r)" "\<not> state_map_held ix'"
    "\<And>n S r. nullifier_map ix n = Some S \<Longrightarrow> r \<in> S \<Longrightarrow> r \<notin> R \<Longrightarrow>
       \<exists>T. nullifier_map ix' n = Some T \<and> r \<in> T"
    "\<forall>n S. nullifier_map ix n = Some S \<longrightarrow> finite S \<Longrightarrow>
       \<forall>n S. nullifier_map ix' n = Some S \<longrightarrow> finite S"
    "\<And>r s ch. r \<in> R \<Longrightarrow> state_map ix r = Some s \<Longrightarrow> cancel_channel s = Some ch \<Longrightarrow>
       ch \<in> set (cancel_signals ix')"
    "set (cancel_signals ix) \<subseteq> set (cancel_signals ix')"
  using assms unfolding shot_def by blast+

lemma shot_trans:
  assumes a: "shot R ix ix1" and b: "shot Q ix1 ix2"
  shows "shot (R \<union> Q) ix ix2"
proof -
  have "\<exists>T. nullifier_map ix2 n = Some T \<and> r \<in> T"
    if r: "nullifier_map ix n = Some S" "r \<in> S" "r \<notin> R \<union> Q" for n S r
  proof -
    obtain T where "nullifier_map ix1 n = Some T" "r \<in> T"
      using shotD(3) [OF a r(1,2)] r(3) by blast
    then show ?thesis
      using shotD(3) [OF b] r(3) by blast
  qed
  moreover have "ch \<in> set (cancel_signals ix2)"
    if r: "r \<in> R \<union> Q" "state_map ix r = Some s" "cancel_channel s = Some ch" for r s ch
  proof (cases "r \<in> R")
    case True
    then show ?thesis using shotD(5) [OF a _ r(2,3)] shotD(6) [OF b] by blast
  next
    case False
    then have "state_map ix1 r = Some s" using shotD(1) [OF a] r(2) by simp
    then show ?thesis using shotD(5) [OF b _ _ r(3)] r(1) False by blast
  qed
  moreover have "state_map ix2 = (\<lambda>r. if r \<in> R \<union> Q then None else state_map ix r)"
    by (simp add: shotD(1) [OF b] shotD(1) [OF a] fun_eq_iff)
  moreover have "set (cancel_signals ix) \<subseteq> set (cancel_signals ix2)"
    using shotD(6) [OF a] shotD(6) [OF b] by (rule subset_trans)
  ultimately show ?thesis
    using shotD(4) [OF a] shotD(4) [OF b] shotD(2) [OF b] unfolding shot_def by blast
qed

lemma shot_one:
  assumes "\<not> state_map_held ix"
  obtains ix1 where "remove_handshake r ix = (Returns (state_map ix r), ix1)"
    "\<And>ch. Option.bind (state_map ix r) cancel_channel = Some ch \<Longrightarrow>
       shot {r} ix (ix1\<lparr>cancel_signals := cancel_signals ix1 @ [ch]\<rparr>)"
    "Option.bind (state_map ix r) cancel_channel = None \<Longrightarrow> shot {r} ix ix1"
proof (rule remove_handshake_fields [OF assms, of r], goal_cases)
  case (1 ix1)
  show ?case
  proof (rule that [OF 1(2)])
    fix ch
    assume "Option.bind (state_map ix r) cancel_channel = Some ch"
    then show "shot {r} ix (ix1\<lparr>cancel_signals := cancel_signals ix1 @ [ch]\<rparr>)"
      using 1(3-7) by (auto simp: shot_def fun_eq_iff)
  next
    assume "Option.bind (state_map ix r) cancel_channel = None"
    then show "shot {r} ix ix1"
      using 1(3-7) by (auto simp: shot_def fun_eq_iff)
  qed
qed

lemma shootdown_requests_ok:
  assumes "\<not> state_map_held ix"
    and "\<And>r s ch. r \<in> set rs \<Longrightarrow> state_map ix r = Some s \<Longrightarrow> cancel_channel s = Some ch \<Longrightarrow> alive ch"
  shows "\<exists>ix'. shootdown_requests alive rs ix = (Returns (Ok ()), ix') \<and> shot (set rs) ix ix'"
  using assms
proof (induction rs arbitrary: ix)
  case Nil
  then show ?case by (simp add: shot_empty)
next
  case (Cons r rs)
  obtain ix2 where step: "shootdown_requests alive (r # rs) ix = shootdown_requests alive rs ix2"
    and shot: "shot {r} ix ix2"
  proof (rule shot_one [OF Cons.prems(1), of r], goal_cases)
    case (1 ix1)
    then show ?case
      using Cons.prems(2) [of r]
      by (cases "Option.bind (state_map ix r) cancel_channel")
        (auto split: option.splits bind_splits)
  qed
  have "\<exists>ix'. shootdown_requests alive rs ix2 = (Returns (Ok ()), ix') \<and> shot (set rs) ix2 ix'"
  proof (rule Cons.IH)
    show "\<not> state_map_held ix2" by (rule shotD(2) [OF shot])
  next
    fix q s ch
    assume "q \<in> set rs" "state_map ix2 q = Some s" "cancel_channel s = Some ch"
    then show "alive ch"
      using Cons.prems(2) [of q s ch] by (simp add: shotD(1) [OF shot] split: if_splits)
  qed
  then show ?case
    using step shot_trans [OF shot] by auto
qed

lemma new_handshake_indexed:
  assumes "handshakes_indexed ix" and "new_handshake book r po lo ix = (res, ix')"
  shows "handshakes_indexed ix'"
proof (cases "ix' = ix")
  case True
  then show ?thesis using assms(1) by simp
next
  case False
  then obtain ln pn where ix': "ix' = ix\<lparr>state_map := (state_map ix)(r \<mapsto> HandshakeState_new r po lo pn ln),
      nullifier_map := insert_nullifier pn r (insert_nullifier ln r (nullifier_map ix))\<rparr>"
    using assms(2) by (auto simp: new_handshake_def split: option.splits if_splits)
  let ?m = "insert_nullifier pn r (insert_nullifier ln r (nullifier_map ix))"
  have keep: "\<exists>T. ?m n = Some T \<and> q \<in> T" if "nullifier_map ix n = Some S" "q \<in> S" for n S q
    using insert_nullifier_keeps [of "nullifier_map ix", OF that] insert_nullifier_keeps by metis
  have new: "\<exists>T. ?m ln = Some T \<and> r \<in> T" "\<exists>T. ?m pn = Some T \<and> r \<in> T"
    using insert_nullifier_has [of ln r "nullifier_map ix"] insert_nullifier_keeps
      insert_nullifier_has [of pn r "insert_nullifier ln r (nullifier_map ix)"] by metis+
  show ?thesis
  proof (rule indexedI)
    fix q s
    assume "state_map ix' q = Some s"
    then show "request_id s = q
      \<and> (\<exists>S. nullifier_map ix' (local_match_nullifier s) = Some S \<and> q \<in> S)
      \<and> (\<exists>S. nullifier_map ix' (peer_match_nullifier s) = Some S \<and> q \<in> S)"
    proof (cases "q = r")
      case True
      then show ?thesis
        using \<open>state_map ix' q = Some s\<close> new by (auto simp: ix' HandshakeState_new_def)
    next
      case False
      then have old: "state_map ix q = Some s"
        using \<open>state_map ix' q = Some s\<close> by (simp add: ix')
      show ?thesis
        using indexedD [OF assms(1) old] keep by (auto simp: ix')
    qed
  next
    fix n S
    assume "nullifier_map ix' n = Some S"
    then have "?m n = Some S" by (simp add: ix')
    then show "finite S"
      by (rule insert_nullifier_finite [rotated])
        (rule insert_nullifier_finite [OF indexed_finite [OF assms(1)]])
  qed
qed

lemma shot_indexed:
  assumes "handshakes_indexed ix" and "shot R ix ix'"
  shows "handshakes_indexed ix'"
proof (rule indexed_update [OF assms(1)])
  fix r s
  assume "state_map ix' r = Some s"
  then have "r \<notin> R" "state_map ix r = Some s"
    using shotD(1) [OF assms(2)] by (auto split: if_splits)
  then show "(\<exists>s0. state_map ix r = Some s0 \<and> request_id s = request_id s0
        \<and> local_match_nullifier s = local_match_nullifier s0
        \<and> peer_match_nullifier s = peer_match_nullifier s0)
        \<and> (\<forall>n S. nullifier_map ix n = Some S \<longrightarrow> r \<in> S \<longrightarrow> (\<exists>T. nullifier_map ix' n = Some T \<and> r \<in> T))"
    using shotD(3) [OF assms(2)] by blast
next
  fix n S
  assume "nullifier_map ix' n = Some S"
  then show "finite S"
    using shotD(4) [OF assms(2)] indexed_finite [OF assms(1)] by blast
qed

lemma index_in_progress_indexed:
  assumes "handshakes_indexed ix" and "index_in_progress r ch ix = (res, ix')"
  shows "handshakes_indexed ix'"
proof (cases "ix' = ix")
  case False
  then obtain s where s: "state_map ix r = Some s" and
    ix': "ix' = ix\<lparr>state_map := (state_map ix)(r \<mapsto>
        s\<lparr>handshake_state := MatchInProgressState, cancel_channel := Some ch\<rparr>)\<rparr>"
    using assms(2)
    by (auto simp: index_in_progress_def state_in_progress_def split: option.splits if_splits)
  show ?thesis
    unfolding ix' using s indexed_finite [OF assms(1)]
    by (intro indexed_update [OF assms(1)]) (auto split: if_splits)
qed (use assms(1) in simp)

subsection \<open>Properties\<close>

text \<open>
  C2: completing a handshake never returns. Whatever the index, a call of \<open>completed\<close> panics
  (the entry is already completed or failed) or waits for ever on the lock it holds itself;
  a call of \<open>error\<close> always waits. The lock stays taken, and from then on every lookup,
  removal, start and completion of any handshake waits as well.
\<close>

theorem completed_self_deadlock:
  "fst (index_completed r ix) \<noteq> Returns () \<and> fst (index_error r e ix) = Blocks
   \<and> (fst (index_completed r ix) = Blocks \<longrightarrow> state_map_held (snd (index_completed r ix)))
   \<and> state_map_held (snd (index_error r e ix))
   \<and> (state_map_held ix' \<longrightarrow> get_state q ix' = Blocks \<and> remove_handshake q ix' = (Blocks, ix')
        \<and> index_completed q ix' = (Blocks, ix') \<and> index_in_progress q ch ix' = (Blocks, ix')
        \<and> (\<forall>res ix2. new_handshake book q po lo ix' = (res, ix2) \<longrightarrow> res \<noteq> Returns (Ok ())))"
proof -
  have tr: "then_remove r locked = (Blocks, locked)" if "state_map_held locked" for locked
    using that by (simp add: then_remove_def remove_handshake_def)
  have "fst (index_completed r ix) \<noteq> Returns ()
      \<and> (fst (index_completed r ix) = Blocks \<longrightarrow> state_map_held (snd (index_completed r ix)))"
    by (cases "state_map ix r") (auto simp: index_completed_def Let_def state_completed_def tr)
  moreover have "fst (index_error r e ix) = Blocks \<and> state_map_held (snd (index_error r e ix))"
    by (cases "state_map ix r") (auto simp: index_error_def Let_def tr)
  moreover have "get_state q ix' = Blocks \<and> remove_handshake q ix' = (Blocks, ix')
      \<and> index_completed q ix' = (Blocks, ix') \<and> index_in_progress q ch ix' = (Blocks, ix')
      \<and> (\<forall>res ix2. new_handshake book q po lo ix' = (res, ix2) \<longrightarrow> res \<noteq> Returns (Ok ()))"
    if "state_map_held ix'"
    using that by (simp add: get_state_def remove_handshake_def index_completed_def
        index_in_progress_def new_handshake_def split: option.split)
  ultimately show ?thesis by blast
qed

definition one_handshake :: HandshakeStateIndex where
  "one_handshake = \<lparr>state_map = [9 \<mapsto> HandshakeState_new 9 1 2 5 6], nullifier_map = [5 \<mapsto> {9}, 6 \<mapsto> {9}],
     state_map_held = False, cancel_signals = []\<rparr>"

theorem completed_self_deadlock_witness:
  "fst (index_completed 9 one_handshake) = Blocks
   \<and> get_state 3 (snd (index_completed 9 one_handshake)) = Blocks"
proof -
  have "fst (index_completed 9 one_handshake) = Blocks"
    by (simp add: index_completed_def one_handshake_def state_completed_def HandshakeState_new_def
        then_remove_def remove_handshake_def Let_def)
  then show ?thesis
    using completed_self_deadlock [of 9 one_handshake ShootdownError "snd (index_completed 9 one_handshake)" 3]
    by simp
qed


lemma one_handshake_indexed: "handshakes_indexed one_handshake"
  by (rule indexedI) (auto simp: one_handshake_def HandshakeState_new_def split: if_splits)


text \<open>
  Starting a handshake, moving it to the match phase and removing it keep the index
  consistent, whatever the call returns: each handshake is found under its request id and
  under both of its nullifiers.
\<close>

theorem handshake_index_invariant:
  assumes "handshakes_indexed ix"
  shows "handshakes_indexed (snd (new_handshake book r po lo ix))
    \<and> handshakes_indexed (snd (index_in_progress r ch ix))
    \<and> handshakes_indexed (snd (remove_handshake r ix))"
proof (intro conjI)
  show "handshakes_indexed (snd (new_handshake book r po lo ix))"
    by (rule new_handshake_indexed [OF assms, where res = "fst (new_handshake book r po lo ix)"]) simp
  show "handshakes_indexed (snd (index_in_progress r ch ix))"
    by (rule index_in_progress_indexed [OF assms, where res = "fst (index_in_progress r ch ix)"]) simp
  show "handshakes_indexed (snd (remove_handshake r ix))"
  proof (cases "state_map_held ix")
    case True
    then show ?thesis using assms by (simp add: remove_handshake_def)
  next
    case False
    then obtain ix1 where rm: "remove_handshake r ix = (Returns (state_map ix r), ix1)"
      and "state_map ix1 = (state_map ix)(r := None)"
      "\<And>n S r'. nullifier_map ix n = Some S \<Longrightarrow> r' \<in> S \<Longrightarrow> r' \<noteq> r \<Longrightarrow>
        \<exists>T. nullifier_map ix1 n = Some T \<and> r' \<in> T"
      "\<And>n S. nullifier_map ix1 n = Some S \<Longrightarrow> finite S"
      using remove_handshake_fields [OF False, of r] indexed_finite [OF assms] by metis
    then show ?thesis
      unfolding rm snd_conv
      by (intro indexed_update [OF assms]) (auto split: if_splits)
  qed
qed

theorem handshake_index_invariant_witness:
  "handshakes_indexed (snd (remove_handshake 9 one_handshake))
   \<and> state_map (snd (remove_handshake 9 one_handshake)) = Map.empty"
  using handshake_index_invariant [OF one_handshake_indexed, of NetworkOrderBook_new 9 1 1 0]
  by (simp add: remove_handshake_def one_handshake_def HandshakeState_new_def Let_def)

end
