(* ===== verification/Handshake_Cache.thy ===== *)
theory Handshake_Cache
  imports Prelude
begin

section \<open>The handshake cache\<close>

text \<open>
  The model of \<open>core/src/handshake/handshake_cache.rs\<close>: pairs of orders that were matched, or
  that a cluster peer is matching, so that they are not scheduled again.

  The LRU cache below it is the \<open>lru\<close> crate. Its operations are the fields of \<open>lru_ops\<close>, an
  argument of the definitions, and its documented contract is the locale \<open>lru_contract\<close>:
  \<open>iter\<close> lists the entries most recently used first, \<open>push\<close> puts an entry in front and drops
  what no longer fits, \<open>peek\<close> looks an entry up without touching the order. An \<open>Instant\<close> is
  a number of milliseconds.
\<close>

type_synonym instant = nat

record ('k, 'v, 'c) lru_ops =
  lru_new :: "nat \<Rightarrow> 'c"
  lru_push :: "'k \<Rightarrow> 'v \<Rightarrow> 'c \<Rightarrow> 'c"
  lru_peek :: "'k \<Rightarrow> 'c \<Rightarrow> 'v option"
  lru_len :: "'c \<Rightarrow> nat"
  lru_cap :: "'c \<Rightarrow> nat"
  lru_iter :: "'c \<Rightarrow> ('k \<times> 'v) list"

datatype HandshakeCacheState = Completed | Invisible instant

record 'c HandshakeCache =
  cache_size :: nat
  max_size :: nat
  lru_cache :: 'c

definition HandshakeCache_new ::
  "('o \<times> 'o, HandshakeCacheState, 'c) lru_ops \<Rightarrow> nat \<Rightarrow> 'c HandshakeCache call" where
  "HandshakeCache_new lru n =
     (if n = 0 then Panics
      else Returns \<lparr>cache_size = 0, max_size = n, lru_cache = lru_new lru n\<rparr>)"

definition cache_len :: "('o \<times> 'o, HandshakeCacheState, 'c) lru_ops \<Rightarrow> 'c HandshakeCache \<Rightarrow> nat" where
  "cache_len lru h = lru_len lru (lru_cache h)"

definition cache_tuple :: "'o::linorder \<Rightarrow> 'o \<Rightarrow> 'o \<times> 'o" where
  "cache_tuple o1 o2 = (min o1 o2, max o1 o2)"

definition mark_completed ::
  "('o::linorder \<times> 'o, HandshakeCacheState, 'c) lru_ops \<Rightarrow> 'o \<Rightarrow> 'o \<Rightarrow> 'c HandshakeCache
    \<Rightarrow> 'c HandshakeCache" where
  "mark_completed lru o1 o2 h =
     h\<lparr>lru_cache := lru_push lru (cache_tuple o1 o2) Completed (lru_cache h)\<rparr>"

definition mark_invisible ::
  "('o::linorder \<times> 'o, HandshakeCacheState, 'c) lru_ops \<Rightarrow> instant \<Rightarrow> 'o \<Rightarrow> 'o \<Rightarrow> nat
    \<Rightarrow> 'c HandshakeCache \<Rightarrow> 'c HandshakeCache" where
  "mark_invisible lru now o1 o2 window h =
     h\<lparr>lru_cache := lru_push lru (cache_tuple o1 o2) (Invisible (now + window)) (lru_cache h)\<rparr>"

definition cache_contains ::
  "('o::linorder \<times> 'o, HandshakeCacheState, 'c) lru_ops \<Rightarrow> instant \<Rightarrow> 'o \<Rightarrow> 'o
    \<Rightarrow> 'c HandshakeCache \<Rightarrow> bool" where
  "cache_contains lru now o1 o2 h =
     (case lru_peek lru (cache_tuple o1 o2) (lru_cache h) of
        Some Completed \<Rightarrow> True
      | Some (Invisible until) \<Rightarrow> now < until
      | None \<Rightarrow> False)"

subsection \<open>The contract of the LRU cache\<close>

locale lru_contract =
  fixes lru :: "('k, 'v, 'c) lru_ops"
  assumes iter_new: "lru_iter lru (lru_new lru n) = []"
    and cap_new: "lru_cap lru (lru_new lru n) = n"
    and iter_push: "lru_iter lru (lru_push lru k v c) =
      take (lru_cap lru c) ((k, v) # filter (\<lambda>e. fst e \<noteq> k) (lru_iter lru c))"
    and cap_push: "lru_cap lru (lru_push lru k v c) = lru_cap lru c"
    and peek_iter: "lru_peek lru k c = map_of (lru_iter lru c) k"
    and len_iter: "lru_len lru c = length (lru_iter lru c)"
begin

lemma peek_push_same: "0 < lru_cap lru c \<Longrightarrow> lru_peek lru k (lru_push lru k v c) = Some v"
  by (cases "lru_cap lru c") (simp_all add: peek_iter iter_push)

lemma len_bounded: "lru_len lru (lru_push lru k v c) \<le> lru_cap lru c"
  by (simp add: len_iter iter_push)

text \<open>
  An entry among the first \<open>i\<close> stays among the first \<open>i + 1\<close> when another key is pushed, if
  there is room for that many.
\<close>

definition held_within :: "nat \<Rightarrow> 'k \<Rightarrow> 'v \<Rightarrow> 'c \<Rightarrow> bool" where
  "held_within i k v c \<longleftrightarrow> i \<le> lru_cap lru c \<and> (\<exists>j<i. j < length (lru_iter lru c)
     \<and> lru_iter lru c ! j = (k, v) \<and> (\<forall>e\<in>set (take j (lru_iter lru c)). fst e \<noteq> k))"

lemma map_of_nth_first:
  assumes "j < length xs" and "xs ! j = (k, v)" and "\<forall>e\<in>set (take j xs). fst e \<noteq> k"
  shows "map_of xs k = Some v"
proof -
  have "map_of (take j xs) k = None"
    using assms(3) by (auto simp: map_of_eq_None_iff)
  then have "map_of (take j xs @ (k, v) # drop (Suc j) xs) k = Some v"
    by (simp add: map_add_def)
  then show ?thesis
    unfolding assms(2) [symmetric] id_take_nth_drop [OF assms(1), symmetric] .
qed

lemma held_peek:
  assumes "held_within i k v c"
  shows "lru_peek lru k c = Some v"
proof -
  obtain j where "j < length (lru_iter lru c)" "lru_iter lru c ! j = (k, v)"
    "\<forall>e\<in>set (take j (lru_iter lru c)). fst e \<noteq> k"
    using assms unfolding held_within_def by auto
  then show ?thesis
    unfolding peek_iter by (rule map_of_nth_first)
qed

lemma held_push_same:
  "0 < lru_cap lru c \<Longrightarrow> held_within 1 k v (lru_push lru k v c)"
  by (cases "lru_cap lru c") (simp_all add: held_within_def iter_push cap_push)

lemma held_push_other:
  assumes "held_within i k v c" and "k' \<noteq> k" and "i < lru_cap lru c"
  shows "held_within (Suc i) k v (lru_push lru k' v' c)"
proof -
  let ?P = "\<lambda>e. fst e \<noteq> k'"
  obtain j where j: "j < i" "j < length (lru_iter lru c)" "lru_iter lru c ! j = (k, v)"
    "\<forall>e\<in>set (take j (lru_iter lru c)). fst e \<noteq> k"
    using assms(1) unfolding held_within_def by blast
  let ?xs = "lru_iter lru c"
  let ?j = "length (filter ?P (take j ?xs))"
  have split: "?xs = take j ?xs @ (k, v) # drop (Suc j) ?xs"
    using id_take_nth_drop [OF j(2)] j(3) by simp
  have filt: "filter ?P ?xs = filter ?P (take j ?xs) @ (k, v) # filter ?P (drop (Suc j) ?xs)"
    using assms(2) by (subst split, simp only: filter_append) simp
  have le: "?j \<le> j"
    using length_filter_le [of ?P "take j ?xs"] by simp
  let ?ys = "(k', v') # filter ?P ?xs"
  have nth: "?ys ! Suc ?j = (k, v)" and len: "Suc ?j < length ?ys"
    by (simp_all add: filt nth_append)
  have tk: "take (Suc ?j) ?ys = (k', v') # filter ?P (take j ?xs)"
    by (simp add: filt)
  have small: "Suc ?j < lru_cap lru c"
    using le j(1) assms(3) by simp
  have "\<forall>e\<in>set (take (Suc ?j) ?ys). fst e \<noteq> k"
    using j(4) assms(2) unfolding tk by auto
  then show ?thesis
    unfolding held_within_def iter_push cap_push using small len nth assms(3) le j(1)
    by (intro conjI exI [of _ "Suc ?j"]) (simp_all add: min_def)
qed

end

subsection \<open>A reference LRU cache\<close>

text \<open>A list of entries with a capacity, which meets the contract.\<close>

definition list_lru :: "('k, 'v, nat \<times> ('k \<times> 'v) list) lru_ops" where
  "list_lru = \<lparr>lru_new = (\<lambda>n. (n, [])),
     lru_push = (\<lambda>k v (n, es). (n, take n ((k, v) # filter (\<lambda>e. fst e \<noteq> k) es))),
     lru_peek = (\<lambda>k (n, es). map_of es k), lru_len = (\<lambda>(n, es). length es),
     lru_cap = fst, lru_iter = snd\<rparr>"

interpretation list_lru: lru_contract list_lru
  by unfold_locales (auto simp: list_lru_def split: prod.splits)

subsection \<open>Marks on the cache\<close>

text \<open>
  The two ways in which the relayer writes the cache, with the pair they concern.
\<close>

datatype 'o cache_mark = MarkCompleted 'o 'o | MarkInvisible instant 'o 'o nat

fun apply_mark :: "('o::linorder \<times> 'o, HandshakeCacheState, 'c) lru_ops \<Rightarrow> 'o cache_mark
    \<Rightarrow> 'c HandshakeCache \<Rightarrow> 'c HandshakeCache" where
  "apply_mark lru (MarkCompleted a b) h = mark_completed lru a b h"
| "apply_mark lru (MarkInvisible now a b w) h = mark_invisible lru now a b w h"

fun marked_pair :: "'o::linorder cache_mark \<Rightarrow> 'o \<times> 'o" where
  "marked_pair (MarkCompleted a b) = cache_tuple a b"
| "marked_pair (MarkInvisible now a b w) = cache_tuple a b"

lemma cache_tuple_sym: "cache_tuple a b = cache_tuple b a"
  by (simp add: cache_tuple_def min.commute max.commute)

lemma apply_mark_push:
  "\<exists>v. lru_cache (apply_mark lru m h) = lru_push lru (marked_pair m) v (lru_cache h)"
  by (cases m) (auto simp: mark_completed_def mark_invisible_def)

lemma marks_keep_entry:
  assumes "lru_contract lru" and "lru_contract.held_within lru i k v (lru_cache h)"
    and "i + length ms \<le> lru_cap lru (lru_cache h)"
    and "\<forall>m\<in>set ms. marked_pair m \<noteq> k"
  shows "lru_peek lru k (lru_cache (fold (apply_mark lru) ms h)) = Some v"
  using assms(2-4)
proof (induction ms arbitrary: h i)
  case Nil
  then show ?case using lru_contract.held_peek [OF assms(1)] by simp
next
  case (Cons m ms)
  obtain w where w: "lru_cache (apply_mark lru m h) = lru_push lru (marked_pair m) w (lru_cache h)"
    using apply_mark_push by blast
  have "lru_contract.held_within lru (Suc i) k v (lru_cache (apply_mark lru m h))"
    unfolding w using Cons.prems by (intro lru_contract.held_push_other [OF assms(1)]) simp_all
  moreover have "lru_cap lru (lru_cache (apply_mark lru m h)) = lru_cap lru (lru_cache h)"
    unfolding w by (rule lru_contract.cap_push [OF assms(1)])
  ultimately show ?case
    using Cons.prems Cons.IH [of "Suc i" "apply_mark lru m h"] by simp
qed

subsection \<open>Properties\<close>

text \<open>
  A completed pair stays cached. After a pair of orders is marked completed it is
  reported as cached at every later time and in either order, until as many marks of other
  pairs have followed as the cache has room for.
\<close>

theorem completed_pair_stays_cached:
  assumes "lru_contract lru" and "length ms < lru_cap lru (lru_cache h)"
    and "\<forall>m\<in>set ms. marked_pair m \<noteq> cache_tuple o1 o2"
  shows "cache_contains lru now o1 o2 (fold (apply_mark lru) ms (mark_completed lru o1 o2 h))
    \<and> cache_contains lru now o2 o1 (fold (apply_mark lru) ms (mark_completed lru o1 o2 h))"
proof -
  let ?h = "mark_completed lru o1 o2 h"
  have cap: "lru_cap lru (lru_cache ?h) = lru_cap lru (lru_cache h)"
    by (simp add: mark_completed_def lru_contract.cap_push [OF assms(1)])
  have "lru_contract.held_within lru 1 (cache_tuple o1 o2) Completed (lru_cache ?h)"
    using lru_contract.held_push_same [OF assms(1)] assms(2) by (simp add: mark_completed_def)
  from marks_keep_entry [OF assms(1) this _ assms(3)] show ?thesis
    using assms(2) cap by (simp add: cache_contains_def cache_tuple_sym [of o2 o1])
qed

definition empty_cache :: "(nat \<times> ((nat \<times> nat) \<times> HandshakeCacheState) list) HandshakeCache" where
  "empty_cache = \<lparr>cache_size = 0, max_size = 2, lru_cache = (2, [])\<rparr>"

theorem completed_pair_stays_cached_witness:
  "cache_contains list_lru 1000 7 (3::nat)
     (fold (apply_mark list_lru) [MarkInvisible 0 1 2 10] (mark_completed list_lru 3 7 empty_cache))"
  using completed_pair_stays_cached [OF list_lru.lru_contract_axioms,
      of "[MarkInvisible 0 1 2 10]" empty_cache 3 7 1000]
  by (simp add: empty_cache_def list_lru_def cache_tuple_def)

text \<open>
  An invisibility window ends on its own, whatever the entry was before. After a pair is
  marked invisible at time \<open>t\<close> for a window \<open>w\<close>, it is reported as cached exactly at the times
  before \<open>t + w\<close>, even if it had been marked completed: the mark replaces the entry.
\<close>

theorem invisible_pair_expires:
  assumes "lru_contract lru" and "0 < lru_cap lru (lru_cache h)"
  shows "cache_contains lru now o1 o2 (mark_invisible lru t o1 o2 w (mark_completed lru o2 o1 h))
    \<longleftrightarrow> now < t + w"
proof -
  have "0 < lru_cap lru (lru_cache (mark_completed lru o2 o1 h))"
    using assms(2) by (simp add: mark_completed_def lru_contract.cap_push [OF assms(1)])
  then have "lru_peek lru (cache_tuple o1 o2)
      (lru_cache (mark_invisible lru t o1 o2 w (mark_completed lru o2 o1 h))) = Some (Invisible (t + w))"
    using lru_contract.peek_push_same [OF assms(1)] by (simp add: mark_invisible_def)
  then show ?thesis by (simp add: cache_contains_def)
qed

theorem invisible_pair_expires_witness:
  "\<not> cache_contains list_lru 130 3 (7::nat)
     (mark_invisible list_lru 10 3 7 120 (mark_completed list_lru 7 3 empty_cache))"
  using invisible_pair_expires [OF list_lru.lru_contract_axioms, of empty_cache 130 3 7 10 120]
  by (simp add: empty_cache_def list_lru_def)

end
