(* ===== verification/Encumber.thy ===== *)
theory Encumber
  imports Circuit_Types
begin

section \<open>Notes and encryptions after a match\<close>

text \<open>
  The model of \<open>core/src/handshake/encumber.rs\<close>: from the opened result of a match it creates
  five notes, encrypts the fields their owners cannot know and commits to the notes. The
  constants are those of \<open>core/src/main.rs\<close>; the native match result is that of
  \<open>circuits/src/types/match.rs\<close>.

  A linkable commitment is the value it commits to: its blinder is not used here. The
  randomness of the encryptions is the argument \<open>rand\<close>, the \<open>i\<close>-th scalar drawn.
\<close>

text \<open>The float literal 0.0002 of the source is the single precision number \<open>13743895 / 2 ^ 36\<close>.\<close>

definition PROTOCOL_FEE :: FixedPoint where
  "PROTOCOL_FEE = from_f32_round_down (13743895, - 36)"

definition PROTOCOL_SETTLE_KEY :: nat where
  "PROTOCOL_SETTLE_KEY = 0"

record LinkableMatchResult =
  match_quote_mint :: scalar
  match_base_mint :: scalar
  match_quote_amount :: scalar
  match_base_amount :: scalar
  match_direction :: scalar
  match_execution_price :: FixedPoint
  match_max_minus_min_amount :: scalar
  match_min_amount_order_index :: scalar

record LinkableFee =
  lf_settle_key :: scalar
  lf_gas_addr :: scalar
  lf_gas_token_amount :: scalar
  lf_percentage_fee :: FixedPoint

record HandshakeResult =
  result_match :: LinkableMatchResult
  result_proof :: bytes
  party0_fee :: LinkableFee
  party1_fee :: LinkableFee
  party0_randomness_hash :: scalar
  party1_randomness_hash :: scalar
  pk_settle0 :: scalar
  pk_settle1 :: scalar
  pk_settle_cluster0 :: scalar
  pk_settle_cluster1 :: scalar

record match_notes =
  party0_note :: Note
  party1_note :: Note
  relayer0_note :: Note
  relayer1_note :: Note
  protocol_note :: Note

text \<open>\<open>Sub<FixedPoint> for Scalar\<close>.\<close>

definition scalar_sub_fp :: "scalar \<Rightarrow> FixedPoint \<Rightarrow> FixedPoint" where
  "scalar_sub_fp s a = fp_add_scalar (fp_neg a) s"

definition net_percentage :: "FixedPoint \<Rightarrow> FixedPoint" where
  "net_percentage fee = fp_sub (scalar_sub_fp 1 fee) PROTOCOL_FEE"

text \<open>The share of an amount that a percentage takes, rounded down.\<close>

definition share_of :: "sponge_env \<Rightarrow> FixedPoint \<Rightarrow> scalar \<Rightarrow> u64" where
  "share_of env percentage amt = scalar_to_u64 env (fp_floor (fp_mul_scalar percentage amt))"

definition party_amounts ::
  "sponge_env \<Rightarrow> OrderSide \<Rightarrow> FixedPoint \<Rightarrow> FixedPoint \<Rightarrow> scalar \<Rightarrow> scalar \<Rightarrow> u64 \<times> u64 \<times> u64 \<times> u64" where
  "party_amounts env d fee0 fee1 base quote =
     (case d of
        Buy \<Rightarrow> (share_of env (net_percentage fee0) base, scalar_to_u64 env quote,
                scalar_to_u64 env base, share_of env (net_percentage fee1) quote)
      | Sell \<Rightarrow> (scalar_to_u64 env base, share_of env (net_percentage fee0) quote,
                 share_of env (net_percentage fee1) base, scalar_to_u64 env quote))"

definition relayer_amounts ::
  "sponge_env \<Rightarrow> OrderSide \<Rightarrow> FixedPoint \<Rightarrow> FixedPoint \<Rightarrow> scalar \<Rightarrow> scalar \<Rightarrow> u64 \<times> u64 \<times> u64 \<times> u64" where
  "relayer_amounts env d fee0 fee1 base quote =
     (case d of
        Buy \<Rightarrow> (share_of env fee0 base, 0, 0, share_of env fee1 quote)
      | Sell \<Rightarrow> (0, share_of env fee0 quote, share_of env fee1 base, 0))"

definition create_notes ::
  "sponge_env \<Rightarrow> LinkableMatchResult \<Rightarrow> LinkableFee \<Rightarrow> LinkableFee \<Rightarrow> scalar \<Rightarrow> scalar
    \<Rightarrow> match_notes call" where
  "create_notes env m fee0 fee1 rh0 rh1 =
     bind_call (side_of_scalar (match_direction m)) (\<lambda>d.
       let base = match_base_amount m; quote = match_quote_amount m;
           base_mint_n = scalar_to_biguint (match_base_mint m);
           quote_mint_n = scalar_to_biguint (match_quote_mint m);
           (p0b, p0q, p1b, p1q) =
             party_amounts env d (lf_percentage_fee fee0) (lf_percentage_fee fee1) base quote;
           (r0b, r0q, r1b, r1q) =
             relayer_amounts env d (lf_percentage_fee fee0) (lf_percentage_fee fee1) base quote
       in Returns \<lparr>
         party0_note = \<lparr>mint1 = base_mint_n, volume1 = p0b, direction1 = d, mint2 = quote_mint_n,
           volume2 = p0q, direction2 = opposite d, fee_mint = scalar_to_biguint (lf_gas_addr fee0),
           fee_volume = scalar_to_u64 env (lf_gas_token_amount fee0), fee_direction = Sell,
           note_type = MatchNote, note_randomness = scalar_to_biguint rh0\<rparr>,
         party1_note = \<lparr>mint1 = base_mint_n, volume1 = p1b, direction1 = opposite d, mint2 = quote_mint_n,
           volume2 = p1q, direction2 = d, fee_mint = scalar_to_biguint (lf_gas_addr fee1),
           fee_volume = scalar_to_u64 env (lf_gas_token_amount fee1), fee_direction = Sell,
           note_type = MatchNote, note_randomness = scalar_to_biguint rh1\<rparr>,
         relayer0_note = \<lparr>mint1 = base_mint_n, volume1 = r0b, direction1 = Buy, mint2 = quote_mint_n,
           volume2 = r0q, direction2 = Buy, fee_mint = scalar_to_biguint (lf_gas_addr fee0),
           fee_volume = scalar_to_u64 env (lf_gas_token_amount fee0), fee_direction = Buy,
           note_type = InternalTransfer, note_randomness = scalar_to_biguint (scalar_add rh0 1)\<rparr>,
         relayer1_note = \<lparr>mint1 = base_mint_n, volume1 = r1b, direction1 = Buy, mint2 = quote_mint_n,
           volume2 = r1q, direction2 = Buy, fee_mint = scalar_to_biguint (lf_gas_addr fee1),
           fee_volume = scalar_to_u64 env (lf_gas_token_amount fee1), fee_direction = Buy,
           note_type = InternalTransfer, note_randomness = scalar_to_biguint (scalar_add rh1 1)\<rparr>,
         protocol_note = \<lparr>mint1 = base_mint_n, volume1 = share_of env PROTOCOL_FEE base,
           direction1 = Buy, mint2 = quote_mint_n, volume2 = share_of env PROTOCOL_FEE quote,
           direction2 = Buy, fee_mint = 0, fee_volume = 0, fee_direction = Buy,
           note_type = InternalTransfer, note_randomness = scalar_to_biguint (scalar_add rh0 rh1)\<rparr>\<rparr>)"

definition note_commit :: "sponge_env \<Rightarrow> Note \<Rightarrow> scalar \<Rightarrow> scalar" where
  "note_commit env n receiver_key = prime_field_to_scalar (compute_note_commitment env n receiver_key)"

subsection \<open>ElGamal encryption\<close>

text \<open>The modulus is \<open>get_ristretto_group_modulus\<close> of \<open>integration-helpers\<close>.\<close>

definition get_ristretto_group_modulus :: nat where
  "get_ristretto_group_modulus = push_bit 252 1 + 27742317777372353535851937790883648493"

definition DEFAULT_ELGAMAL_GENERATOR :: scalar where
  "DEFAULT_ELGAMAL_GENERATOR = 2"

record ElGamalCiphertext =
  partial_shared_secret :: scalar
  encrypted_message :: scalar

definition modpow :: "nat \<Rightarrow> nat \<Rightarrow> nat \<Rightarrow> nat" where
  "modpow b e m = b ^ e mod m"

definition encrypt_scalar :: "scalar \<Rightarrow> scalar \<Rightarrow> nat \<Rightarrow> ElGamalCiphertext \<times> scalar" where
  "encrypt_scalar random val pubkey =
     (let randomness = scalar_to_biguint random; field_mod = get_ristretto_group_modulus;
          ciphertext1 = modpow (scalar_to_biguint DEFAULT_ELGAMAL_GENERATOR) randomness field_mod;
          shared_secret = modpow pubkey randomness field_mod;
          message = (shared_secret * scalar_to_biguint val) mod field_mod
      in (\<lparr>partial_shared_secret = biguint_to_scalar ciphertext1,
           encrypted_message = biguint_to_scalar message\<rparr>, biguint_to_scalar randomness))"

subsection \<open>The statement and the witness\<close>

record ValidMatchEncryptionWitness =
  enc_match_res :: LinkableMatchResult
  enc_party0_fee :: LinkableFee
  enc_party1_fee :: LinkableFee
  enc_party0_randomness_hash :: scalar
  enc_party1_randomness_hash :: scalar
  enc_notes :: match_notes
  elgamal_randomness :: "scalar list"

record ValidMatchEncryptionStatement =
  party0_note_commit :: scalar
  party1_note_commit :: scalar
  relayer0_note_commit :: scalar
  relayer1_note_commit :: scalar
  protocol_note_commit :: scalar
  pk_settle_party0 :: scalar
  pk_settle_party1 :: scalar
  pk_settle_relayer0 :: scalar
  pk_settle_relayer1 :: scalar
  pk_settle_protocol :: scalar
  enc_protocol_fee :: FixedPoint
  volume1_ciphertext1 :: ElGamalCiphertext
  volume2_ciphertext1 :: ElGamalCiphertext
  volume1_ciphertext2 :: ElGamalCiphertext
  volume2_ciphertext2 :: ElGamalCiphertext
  mint1_protocol_ciphertext :: ElGamalCiphertext
  volume1_protocol_ciphertext :: ElGamalCiphertext
  mint2_protocol_ciphertext :: ElGamalCiphertext
  volume2_protocol_ciphertext :: ElGamalCiphertext
  randomness_protocol_ciphertext :: ElGamalCiphertext

definition build_encryption_job ::
  "sponge_env \<Rightarrow> (nat \<Rightarrow> scalar) \<Rightarrow> HandshakeResult
    \<Rightarrow> (ValidMatchEncryptionWitness \<times> ValidMatchEncryptionStatement) call" where
  "build_encryption_job env rand r =
     bind_call (create_notes env (result_match r) (party0_fee r) (party1_fee r)
         (party0_randomness_hash r) (party1_randomness_hash r)) (\<lambda>ns.
       let key0 = scalar_to_biguint (pk_settle0 r); key1 = scalar_to_biguint (pk_settle1 r);
           pn = protocol_note ns;
           (c0, r0) = encrypt_scalar (rand 0) (scalar_of_u64 (volume1 (party0_note ns))) key0;
           (c1, r1) = encrypt_scalar (rand 1) (scalar_of_u64 (volume2 (party0_note ns))) key0;
           (c2, r2) = encrypt_scalar (rand 2) (scalar_of_u64 (volume1 (party1_note ns))) key1;
           (c3, r3) = encrypt_scalar (rand 3) (scalar_of_u64 (volume2 (party1_note ns))) key1;
           (c4, r4) = encrypt_scalar (rand 4) (biguint_to_scalar (mint1 pn)) PROTOCOL_SETTLE_KEY;
           (c5, r5) = encrypt_scalar (rand 5) (biguint_to_scalar (mint2 pn)) PROTOCOL_SETTLE_KEY;
           (c6, r6) = encrypt_scalar (rand 6) (scalar_of_u64 (volume1 pn)) PROTOCOL_SETTLE_KEY;
           (c7, r7) = encrypt_scalar (rand 7) (scalar_of_u64 (volume2 pn)) PROTOCOL_SETTLE_KEY;
           (c8, r8) = encrypt_scalar (rand 8) (biguint_to_scalar (note_randomness pn)) PROTOCOL_SETTLE_KEY
       in Returns (
         \<lparr>enc_match_res = result_match r, enc_party0_fee = party0_fee r, enc_party1_fee = party1_fee r,
          enc_party0_randomness_hash = party0_randomness_hash r,
          enc_party1_randomness_hash = party1_randomness_hash r, enc_notes = ns,
          elgamal_randomness = [r0, r1, r2, r3, r4, r5, r6, r7, r8]\<rparr>,
         \<lparr>party0_note_commit = note_commit env (party0_note ns) (pk_settle0 r),
          party1_note_commit = note_commit env (party1_note ns) (pk_settle1 r),
          relayer0_note_commit = note_commit env (relayer0_note ns) (pk_settle_cluster0 r),
          relayer1_note_commit = note_commit env (relayer1_note ns) (pk_settle_cluster1 r),
          protocol_note_commit = note_commit env pn (biguint_to_scalar PROTOCOL_SETTLE_KEY),
          pk_settle_party0 = pk_settle0 r, pk_settle_party1 = pk_settle1 r,
          pk_settle_relayer0 = pk_settle_cluster0 r, pk_settle_relayer1 = pk_settle_cluster1 r,
          pk_settle_protocol = biguint_to_scalar PROTOCOL_SETTLE_KEY, enc_protocol_fee = PROTOCOL_FEE,
          volume1_ciphertext1 = c0, volume2_ciphertext1 = c1, volume1_ciphertext2 = c2,
          volume2_ciphertext2 = c3, mint1_protocol_ciphertext = c4, volume1_protocol_ciphertext = c6,
          mint2_protocol_ciphertext = c5, volume2_protocol_ciphertext = c7,
          randomness_protocol_ciphertext = c8\<rparr>))"

subsection \<open>Shares of an amount\<close>

lemma protocol_fee_repr: "repr PROTOCOL_FEE = 858993"
  by (simp add: PROTOCOL_FEE_def from_f32_round_down_def DEFAULT_PRECISION_def saturate_u64_def
      scalar_of_u64_def)

lemma net_percentage_repr:
  assumes "repr fee + repr PROTOCOL_FEE \<le> 2 ^ 32"
  shows "repr (net_percentage fee) = 2 ^ 32 - repr fee - repr PROTOCOL_FEE"
proof -
  let ?m = "int field_modulus" and ?f = "int (repr fee)"
  have neg: "int (scalar_neg a) = (- int a) mod ?m" for a
    by (rule scalar_neg_int)
  have pow: "(2 :: int) ^ 32 < ?m" and f: "?f + 858993 \<le> 2 ^ 32"
    using assms by (simp_all add: field_modulus_def protocol_fee_repr)
  have "int (repr (net_percentage fee))
      = (((- ?f) mod ?m + 2 ^ 32 mod ?m) mod ?m + (- 858993) mod ?m) mod ?m"
    by (simp add: net_percentage_def fp_sub_def scalar_sub_fp_def fp_add_scalar_def fp_neg_def
        fp_add_def scalar_add_def scalar_mul_def zmod_int neg protocol_fee_repr)
  also have "\<dots> = (- ?f + 2 ^ 32 + - 858993) mod ?m"
    by (simp only: mod_add_eq)
  also have "\<dots> = (2 ^ 32 - ?f - 858993) mod ?m"
    by simp
  also have "\<dots> = 2 ^ 32 - ?f - 858993"
    using f pow by (intro mod_pos_pos_trivial) simp_all
  finally show ?thesis
    using f by (simp add: protocol_fee_repr)
qed

text \<open>\<open>scalar_to_u64\<close> is documented to return the value of a scalar that fits.\<close>

definition reads_u64 :: "sponge_env \<Rightarrow> bool" where
  "reads_u64 env \<longleftrightarrow> (\<forall>s < 2 ^ 64. scalar_to_u64 env s = of_nat s)"

lemma reads_u64_value: "reads_u64 env \<Longrightarrow> s < 2 ^ 64 \<Longrightarrow> unat (scalar_to_u64 env s) = s"
  by (simp add: reads_u64_def unat_of_nat take_bit_eq_mod)

lemma share_of_value:
  assumes "reads_u64 env" and "repr p \<le> 2 ^ 32" and "amt < 2 ^ 64"
  shows "unat (share_of env p amt) = repr p * amt div 2 ^ 32"
proof -
  have le: "repr p * amt div 2 ^ 32 \<le> amt"
    using assms(2) by (metis div_le_mono mult_le_mono1 nonzero_mult_div_cancel_left power_not_zero zero_neq_numeral)
  have "repr p * amt \<le> 2 ^ 32 * 2 ^ 64"
    using assms(2,3) by (intro mult_le_mono) simp_all
  also have "(2 :: nat) ^ 32 * 2 ^ 64 < field_modulus"
    by (simp add: field_modulus_def)
  finally have "fp_floor (fp_mul_scalar p amt) = repr p * amt div 2 ^ 32"
    by (rule fp_mul_floor)
  then show ?thesis
    using reads_u64_value [OF assms(1)] le assms(3) by (simp add: share_of_def)
qed

lemma three_floors:
  fixes a b c m :: nat
  assumes "a + b + c = m * n" and "0 < m"
  shows "a div m + b div m + c div m \<le> n \<and> n \<le> a div m + b div m + c div m + 2"
proof -
  define q r where "q = a div m + b div m + c div m" and "r = a mod m + b mod m + c mod m"
  have "m * q + r = (m * (a div m) + a mod m) + (m * (b div m) + b mod m) + (m * (c div m) + c mod m)"
    unfolding q_def r_def by (simp only: distrib_left add_ac)
  then have eq: "m * n = m * q + r"
    by (simp add: assms(1))
  have "r < 3 * m"
    using mod_less_divisor [OF assms(2), of a] mod_less_divisor [OF assms(2), of b]
      mod_less_divisor [OF assms(2), of c] unfolding r_def by linarith
  then have "m * q \<le> m * n" and "m * n < m * (q + 3)"
    by (simp_all add: eq distrib_left)
  then show ?thesis
    using assms(2) by (simp add: q_def)
qed

text \<open>The three shares of an amount add up to it, but for a loss of at most two units.\<close>

lemma shares_add_up:
  assumes "reads_u64 env" and "repr fee + repr PROTOCOL_FEE \<le> 2 ^ 32" and "amt < 2 ^ 64"
  shows "unat (share_of env (net_percentage fee) amt) + unat (share_of env fee amt)
      + unat (share_of env PROTOCOL_FEE amt) \<le> amt
    \<and> amt \<le> unat (share_of env (net_percentage fee) amt) + unat (share_of env fee amt)
      + unat (share_of env PROTOCOL_FEE amt) + 2"
proof -
  have "repr (net_percentage fee) + repr fee + repr PROTOCOL_FEE = 2 ^ 32"
    using net_percentage_repr [OF assms(2)] assms(2) by simp
  then have "repr (net_percentage fee) * amt + repr fee * amt + repr PROTOCOL_FEE * amt = 2 ^ 32 * amt"
    by (metis add_mult_distrib)
  from three_floors [OF this] show ?thesis
    using share_of_value [OF assms(1) _ assms(3)] net_percentage_repr [OF assms(2)] assms(2)
    by (simp add: protocol_fee_repr)
qed

subsection \<open>Properties\<close>

text \<open>
  C7: conservation of value in the notes of a match. For a match direction of zero or one,
  amounts that fit 64 bits and fees that leave room for the protocol fee, creating the notes
  succeeds. In each mint, the buyer's note, that party's relayer note and the protocol note
  together pay out at most the matched amount and fall short of it by at most two units,
  while the seller's note is charged exactly the matched amount; the two parties' notes go
  in opposite directions.
\<close>

theorem create_notes_conserve:
  assumes "reads_u64 env" and "match_direction m \<le> 1"
    and "match_base_amount m < 2 ^ 64" and "match_quote_amount m < 2 ^ 64"
    and "repr (lf_percentage_fee fee0) + repr PROTOCOL_FEE \<le> 2 ^ 32"
    and "repr (lf_percentage_fee fee1) + repr PROTOCOL_FEE \<le> 2 ^ 32"
  shows "\<exists>ns. create_notes env m fee0 fee1 rh0 rh1 = Returns ns
    \<and> direction1 (party1_note ns) = opposite (direction1 (party0_note ns))
    \<and> (let (buyer, buyer_relayer, seller, seller_relayer) =
             (if match_direction m = 0
              then (party0_note ns, relayer0_note ns, party1_note ns, relayer1_note ns)
              else (party1_note ns, relayer1_note ns, party0_note ns, relayer0_note ns));
           base_paid = unat (volume1 buyer) + unat (volume1 buyer_relayer) + unat (volume1 (protocol_note ns));
           quote_paid = unat (volume2 seller) + unat (volume2 seller_relayer) + unat (volume2 (protocol_note ns))
       in base_paid \<le> match_base_amount m \<and> match_base_amount m \<le> base_paid + 2
          \<and> quote_paid \<le> match_quote_amount m \<and> match_quote_amount m \<le> quote_paid + 2
          \<and> unat (volume1 seller) = match_base_amount m \<and> unat (volume2 buyer) = match_quote_amount m
          \<and> volume1 seller_relayer = 0 \<and> volume2 buyer_relayer = 0
          \<and> direction1 buyer = Buy \<and> direction1 seller = Sell)"
proof -
  note sums = shares_add_up [OF assms(1)]
  have d: "match_direction m = 0 \<or> match_direction m = 1"
    using assms(2) by auto
  show ?thesis
    using d sums [OF assms(5) assms(3)] sums [OF assms(5) assms(4)] sums [OF assms(6) assms(3)]
      sums [OF assms(6) assms(4)] reads_u64_value [OF assms(1)] assms(3,4)
    by (auto simp: create_notes_def side_of_scalar_def party_amounts_def relayer_amounts_def Let_def)
qed

definition example_match :: LinkableMatchResult where
  "example_match = \<lparr>match_quote_mint = 1, match_base_mint = 2, match_quote_amount = 5000,
     match_base_amount = 7000, match_direction = 1, match_execution_price = FixedPoint 0,
     match_max_minus_min_amount = 0, match_min_amount_order_index = 0\<rparr>"

definition example_fee :: LinkableFee where
  "example_fee = \<lparr>lf_settle_key = 3, lf_gas_addr = 4, lf_gas_token_amount = 5,
     lf_percentage_fee = FixedPoint (2 ^ 25)\<rparr>"

theorem create_notes_conserve_witness:
  "\<exists>ns. create_notes low_env example_match example_fee example_fee 8 9 = Returns ns
     \<and> unat (volume1 (party0_note ns)) = 7000"
proof -
  have "reads_u64 low_env" by (simp add: reads_u64_def low_env_def)
  from create_notes_conserve [OF this, of example_match example_fee example_fee 8 9]
  show ?thesis
    by (auto simp: example_match_def example_fee_def protocol_fee_repr Let_def)
qed

text \<open>
  Encryption under a public key can be undone by the owner. If the public key is the
  generator raised to a secret key, the encrypted message is the first component of the
  ciphertext raised to the secret key, times the plaintext, modulo the group order; and the
  randomness handed to the prover is the one that was used.
\<close>

theorem encrypt_scalar_correct:
  assumes "canonical random" and "pubkey = modpow (scalar_to_biguint DEFAULT_ELGAMAL_GENERATOR) sk get_ristretto_group_modulus"
    and "encrypt_scalar random val pubkey = (ct, r)"
  shows "encrypted_message ct
      = (partial_shared_secret ct ^ sk * val) mod get_ristretto_group_modulus \<and> r = random"
proof -
  let ?p = get_ristretto_group_modulus and ?g = DEFAULT_ELGAMAL_GENERATOR
  have p: "?p = field_modulus"
    by (simp add: get_ristretto_group_modulus_def field_modulus_def push_bit_eq_mult)
  have small: "biguint_to_scalar (a mod ?p) = a mod ?p" for a
  proof -
    have "a mod field_modulus < 2 ^ 253"
      using mod_less_divisor [OF field_modulus_pos, of a] field_modulus_bounds(2) by (rule less_trans)
    then have "a mod ?p < 2 ^ 256"
      unfolding p by (rule less_trans) simp
    then show ?thesis by (simp add: biguint_to_scalar_eq p)
  qed
  have ct: "partial_shared_secret ct = ?g ^ random mod ?p"
    "encrypted_message ct = (pubkey ^ random mod ?p * val) mod ?p" "r = biguint_to_scalar random"
    using assms(3) by (auto simp: encrypt_scalar_def modpow_def Let_def small)
  have "pubkey ^ random mod ?p = ?g ^ (sk * random) mod ?p"
    by (simp add: assms(2) modpow_def power_mod power_mult)
  moreover have "(?g ^ random mod ?p) ^ sk mod ?p = ?g ^ (sk * random) mod ?p"
    by (simp add: power_mod power_mult [symmetric] mult.commute)
  ultimately have "encrypted_message ct = (partial_shared_secret ct ^ sk mod ?p * val) mod ?p"
    using ct by simp
  moreover have "random < 2 ^ 256"
    using assms(1) field_modulus_bounds(2) by (simp add: canonical_def)
  ultimately show ?thesis
    using ct(3) assms(1) by (simp add: mod_mult_left_eq biguint_to_scalar_eq canonical_def)
qed

theorem encrypt_scalar_correct_witness:
  "encrypted_message (fst (encrypt_scalar 3 10 16)) = (8 ^ 4 * 10) mod get_ristretto_group_modulus"
proof -
  have "canonical 3" by (simp add: canonical_def field_modulus_def)
  moreover have "16 = modpow (scalar_to_biguint DEFAULT_ELGAMAL_GENERATOR) 4 get_ristretto_group_modulus"
    by (simp add: modpow_def DEFAULT_ELGAMAL_GENERATOR_def get_ristretto_group_modulus_def push_bit_eq_mult)
  moreover have "encrypt_scalar 3 10 16
      = (\<lparr>partial_shared_secret = 8, encrypted_message = 40960\<rparr>, 3)"
    by (simp add: encrypt_scalar_def modpow_def DEFAULT_ELGAMAL_GENERATOR_def Let_def
        get_ristretto_group_modulus_def push_bit_eq_mult biguint_to_scalar_eq field_modulus_def)
  ultimately show ?thesis
    using encrypt_scalar_correct [of 3 16 4 10 "\<lparr>partial_shared_secret = 8, encrypted_message = 40960\<rparr>" 3]
    by simp
qed

end
