(* ===== verification/Handshake_Manager.thy ===== *)
theory Handshake_Manager
  imports Gossip_Api Handshake_State Handshake_Cache Encumber
begin

section \<open>The handshake manager\<close>

text \<open>
  The model of \<open>core/src/handshake/manager.rs\<close>, of the jobs of \<open>core/src/handshake/jobs.rs\<close> and
  of the control flow of \<open>core/src/handshake/match.rs\<close>. A handler is a function on the
  executor's state that returns how the call ends; jobs are handled one at a time.

  What the handlers take from outside is grouped in \<open>manager_env\<close>: the LRU cache, iteration
  orders and random choices, the clock, a fresh request id, a free port, and the outcome of
  each step of the two-party computation, \<open>mpc_world\<close>. The cancel channel of a match is a
  fresh handle; its receiver is dropped when \<open>execute_match\<close> ends.
\<close>

definition HANDSHAKE_INVISIBILITY_WINDOW_MS :: nat where
  "HANDSHAKE_INVISIBILITY_WINDOW_MS = 120000"

definition HANDSHAKE_CACHE_SIZE :: nat where
  "HANDSHAKE_CACHE_SIZE = 500"

text \<open>
  The outcomes of the computation with the counterparty: connecting, running the match,
  proving it, sharing the fees, the randomness and the keys of party 0 and 1, and opening
  the result. \<open>cancel_seen k\<close> tells whether a cancel signal is in the channel at the \<open>k\<close>-th
  of the three checks the code makes.
\<close>

record mpc_world =
  mpc_connect :: "(unit, string) Result"
  mpc_match :: "CommitmentsWitness \<Rightarrow> (bytes, string) Result"
  mpc_prove :: "CommitmentsWitness \<Rightarrow> bytes \<Rightarrow> (bytes, HandshakeManagerError) Result"
  share_fee :: "nat \<Rightarrow> CommitmentsWitness \<Rightarrow> (LinkableFee, string) Result"
  share_randomness :: "nat \<Rightarrow> CommitmentsWitness \<Rightarrow> (scalar, string) Result"
  share_key :: "nat \<Rightarrow> scalar \<Rightarrow> (scalar, string) Result"
  mpc_open :: "bytes \<Rightarrow> (LinkableMatchResult, string) Result"
  cancel_seen :: "nat \<Rightarrow> bool"

record 'c manager_env =
  env_lru :: "(OrderIdentifier \<times> OrderIdentifier, HandshakeCacheState, 'c) lru_ops"
  env_iter_orders :: "OrderIdentifier set \<Rightarrow> OrderIdentifier list"
  env_iter_peers :: "WrappedPeerId set \<Rightarrow> WrappedPeerId list"
  env_gen_range :: "nat \<Rightarrow> nat"
  env_sponge :: sponge_env
  env_now :: instant
  env_fresh_id :: uuid
  env_unused_port :: "u16 option"
  env_fresh_channel :: cancel_handle
  env_rand :: "nat \<Rightarrow> scalar"
  env_mpc :: mpc_world
  env_proof_reply :: bool

record 'c HandshakeExecutor =
  handshake_cache :: "'c HandshakeCache"
  handshake_state_index :: HandshakeStateIndex
  network_channel :: "GossipOutbound channel"
  proof_manager_work_queue :: "(ValidMatchEncryptionWitness \<times> ValidMatchEncryptionStatement) channel"
  global_state :: RelayerState
  executor_bus :: bus_log
  dropped_receivers :: "cancel_handle set"

text \<open>
  The network of a two-party computation, as its constructor takes it: the party of the local
  node, the address it binds and the address it dials.
\<close>

datatype IpAddr = V4 bytes | V6 bytes

record SocketAddr =
  socket_ip :: IpAddr
  socket_port :: u16

record QuicTwoPartyNet =
  net_party_id :: u64
  net_local_addr :: SocketAddr
  net_peer_addr :: SocketAddr

datatype HandshakeExecutionJob =
    PerformHandshake OrderIdentifier
  | ProcessHandshakeMessage uuid WrappedPeerId HandshakeMessage "response_handle option"
  | MpcNetSetup uuid u64 QuicTwoPartyNet
  | MpcShootdown scalar
  | PeerMatchInProgress OrderIdentifier OrderIdentifier
  | CacheEntry OrderIdentifier OrderIdentifier

type_synonym ('a, 'c) handler =
  "'c HandshakeExecutor \<Rightarrow> ('a, HandshakeManagerError) Result call \<times> 'c HandshakeExecutor"

definition HandshakeExecutor_new ::
  "(OrderIdentifier \<times> OrderIdentifier, HandshakeCacheState, 'c) lru_ops \<Rightarrow> GossipOutbound channel
    \<Rightarrow> (ValidMatchEncryptionWitness \<times> ValidMatchEncryptionStatement) channel \<Rightarrow> RelayerState
    \<Rightarrow> 'c HandshakeExecutor call" where
  "HandshakeExecutor_new lru net queue st =
     bind_call (HandshakeCache_new lru HANDSHAKE_CACHE_SIZE) (\<lambda>cache.
       Returns \<lparr>handshake_cache = cache, handshake_state_index = HandshakeStateIndex_new,
         network_channel = net, proof_manager_work_queue = queue, global_state = st,
         executor_bus = [], dropped_receivers = {}\<rparr>)"

subsection \<open>Steps shared by the handlers\<close>

definition send_network :: "GossipOutbound \<Rightarrow> (unit, 'c) handler" where
  "send_network msg ex =
     (case send msg (network_channel ex) of
        Some ch \<Rightarrow> (Returns (Ok ()), ex\<lparr>network_channel := ch\<rparr>)
      | None \<Rightarrow> (Returns (Err (SendMessage ''channel closed'')), ex))"

definition on_index ::
  "(HandshakeStateIndex \<Rightarrow> 'a call \<times> HandshakeStateIndex) \<Rightarrow> 'c HandshakeExecutor
    \<Rightarrow> 'a call \<times> 'c HandshakeExecutor" where
  "on_index f ex =
     (case f (handshake_state_index ex) of (r, ix) \<Rightarrow> (r, ex\<lparr>handshake_state_index := ix\<rparr>))"

fun infallible :: "'a call \<times> 's \<Rightarrow> ('a, 'e) Result call \<times> 's" where
  "infallible (Returns x, s) = (Returns (Ok x), s)"
| "infallible (Panics, s) = (Panics, s)"
| "infallible (Blocks, s) = (Blocks, s)"

definition lookup_state :: "HandshakeManagerError \<Rightarrow> uuid \<Rightarrow> (HandshakeState, 'c) handler" where
  "lookup_state e r ex =
     (case get_state r (handshake_state_index ex) of
        Returns (Some s) \<Rightarrow> (Returns (Ok s), ex)
      | Returns None \<Rightarrow> (Returns (Err e), ex)
      | Panics \<Rightarrow> (Panics, ex)
      | Blocks \<Rightarrow> (Blocks, ex))"

definition start_handshake :: "uuid \<Rightarrow> OrderIdentifier \<Rightarrow> OrderIdentifier \<Rightarrow> (unit, 'c) handler" where
  "start_handshake r peer_order local_order ex =
     on_index (new_handshake (order_book (global_state ex)) r peer_order local_order) ex"

definition send_request_response ::
  "uuid \<Rightarrow> WrappedPeerId \<Rightarrow> HandshakeMessage \<Rightarrow> response_handle option \<Rightarrow> (unit, 'c) handler" where
  "send_request_response r p msg channel =
     send_network (case channel of
        Some ch \<Rightarrow> OutResponse ch (RespHandshake r msg)
      | None \<Rightarrow> OutRequest p (ReqHandshake r msg))"

definition choose_match_proposal ::
  "'c manager_env \<Rightarrow> OrderIdentifier \<Rightarrow> 'c HandshakeExecutor \<Rightarrow> OrderIdentifier option" where
  "choose_match_proposal env peer_order ex =
     find (\<lambda>oid. \<not> cache_contains (env_lru env) (env_now env) oid peer_order (handshake_cache ex))
       (get_local_scheduleable_orders (env_iter_orders env) (order_book (global_state ex)))"

subsection \<open>Outbound handshakes\<close>

definition perform_handshake :: "'c manager_env \<Rightarrow> OrderIdentifier \<Rightarrow> (unit, 'c) handler" where
  "perform_handshake env peer_order ex =
     (case choose_match_proposal env peer_order ex of
        None \<Rightarrow> (Returns (Ok ()), ex)
      | Some local_order \<Rightarrow>
          (case get_peer_managing_order (env_iter_peers env) (env_gen_range env) peer_order (global_state ex) of
             None \<Rightarrow> (Returns (Ok ()), ex)
           | Some p \<Rightarrow>
               and_then (send_network (OutRequest p (ReqHandshake (env_fresh_id env)
                   (ProposeMatchCandidate (local_peer_id (global_state ex)) peer_order local_order))) ex)
                 (\<lambda>_. start_handshake (env_fresh_id env) peer_order local_order)))"

subsection \<open>Messages from the counterparty\<close>

definition reject_match_proposal ::
  "uuid \<Rightarrow> OrderIdentifier \<Rightarrow> OrderIdentifier \<Rightarrow> MatchRejectionReason \<Rightarrow> response_handle
    \<Rightarrow> (unit, 'c) handler" where
  "reject_match_proposal r peer_order local_order reason channel ex =
     send_network (OutResponse channel (RespHandshake r
       (RejectMatchCandidate (local_peer_id (global_state ex)) peer_order local_order reason))) ex"

definition broker_match ::
  "'c manager_env \<Rightarrow> uuid \<Rightarrow> WrappedPeerId \<Rightarrow> OrderIdentifier \<Rightarrow> OrderIdentifier \<Rightarrow> response_handle
    \<Rightarrow> (unit, 'c) handler" where
  "broker_match env r p my_order sender_order channel ex =
     (case env_unused_port env of
        None \<Rightarrow> (Panics, ex)
      | Some local_port \<Rightarrow>
          and_then (send_network (OutManagement (BrokerMpcNet r p 0 local_port Listener)) ex) (\<lambda>_ ex1.
          and_then (send_network (OutPubsub (get_management_topic (local_cluster_id (global_state ex1)))
              (ClusterManagement (local_cluster_id (global_state ex1))
                 (MatchInProgress my_order sender_order))) ex1) (\<lambda>_ ex2.
          send_request_response r p
            (ExecuteMatch (local_peer_id (global_state ex2)) local_port False my_order sender_order)
            (Some channel) ex2)))"

definition handle_propose_match_candidate ::
  "'c manager_env \<Rightarrow> uuid \<Rightarrow> WrappedPeerId \<Rightarrow> OrderIdentifier \<Rightarrow> OrderIdentifier \<Rightarrow> response_handle
    \<Rightarrow> (unit, 'c) handler" where
  "handle_propose_match_candidate env r p my_order sender_order channel ex =
     (let book = order_book (global_state ex)
      in if (case get_order_info sender_order book of None \<Rightarrow> True | Some x \<Rightarrow> order_state x \<noteq> Verified)
         then reject_match_proposal r sender_order my_order NoValidityProof channel ex
         else if \<not> order_ready_for_handshake my_order book
         then reject_match_proposal r sender_order my_order LocalOrderNotReady channel ex
         else and_then (start_handshake r sender_order my_order ex) (\<lambda>_ ex1.
           if cache_contains (env_lru env) (env_now env) my_order sender_order (handshake_cache ex1)
           then reject_match_proposal r sender_order my_order Cached channel ex1
           else broker_match env r p my_order sender_order channel ex1))"

definition handle_proposal_rejection ::
  "'c manager_env \<Rightarrow> OrderIdentifier \<Rightarrow> OrderIdentifier \<Rightarrow> MatchRejectionReason
    \<Rightarrow> 'c HandshakeExecutor \<Rightarrow> 'c HandshakeExecutor" where
  "handle_proposal_rejection env my_order sender_order reason ex =
     (case reason of
        Cached \<Rightarrow> ex\<lparr>handshake_cache := mark_completed (env_lru env) my_order sender_order (handshake_cache ex)\<rparr>
      | _ \<Rightarrow> ex)"

definition handle_execute_match ::
  "'c manager_env \<Rightarrow> uuid \<Rightarrow> WrappedPeerId \<Rightarrow> u16 \<Rightarrow> OrderIdentifier \<Rightarrow> OrderIdentifier
    \<Rightarrow> response_handle option \<Rightarrow> (unit, 'c) handler" where
  "handle_execute_match env r p port order1 order2 channel ex =
     (let ex1 = ex\<lparr>handshake_cache := mark_completed (env_lru env) order1 order2 (handshake_cache ex)\<rparr>
      in case env_unused_port env of
           None \<Rightarrow> (Panics, ex1)
         | Some local_port \<Rightarrow>
             and_then (send_network (OutManagement (BrokerMpcNet r p port local_port Dialer)) ex1)
               (\<lambda>_. send_request_response r p HandshakeAck channel))"

fun handle_handshake_message ::
  "'c manager_env \<Rightarrow> uuid \<Rightarrow> HandshakeMessage \<Rightarrow> response_handle option \<Rightarrow> (unit, 'c) handler" where
  "handle_handshake_message env r HandshakeAck channel ex = (Returns (Ok ()), ex)"
| "handle_handshake_message env r (ProposeMatchCandidate p my_order sender_order) channel ex =
     (case channel of
        None \<Rightarrow> (Panics, ex)
      | Some ch \<Rightarrow> handle_propose_match_candidate env r p my_order sender_order ch ex)"
| "handle_handshake_message env r (RejectMatchCandidate p peer_order sender_order reason) channel ex =
     (Returns (Ok ()), handle_proposal_rejection env peer_order sender_order reason ex)"
| "handle_handshake_message env r (ExecuteMatch p port prev order1 order2) channel ex =
     handle_execute_match env r p port order1 order2 channel ex"

subsection \<open>Executing a match\<close>

text \<open>
  The second component of a result tells whether the match result was opened, that is
  revealed to both parties.
\<close>

fun mpc_step :: "('a, string) Result \<Rightarrow> ('a \<Rightarrow> ('b, HandshakeManagerError) Result \<times> bool)
    \<Rightarrow> ('b, HandshakeManagerError) Result \<times> bool" where
  "mpc_step (Ok x) f = f x"
| "mpc_step (Err e) f = (Err (MpcNetwork e), False)"

definition build_handshake_result ::
  "mpc_world \<Rightarrow> RelayerState \<Rightarrow> bytes \<Rightarrow> bytes \<Rightarrow> CommitmentsWitness \<Rightarrow> HandshakeState
    \<Rightarrow> (HandshakeResult, HandshakeManagerError) Result \<times> bool" where
  "build_handshake_result mpc st shared_match pf witness s =
     mpc_step (share_fee mpc 0 witness) (\<lambda>fee0.
     mpc_step (share_fee mpc 1 witness) (\<lambda>fee1.
     case get_wallet_for_order (local_order_id s) (wallet_index st) of
       None \<Rightarrow> (Err (StateNotFound ''couldn't find wallet for order''), False)
     | Some wid \<Rightarrow>
     case get_wallet wid (wallet_index st) of
       None \<Rightarrow> (Err (StateNotFound ''no wallet found for ID''), False)
     | Some w \<Rightarrow>
     mpc_step (share_randomness mpc 0 witness) (\<lambda>rh0.
     mpc_step (share_randomness mpc 1 witness) (\<lambda>rh1.
     mpc_step (share_key mpc 0 (pk_settle (public_keys w))) (\<lambda>key0.
     mpc_step (share_key mpc 1 (pk_settle (public_keys w))) (\<lambda>key1.
     if cancel_seen mpc 3 then (Err ShootdownError, False)
     else case mpc_open mpc shared_match of
       Err e \<Rightarrow> (Err (MpcNetwork e), True)
     | Ok m \<Rightarrow>
         (Ok \<lparr>result_match = m, result_proof = pf, party0_fee = fee0, party1_fee = fee1,
              party0_randomness_hash = rh0, party1_randomness_hash = rh1, pk_settle0 = key0,
              pk_settle1 = key1, pk_settle_cluster0 = 0, pk_settle_cluster1 = 0\<rparr>, True)))))))"

definition execute_match_impl ::
  "mpc_world \<Rightarrow> RelayerState \<Rightarrow> HandshakeState \<Rightarrow> (HandshakeResult, HandshakeManagerError) Result \<times> bool" where
  "execute_match_impl mpc st s =
     mpc_step (mpc_connect mpc) (\<lambda>_.
     case get_validity_proof_witness (local_order_id s) (order_book st) of
       None \<Rightarrow> (Err (StateNotFound ''missing validity proof witness, cannot link proofs''), False)
     | Some witness \<Rightarrow>
     mpc_step (mpc_match mpc witness) (\<lambda>match_res.
     if cancel_seen mpc 1 then (Err ShootdownError, False)
     else case mpc_prove mpc witness match_res of
       Err e \<Rightarrow> (Err e, False)
     | Ok pf \<Rightarrow>
     if cancel_seen mpc 2 then (Err ShootdownError, False)
     else build_handshake_result mpc st match_res pf witness s))"

definition execute_match :: "'c manager_env \<Rightarrow> uuid \<Rightarrow> (HandshakeResult, 'c) handler" where
  "execute_match env r ex =
     and_then (lookup_state (StateNotFound ''missing handshake state for request'') r ex) (\<lambda>s ex1.
     and_then (infallible (on_index (index_in_progress r (env_fresh_channel env)) ex1)) (\<lambda>_ ex2.
       (Returns (fst (execute_match_impl (env_mpc env) (global_state ex2) s)),
        ex2\<lparr>dropped_receivers := insert (env_fresh_channel env) (dropped_receivers ex2)\<rparr>)))"

definition record_completed_match :: "'c manager_env \<Rightarrow> uuid \<Rightarrow> (unit, 'c) handler" where
  "record_completed_match env r ex =
     and_then (lookup_state (InvalidRequest ''request_id'') r ex) (\<lambda>s ex1.
     let ex2 = ex1\<lparr>handshake_cache := mark_completed (env_lru env) (local_order_id s) (peer_order_id s)
                    (handshake_cache ex1)\<rparr>;
         ex3 = ex2\<lparr>global_state := mark_order_pair_matched (local_order_id s) (peer_order_id s) (global_state ex2)\<rparr>
     in and_then (infallible (on_index (index_completed r) ex3)) (\<lambda>_ ex4.
     and_then (send_network (OutPubsub (get_management_topic (local_cluster_id (global_state ex4)))
         (ClusterManagement (local_cluster_id (global_state ex4))
            (CacheSync (local_order_id s) (peer_order_id s)))) ex4) (\<lambda>_ ex5.
       (Returns (Ok ()), ex5\<lparr>executor_bus := executor_bus ex5 @
          [(HANDSHAKE_STATUS_TOPIC, HandshakeCompleted (local_order_id s) (peer_order_id s))]\<rparr>))))"

definition submit_match :: "'c manager_env \<Rightarrow> HandshakeResult \<Rightarrow> (unit, 'c) handler" where
  "submit_match env result ex =
     (case build_encryption_job (env_sponge env) (env_rand env) result of
        Panics \<Rightarrow> (Panics, ex)
      | Blocks \<Rightarrow> (Blocks, ex)
      | Returns job \<Rightarrow>
          (case send job (proof_manager_work_queue ex) of
             None \<Rightarrow> (Returns (Err (SendMessage ''channel closed'')), ex)
           | Some q \<Rightarrow>
               (if env_proof_reply env then Returns (Ok ())
                else Returns (Err (ReceiveProof ''channel closed'')),
                ex\<lparr>proof_manager_work_queue := q\<rparr>)))"

definition handle_mpc_net_setup :: "'c manager_env \<Rightarrow> uuid \<Rightarrow> (unit, 'c) handler" where
  "handle_mpc_net_setup env r ex =
     and_then (lookup_state (InvalidRequest ''request_id'') r ex) (\<lambda>s ex1.
     let ex2 = ex1\<lparr>handshake_cache := mark_invisible (env_lru env) (env_now env) (local_order_id s)
                    (peer_order_id s) HANDSHAKE_INVISIBILITY_WINDOW_MS (handshake_cache ex1)\<rparr>;
         ex3 = ex2\<lparr>executor_bus := executor_bus ex2 @
                    [(HANDSHAKE_STATUS_TOPIC, HandshakeInProgress (local_order_id s) (peer_order_id s))]\<rparr>
     in and_then (execute_match env r ex3) (\<lambda>result ex4.
     and_then (record_completed_match env r ex4) (\<lambda>_.
     submit_match env result)))"

fun handle_handshake_job :: "'c manager_env \<Rightarrow> HandshakeExecutionJob \<Rightarrow> (unit, 'c) handler" where
  "handle_handshake_job env (PerformHandshake oid) ex = perform_handshake env oid ex"
| "handle_handshake_job env (ProcessHandshakeMessage r p msg channel) ex =
     handle_handshake_message env r msg channel ex"
| "handle_handshake_job env (CacheEntry order1 order2) ex =
     (Returns (Ok ()), ex\<lparr>handshake_cache := mark_completed (env_lru env) order1 order2 (handshake_cache ex)\<rparr>)"
| "handle_handshake_job env (PeerMatchInProgress order1 order2) ex =
     (Returns (Ok ()), ex\<lparr>handshake_cache := mark_invisible (env_lru env) (env_now env) order1 order2
        HANDSHAKE_INVISIBILITY_WINDOW_MS (handshake_cache ex)\<rparr>)"
| "handle_handshake_job env (MpcNetSetup r party net) ex = handle_mpc_net_setup env r ex"
| "handle_handshake_job env (MpcShootdown n) ex =
     on_index (shootdown_nullifier (env_iter_orders env) (\<lambda>ch. ch \<notin> dropped_receivers ex) n) ex"

text \<open>
  One tick of the scheduler: it asks the global state for an order and enqueues a job on it.
\<close>

definition scheduler_tick ::
  "bool \<Rightarrow> (OrderIdentifier set \<Rightarrow> OrderIdentifier list) \<Rightarrow> weighted_index \<Rightarrow> RelayerState
    \<Rightarrow> HandshakeExecutionJob channel
    \<Rightarrow> (HandshakeManagerError option \<times> HandshakeExecutionJob channel) call" where
  "scheduler_tick oc iter wi st ch =
     bind_call (choose_handshake_order oc iter wi st) (\<lambda>r.
       case r of
         None \<Rightarrow> Returns (None, ch)
       | Some oid \<Rightarrow>
           (case send (PerformHandshake oid) ch of
              Some ch' \<Rightarrow> Returns (None, ch')
            | None \<Rightarrow> Returns (Some (SendMessage ''channel closed''), ch)))"

subsection \<open>What a handler sends\<close>

definition sent :: "'c HandshakeExecutor \<Rightarrow> 'c HandshakeExecutor \<Rightarrow> GossipOutbound list" where
  "sent ex ex' = drop (length (queued (network_channel ex))) (queued (network_channel ex'))"

lemma send_network_cases:
  "send_network msg ex = (if receiver_alive (network_channel ex)
     then (Returns (Ok ()), ex\<lparr>network_channel := network_channel ex\<lparr>queued := queued (network_channel ex) @ [msg]\<rparr>\<rparr>)
     else (Returns (Err (SendMessage ''channel closed'')), ex))"
  by (simp add: send_network_def send_def)

lemma sent_refl [simp]: "sent ex ex = []"
  by (simp add: sent_def)

lemma start_handshake_keeps:
  "snd (start_handshake r po lo ex) = ex\<lparr>handshake_state_index := handshake_state_index (snd (start_handshake r po lo ex))\<rparr>"
  by (simp add: start_handshake_def on_index_def split: prod.split)

lemma start_handshake_network [simp]:
  "network_channel (snd (start_handshake r po lo ex)) = network_channel ex"
  "handshake_cache (snd (start_handshake r po lo ex)) = handshake_cache ex"
  "global_state (snd (start_handshake r po lo ex)) = global_state ex"
  by (simp_all add: start_handshake_def on_index_def split: prod.split)

text \<open>The four ways in which a proposal is answered.\<close>

definition proposal_unverified :: "OrderIdentifier \<Rightarrow> 'c HandshakeExecutor \<Rightarrow> bool" where
  "proposal_unverified sender_order ex =
     (case get_order_info sender_order (order_book (global_state ex)) of
        None \<Rightarrow> True | Some x \<Rightarrow> order_state x \<noteq> Verified)"

lemma propose_cases:
  "handle_propose_match_candidate env r p my_order sender_order ch ex =
     (if proposal_unverified sender_order ex
      then reject_match_proposal r sender_order my_order NoValidityProof ch ex
      else if \<not> order_ready_for_handshake my_order (order_book (global_state ex))
      then reject_match_proposal r sender_order my_order LocalOrderNotReady ch ex
      else and_then (start_handshake r sender_order my_order ex) (\<lambda>_ ex1.
        if cache_contains (env_lru env) (env_now env) my_order sender_order (handshake_cache ex1)
        then reject_match_proposal r sender_order my_order Cached ch ex1
        else broker_match env r p my_order sender_order ch ex1))"
  by (simp add: handle_propose_match_candidate_def proposal_unverified_def)

lemma reject_sends:
  "reject_match_proposal r po lo reason ch ex = (res, ex') \<Longrightarrow>
   set (sent ex ex') \<subseteq> {OutResponse ch (RespHandshake r
     (RejectMatchCandidate (local_peer_id (global_state ex)) po lo reason))}"
  by (auto simp: reject_match_proposal_def send_network_cases sent_def split: if_splits)

lemma broker_match_alive:
  assumes "receiver_alive (network_channel ex)" and "env_unused_port env = Some port"
  shows "\<exists>ex'. broker_match env r p my_order sender_order ch ex = (Returns (Ok ()), ex')
    \<and> sent ex ex' = [OutManagement (BrokerMpcNet r p 0 port Listener),
        OutPubsub (get_management_topic (local_cluster_id (global_state ex)))
          (ClusterManagement (local_cluster_id (global_state ex)) (MatchInProgress my_order sender_order)),
        OutResponse ch (RespHandshake r
          (ExecuteMatch (local_peer_id (global_state ex)) port False my_order sender_order))]
    \<and> handshake_state_index ex' = handshake_state_index ex \<and> handshake_cache ex' = handshake_cache ex"
  using assms by (simp add: broker_match_def send_network_cases send_request_response_def sent_def)

lemma match_nullifier_of_proof: "get_match_nullifier oid b \<noteq> None \<longleftrightarrow> has_validity_proof oid b"
  by (simp add: get_match_nullifier_def has_validity_proof_def split: option.split)

lemma start_handshake_ok:
  assumes "\<not> state_map_held (handshake_state_index ex)"
    and "has_validity_proof po (order_book (global_state ex))"
    and "has_validity_proof lo (order_book (global_state ex))"
  shows "\<exists>pn ln. start_handshake r po lo ex = (Returns (Ok ()), ex\<lparr>handshake_state_index :=
      (handshake_state_index ex)\<lparr>
        state_map := (state_map (handshake_state_index ex))(r \<mapsto> HandshakeState_new r po lo pn ln),
        nullifier_map := insert_nullifier pn r (insert_nullifier ln r (nullifier_map (handshake_state_index ex)))\<rparr>\<rparr>)"
proof -
  obtain pn ln where "get_match_nullifier po (order_book (global_state ex)) = Some pn"
    "get_match_nullifier lo (order_book (global_state ex)) = Some ln"
    using assms(2,3) unfolding match_nullifier_of_proof [symmetric] by blast
  then show ?thesis
    using assms(1) by (auto simp: start_handshake_def on_index_def new_handshake_def)
qed

lemma lookup_state_free:
  "\<not> state_map_held (handshake_state_index ex) \<Longrightarrow>
   lookup_state e r ex = (case state_map (handshake_state_index ex) r of
     Some s \<Rightarrow> (Returns (Ok s), ex) | None \<Rightarrow> (Returns (Err e), ex))"
  by (simp add: lookup_state_def get_state_def split: option.split)

lemma lookup_state_held:
  "state_map_held (handshake_state_index ex) \<Longrightarrow> lookup_state e r ex = (Blocks, ex)"
  by (simp add: lookup_state_def get_state_def)

text \<open>The computation reveals its result only when no cancel signal was seen.\<close>

lemma mpc_step_opened: "snd (mpc_step x f) \<Longrightarrow> \<exists>y. x = Ok y \<and> snd (f y)"
  by (cases x) auto

lemma build_opened: "snd (build_handshake_result mpc st m pf w s) \<Longrightarrow> \<not> cancel_seen mpc 3"
  unfolding build_handshake_result_def
  by (auto dest!: mpc_step_opened split: option.splits if_splits)

lemma execute_opened:
  assumes "snd (execute_match_impl mpc st s)"
  shows "\<not> cancel_seen mpc 1 \<and> \<not> cancel_seen mpc 2 \<and> \<not> cancel_seen mpc 3"
  using assms unfolding execute_match_impl_def
  by (auto dest!: mpc_step_opened dest: build_opened split: option.splits if_splits Result.splits)

lemma mpc_step_ok: "fst (mpc_step x f) = Ok r \<Longrightarrow> \<exists>y. x = Ok y \<and> fst (f y) = Ok r"
  by (cases x) auto

lemma build_ok_opened:
  assumes "fst (build_handshake_result mpc st m pf w s) = Ok r"
  shows "snd (build_handshake_result mpc st m pf w s)"
  using assms unfolding build_handshake_result_def
  by (auto dest!: mpc_step_ok split: option.splits if_splits Result.splits)

lemma execute_ok_opened:
  assumes "fst (execute_match_impl mpc st s) = Ok r"
  shows "snd (execute_match_impl mpc st s)"
  using assms unfolding execute_match_impl_def
  by (auto dest!: mpc_step_ok dest: build_ok_opened split: option.splits if_splits Result.splits)

text \<open>Recording a match never gets past the completion of its handshake.\<close>

lemma index_completed_never: "fst (index_completed r ix) \<noteq> Returns ()"
proof -
  have "then_remove r locked = (Blocks, locked)" if "state_map_held locked" for locked
    using that by (simp add: then_remove_def remove_handshake_def)
  then show ?thesis
    by (cases "state_map ix r") (auto simp: index_completed_def Let_def state_completed_def)
qed

lemma record_completed_never:
  assumes "record_completed_match env r ex = (res, ex')"
  shows "res \<noteq> Returns (Ok ()) \<and> network_channel ex' = network_channel ex
    \<and> proof_manager_work_queue ex' = proof_manager_work_queue ex"
proof (cases "get_state r (handshake_state_index ex)")
  case (Returns st)
  show ?thesis
  proof (cases st)
    case None
    then show ?thesis
      using assms Returns by (auto simp: record_completed_match_def lookup_state_def)
  next
    case (Some s)
    obtain c ix where c: "index_completed r (handshake_state_index ex) = (c, ix)" by fastforce
    then have "c \<noteq> Returns ()"
      using index_completed_never [of r "handshake_state_index ex"] by simp
    then show ?thesis
      using assms Returns Some c
      by (cases c) (auto simp: record_completed_match_def lookup_state_def on_index_def Let_def)
  qed
qed (use assms in \<open>auto simp: record_completed_match_def lookup_state_def\<close>)

lemma lookup_state_keeps: "snd (lookup_state e r ex) = ex"
  by (simp add: lookup_state_def split: call.split option.split)

lemma on_index_keeps:
  assumes "infallible (on_index f ex) = (c, ex1)"
  shows "network_channel ex1 = network_channel ex" and "handshake_cache ex1 = handshake_cache ex"
    and "proof_manager_work_queue ex1 = proof_manager_work_queue ex"
proof -
  obtain d ix where "f (handshake_state_index ex) = (d, ix)" by fastforce
  then have "ex1 = ex\<lparr>handshake_state_index := ix\<rparr>"
    using assms by (cases d) (auto simp: on_index_def)
  then show "network_channel ex1 = network_channel ex" "handshake_cache ex1 = handshake_cache ex"
    "proof_manager_work_queue ex1 = proof_manager_work_queue ex" by simp_all
qed

lemma execute_match_keeps:
  assumes "execute_match env r ex = (res, ex')"
  shows "network_channel ex' = network_channel ex \<and> proof_manager_work_queue ex' = proof_manager_work_queue ex"
  using assms unfolding execute_match_def
proof (cases rule: and_then_elim)
  case (continues s ex1)
  have [simp]: "ex1 = ex"
    using lookup_state_keeps [of _ r ex] continues(1) by (metis snd_conv)
  show ?thesis
    using continues(2)
  proof (cases rule: and_then_elim)
    case stops
    then show ?thesis
      using on_index_keeps [OF prod.collapse [symmetric]] by auto
  qed (auto dest: on_index_keeps)
qed (simp add: lookup_state_keeps)

lemma execute_match_snd [simp]:
  "network_channel (snd (execute_match env r ex)) = network_channel ex"
  "proof_manager_work_queue (snd (execute_match env r ex)) = proof_manager_work_queue ex"
  using execute_match_keeps [OF prod.collapse [symmetric]] by blast+

subsection \<open>Properties of the manager\<close>

fun is_response :: "GossipOutbound \<Rightarrow> bool" where
  "is_response (OutResponse ch m) = True"
| "is_response _ = False"


text \<open>A node with a local order 1 and a verified order 2 of another cluster.\<close>

definition two_order_book :: NetworkOrderBook where
  "two_order_book = fold book_step
     [AddOrder (NetworkOrder_new 2 8 (ClusterId ''d'') False), UpdateProof 2 example_bundle] example_book"

definition example_env :: "(nat \<times> ((OrderIdentifier \<times> OrderIdentifier) \<times> HandshakeCacheState) list) manager_env" where
  "example_env = \<lparr>env_lru = list_lru, env_iter_orders = sorted_list_of_set, env_iter_peers = (\<lambda>_. []),
     env_gen_range = (\<lambda>_. 0), env_sponge = low_env, env_now = 0, env_fresh_id = 9,
     env_unused_port = Some 4000, env_fresh_channel = 77, env_rand = (\<lambda>_. 1),
     env_mpc = \<lparr>mpc_connect = Ok (), mpc_match = (\<lambda>_. Ok []), mpc_prove = (\<lambda>_ _. Ok []),
       share_fee = (\<lambda>_ _. Ok example_fee), share_randomness = (\<lambda>_ _. Ok 1), share_key = (\<lambda>_ k. Ok k),
       mpc_open = (\<lambda>_. Err ''no result''), cancel_seen = (\<lambda>_. False)\<rparr>,
     env_proof_reply = True\<rparr>"

definition example_net :: QuicTwoPartyNet where
  "example_net = (let loopback = \<lparr>socket_ip = V4 [127, 0, 0, 1], socket_port = 0\<rparr>
     in \<lparr>net_party_id = 0, net_local_addr = loopback, net_peer_addr = loopback\<rparr>)"

definition example_executor ::
  "(nat \<times> ((OrderIdentifier \<times> OrderIdentifier) \<times> HandshakeCacheState) list) HandshakeExecutor" where
  "example_executor = \<lparr>handshake_cache = \<lparr>cache_size = 0, max_size = HANDSHAKE_CACHE_SIZE, lru_cache = (HANDSHAKE_CACHE_SIZE, [])\<rparr>,
     handshake_state_index = HandshakeStateIndex_new,
     network_channel = \<lparr>queued = [], receiver_alive = True\<rparr>,
     proof_manager_work_queue = \<lparr>queued = [], receiver_alive = True\<rparr>,
     global_state = example_state\<lparr>order_book := two_order_book\<rparr>, executor_bus = [], dropped_receivers = {}\<rparr>"

lemma two_order_book_fields:
  "order_map two_order_book 2 = Some \<lparr>order_id = 2, match_nullifier = 6, order_local = False,
     order_cluster = ClusterId ''d'', order_state = Verified,
     valid_commit_proof = Some example_bundle, valid_commit_witness = None\<rparr>"
  "order_map two_order_book 1 = order_map example_book 1"
  by (simp_all add: two_order_book_def book_fields NetworkOrder_new_def attach_commitment_proof_def
      example_bundle_def example_book_fields)


text \<open>
  C5: a shootdown seen at any of the three checks stops the computation before the match
  result is opened: nothing is revealed and no result is returned.
\<close>

theorem cancelled_match_not_opened:
  assumes "k \<in> {1, 2, 3}" and "cancel_seen mpc k"
  shows "\<not> snd (execute_match_impl mpc st s) \<and> (\<forall>result. fst (execute_match_impl mpc st s) \<noteq> Ok result)"
  using assms execute_opened [of mpc st s] execute_ok_opened [of mpc st s] by auto

theorem cancelled_match_not_opened_witness:
  "\<not> snd (execute_match_impl (env_mpc example_env\<lparr>cancel_seen := (\<lambda>k. k = 3)\<rparr>) example_state
      (HandshakeState_new 3 2 1 6 6))"
  using cancelled_match_not_opened [of 3 "env_mpc example_env\<lparr>cancel_seen := (\<lambda>k. k = 3)\<rparr>"] by simp

text \<open>
  C1: no match is ever announced or submitted. Whatever the outcome of the computation, the
  job that runs it does not end successfully, sends nothing to the network and queues no
  proof: recording the match waits for a lock that the same task holds.
\<close>

theorem match_never_submitted:
  assumes "handle_handshake_job env (MpcNetSetup r party net) ex = (res, ex')"
  shows "res \<noteq> Returns (Ok ()) \<and> sent ex ex' = [] \<and> proof_manager_work_queue ex' = proof_manager_work_queue ex"
  using assms unfolding handle_handshake_job.simps handle_mpc_net_setup_def
proof (cases rule: and_then_elim)
  case (continues s ex1)
  have [simp]: "ex1 = ex"
    using lookup_state_keeps [of _ r ex] continues(1) by (metis snd_conv)
  show ?thesis
    using continues(2) unfolding Let_def
  proof (cases rule: and_then_elim)
    case (continues result ex4)
    note ran = execute_match_keeps [OF continues(1)]
    show ?thesis
      using continues(2)
    proof (cases rule: and_then_elim)
      case (continues x ex5)
      then show ?thesis using record_completed_never [OF continues(1)] by simp
    next
      case stops
      then show ?thesis
        using record_completed_never [OF prod.collapse [symmetric], of env r ex4] ran by (simp add: sent_def)
    qed
  next
    case stops
    then have "network_channel ex' = network_channel ex" "proof_manager_work_queue ex' = proof_manager_work_queue ex"
      by (auto simp flip: stops(1))
    then show ?thesis using stops(3) by (simp add: sent_def)
  qed
next
  case stops
  then show ?thesis by (auto simp: lookup_state_keeps)
qed

theorem match_never_submitted_witness:
  "fst (handle_handshake_job example_env (MpcNetSetup 3 0 example_net) example_executor) \<noteq> Returns (Ok ())
   \<and> queued (proof_manager_work_queue (snd (handle_handshake_job example_env (MpcNetSetup 3 0 example_net) example_executor))) = []"
  using match_never_submitted [OF prod.collapse [symmetric], of example_env 3 0 example_net example_executor]
  by (simp add: example_executor_def)

lemma started_handshake_state:
  "start_handshake r po lo ex = (Returns (Ok ()), ex') \<Longrightarrow>
   \<exists>pn ln. state_map (handshake_state_index ex') r = Some (HandshakeState_new r po lo pn ln)"
  by (fastforce simp: start_handshake_def on_index_def new_handshake_def split: prod.splits option.splits if_splits)

lemma perform_handshake_cases:
  "perform_handshake env po ex =
     (case (choose_match_proposal env po ex,
            get_peer_managing_order (env_iter_peers env) (env_gen_range env) po (global_state ex)) of
        (Some lo, Some p) \<Rightarrow>
          and_then (send_network (OutRequest p (ReqHandshake (env_fresh_id env)
              (ProposeMatchCandidate (local_peer_id (global_state ex)) po lo))) ex)
            (\<lambda>_. start_handshake (env_fresh_id env) po lo)
      | _ \<Rightarrow> (Returns (Ok ()), ex))"
  by (simp add: perform_handshake_def split: option.split)

lemma chosen_proposal:
  assumes "hash_iteration (env_iter_orders env)" and "finite (verified_orders (order_book (global_state ex)))"
  shows "choose_match_proposal env po ex \<noteq> None \<longleftrightarrow>
      (\<exists>lo\<in>verified_orders (order_book (global_state ex)) \<inter> local_orders (order_book (global_state ex)).
         has_validity_witness lo (order_book (global_state ex))
         \<and> \<not> cache_contains (env_lru env) (env_now env) lo po (handshake_cache ex))"
    and "choose_match_proposal env po ex = Some lo \<Longrightarrow>
      lo \<in> verified_orders (order_book (global_state ex)) \<inter> local_orders (order_book (global_state ex))
      \<and> has_validity_witness lo (order_book (global_state ex))
      \<and> \<not> cache_contains (env_lru env) (env_now env) lo po (handshake_cache ex)"
proof -
  let ?b = "order_book (global_state ex)"
  have *: "set (get_local_scheduleable_orders (env_iter_orders env) ?b) =
      {lo \<in> verified_orders ?b \<inter> local_orders ?b. has_validity_witness lo ?b}"
    using hash_iteration.iter_set [OF assms(1)] assms(2) by (auto simp: get_local_scheduleable_orders_def)
  show "choose_match_proposal env po ex \<noteq> None \<longleftrightarrow>
      (\<exists>lo\<in>verified_orders ?b \<inter> local_orders ?b. has_validity_witness lo ?b
         \<and> \<not> cache_contains (env_lru env) (env_now env) lo po (handshake_cache ex))"
    using * by (auto simp: choose_match_proposal_def find_None_iff)
  show "choose_match_proposal env po ex = Some lo \<Longrightarrow> lo \<in> verified_orders ?b \<inter> local_orders ?b
      \<and> has_validity_witness lo ?b
      \<and> \<not> cache_contains (env_lru env) (env_now env) lo po (handshake_cache ex)"
    using * by (auto simp: choose_match_proposal_def find_Some_iff dest!: nth_mem)
qed

lemma perform_handshake_sent:
  "sent ex (snd (perform_handshake env po ex)) =
     (case (choose_match_proposal env po ex,
            get_peer_managing_order (env_iter_peers env) (env_gen_range env) po (global_state ex)) of
        (Some lo, Some p) \<Rightarrow> if receiver_alive (network_channel ex)
          then [OutRequest p (ReqHandshake (env_fresh_id env)
                 (ProposeMatchCandidate (local_peer_id (global_state ex)) po lo))] else []
      | _ \<Rightarrow> [])"
  by (simp add: perform_handshake_cases send_network_cases sent_def split: option.split)

text \<open>
  C6: performing a handshake proposes at most one pair. It proposes a local order that is
  verified, has its witness and was not seen with the peer's order, and it does so exactly
  when there is such an order, a peer that manages the other order is known, and the network
  task runs.
\<close>

theorem handshake_proposes_ready_order:
  fixes po :: OrderIdentifier
  assumes "hash_iteration (env_iter_orders env)" and "finite (verified_orders (order_book (global_state ex)))"
  defines "book \<equiv> order_book (global_state ex)"
    and "out \<equiv> sent ex (snd (perform_handshake env po ex))"
  shows "(out \<noteq> [] \<longleftrightarrow> receiver_alive (network_channel ex)
      \<and> get_peer_managing_order (env_iter_peers env) (env_gen_range env) po (global_state ex) \<noteq> None
      \<and> (\<exists>lo\<in>verified_orders book \<inter> local_orders book. has_validity_witness lo book
          \<and> \<not> cache_contains (env_lru env) (env_now env) lo po (handshake_cache ex)))
    \<and> (out \<noteq> [] \<longrightarrow> (\<exists>p lo. out = [OutRequest p (ReqHandshake (env_fresh_id env)
          (ProposeMatchCandidate (local_peer_id (global_state ex)) po lo))]
        \<and> lo \<in> verified_orders book \<inter> local_orders book \<and> has_validity_witness lo book
        \<and> \<not> cache_contains (env_lru env) (env_now env) lo po (handshake_cache ex)))"
  unfolding out_def book_def perform_handshake_sent chosen_proposal(1) [OF assms(1,2), symmetric]
  using chosen_proposal(2) [OF assms(1,2)] by (auto split: option.split)

definition example_peer_env ::
  "(nat \<times> ((OrderIdentifier \<times> OrderIdentifier) \<times> HandshakeCacheState) list) manager_env" where
  "example_peer_env = example_env\<lparr>env_iter_peers := (\<lambda>_. [WrappedPeerId [5]])\<rparr>"

definition example_peer_executor ::
  "(nat \<times> ((OrderIdentifier \<times> OrderIdentifier) \<times> HandshakeCacheState) list) HandshakeExecutor" where
  "example_peer_executor = example_executor\<lparr>global_state := (global_state example_executor)\<lparr>peer_index :=
     (peer_index example_state)\<lparr>cluster_peers := [ClusterId ''d'' \<mapsto> {WrappedPeerId [5]}]\<rparr>\<rparr>\<rparr>"

theorem handshake_proposes_ready_order_witness:
  "\<exists>p lo. sent example_peer_executor (snd (perform_handshake example_peer_env 2 example_peer_executor)) =
     [OutRequest p (ReqHandshake 9 (ProposeMatchCandidate (local_peer_id (global_state example_peer_executor)) 2 lo))]"
proof -
  have [simp]: "verified_orders two_order_book = {1, 2}" "local_orders two_order_book = {1}"
    by (auto simp: two_order_book_def book_fields NetworkOrder_new_def example_book_fields)
  have "receiver_alive (network_channel example_peer_executor)"
    "get_peer_managing_order (env_iter_peers example_peer_env) (env_gen_range example_peer_env) 2
       (global_state example_peer_executor) \<noteq> None"
    "has_validity_witness 1 (order_book (global_state example_peer_executor))"
    "\<not> cache_contains (env_lru example_peer_env) (env_now example_peer_env) 1 2 (handshake_cache example_peer_executor)"
    by (simp_all add: example_peer_executor_def example_peer_env_def example_executor_def example_env_def
        get_peer_managing_order_def get_order_info_def two_order_book_fields sample_cluster_peer_def read_cluster_peers_def
        has_validity_witness_def read_order_def example_book_fields cache_contains_def list_lru_def)
  then show ?thesis
    using handshake_proposes_ready_order [of example_peer_env example_peer_executor 2] ascending.hash_iteration_axioms
    by (auto simp: example_peer_executor_def example_peer_env_def example_executor_def example_env_def)
qed

lemma setup_fails:
  assumes "\<not> state_map_held (handshake_state_index ex)" and "state_map (handshake_state_index ex) r = Some s"
    and "handshake_state s = OrderNegotiation"
    and "fst (execute_match_impl (env_mpc env) (global_state ex) s) = Err e"
  shows "\<exists>ex'. handle_handshake_job env (MpcNetSetup r party net) ex = (Returns (Err e), ex')
    \<and> handshake_state_index ex' = (handshake_state_index ex)\<lparr>state_map := (state_map (handshake_state_index ex))
        (r \<mapsto> s\<lparr>handshake_state := MatchInProgressState, cancel_channel := Some (env_fresh_channel env)\<rparr>)\<rparr>
    \<and> env_fresh_channel env \<in> dropped_receivers ex'"
  using assms by (simp add: handle_mpc_net_setup_def execute_match_def lookup_state_free Let_def
      on_index_def index_in_progress_def state_in_progress_def)

text \<open>
  A computation that fails leaves its handshake registered with a dead cancel channel. A
  later shootdown of its nullifier that meets this handshake first fails, and the other
  handshakes on that nullifier stay registered, get no cancel signal, and are no longer in the
  nullifier index, so that no later shootdown reaches them through it.
\<close>

theorem failed_match_defeats_shootdown:
  assumes free: "\<not> state_map_held (handshake_state_index ex)"
    and entry: "state_map (handshake_state_index ex) r = Some s" "handshake_state s = OrderNegotiation"
    and fails: "fst (execute_match_impl (env_mpc env) (global_state ex) s) = Err e"
    and indexed: "nullifier_map (handshake_state_index ex) n = Some S"
    and order: "env_iter_orders env' S = r # rs" "r \<notin> set rs"
  shows "\<exists>ex1 ex2 err. handle_handshake_job env (MpcNetSetup r party net) ex = (Returns (Err e), ex1)
    \<and> handle_handshake_job env' (MpcShootdown n) ex1 = (Returns (Err (SendMessage err)), ex2)
    \<and> nullifier_map (handshake_state_index ex2) n = None
    \<and> cancel_signals (handshake_state_index ex2) = cancel_signals (handshake_state_index ex)
    \<and> (\<forall>q\<in>set rs. state_map (handshake_state_index ex2) q = state_map (handshake_state_index ex) q)"
proof -
  obtain ex1 where ex1: "handle_handshake_job env (MpcNetSetup r party net) ex = (Returns (Err e), ex1)"
    "handshake_state_index ex1 = (handshake_state_index ex)\<lparr>state_map := (state_map (handshake_state_index ex))
        (r \<mapsto> s\<lparr>handshake_state := MatchInProgressState, cancel_channel := Some (env_fresh_channel env)\<rparr>)\<rparr>"
    "env_fresh_channel env \<in> dropped_receivers ex1"
    using setup_fails [OF free entry fails] by blast
  have "drop_request m r M n = None" if "M n = None" for m and M :: "scalar \<rightharpoonup> uuid set"
    using that by (auto simp: drop_request_def split: option.split)
  then show ?thesis
    using ex1 free indexed order
    by (auto simp: on_index_def shootdown_nullifier_def remove_handshake_def Let_def)
qed

text \<open>The three steps of an agreement, seen from their results.\<close>

lemma proposal_sent:
  assumes "perform_handshake env po ex = (Returns (Ok ()), ex1)"
    and "sent ex ex1 = [OutRequest p (ReqHandshake r (ProposeMatchCandidate pa po lo))]"
  shows "\<exists>ex0. start_handshake r po lo ex0 = (Returns (Ok ()), ex1)"
proof -
  have "r = env_fresh_id env \<and> choose_match_proposal env po ex = Some lo"
    using perform_handshake_sent [of ex env po] assms by (auto split: option.splits if_splits)
  then show ?thesis
    using assms by (fastforce simp: perform_handshake_cases send_network_cases split: option.splits if_splits)
qed

lemma broker_match_ok:
  assumes "broker_match env r p my_order sender_order ch ex = (Returns (Ok ()), ex')"
  shows "\<exists>port. env_unused_port env = Some port \<and> receiver_alive (network_channel ex)"
  using assms by (auto simp: broker_match_def send_network_cases split: option.splits if_splits)

lemma proposal_accepted:
  assumes "handle_propose_match_candidate env r p my_order sender_order ch ex = (Returns (Ok ()), ex')"
    and "OutResponse ch (RespHandshake r (ExecuteMatch q port prev o1 o2)) \<in> set (sent ex ex')"
  shows "OutManagement (BrokerMpcNet r p 0 port Listener) \<in> set (sent ex ex') \<and> o1 = my_order \<and> o2 = sender_order
    \<and> (\<exists>pn ln. state_map (handshake_state_index ex') r = Some (HandshakeState_new r sender_order my_order pn ln))"
proof -
  have rejected: "\<not> OutResponse ch (RespHandshake r (ExecuteMatch q port prev o1 o2)) \<in> set (sent ex1 ex')"
    if "reject_match_proposal r sender_order my_order reason ch ex1 = (Returns (Ok ()), ex')" for reason ex1
    using reject_sends [OF that] by auto
  then have "\<not> proposal_unverified sender_order ex"
    "order_ready_for_handshake my_order (order_book (global_state ex))"
    using assms unfolding propose_cases by (metis)+
  with assms(1) have "and_then (start_handshake r sender_order my_order ex) (\<lambda>_ ex1.
      if cache_contains (env_lru env) (env_now env) my_order sender_order (handshake_cache ex1)
      then reject_match_proposal r sender_order my_order Cached ch ex1
      else broker_match env r p my_order sender_order ch ex1) = (Returns (Ok ()), ex')"
    by (simp add: propose_cases)
  then obtain ex1 where start: "start_handshake r sender_order my_order ex = (Returns (Ok ()), ex1)"
    and handled: "(if cache_contains (env_lru env) (env_now env) my_order sender_order (handshake_cache ex1)
      then reject_match_proposal r sender_order my_order Cached ch ex1
      else broker_match env r p my_order sender_order ch ex1) = (Returns (Ok ()), ex')"
    by (cases rule: and_then_elim) auto
  have same: "sent ex1 ex' = sent ex ex'"
    using start_handshake_network(1) [of r sender_order my_order ex] start by (simp add: sent_def)
  then have broker: "broker_match env r p my_order sender_order ch ex1 = (Returns (Ok ()), ex')"
    using handled rejected [of Cached ex1] assms(2) by (auto split: if_splits)
  obtain port' where "env_unused_port env = Some port'" "receiver_alive (network_channel ex1)"
    using broker_match_ok [OF broker] by blast
  then show ?thesis
    using broker_match_alive [of ex1 env port' r p my_order sender_order ch] broker same assms(2)
      started_handshake_state [OF start] by auto
qed

lemma acceptance_dials:
  assumes "handle_execute_match env r p port o1 o2 channel ex = (Returns (Ok ()), ex')"
  shows "handshake_state_index ex' = handshake_state_index ex
    \<and> (\<exists>local_port. OutManagement (BrokerMpcNet r p port local_port Dialer) \<in> set (sent ex ex'))"
  using assms by (auto simp: handle_execute_match_def send_network_cases send_request_response_def sent_def Let_def
      split: option.splits if_splits)

text \<open>
  C3: the two parties of a match agree on it. When one peer proposes a pair, the other
  accepts, and the first handles the acceptance, then both have a handshake under the same
  request id with the two orders swapped, and the two connection directives meet: the
  proposer dials, as the other party, the port on which the acceptor listens.
\<close>

theorem handshake_parties_agree:
  assumes proposes: "perform_handshake ea po exA = (Returns (Ok ()), exA1)"
    and proposal: "sent exA exA1 = [OutRequest pB (ReqHandshake r (ProposeMatchCandidate pA po lo))]"
    and accepts: "handle_handshake_message eb r (ProposeMatchCandidate pA po lo) (Some ch) exB = (Returns (Ok ()), exB1)"
    and reply: "OutResponse ch (RespHandshake r (ExecuteMatch pB' port prev o1 o2)) \<in> set (sent exB exB1)"
    and dials: "handle_handshake_message ea' r (ExecuteMatch pB' port prev o1 o2) chA exA1 = (Returns (Ok ()), exA2)"
  shows "\<exists>sA sB portA. OutManagement (BrokerMpcNet r pA 0 port Listener) \<in> set (sent exB exB1)
    \<and> OutManagement (BrokerMpcNet r pB' port portA Dialer) \<in> set (sent exA1 exA2)
    \<and> get_party_id Listener \<noteq> get_party_id Dialer
    \<and> state_map (handshake_state_index exA2) r = Some sA \<and> state_map (handshake_state_index exB1) r = Some sB
    \<and> local_order_id sA = peer_order_id sB \<and> peer_order_id sA = local_order_id sB
    \<and> {o1, o2} = {local_order_id sA, peer_order_id sA}"
proof -
  obtain exA0 where "start_handshake r po lo exA0 = (Returns (Ok ()), exA1)"
    using proposal_sent [OF proposes proposal] by blast
  then obtain pn ln where "state_map (handshake_state_index exA1) r = Some (HandshakeState_new r po lo pn ln)"
    using started_handshake_state by blast
  moreover have "handle_propose_match_candidate eb r pA po lo ch exB = (Returns (Ok ()), exB1)"
    "handle_execute_match ea' r pB' port o1 o2 chA exA1 = (Returns (Ok ()), exA2)"
    using accepts dials by simp_all
  ultimately show ?thesis
    using proposal_accepted [OF _ reply] acceptance_dials
    by (fastforce simp: HandshakeState_new_def)
qed

text \<open>The counterparty of the example node, which owns order 2 and knows order 1.\<close>

definition counterparty_book :: NetworkOrderBook where
  "counterparty_book = fold book_step
     [AddOrder (NetworkOrder_new 2 8 (ClusterId ''d'') True), UpdateProof 2 example_bundle, AttachWitness 2 [7],
      AddOrder (NetworkOrder_new 1 5 (ClusterId ''c'') False), UpdateProof 1 example_bundle] NetworkOrderBook_new"

definition counterparty ::
  "(nat \<times> ((OrderIdentifier \<times> OrderIdentifier) \<times> HandshakeCacheState) list) HandshakeExecutor" where
  "counterparty = example_executor\<lparr>global_state := example_state\<lparr>order_book := counterparty_book\<rparr>\<rparr>"

lemma counterparty_orders:
  "order_map counterparty_book 1 = Some \<lparr>order_id = 1, match_nullifier = 6, order_local = False,
     order_cluster = ClusterId ''c'', order_state = Verified,
     valid_commit_proof = Some example_bundle, valid_commit_witness = None\<rparr>"
  "order_map counterparty_book 2 = Some \<lparr>order_id = 2, match_nullifier = 6, order_local = True,
     order_cluster = ClusterId ''d'', order_state = Verified,
     valid_commit_proof = Some example_bundle, valid_commit_witness = Some [7]\<rparr>"
  by (simp_all add: counterparty_book_def book_fields NetworkOrderBook_new_def NetworkOrder_new_def
      attach_commitment_proof_def attach_validity_proof_witness_def example_bundle_def)

lemmas example_defs =
  example_peer_executor_def example_peer_env_def example_executor_def example_env_def
  counterparty_def HandshakeStateIndex_new_def

lemma two_order_book_indices:
  "verified_orders two_order_book = {1, 2}" "local_orders two_order_book = {1}"
  by (auto simp: two_order_book_def book_fields NetworkOrder_new_def example_book_fields)

lemma example_proposal:
  "\<exists>ex1. perform_handshake example_peer_env 2 example_peer_executor = (Returns (Ok ()), ex1)
    \<and> sent example_peer_executor ex1 = [OutRequest (WrappedPeerId [5]) (ReqHandshake 9
        (ProposeMatchCandidate (local_peer_id (global_state example_peer_executor)) 2 1))]
    \<and> receiver_alive (network_channel ex1)"
proof -
  have "choose_match_proposal example_peer_env 2 example_peer_executor = Some 1"
    by (simp add: choose_match_proposal_def get_local_scheduleable_orders_def example_defs two_order_book_indices
        has_validity_witness_def read_order_def two_order_book_fields example_book_fields cache_contains_def list_lru_def)
  moreover have "get_peer_managing_order (env_iter_peers example_peer_env) (env_gen_range example_peer_env) 2
       (global_state example_peer_executor) = Some (WrappedPeerId [5])"
    by (simp add: example_defs get_peer_managing_order_def get_order_info_def two_order_book_fields
        sample_cluster_peer_def read_cluster_peers_def)
  moreover have "\<exists>ix. start_handshake 9 2 1 (example_peer_executor\<lparr>network_channel := c\<rparr>)
      = (Returns (Ok ()), example_peer_executor\<lparr>network_channel := c, handshake_state_index := ix\<rparr>)" for c
  proof -
    have "has_validity_proof 1 two_order_book" "has_validity_proof 2 two_order_book"
      by (simp_all add: has_validity_proof_def read_order_def two_order_book_fields example_book_fields)
    then show ?thesis
      using start_handshake_ok [of "example_peer_executor\<lparr>network_channel := c\<rparr>" 2 1 9]
      by (auto simp: example_defs)
  qed
  moreover have "env_fresh_id example_peer_env = 9" "network_channel example_peer_executor = \<lparr>queued = [], receiver_alive = True\<rparr>"
    by (simp_all add: example_defs)
  ultimately show ?thesis
    by (fastforce simp: perform_handshake_cases send_network_cases sent_def)
qed

lemma example_acceptance:
  "\<exists>ex1. handle_handshake_message example_env 9 (ProposeMatchCandidate p 2 1) (Some 0) counterparty = (Returns (Ok ()), ex1)
    \<and> OutResponse 0 (RespHandshake 9 (ExecuteMatch (WrappedPeerId [0]) 4000 False 2 1)) \<in> set (sent counterparty ex1)"
proof -
  have "has_validity_proof 1 (order_book (global_state counterparty))"
    "has_validity_proof 2 (order_book (global_state counterparty))"
    by (simp_all add: has_validity_proof_def read_order_def counterparty_orders counterparty_def)
  then obtain ix where ix: "start_handshake 9 1 2 counterparty
      = (Returns (Ok ()), counterparty\<lparr>handshake_state_index := ix\<rparr>)"
    using start_handshake_ok [of counterparty 1 2 9] by (auto simp: example_defs)
  have "\<not> proposal_unverified 1 counterparty"
    "order_ready_for_handshake 2 (order_book (global_state counterparty))"
    "\<not> cache_contains (env_lru example_env) (env_now example_env) 2 1 (handshake_cache counterparty)"
    by (simp_all add: proposal_unverified_def counterparty_orders get_order_info_def example_defs
        order_ready_for_handshake_def has_validity_proof_def has_validity_witness_def read_order_def
        cache_contains_def list_lru_def)
  moreover have "sent (counterparty\<lparr>handshake_state_index := ix\<rparr>) ex1 = sent counterparty ex1" for ex1
    by (simp add: sent_def)
  ultimately show ?thesis
    using broker_match_alive [of "counterparty\<lparr>handshake_state_index := ix\<rparr>" example_env 4000 9 p 2 1 0] ix
    by (auto simp: propose_cases example_defs example_state_def initialize_global_state_def Let_def)
qed

lemma example_dial:
  assumes "receiver_alive (network_channel ex)"
  shows "\<exists>ex'. handle_handshake_message example_env 9 (ExecuteMatch p port prev o1 o2) None ex = (Returns (Ok ()), ex')"
  using assms by (simp add: handle_execute_match_def example_env_def send_network_cases send_request_response_def Let_def)

theorem handshake_parties_agree_witness:
  "\<exists>exA1 exA2 exB1 sA sB. perform_handshake example_peer_env 2 example_peer_executor = (Returns (Ok ()), exA1)
    \<and> handle_handshake_message example_env 9 (ExecuteMatch (WrappedPeerId [0]) 4000 False 2 1) None exA1
        = (Returns (Ok ()), exA2)
    \<and> handle_handshake_message example_env 9
        (ProposeMatchCandidate (local_peer_id (global_state example_peer_executor)) 2 1) (Some 0) counterparty
        = (Returns (Ok ()), exB1)
    \<and> state_map (handshake_state_index exA2) 9 = Some sA \<and> state_map (handshake_state_index exB1) 9 = Some sB
    \<and> local_order_id sA = peer_order_id sB \<and> peer_order_id sA = local_order_id sB"
proof -
  obtain exA1 where A: "perform_handshake example_peer_env 2 example_peer_executor = (Returns (Ok ()), exA1)"
    "sent example_peer_executor exA1 = [OutRequest (WrappedPeerId [5]) (ReqHandshake 9
        (ProposeMatchCandidate (local_peer_id (global_state example_peer_executor)) 2 1))]"
    "receiver_alive (network_channel exA1)"
    using example_proposal by blast
  obtain exB1 where B: "handle_handshake_message example_env 9
        (ProposeMatchCandidate (local_peer_id (global_state example_peer_executor)) 2 1) (Some 0) counterparty
        = (Returns (Ok ()), exB1)"
    "OutResponse 0 (RespHandshake 9 (ExecuteMatch (WrappedPeerId [0]) 4000 False 2 1)) \<in> set (sent counterparty exB1)"
    using example_acceptance by blast
  obtain exA2 where "handle_handshake_message example_env 9 (ExecuteMatch (WrappedPeerId [0]) 4000 False 2 1) None exA1
      = (Returns (Ok ()), exA2)"
    using example_dial [OF A(3)] by blast
  then show ?thesis
    using handshake_parties_agree [OF A(1,2) B] A(1) B(1) by blast
qed

text \<open>A node with the handshakes 3 and 4 on nullifier 6, the first about to fail.\<close>

definition failing_executor ::
  "(nat \<times> ((OrderIdentifier \<times> OrderIdentifier) \<times> HandshakeCacheState) list) HandshakeExecutor" where
  "failing_executor = example_executor\<lparr>handshake_state_index := HandshakeStateIndex_new\<lparr>
     state_map := [3 \<mapsto> HandshakeState_new 3 2 1 6 6, 4 \<mapsto> HandshakeState_new 4 2 1 6 6],
     nullifier_map := [6 \<mapsto> {3, 4}]\<rparr>\<rparr>"

theorem failed_match_defeats_shootdown_witness:
  "\<exists>ex1 ex2 e err. handle_handshake_job example_env (MpcNetSetup 3 0 example_net) failing_executor = (Returns (Err e), ex1)
    \<and> handle_handshake_job example_env (MpcShootdown 6) ex1 = (Returns (Err (SendMessage err)), ex2)
    \<and> state_map (handshake_state_index ex2) 4 = Some (HandshakeState_new 4 2 1 6 6)"
proof -
  have "fst (execute_match_impl (env_mpc example_env) (global_state failing_executor) (HandshakeState_new 3 2 1 6 6))
      = Err (StateNotFound ''couldn't find wallet for order'')"
    by (simp add: execute_match_impl_def build_handshake_result_def failing_executor_def example_defs
        HandshakeState_new_def get_validity_proof_witness_def read_order_def two_order_book_fields example_book_fields
        get_wallet_for_order_def example_state_def initialize_global_state_def WalletIndex_new_def Let_def)
  moreover have "sorted_list_of_set {3, 4 :: OrderIdentifier} = [3, 4]" by simp
  ultimately show ?thesis
    using failed_match_defeats_shootdown [of failing_executor 3 "HandshakeState_new 3 2 1 6 6" example_env _ 6
        "{3, 4}" example_env "[4]" 0]
    by (auto simp: failing_executor_def example_defs HandshakeState_new_def)
qed

end
