(* ===== verification/Gossip.thy ===== *)
theory Gossip
  imports Gossip_Api Handshake_Cache
begin

section \<open>The gossip server\<close>

text \<open>
  The model of \<open>core/src/gossip\<close>: the protocol executor of \<open>server.rs\<close> with the heartbeat
  protocol of \<open>heartbeat.rs\<close>, the cluster handlers of \<open>cluster.rs\<close> and the order book handlers of
  \<open>orderbook.rs\<close>. A handler is a function on the executor's state, which holds the peer expiry
  cache, the queue of the network manager and the global state; the server runs jobs as
  concurrent tasks, and the model runs each of them to its end.

  What comes from outside is grouped in \<open>gossip_env\<close>: cluster signatures, the sponge, iteration
  orders, the clock in seconds, the LRU cache, the text form of peer ids, the verifier of
  \<open>VALID COMMITMENTS\<close> proofs, and the StarkNet gateway with its field modulus and selectors.
\<close>

datatype GossipError =
    Cancelled string
  | MissingState string
  | Parse string
  | ServerSetup string
  | SendMessage string
  | StarknetRequest string
  | TimerFailed string
  | ValidCommitmentVerification string

definition HEARTBEAT_FAILURE_MS :: u64 where
  "HEARTBEAT_FAILURE_MS = 20000"

definition CLUSTER_HEARTBEAT_FAILURE_MS :: u64 where
  "CLUSTER_HEARTBEAT_FAILURE_MS = 7000"

definition EXPIRY_INVISIBILITY_WINDOW_MS :: u64 where
  "EXPIRY_INVISIBILITY_WINDOW_MS = 30000"

definition EXPIRY_CACHE_SIZE :: nat where
  "EXPIRY_CACHE_SIZE = 100"

text \<open>
  The LRU cache with the two further operations the expiry cache uses: \<open>get\<close> makes an entry
  the most recently used one, and \<open>pop_entry\<close> removes it.
\<close>

record ('k, 'v, 'c) expiry_ops =
  expiry_lru :: "('k, 'v, 'c) lru_ops"
  lru_get :: "'k \<Rightarrow> 'c \<Rightarrow> 'c"
  lru_pop :: "'k \<Rightarrow> 'c \<Rightarrow> 'c"

record starknet_env =
  felt_modulus :: nat
  contract_address :: nat
  selector_of :: "string \<Rightarrow> nat"
  call_contract :: "nat \<Rightarrow> nat \<Rightarrow> nat list \<Rightarrow> (nat list, string) Result"

record 'c gossip_env =
  g_crypto :: cluster_crypto
  g_sponge :: sponge_env
  g_now :: u64
  g_checked :: bool
  g_iter_peers :: "WrappedPeerId set \<Rightarrow> WrappedPeerId list"
  g_iter_ids :: "uuid set \<Rightarrow> uuid list"
  g_iter_mints :: "nat set \<Rightarrow> nat list"
  g_iter_names :: "string set \<Rightarrow> string list"
  g_gen_range :: "nat \<Rightarrow> nat"
  g_lru :: "(WrappedPeerId, u64, 'c) expiry_ops"
  peer_id_to_string :: "WrappedPeerId \<Rightarrow> string"
  peer_id_from_str :: "string \<Rightarrow> (WrappedPeerId, string) Result"
  g_starknet :: starknet_env
  verify_singleprover_proof :: "ValidCommitmentsBundle \<Rightarrow> (unit, string) Result"

record GossipServerConfig =
  config_peer_id :: WrappedPeerId
  config_cluster_id :: ClusterId
  config_addr :: multiaddr
  bootstrap_servers :: "(WrappedPeerId \<times> multiaddr) list"

record 'c GossipProtocolExecutor =
  peer_expiry_cache :: 'c
  gossip_network :: "GossipOutbound channel"
  gossip_state :: RelayerState
  gossip_config :: GossipServerConfig

type_synonym ('a, 'c) gossip_handler =
  "'c GossipProtocolExecutor \<Rightarrow> ('a, GossipError) Result call \<times> 'c GossipProtocolExecutor"

definition GossipProtocolExecutor_new ::
  "(WrappedPeerId, u64, 'c) expiry_ops \<Rightarrow> GossipOutbound channel \<Rightarrow> RelayerState \<Rightarrow> GossipServerConfig
    \<Rightarrow> 'c GossipProtocolExecutor" where
  "GossipProtocolExecutor_new lru net st cfg =
     \<lparr>peer_expiry_cache = lru_new (expiry_lru lru) EXPIRY_CACHE_SIZE, gossip_network = net,
      gossip_state = st, gossip_config = cfg\<rparr>"

definition send_out :: "GossipOutbound \<Rightarrow> (unit, 'c) gossip_handler" where
  "send_out msg ex =
     (case send msg (gossip_network ex) of
        Some ch \<Rightarrow> (Returns (Ok ()), ex\<lparr>gossip_network := ch\<rparr>)
      | None \<Rightarrow> (Returns (Err (SendMessage ''channel closed'')), ex))"

fun send_all :: "GossipOutbound list \<Rightarrow> (unit, 'c) gossip_handler" where
  "send_all [] ex = (Returns (Ok ()), ex)"
| "send_all (msg # msgs) ex = and_then (send_out msg ex) (\<lambda>_. send_all msgs)"

definition on_state :: "(RelayerState \<Rightarrow> RelayerState) \<Rightarrow> 'c GossipProtocolExecutor \<Rightarrow> 'c GossipProtocolExecutor" where
  "on_state f ex = ex\<lparr>gossip_state := f (gossip_state ex)\<rparr>"

subsection \<open>Heartbeats\<close>

definition record_heartbeat :: "'c gossip_env \<Rightarrow> WrappedPeerId \<Rightarrow> 'c GossipProtocolExecutor \<Rightarrow> 'c GossipProtocolExecutor" where
  "record_heartbeat env p =
     on_state (\<lambda>st. st\<lparr>peer_index := index_record_heartbeat (g_now env) p (peer_index st)\<rparr>)"

definition build_heartbeat_message :: "'c gossip_env \<Rightarrow> 'c GossipProtocolExecutor \<Rightarrow> HeartbeatMessage" where
  "build_heartbeat_message env ex =
     construct_heartbeat (peer_id_to_string env) (g_iter_peers env) (g_iter_ids env) (gossip_state ex)"

text \<open>The filter closure of \<open>add_new_peers\<close>, run over the ids with the expiry cache as state.\<close>

fun filter_expired ::
  "bool \<Rightarrow> (WrappedPeerId, u64, 'c) expiry_ops \<Rightarrow> u64 \<Rightarrow> (WrappedPeerId \<rightharpoonup> PeerInfo) \<Rightarrow> WrappedPeerId list
    \<Rightarrow> 'c \<Rightarrow> WrappedPeerId list call \<times> 'c" where
  "filter_expired oc lru now infos [] c = (Returns [], c)"
| "filter_expired oc lru now infos (p # ps) c =
     (let keep_rest = (\<lambda>keep c'. case filter_expired oc lru now infos ps c' of
              (Returns qs, c'') \<Rightarrow> (Returns (if keep then p # qs else qs), c'')
            | res \<Rightarrow> res)
      in case lru_peek (expiry_lru lru) p c of
           Some expired_at \<Rightarrow>
             (let c' = lru_get lru p c
              in case sub_u64 oc now expired_at of
                   Returns d \<Rightarrow>
                     if d \<le> EXPIRY_INVISIBILITY_WINDOW_MS div 1000 then keep_rest False c'
                     else keep_rest (infos p \<noteq> None) (lru_pop lru p c')
                 | Panics \<Rightarrow> (Panics, c')
                 | Blocks \<Rightarrow> (Blocks, c'))
         | None \<Rightarrow> keep_rest (infos p \<noteq> None) c)"

fun add_new_addrs :: "WrappedPeerId list \<Rightarrow> (WrappedPeerId \<rightharpoonup> PeerInfo) \<Rightarrow> (unit, 'c) gossip_handler" where
  "add_new_addrs [] infos ex = (Returns (Ok ()), ex)"
| "add_new_addrs (p # ps) infos ex =
     (case infos p of
        None \<Rightarrow> (Panics, ex)
      | Some info \<Rightarrow>
          and_then (send_out (OutManagement (NewAddr p (addr info))) ex) (\<lambda>_. add_new_addrs ps infos))"

definition add_new_peers ::
  "'c gossip_env \<Rightarrow> WrappedPeerId list \<Rightarrow> (WrappedPeerId \<rightharpoonup> PeerInfo) \<Rightarrow> (bool, 'c) gossip_handler" where
  "add_new_peers env ps infos ex =
     (case filter_expired (g_checked env) (g_lru env) (g_now env) infos ps (peer_expiry_cache ex) of
        (Returns qs, c) \<Rightarrow>
          and_then (add_new_addrs qs infos (ex\<lparr>peer_expiry_cache := c\<rparr>)) (\<lambda>_ ex1.
            (Returns (Ok True), on_state (add_peers (g_crypto env) (g_now env) qs infos) ex1))
      | (Panics, c) \<Rightarrow> (Panics, ex\<lparr>peer_expiry_cache := c\<rparr>)
      | (Blocks, c) \<Rightarrow> (Blocks, ex\<lparr>peer_expiry_cache := c\<rparr>))"

definition merge_peer_index :: "'c gossip_env \<Rightarrow> (WrappedPeerId \<rightharpoonup> PeerInfo) \<Rightarrow> (unit, 'c) gossip_handler" where
  "merge_peer_index env infos ex =
     (let peers_to_add = filter (\<lambda>p. \<not> contains_peer p (peer_index (gossip_state ex))) (g_iter_peers env (dom infos))
      in if peers_to_add = [] then (Returns (Ok ()), ex)
         else and_then (add_new_peers env peers_to_add infos ex) (\<lambda>_ ex1. (Returns (Ok ()), ex1)))"

definition merge_wallets ::
  "'c gossip_env \<Rightarrow> (WalletIdentifier \<rightharpoonup> WalletMetadata) \<Rightarrow> RelayerState \<Rightarrow> RelayerState" where
  "merge_wallets env peer_wallets st =
     st\<lparr>wallet_index := fold (\<lambda>wid. case peer_wallets wid of
            Some md \<Rightarrow> merge_metadata wid \<lparr>replicas = {r \<in> replicas md. contains_peer r (peer_index st)}\<rparr>
          | None \<Rightarrow> id)
        (g_iter_ids env (dom peer_wallets)) (wallet_index st)\<rparr>"

fun request_orders :: "'c gossip_env \<Rightarrow> (OrderIdentifier \<times> ClusterId) list \<Rightarrow> (unit, 'c) gossip_handler" where
  "request_orders env [] ex = (Returns (Ok ()), ex)"
| "request_orders env ((oid, cid) # pairs) ex =
     (case sample_cluster_peer (g_iter_peers env) (g_gen_range env) cid (peer_index (gossip_state ex)) of
        Some p \<Rightarrow> and_then (send_out (OutRequest p (ReqOrderInfo oid)) ex) (\<lambda>_. request_orders env pairs)
      | None \<Rightarrow> request_orders env pairs ex)"

definition merge_order_book :: "'c gossip_env \<Rightarrow> (OrderIdentifier \<times> ClusterId) list \<Rightarrow> (unit, 'c) gossip_handler" where
  "merge_order_book env incoming ex =
     request_orders env (filter (\<lambda>(oid, cid). \<not> contains_order oid (order_book (gossip_state ex))) incoming) ex"

fun parse_peers ::
  "(string \<Rightarrow> (WrappedPeerId, string) Result) \<Rightarrow> (string \<rightharpoonup> PeerInfo) \<Rightarrow> string list
    \<Rightarrow> (WrappedPeerId \<rightharpoonup> PeerInfo) \<Rightarrow> ((WrappedPeerId \<rightharpoonup> PeerInfo), GossipError) Result" where
  "parse_peers from_str peers [] acc = Ok acc"
| "parse_peers from_str peers (s # ss) acc =
     (case from_str s of
        Ok p \<Rightarrow> parse_peers from_str peers ss (case peers s of Some info \<Rightarrow> acc(p \<mapsto> info) | None \<Rightarrow> acc)
      | Err e \<Rightarrow> Err (Parse e))"

definition merge_state_from_message :: "'c gossip_env \<Rightarrow> HeartbeatMessage \<Rightarrow> (unit, 'c) gossip_handler" where
  "merge_state_from_message env msg ex =
     (case parse_peers (peer_id_from_str env) (known_peers msg) (g_iter_names env (dom (known_peers msg))) Map.empty of
        Err e \<Rightarrow> (Returns (Err e), ex)
      | Ok infos \<Rightarrow>
          and_then (merge_peer_index env infos ex) (\<lambda>_ ex1.
            merge_order_book env (heartbeat_orders msg)
              (on_state (merge_wallets env (managed_wallets msg)) ex1)))"

definition maybe_expire_peer :: "'c gossip_env \<Rightarrow> WrappedPeerId \<Rightarrow> 'c GossipProtocolExecutor \<Rightarrow> unit call \<times> 'c GossipProtocolExecutor" where
  "maybe_expire_peer env p ex =
     (case read_peer p (peer_index (gossip_state ex)) of
        None \<Rightarrow> (Returns (), ex)
      | Some info \<Rightarrow>
          (let same_cluster = (cluster_id info = local_cluster_id (gossip_state ex))
           in case sub_u64 (g_checked env) (g_now env) (last_heartbeat info) of
                Panics \<Rightarrow> (Panics, ex)
              | Blocks \<Rightarrow> (Blocks, ex)
              | Returns elapsed \<Rightarrow>
                  if same_cluster \<and> elapsed < CLUSTER_HEARTBEAT_FAILURE_MS div 1000 then (Returns (), ex)
                  else if \<not> same_cluster \<and> elapsed < HEARTBEAT_FAILURE_MS div 1000 then (Returns (), ex)
                  else case remove_peer p (gossip_state ex) of
                         Returns st \<Rightarrow>
                           (Returns (), ex\<lparr>gossip_state := st,
                              peer_expiry_cache := lru_push (expiry_lru (g_lru env)) p (g_now env) (peer_expiry_cache ex)\<rparr>)
                       | Panics \<Rightarrow> (Panics, ex)
                       | Blocks \<Rightarrow> (Blocks, ex)))"

definition send_heartbeat :: "'c gossip_env \<Rightarrow> WrappedPeerId \<Rightarrow> (unit, 'c) gossip_handler" where
  "send_heartbeat env p ex =
     (if p = config_peer_id (gossip_config ex) then (Returns (Ok ()), ex)
      else and_then (send_out (OutRequest p (ReqHeartbeat (build_heartbeat_message env ex))) ex) (\<lambda>_ ex1.
        case maybe_expire_peer env p ex1 of
          (Returns _, ex2) \<Rightarrow> (Returns (Ok ()), ex2)
        | (Panics, ex2) \<Rightarrow> (Panics, ex2)
        | (Blocks, ex2) \<Rightarrow> (Blocks, ex2)))"

subsection \<open>Cluster management\<close>

definition send_replicate_request :: "WrappedPeerId \<Rightarrow> Wallet list \<Rightarrow> (unit, 'c) gossip_handler" where
  "send_replicate_request p wallets ex =
     (if wallets = [] then (Returns (Ok ()), ex) else send_out (OutRequest p (ReqReplicate wallets)) ex)"

definition add_peer_to_cluster ::
  "'c gossip_env \<Rightarrow> WrappedPeerId \<Rightarrow> PeerInfo \<Rightarrow> ClusterId \<Rightarrow> (unit, 'c) gossip_handler" where
  "add_peer_to_cluster env p info cid ex =
     (if cid \<noteq> local_cluster_id (gossip_state ex) then (Returns (Ok ()), ex)
      else let ex1 = on_state (add_single_peer (g_crypto env) (g_now env) p info) ex
           in send_replicate_request p (get_all_wallets (g_iter_ids env) (wallet_index (gossip_state ex1))) ex1)"

definition handle_cluster_join_job ::
  "'c gossip_env \<Rightarrow> ClusterId \<Rightarrow> ClusterJoinMessage \<Rightarrow> (unit, 'c) gossip_handler" where
  "handle_cluster_join_job env cid msg ex =
     (if cid \<noteq> local_cluster_id (gossip_state ex) then (Returns (Ok ()), ex)
      else and_then (add_peer_to_cluster env (join_peer_id msg) (join_peer_info msg) cid ex) (\<lambda>_ ex1.
        send_replicate_request (join_peer_id msg)
          (get_all_wallets (g_iter_ids env) (wallet_index (gossip_state ex1))) ex1))"

definition orders_needing_proofs :: "'c gossip_env \<Rightarrow> NetworkOrderBook \<Rightarrow> Wallet list \<Rightarrow> OrderIdentifier list" where
  "orders_needing_proofs env book wallets =
     filter (\<lambda>oid. \<not> has_validity_proof oid book)
       (concat (map (\<lambda>w. g_iter_ids env (dom (wallet_orders w))) wallets))"

definition handle_replicate_request :: "'c gossip_env \<Rightarrow> Wallet list \<Rightarrow> (unit, 'c) gossip_handler" where
  "handle_replicate_request env wallets ex =
     (if wallets = [] then (Returns (Ok ()), ex)
      else let ex1 = on_state (add_wallets (g_sponge env) (g_iter_mints env) (g_iter_ids env) wallets) ex;
               cid = local_cluster_id (gossip_state ex1); me = local_peer_id (gossip_state ex1);
               publish = (\<lambda>m. send_out (OutPubsub (get_management_topic cid) (ClusterManagement cid m)))
           in and_then (publish (Replicated (map wallet_id wallets) me) ex1) (\<lambda>_ ex2.
                publish (RequestOrderValidityProof
                  (orders_needing_proofs env (order_book (gossip_state ex2)) wallets) me) ex2))"

definition handle_add_replica_job ::
  "WrappedPeerId \<Rightarrow> WalletIdentifier \<Rightarrow> 'c GossipProtocolExecutor \<Rightarrow> 'c GossipProtocolExecutor" where
  "handle_add_replica_job p wid = on_state (\<lambda>st. st\<lparr>wallet_index := add_replica wid p (wallet_index st)\<rparr>)"

definition handle_share_validity_proofs_job ::
  "OrderIdentifier list \<Rightarrow> WrappedPeerId \<Rightarrow> (unit, 'c) gossip_handler" where
  "handle_share_validity_proofs_job oids sender ex =
     send_all (concat (map (\<lambda>oid. case get_validity_proof oid (order_book (gossip_state ex)) of
          Some pf \<Rightarrow> [OutRequest sender (ReqValidityProof oid pf)] | None \<Rightarrow> []) oids)) ex"

definition handle_updated_validity_proof ::
  "OrderIdentifier \<Rightarrow> ValidCommitmentsBundle \<Rightarrow> 'c GossipProtocolExecutor \<Rightarrow> 'c GossipProtocolExecutor" where
  "handle_updated_validity_proof oid pf = on_state (add_order_validity_proof oid pf)"

datatype ClusterManagementJob =
    AddWalletReplica WalletIdentifier WrappedPeerId
  | ClusterJoinRequest ClusterId ClusterJoinMessage
  | ReplicateRequest "Wallet list"
  | ShareValidityProofs "OrderIdentifier list" WrappedPeerId
  | UpdateValidityProof OrderIdentifier ValidCommitmentsBundle

fun handle_cluster_management_job :: "'c gossip_env \<Rightarrow> ClusterManagementJob \<Rightarrow> (unit, 'c) gossip_handler" where
  "handle_cluster_management_job env (ClusterJoinRequest cid msg) ex = handle_cluster_join_job env cid msg ex"
| "handle_cluster_management_job env (ReplicateRequest wallets) ex = handle_replicate_request env wallets ex"
| "handle_cluster_management_job env (AddWalletReplica wid p) ex =
     (Returns (Ok ()), handle_add_replica_job p wid ex)"
| "handle_cluster_management_job env (ShareValidityProofs oids sender) ex =
     handle_share_validity_proofs_job oids sender ex"
| "handle_cluster_management_job env (UpdateValidityProof oid pf) ex =
     (Returns (Ok ()), handle_updated_validity_proof oid pf ex)"

subsection \<open>Checks against the contract\<close>

definition NULLIFIER_USED_FUNCTION :: string where
  "NULLIFIER_USED_FUNCTION = ''is_nullifier_used''"

definition MERKLE_ROOT_IN_HISTORY_FUNCTION :: string where
  "MERKLE_ROOT_IN_HISTORY_FUNCTION = ''root_in_history''"

text \<open>The call that both checks make on a scalar, reduced modulo the StarkNet prime.\<close>

definition query_contract :: "starknet_env \<Rightarrow> string \<Rightarrow> scalar \<Rightarrow> (nat list, GossipError) Result call" where
  "query_contract sn fname a =
     bind_call (biguint_to_starknet_felt (felt_modulus sn) (scalar_to_biguint a mod felt_modulus sn)) (\<lambda>felt.
       case call_contract sn (contract_address sn) (selector_of sn fname) [felt] of
         Ok res \<Rightarrow> Returns (Ok res)
       | Err e \<Rightarrow> Returns (Err (StarknetRequest e)))"

definition check_merkle_root_valid :: "starknet_env \<Rightarrow> scalar \<Rightarrow> (bool, GossipError) Result call" where
  "check_merkle_root_valid sn mroot =
     bind_call (query_contract sn MERKLE_ROOT_IN_HISTORY_FUNCTION mroot) (\<lambda>r.
       case r of Ok res \<Rightarrow> Returns (Ok True) | Err e \<Rightarrow> Returns (Err e))"

definition check_nullifier_unused :: "starknet_env \<Rightarrow> scalar \<Rightarrow> (bool, GossipError) Result call" where
  "check_nullifier_unused sn n =
     bind_call (query_contract sn NULLIFIER_USED_FUNCTION n) (\<lambda>r.
       case r of
         Ok [] \<Rightarrow> Panics
       | Ok (x # xs) \<Rightarrow> Returns (Ok (x = 0))
       | Err e \<Rightarrow> Returns (Err e))"

definition verify_valid_commitments_proof ::
  "'c gossip_env \<Rightarrow> ValidCommitmentsBundle \<Rightarrow> (unit, GossipError) Result call" where
  "verify_valid_commitments_proof env bundle =
     bind_call (check_nullifier_unused (g_starknet env) (nullifier (statement bundle))) (\<lambda>r.
       case r of
         Err e \<Rightarrow> Returns (Err e)
       | Ok False \<Rightarrow> Returns (Err (ValidCommitmentVerification ''invalid nullifier, already used''))
       | Ok True \<Rightarrow>
           bind_call (check_merkle_root_valid (g_starknet env) (merkle_root (statement bundle))) (\<lambda>r.
             case r of
               Err e \<Rightarrow> Returns (Err e)
             | Ok False \<Rightarrow> Returns (Err (ValidCommitmentVerification ''invalid merkle root, not in contract history''))
             | Ok True \<Rightarrow>
                 (case verify_singleprover_proof env bundle of
                    Ok _ \<Rightarrow> Returns (Ok ())
                  | Err e \<Rightarrow> Returns (Err (ValidCommitmentVerification e)))))"

subsection \<open>Order book management\<close>

definition request_order_witness :: "OrderIdentifier \<Rightarrow> (unit, 'c) gossip_handler" where
  "request_order_witness oid ex =
     (let cid = local_cluster_id (gossip_state ex)
      in send_out (OutPubsub (get_management_topic cid) (ClusterManagement cid
           (RequestOrderValidityWitness oid (local_peer_id (gossip_state ex))))) ex)"

definition handle_order_info_request :: "OrderIdentifier \<Rightarrow> response_handle \<Rightarrow> (unit, 'c) gossip_handler" where
  "handle_order_info_request oid channel ex =
     send_out (OutResponse channel (RespOrderInfo oid (get_order_info oid (order_book (gossip_state ex))))) ex"

definition handle_order_info_response :: "'c gossip_env \<Rightarrow> NetworkOrder \<Rightarrow> (unit, 'c) gossip_handler" where
  "handle_order_info_response env info ex =
     (let is_local = (order_cluster info = local_cluster_id (gossip_state ex));
          add = (\<lambda>_ ex1. (Returns (Ok ()), on_state (state_add_order (info\<lparr>order_local := is_local\<rparr>)) ex1))
      in case valid_commit_proof info of
           None \<Rightarrow> add () ex
         | Some bundle \<Rightarrow>
             if is_local then and_then (request_order_witness (order_id info) ex) add
             else and_then (verify_valid_commitments_proof env bundle, ex) add)"

definition handle_new_order ::
  "'c gossip_env \<Rightarrow> OrderIdentifier \<Rightarrow> scalar \<Rightarrow> ClusterId \<Rightarrow> (unit, 'c) gossip_handler" where
  "handle_new_order env oid n cid ex =
     and_then (check_nullifier_unused (g_starknet env) n, ex) (\<lambda>unused ex1.
       if unused
       then (Returns (Ok ()), on_state (state_add_order
              (NetworkOrder_new oid n cid (cid = local_cluster_id (gossip_state ex1)))) ex1)
       else (Returns (Ok ()), ex1))"

definition handle_new_validity_proof ::
  "'c gossip_env \<Rightarrow> OrderIdentifier \<Rightarrow> ClusterId \<Rightarrow> ValidCommitmentsBundle \<Rightarrow> (unit, 'c) gossip_handler" where
  "handle_new_validity_proof env oid cid bundle ex =
     (let is_local = (cid = local_cluster_id (gossip_state ex))
      in and_then (if is_local then Returns (Ok ()) else verify_valid_commitments_proof env bundle, ex) (\<lambda>_ ex1.
           let ex2 = (if contains_order oid (order_book (gossip_state ex1)) then ex1
                      else on_state (state_add_order
                        (NetworkOrder_new oid (nullifier (statement bundle)) cid is_local)) ex1);
               ex3 = on_state (add_order_validity_proof oid bundle) ex2
           in if is_local then request_order_witness oid ex3 else (Returns (Ok ()), ex3)))"

definition handle_validity_witness_request ::
  "OrderIdentifier \<Rightarrow> WrappedPeerId \<Rightarrow> (unit, 'c) gossip_handler" where
  "handle_validity_witness_request oid p ex =
     (case get_peer_info p (peer_index (gossip_state ex)) of
        None \<Rightarrow> (Returns (Err (MissingState ''peer info not found in state'')), ex)
      | Some info \<Rightarrow>
          if cluster_id info \<noteq> local_cluster_id (gossip_state ex) then (Returns (Ok ()), ex)
          else case get_order_info oid (order_book (gossip_state ex)) of
                 None \<Rightarrow> (Returns (Ok ()), ex)
               | Some x \<Rightarrow>
                   (case valid_commit_witness x of
                      None \<Rightarrow> (Returns (Ok ()), ex)
                    | Some w \<Rightarrow> send_out (OutRequest p (ReqValidityWitness oid w)) ex))"

definition handle_validity_witness_response ::
  "OrderIdentifier \<Rightarrow> CommitmentsWitness \<Rightarrow> 'c GossipProtocolExecutor \<Rightarrow> 'c GossipProtocolExecutor" where
  "handle_validity_witness_response oid w =
     on_state (\<lambda>st. st\<lparr>order_book := attach_validity_proof_witness oid w (order_book st)\<rparr>)"

datatype OrderBookManagementJob =
    OrderInfoJob OrderIdentifier response_handle
  | OrderInfoResponseJob OrderIdentifier "NetworkOrder option"
  | OrderReceivedJob OrderIdentifier scalar ClusterId
  | OrderProofUpdatedJob OrderIdentifier ClusterId ValidCommitmentsBundle
  | OrderWitnessJob OrderIdentifier WrappedPeerId
  | OrderWitnessResponseJob OrderIdentifier CommitmentsWitness

fun handle_order_book_management_job ::
  "'c gossip_env \<Rightarrow> OrderBookManagementJob \<Rightarrow> (unit, 'c) gossip_handler" where
  "handle_order_book_management_job env (OrderInfoJob oid channel) ex = handle_order_info_request oid channel ex"
| "handle_order_book_management_job env (OrderInfoResponseJob oid info) ex =
     (case info of Some x \<Rightarrow> handle_order_info_response env x ex | None \<Rightarrow> (Returns (Ok ()), ex))"
| "handle_order_book_management_job env (OrderReceivedJob oid n cid) ex = handle_new_order env oid n cid ex"
| "handle_order_book_management_job env (OrderProofUpdatedJob oid cid bundle) ex =
     handle_new_validity_proof env oid cid bundle ex"
| "handle_order_book_management_job env (OrderWitnessJob oid p) ex = handle_validity_witness_request oid p ex"
| "handle_order_book_management_job env (OrderWitnessResponseJob oid w) ex =
     (Returns (Ok ()), handle_validity_witness_response oid w ex)"

subsection \<open>Dispatch and bootstrapping\<close>

datatype GossipServerJob =
    Bootstrap PeerInfo response_handle
  | ClusterJob ClusterManagementJob
  | ExecuteHeartbeat WrappedPeerId
  | HandleHeartbeatReq WrappedPeerId HeartbeatMessage response_handle
  | HandleHeartbeatResp WrappedPeerId HeartbeatMessage
  | OrderBookJob OrderBookManagementJob

text \<open>
  \<open>and_also r f\<close> runs \<open>f\<close> after a call that returned \<open>r\<close>, whatever \<open>r\<close> is, and combines the two
  results with \<open>Result::and\<close>.
\<close>

fun and_also :: "(unit, 'e) Result call \<times> 's \<Rightarrow> (unit, 'e) Result \<Rightarrow> (unit, 'e) Result call \<times> 's" where
  "and_also (Returns a, s) b = (Returns (result_and a b), s)"
| "and_also (Panics, s) b = (Panics, s)"
| "and_also (Blocks, s) b = (Blocks, s)"

fun handle_job :: "'c gossip_env \<Rightarrow> GossipServerJob \<Rightarrow> (unit, 'c) gossip_handler" where
  "handle_job env (Bootstrap info channel) ex =
     (case add_new_peers env [peer_id info] [peer_id info \<mapsto> info] ex of
        (Returns res, ex1) \<Rightarrow>
          and_also (send_out (OutResponse channel (RespHeartbeat (build_heartbeat_message env ex1))) ex1)
            (case res of Ok _ \<Rightarrow> Ok () | Err e \<Rightarrow> Err e)
      | (Panics, ex1) \<Rightarrow> (Panics, ex1)
      | (Blocks, ex1) \<Rightarrow> (Blocks, ex1))"
| "handle_job env (ExecuteHeartbeat p) ex = send_heartbeat env p ex"
| "handle_job env (HandleHeartbeatReq p msg channel) ex =
     (case send_out (OutResponse channel (RespHeartbeat (build_heartbeat_message env ex))) ex of
        (Returns res, ex1) \<Rightarrow> and_also (merge_state_from_message env msg ex1) res
      | other \<Rightarrow> other)"
| "handle_job env (HandleHeartbeatResp p msg) ex = merge_state_from_message env msg (record_heartbeat env p ex)"
| "handle_job env (ClusterJob job) ex = handle_cluster_management_job env job ex"
| "handle_job env (OrderBookJob job) ex = handle_order_book_management_job env job ex"

text \<open>
  The bootstrap of the server, up to the message that announces the local peer to its
  cluster; the warmup timer then sends \<open>GossipWarmupComplete\<close>.
\<close>

fun send_jobs :: "GossipServerJob list \<Rightarrow> GossipServerJob channel \<Rightarrow> (unit, GossipError) Result \<times> GossipServerJob channel" where
  "send_jobs [] ch = (Ok (), ch)"
| "send_jobs (j # js) ch =
     (case send j ch of Some ch' \<Rightarrow> send_jobs js ch' | None \<Rightarrow> (Err (SendMessage ''channel closed''), ch))"

definition warmup_then_join_cluster :: "(unit, 'c) gossip_handler" where
  "warmup_then_join_cluster ex =
     (let cfg = gossip_config ex
      in case get_peer_info (config_peer_id cfg) (peer_index (gossip_state ex)) of
           None \<Rightarrow> (Panics, ex)
         | Some info \<Rightarrow>
             send_out (OutPubsub (get_management_topic (config_cluster_id cfg))
               (ClusterManagement (config_cluster_id cfg)
                 (Join \<lparr>join_peer_id = config_peer_id cfg, join_peer_info = info, join_addr = config_addr cfg\<rparr>))) ex)"

definition bootstrap_into_network ::
  "'c gossip_env \<Rightarrow> GossipServerJob channel \<Rightarrow> 'c GossipProtocolExecutor
    \<Rightarrow> ((unit, GossipError) Result call \<times> 'c GossipProtocolExecutor) \<times> GossipServerJob channel" where
  "bootstrap_into_network env jobs ex =
     (let servers = bootstrap_servers (gossip_config ex);
          first = and_then (send_all (map (\<lambda>(p, a). OutManagement (NewAddr p a)) servers) ex) (\<lambda>_ ex1.
            case local_peer_info (gossip_state ex1) of
              Returns info \<Rightarrow> send_all (map (\<lambda>(p, a). OutRequest p (ReqBootstrap info)) servers) ex1
            | Panics \<Rightarrow> (Panics, ex1)
            | Blocks \<Rightarrow> (Blocks, ex1))
      in case first of
           (Returns (Ok _), ex2) \<Rightarrow>
             (case send_jobs (map ExecuteHeartbeat
                 (get_all_peer_ids (g_iter_peers env) (peer_index (gossip_state ex2)))) jobs of
                (Ok _, jobs') \<Rightarrow> (warmup_then_join_cluster ex2, jobs')
              | (Err e, jobs') \<Rightarrow> ((Returns (Err e), ex2), jobs'))
         | _ \<Rightarrow> (first, jobs))"

subsection \<open>The heartbeat timers\<close>

text \<open>
  One turn of a timer loop: the heartbeat job it enqueues, the next position, and the time
  quantum, in nanoseconds, it sleeps. The number of peers is cast to 32 bits; dividing a
  duration by zero panics.
\<close>

datatype timer_turn = NextTurn nat nat | TimerEnds GossipError

definition finish_turn ::
  "nat \<Rightarrow> nat \<Rightarrow> nat \<Rightarrow> WrappedPeerId option \<Rightarrow> GossipServerJob channel
    \<Rightarrow> timer_turn call \<times> GossipServerJob channel" where
  "finish_turn wait_period position peer_count next_peer jobs =
     (let next = (if peer_count \<le> position + 1 then 0 else position + 1);
          sleep = (\<lambda>ch. if peer_count mod 2 ^ 32 = 0 then (Panics, ch)
                        else (Returns (NextTurn next (wait_period div (peer_count mod 2 ^ 32))), ch))
      in case next_peer of
           None \<Rightarrow> sleep jobs
         | Some p \<Rightarrow>
             (case send (ExecuteHeartbeat p) jobs of
                Some ch \<Rightarrow> sleep ch
              | None \<Rightarrow> (Returns (TimerEnds (TimerFailed ''channel closed'')), jobs)))"

definition inter_cluster_turn ::
  "(WrappedPeerId set \<Rightarrow> WrappedPeerId list) \<Rightarrow> RelayerState \<Rightarrow> nat \<Rightarrow> nat \<Rightarrow> GossipServerJob channel
    \<Rightarrow> timer_turn call \<times> GossipServerJob channel" where
  "inter_cluster_turn iter st wait_period position =
     finish_turn wait_period position (peer_index_len (peer_index st))
       (case peer_index_nth iter position (peer_index st) of
          Some info \<Rightarrow> if cluster_id info \<noteq> local_cluster_id st then Some (peer_id info) else None
        | None \<Rightarrow> None)"

definition intra_cluster_turn ::
  "(WrappedPeerId set \<Rightarrow> WrappedPeerId list) \<Rightarrow> RelayerState \<Rightarrow> nat \<Rightarrow> nat \<Rightarrow> GossipServerJob channel
    \<Rightarrow> timer_turn call \<times> GossipServerJob channel" where
  "intra_cluster_turn iter st wait_period position =
     (let known = get_all_cluster_peers iter (local_cluster_id st) (peer_index st)
      in finish_turn wait_period position (length known)
           (if position < length known \<and> known ! position \<noteq> local_peer_id st
            then Some (known ! position) else None))"

subsection \<open>Effects on the global state\<close>

text \<open>
  \<open>reaches env st st'\<close>: the state \<open>st'\<close> is obtained from \<open>st\<close> by operations of the relayer state.
\<close>

inductive reaches :: "'c gossip_env \<Rightarrow> RelayerState \<Rightarrow> RelayerState \<Rightarrow> bool" for env where
  reaches_refl [intro, simp]: "reaches env st st"
| reaches_step: "reaches env st st' \<Longrightarrow>
    reaches env st (relayer_step (g_crypto env) (g_sponge env) (g_iter_mints env) (g_iter_ids env) oper st')"

lemma reaches_trans:
  assumes "reaches env st st'" and "reaches env st' st''"
  shows "reaches env st st''"
  using assms(2,1) by (induction rule: reaches.induct) (auto intro: reaches_step)

lemma reaches_one:
  "st' = relayer_step (g_crypto env) (g_sponge env) (g_iter_mints env) (g_iter_ids env) oper st \<Longrightarrow> reaches env st st'"
  using reaches_step [OF reaches_refl] by simp

lemma reaches_inv:
  assumes "reaches env st st'" and "relayer_inv (g_crypto env) st"
  shows "relayer_inv (g_crypto env) st'"
  using assms by (induction rule: reaches.induct) (simp_all add: relayer.step_inv)

definition evolves :: "'c gossip_env \<Rightarrow> 'c GossipProtocolExecutor \<Rightarrow> 'c GossipProtocolExecutor \<Rightarrow> bool" where
  "evolves env ex ex' \<longleftrightarrow> reaches env (gossip_state ex) (gossip_state ex')"

named_theorems evolution

lemma evolves_refl [evolution]: "evolves env ex ex"
  by (simp add: evolves_def)

lemma evolves_trans: "evolves env ex ex1 \<Longrightarrow> evolves env ex1 ex2 \<Longrightarrow> evolves env ex ex2"
  unfolding evolves_def by (rule reaches_trans)

lemma evolves_same_state: "gossip_state ex' = gossip_state ex \<Longrightarrow> evolves env ex ex'"
  by (simp add: evolves_def)

interpretation evolving: step_relation "evolves env" for env
  by unfold_locales (rule evolves_refl, rule evolves_trans)

lemma evolves_on_state:
  "evolves env ex ex1 \<Longrightarrow> reaches env (gossip_state ex1) (f (gossip_state ex1)) \<Longrightarrow> evolves env ex (on_state f ex1)"
  by (auto simp: evolves_def on_state_def intro: reaches_trans)

lemma send_out_state [simp]: "gossip_state (snd (send_out msg ex)) = gossip_state ex"
  by (simp add: send_out_def split: option.split)

lemma evolves_send [evolution]: "evolves env ex (snd (send_out msg ex))"
  by (simp add: evolves_same_state)

lemma evolves_send_all [evolution]: "evolves env ex (snd (send_all msgs ex))"
  by (induction msgs arbitrary: ex) (auto intro: evolving.and_then_step evolution)

lemma evolves_add_addrs [evolution]: "evolves env ex (snd (add_new_addrs ps infos ex))"
  by (induction ps arbitrary: ex) (auto split: option.split intro: evolving.and_then_step evolution)

lemma evolves_request_orders [evolution]: "evolves env ex (snd (request_orders env pairs ex))"
  by (induction env pairs ex rule: request_orders.induct) (auto split: option.split intro: evolving.and_then_step evolution)

lemma reaches_add_peers: "reaches env st (add_peers (g_crypto env) now ps infos st)"
  by (rule reaches_one [where oper = "OpAddPeers now ps infos"]) simp

lemma evolves_add_new_peers [evolution]: "evolves env ex (snd (add_new_peers env ps infos ex))"
proof -
  obtain r c where rc: "filter_expired (g_checked env) (g_lru env) (g_now env) infos ps (peer_expiry_cache ex) = (r, c)"
    by fastforce
  have start: "evolves env ex (ex\<lparr>peer_expiry_cache := c\<rparr>)" by (simp add: evolves_same_state)
  show ?thesis
  proof (cases r)
    case (Returns qs)
    have "evolves env (ex\<lparr>peer_expiry_cache := c\<rparr>) (snd (add_new_peers env ps infos ex))"
      unfolding add_new_peers_def rc Returns prod.case call.case
      by (rule evolving.and_then_step) (auto intro: evolution evolves_on_state reaches_add_peers)
    then show ?thesis by (rule evolves_trans [OF start])
  qed (use rc start in \<open>simp_all add: add_new_peers_def\<close>)
qed

lemma reaches_merge_wallets: "reaches env st (merge_wallets env md st)"
proof -
  let ?f = "\<lambda>wid. case md wid of
      Some m \<Rightarrow> merge_metadata wid \<lparr>replicas = {r \<in> replicas m. contains_peer r (peer_index st)}\<rparr>
    | None \<Rightarrow> id"
  have "reaches env st' (st'\<lparr>wallet_index := fold ?f wids (wallet_index st')\<rparr>)" for wids st'
  proof (induction wids arbitrary: st')
    case (Cons wid wids)
    let ?st = "st'\<lparr>wallet_index := ?f wid (wallet_index st')\<rparr>"
    have "reaches env st' ?st"
      by (cases "md wid") (auto intro!: reaches_one [where oper = "OpWallet (MergeMetadata wid
        \<lparr>replicas = {r \<in> replicas (the (md wid)). contains_peer r (peer_index st)}\<rparr>)"])
    then show ?case
      using reaches_trans [OF _ Cons.IH [of ?st]] by simp
  qed simp
  then show ?thesis by (simp add: merge_wallets_def)
qed

lemma evolves_merge [evolution]: "evolves env ex (snd (merge_state_from_message env msg ex))"
proof -
  have "evolves env ex1 (snd (merge_peer_index env infos ex1))" for infos ex1
    unfolding merge_peer_index_def Let_def by (simp add: evolution, intro impI evolving.and_then_step) (simp_all add: evolution)
  moreover have "evolves env ex1 (snd (merge_order_book env orders
      (on_state (merge_wallets env (managed_wallets msg)) ex1)))" for orders ex1
    unfolding merge_order_book_def
    by (rule evolves_trans [OF evolves_on_state evolves_request_orders])
      (simp_all add: evolution reaches_merge_wallets)
  ultimately show ?thesis
    unfolding merge_state_from_message_def
    by (auto split: Result.split intro: evolving.and_then_step evolution)
qed

lemma reaches_remove: "remove_peer p st = Returns st' \<Longrightarrow> reaches env st st'"
  by (rule reaches_one [where oper = "OpRemovePeer p"]) simp

lemma evolves_expire [evolution]: "evolves env ex (snd (maybe_expire_peer env p ex))"
  by (auto simp: maybe_expire_peer_def Let_def evolves_def intro: reaches_remove split: option.split call.split)

lemma evolves_send_heartbeat [evolution]: "evolves env ex (snd (send_heartbeat env p ex))"
proof -
  have "snd (case maybe_expire_peer env p ex1 of
          (Returns _, ex2) \<Rightarrow> (Returns (Ok ()) :: (unit, GossipError) Result call, ex2)
        | (Panics, ex2) \<Rightarrow> (Panics, ex2)
        | (Blocks, ex2) \<Rightarrow> (Blocks, ex2)) = snd (maybe_expire_peer env p ex1)" for ex1
    by (simp split: prod.split call.split)
  then show ?thesis
    unfolding send_heartbeat_def by (simp add: evolution, intro impI evolving.and_then_step) (simp_all add: evolution)
qed

lemma reaches_single_peer: "reaches env st (add_single_peer (g_crypto env) now p info st)"
  unfolding add_single_peer_def by (rule reaches_add_peers)

lemma reaches_add_wallets:
  "reaches env st (add_wallets (g_sponge env) (g_iter_mints env) (g_iter_ids env) wallets st)"
  by (rule reaches_one [where oper = "OpAddWallets wallets"]) simp

lemma reaches_add_order: "reaches env st (state_add_order x st)"
  by (rule reaches_one [where oper = "OpAddOrder x"]) simp

lemma reaches_add_proof: "reaches env st (add_order_validity_proof oid pf st)"
  by (rule reaches_one [where oper = "OpAddProof oid pf"]) simp

lemma reaches_attach_witness: "reaches env st (st\<lparr>order_book := attach_validity_proof_witness oid w (order_book st)\<rparr>)"
  by (rule reaches_one [where oper = "OpAttachWitness oid w"]) simp

lemma reaches_add_replica: "reaches env st (st\<lparr>wallet_index := add_replica wid p (wallet_index st)\<rparr>)"
  by (rule reaches_one [where oper = "OpWallet (AddReplica wid p)"]) simp

lemma reaches_heartbeat: "reaches env st (st\<lparr>peer_index := index_record_heartbeat (g_now env) p (peer_index st)\<rparr>)"
  by (rule reaches_one [where oper = "OpHeartbeat (g_now env) p"]) simp

lemmas evolves_state = evolves_on_state [OF evolves_refl]

lemma evolves_replicate [evolution]: "evolves env ex (snd (send_replicate_request p wallets ex))"
  by (simp add: send_replicate_request_def evolution)

lemma evolves_cluster_job [evolution]: "evolves env ex (snd (handle_cluster_management_job env job ex))"
proof (cases job)
  case (ClusterJoinRequest cid msg)
  have "evolves env ex (snd (add_peer_to_cluster env p info cid ex))" for p info
    unfolding add_peer_to_cluster_def Let_def
    by (auto simp: evolution evolves_state reaches_single_peer
        intro: evolves_trans [of _ _ "on_state (add_single_peer (g_crypto env) (g_now env) p info) ex"])
  then show ?thesis
    unfolding ClusterJoinRequest handle_cluster_management_job.simps handle_cluster_join_job_def
    by (simp add: evolution, intro impI evolving.and_then_step) (simp_all add: evolution)
next
  case (ReplicateRequest wallets)
  show ?thesis
    unfolding ReplicateRequest handle_cluster_management_job.simps handle_replicate_request_def Let_def
    by (auto simp: evolution evolves_state reaches_add_wallets evolving.and_then_step intro: evolves_trans
        [of _ _ "on_state (add_wallets (g_sponge env) (g_iter_mints env) (g_iter_ids env) wallets) ex"])
next
  case (ShareValidityProofs oids sender)
  then show ?thesis by (simp add: handle_share_validity_proofs_job_def evolution)
qed (simp_all add: handle_add_replica_job_def handle_updated_validity_proof_def evolves_state
      reaches_add_replica reaches_add_proof)

lemma evolves_order_info [evolution]: "evolves env ex (snd (handle_order_info_response env x ex))"
proof -
  have "evolves env ex (snd (and_then m (\<lambda>_ ex1. (Returns (Ok ()), on_state (state_add_order y) ex1))))"
    if "evolves env ex (snd m)" for m :: "(unit, GossipError) Result call \<times> 'a GossipProtocolExecutor" and y
    by (rule evolving.and_then_step) (simp_all add: that evolves_state reaches_add_order)
  from this [of "(verify_valid_commitments_proof env b, ex)" for b] this [OF evolves_send]
  show ?thesis
    by (simp add: handle_order_info_response_def Let_def request_order_witness_def evolution evolves_state
        reaches_add_order split: option.split)
qed

lemma evolves_new_proof [evolution]: "evolves env ex (snd (handle_new_validity_proof env oid cid bundle ex))"
proof -
  have "evolves env ex1 (snd (request_order_witness oid (on_state (add_order_validity_proof oid bundle)
          (if b then ex1 else on_state (state_add_order x) ex1))))"
    "evolves env ex1 (on_state (add_order_validity_proof oid bundle)
          (if b then ex1 else on_state (state_add_order x) ex1))" for ex1 b x
    by (auto simp: evolves_def request_order_witness_def on_state_def Let_def
        intro: reaches_add_proof reaches_trans [OF reaches_add_order])
  then show ?thesis
    unfolding handle_new_validity_proof_def Let_def
    by (intro evolving.and_then_step) (simp_all add: evolution)
qed

lemma evolves_order_book_job [evolution]: "evolves env ex (snd (handle_order_book_management_job env job ex))"
proof (cases job)
  case (OrderReceivedJob oid n cid)
  show ?thesis
    unfolding OrderReceivedJob handle_order_book_management_job.simps handle_new_order_def
    by (intro evolving.and_then_step) (simp_all add: evolution evolves_state reaches_add_order)
qed (simp_all add: handle_order_info_request_def handle_validity_witness_request_def
      handle_validity_witness_response_def evolves_state reaches_attach_witness evolution split: option.split)

lemma and_also_snd [simp]: "snd (and_also m r) = snd m"
  by (cases "(m, r)" rule: and_also.cases) auto

lemma evolves_job: "evolves env ex (snd (handle_job env job ex))"
proof (cases job)
  case (Bootstrap info channel)
  obtain r ex1 where r: "add_new_peers env [peer_id info] [peer_id info \<mapsto> info] ex = (r, ex1)" by fastforce
  then have "evolves env ex ex1"
    using evolves_add_new_peers [of env ex "[peer_id info]" "[peer_id info \<mapsto> info]"] by simp
  then show ?thesis
    unfolding Bootstrap by (cases r) (auto simp: r intro: evolves_trans evolution)
next
  case (HandleHeartbeatReq p msg channel)
  obtain r ex1 where r: "send_out (OutResponse channel (RespHeartbeat (build_heartbeat_message env ex))) ex = (r, ex1)"
    by fastforce
  then have "evolves env ex ex1"
    by (metis evolves_send snd_conv)
  then show ?thesis
    unfolding HandleHeartbeatReq by (cases r) (auto simp: r intro: evolves_trans evolution)
next
  case (HandleHeartbeatResp p msg)
  have "evolves env ex (record_heartbeat env p ex)"
    unfolding record_heartbeat_def by (rule evolves_state) (rule reaches_heartbeat)
  then show ?thesis
    unfolding HandleHeartbeatResp by (auto intro: evolves_trans evolution)
qed (simp_all add: evolution)

text \<open>A run of the server: jobs handled one after the other, each in its own environment.\<close>

definition gossip_run ::
  "('c gossip_env \<times> GossipServerJob) list \<Rightarrow> 'c GossipProtocolExecutor \<Rightarrow> 'c GossipProtocolExecutor" where
  "gossip_run = fold (\<lambda>(env, job) ex. snd (handle_job env job ex))"

subsection \<open>The contract of the expiry cache\<close>

locale expiry_contract =
  fixes ops :: "('k, 'v, 'c) expiry_ops"
  assumes lru: "lru_contract (expiry_lru ops)"
    and peek_get: "lru_peek (expiry_lru ops) k (lru_get ops k' c) = lru_peek (expiry_lru ops) k c"
    and peek_pop: "k \<noteq> k' \<Longrightarrow> lru_peek (expiry_lru ops) k (lru_pop ops k' c) = lru_peek (expiry_lru ops) k c"
begin

lemma peek_put: "0 < lru_cap (expiry_lru ops) c \<Longrightarrow>
    lru_peek (expiry_lru ops) k (lru_push (expiry_lru ops) k v c) = Some v"
  using lru_contract.peek_push_same [OF lru] .

end

definition list_expiry :: "('k, 'v, nat \<times> ('k \<times> 'v) list) expiry_ops" where
  "list_expiry = \<lparr>expiry_lru = list_lru,
     lru_get = (\<lambda>k (n, es). case map_of es k of
        Some v \<Rightarrow> (n, (k, v) # filter (\<lambda>e. fst e \<noteq> k) es) | None \<Rightarrow> (n, es)),
     lru_pop = (\<lambda>k (n, es). (n, filter (\<lambda>e. fst e \<noteq> k) es))\<rparr>"

lemma map_of_filter_other: "k \<noteq> k' \<Longrightarrow> map_of (filter (\<lambda>e. fst e \<noteq> k') es) k = map_of es k"
  by (induction es) auto

interpretation list_expiry: expiry_contract list_expiry
proof (rule expiry_contract.intro)
  show "lru_contract (expiry_lru (list_expiry :: ('k, 'v, nat \<times> ('k \<times> 'v) list) expiry_ops))"
    using list_lru.lru_contract_axioms by (simp add: list_expiry_def)
qed (auto simp: list_expiry_def list_lru_def map_of_filter_other split: option.split)

subsection \<open>Expired peers\<close>

text \<open>An id whose invisibility window is open is filtered out.\<close>

lemma filter_expired_drops:
  assumes "expiry_contract lru" and "filter_expired oc lru now infos ps c = (Returns qs, c')"
    and "lru_peek (expiry_lru lru) p c = Some t" and "t \<le> now" and "now - t \<le> EXPIRY_INVISIBILITY_WINDOW_MS div 1000"
  shows "p \<notin> set qs"
  using assms(2,3)
proof (induction ps arbitrary: c qs)
  case Nil
  then show ?case by simp
next
  case (Cons q ps)
  let ?rest = "\<lambda>c'. filter_expired oc lru now infos ps c'"
  have step: "p \<notin> set rs" if "?rest c1 = (Returns rs, c')" and "lru_peek (expiry_lru lru) p c1 = Some t" for c1 rs
    using Cons.IH that by blast
  note get = expiry_contract.peek_get [OF assms(1)] and pop = expiry_contract.peek_pop [OF assms(1)]
  show ?case
  proof (cases "q = p")
    case True
    then show ?thesis
      using Cons.prems assms(4,5) step [of "lru_get lru p c"]
      by (auto simp: Let_def get sub_u64_in_range split: prod.splits call.splits)
  next
    case False
    then show ?thesis
      using Cons.prems step [of c] step [of "lru_get lru q c"] step [of "lru_pop lru q (lru_get lru q c)"]
      by (auto simp: Let_def get pop split: prod.splits call.splits option.splits if_splits)
  qed
qed

lemma add_known_peer_lookup:
  assumes "peer_map (add_known_peer c now infos q ix) p = Some x" and "peer_map ix p = None"
  shows "\<exists>info. infos q = Some info \<and> peer_id info = p"
  using assms by (auto simp: add_known_peer_def add_peer_map successful_heartbeat_def split: option.splits if_splits)

lemma add_peers_lookup:
  "peer_map (fold (add_known_peer c now infos) qs ix) p \<noteq> None \<Longrightarrow> peer_map ix p = None \<Longrightarrow>
   \<exists>q\<in>set qs. \<exists>info. infos q = Some info \<and> peer_id info = p"
proof (induction qs arbitrary: ix)
  case (Cons q qs)
  then show ?case
    using add_known_peer_lookup [of c now infos q ix p]
    by (cases "peer_map (add_known_peer c now infos q ix) p") auto
qed simp

definition keyed :: "(WrappedPeerId \<rightharpoonup> PeerInfo) \<Rightarrow> bool" where
  "keyed infos \<longleftrightarrow> (\<forall>q info. infos q = Some info \<longrightarrow> peer_id info = q)"

lemma add_new_addrs_state:
  "gossip_state (snd (add_new_addrs ps infos ex)) = gossip_state ex"
proof (induction ps arbitrary: ex)
  case (Cons p ps)
  show ?case
  proof (cases "infos p")
    case (Some info)
    then show ?thesis
      using Cons.IH by (auto simp: send_out_def split: option.split)
  qed simp
qed simp

lemma add_new_peers_keeps_out:
  assumes "expiry_contract (g_lru env)" and "lru_peek (expiry_lru (g_lru env)) p (peer_expiry_cache ex) = Some t"
    and "t \<le> g_now env" and "g_now env - t \<le> EXPIRY_INVISIBILITY_WINDOW_MS div 1000"
    and "keyed infos" and "\<not> contains_peer p (peer_index (gossip_state ex))"
  shows "\<not> contains_peer p (peer_index (gossip_state (snd (add_new_peers env ps infos ex))))"
proof -
  obtain r c where rc: "filter_expired (g_checked env) (g_lru env) (g_now env) infos ps (peer_expiry_cache ex) = (r, c)"
    by fastforce
  show ?thesis
  proof (cases r)
    case (Returns qs)
    have "p \<notin> set qs"
      using filter_expired_drops [OF assms(1) _ assms(2-4)] rc Returns by simp
    then have "peer_map (fold (add_known_peer (g_crypto env) (g_now env) infos) qs (peer_index (gossip_state ex))) p = None"
      using add_peers_lookup assms(5,6) unfolding keyed_def contains_peer_def by metis
    then show ?thesis
      using assms(6) rc Returns add_new_addrs_state [of qs infos "ex\<lparr>peer_expiry_cache := c\<rparr>"]
      by (cases "fst (add_new_addrs qs infos (ex\<lparr>peer_expiry_cache := c\<rparr>))" rule: outcome_cases;
          cases "add_new_addrs qs infos (ex\<lparr>peer_expiry_cache := c\<rparr>)")
        (auto simp: add_new_peers_def on_state_def add_peers_def contains_peer_def)
  qed (use rc assms(6) in \<open>simp_all add: add_new_peers_def\<close>)
qed

lemma parse_peers_keyed:
  assumes "parse_peers from_str peers ss acc = Ok infos" and "keyed acc"
    and "\<And>s info q. peers s = Some info \<Longrightarrow> from_str s = Ok q \<Longrightarrow> peer_id info = q"
  shows "keyed infos"
  using assms
proof (induction ss arbitrary: acc)
  case (Cons s ss)
  then obtain q where q: "from_str s = Ok q" by (auto split: Result.splits)
  have "keyed (case peers s of Some info \<Rightarrow> acc(q \<mapsto> info) | None \<Rightarrow> acc)"
    using Cons.prems q by (auto simp: keyed_def split: option.split)
  then show ?case
    using Cons q by simp
qed simp

lemma request_orders_state [simp]: "gossip_state (snd (request_orders env pairs ex)) = gossip_state ex"
proof (induction env pairs ex rule: request_orders.induct)
  case (2 env oid cid pairs ex)
  then show ?case
    by (cases "sample_cluster_peer (g_iter_peers env) (g_gen_range env) cid (peer_index (gossip_state ex))")
      (auto simp: send_out_def split: option.split)
qed simp

lemma merge_keeps_out:
  assumes "expiry_contract (g_lru env)" and "lru_peek (expiry_lru (g_lru env)) p (peer_expiry_cache ex) = Some t"
    and "t \<le> g_now env" and "g_now env - t \<le> EXPIRY_INVISIBILITY_WINDOW_MS div 1000"
    and "\<And>s info q. known_peers msg s = Some info \<Longrightarrow> peer_id_from_str env s = Ok q \<Longrightarrow> peer_id info = q"
    and "\<not> contains_peer p (peer_index (gossip_state ex))"
  shows "\<not> contains_peer p (peer_index (gossip_state (snd (merge_state_from_message env msg ex))))"
proof (cases "parse_peers (peer_id_from_str env) (known_peers msg) (g_iter_names env (dom (known_peers msg))) Map.empty")
  case (Ok infos)
  have "keyed infos"
    using parse_peers_keyed [OF Ok _ assms(5)] by (simp add: keyed_def)
  then have "\<not> contains_peer p (peer_index (gossip_state (snd (merge_peer_index env infos ex))))"
    using add_new_peers_keeps_out [OF assms(1-4) _ assms(6)] assms(6)
    by (simp add: merge_peer_index_def Let_def and_then_unit)
  then show ?thesis
    using Ok by (cases "fst (merge_peer_index env infos ex)" rule: outcome_cases; cases "merge_peer_index env infos ex")
      (auto simp: merge_state_from_message_def merge_order_book_def on_state_def merge_wallets_def)
qed (use assms(6) in \<open>simp add: merge_state_from_message_def\<close>)

lemma send_heartbeat_expires:
  assumes "expiry_contract (g_lru env)" and "0 < lru_cap (expiry_lru (g_lru env)) (peer_expiry_cache ex)"
    and "contains_peer p (peer_index (gossip_state ex))"
    and "\<not> contains_peer p (peer_index (gossip_state (snd (send_heartbeat env p ex))))"
  shows "lru_peek (expiry_lru (g_lru env)) p (peer_expiry_cache (snd (send_heartbeat env p ex))) = Some (g_now env)"
  using assms(3,4) expiry_contract.peek_put [OF assms(1,2)]
  by (auto simp: send_heartbeat_def send_out_def maybe_expire_peer_def Let_def send_def
      split: option.splits call.splits if_splits)

end
