(* ===== verification/Gossip_Safety.thy ===== *)
theory Gossip_Safety
  imports Gossip
begin

section \<open>What the gossip server guarantees\<close>

text \<open>
  Properties of the gossip server of theory \<open>Gossip\<close>: every run keeps the invariant of the
  relayer state; expired peers stay out for their window; which messages make an order count
  as verified; who is sent a witness; and that the heartbeat timers reach every peer.
\<close>

subsection \<open>Messages a handler sends\<close>

text \<open>
  \<open>emits P ex ex'\<close>: between \<open>ex\<close> and \<open>ex'\<close> only messages with property \<open>P\<close> were queued for the
  network.
\<close>

definition emits :: "(GossipOutbound \<Rightarrow> bool) \<Rightarrow> 'c GossipProtocolExecutor \<Rightarrow> 'c GossipProtocolExecutor \<Rightarrow> bool" where
  "emits P ex ex' \<longleftrightarrow>
     (\<exists>msgs. queued (gossip_network ex') = queued (gossip_network ex) @ msgs \<and> (\<forall>m\<in>set msgs. P m))"

interpretation emitting: step_relation "emits P" for P
proof unfold_locales
  fix s t u :: "'a GossipProtocolExecutor"
  show "emits P s s" by (simp add: emits_def)
  assume "emits P s t" "emits P t u"
  then obtain ms ns where "queued (gossip_network t) = queued (gossip_network s) @ ms" "\<forall>m\<in>set ms. P m"
    "queued (gossip_network u) = queued (gossip_network t) @ ns" "\<forall>m\<in>set ns. P m"
    unfolding emits_def by blast
  then show "emits P s u"
    unfolding emits_def by (intro exI [of _ "ms @ ns"]) auto
qed

named_theorems emission

lemmas [emission] = emitting.refl

lemma emits_quiet: "gossip_network ex' = gossip_network ex \<Longrightarrow> emits P ex ex'"
  by (simp add: emits_def)

lemma emits_from_state [simp]: "emits P (on_state f ex) ex' = emits P ex ex'" "emits P ex (on_state f ex') = emits P ex ex'"
  by (simp_all add: emits_def on_state_def)

lemma emits_from_cache [simp]: "emits P (ex\<lparr>peer_expiry_cache := c\<rparr>) ex' = emits P ex ex'"
  by (simp add: emits_def)

lemma emits_send [emission]: "P msg \<Longrightarrow> emits P ex (snd (send_out msg ex))"
  by (auto simp: send_out_def send_def emits_def)

lemma emits_send_all [emission]: "(\<And>m. m \<in> set msgs \<Longrightarrow> P m) \<Longrightarrow> emits P ex (snd (send_all msgs ex))"
  by (induction msgs arbitrary: ex) (auto intro: emitting.and_then_step emission)

lemma emits_add_addrs [emission]:
  "(\<And>p a. P (OutManagement (NewAddr p a))) \<Longrightarrow> emits P ex (snd (add_new_addrs ps infos ex))"
  by (induction ps arbitrary: ex)
    (auto split: option.split intro!: emitting.and_then_step emits_send emitting.refl)

lemma emits_request_orders [emission]:
  "(\<And>p oid. P (OutRequest p (ReqOrderInfo oid))) \<Longrightarrow> emits P ex (snd (request_orders env pairs ex))"
  by (induction env pairs ex rule: request_orders.induct)
    (auto split: option.split intro!: emitting.and_then_step emits_send emitting.refl)

lemma emits_add_new_peers [emission]:
  assumes "\<And>p a. P (OutManagement (NewAddr p a))"
  shows "emits P ex (snd (add_new_peers env ps infos ex))"
proof -
  obtain r c where rc: "filter_expired (g_checked env) (g_lru env) (g_now env) infos ps (peer_expiry_cache ex) = (r, c)"
    by fastforce
  show ?thesis
  proof (cases r)
    case (Returns qs)
    have "emits P (ex\<lparr>peer_expiry_cache := c\<rparr>) (snd (add_new_peers env ps infos ex))"
      unfolding add_new_peers_def rc Returns prod.case call.case
      by (rule emitting.and_then_step) (simp_all add: assms emission del: emits_from_cache)
    then show ?thesis by simp
  qed (use rc in \<open>simp_all add: add_new_peers_def emits_quiet\<close>)
qed

lemma emits_merge [emission]:
  assumes "\<And>p a. P (OutManagement (NewAddr p a))" and "\<And>p oid. P (OutRequest p (ReqOrderInfo oid))"
  shows "emits P ex (snd (merge_state_from_message env msg ex))"
proof -
  have "emits P ex1 (snd (merge_peer_index env infos ex1))" for infos ex1
    unfolding merge_peer_index_def Let_def by (simp add: emission and_then_unit assms)
  moreover have "emits P ex1 (snd (merge_order_book env orders (on_state f ex1)))" for orders ex1 f
    using emits_request_orders [of P "on_state f ex1"] assms(2) by (simp add: merge_order_book_def)
  ultimately show ?thesis
    unfolding merge_state_from_message_def
    by (auto split: Result.split intro: emitting.and_then_step emission)
qed

subsection \<open>Who is sent a witness\<close>

fun witness_request :: "GossipOutbound \<Rightarrow> bool" where
  "witness_request (OutRequest p (ReqValidityWitness oid w)) = True"
| "witness_request _ = False"

lemma expire_network: "gossip_network (snd (maybe_expire_peer env p ex)) = gossip_network ex"
  by (simp add: maybe_expire_peer_def Let_def split: option.split call.split)

lemma no_witness_cluster: "emits (\<lambda>m. \<not> witness_request m) ex (snd (handle_cluster_management_job env job ex))"
proof (cases job)
  case (ClusterJoinRequest cid msg)
  have rep: "emits (\<lambda>m. \<not> witness_request m) ex1 (snd (send_replicate_request p ws ex1))"
    for p ws and ex1 :: "'a GossipProtocolExecutor"
    by (simp add: send_replicate_request_def emission)
  from this [of "on_state f ex" for f]
  have "emits (\<lambda>m. \<not> witness_request m) ex (snd (add_peer_to_cluster env p info cid ex))" for p info
    by (simp add: add_peer_to_cluster_def Let_def emission)
  with rep show ?thesis
    unfolding ClusterJoinRequest handle_cluster_management_job.simps handle_cluster_join_job_def
    by (auto intro!: emitting.and_then_step emitting.refl)
next
  case (ReplicateRequest wallets)
  have "emits (\<lambda>m. \<not> witness_request m) (on_state f ex) (snd (and_then (send_out (OutPubsub t m) (on_state f ex))
      (\<lambda>_ ex1. send_out (OutPubsub t (n ex1)) ex1)))" for t m n f
    by (rule emitting.and_then_step) (simp_all add: emits_send del: emits_from_state)
  then show ?thesis
    by (simp add: ReplicateRequest handle_replicate_request_def Let_def emission)
next
  case (ShareValidityProofs oids sender)
  then show ?thesis
    by (auto simp: handle_share_validity_proofs_job_def intro!: emission split: option.splits)
qed (simp_all add: handle_add_replica_job_def handle_updated_validity_proof_def emission)

lemma no_witness_request_witness: "emits (\<lambda>m. \<not> witness_request m) ex (snd (request_order_witness oid ex))"
  by (simp add: request_order_witness_def Let_def emission)

lemma no_witness_order_info: "emits (\<lambda>m. \<not> witness_request m) ex (snd (handle_order_info_response env x ex))"
  unfolding handle_order_info_response_def Let_def
  by (auto intro!: emitting.and_then_step no_witness_request_witness simp: emission split: option.split)

lemma no_witness_new_proof: "emits (\<lambda>m. \<not> witness_request m) ex (snd (handle_new_validity_proof env oid cid b ex))"
proof -
  have "emits (\<lambda>m. \<not> witness_request m) t (snd (request_order_witness oid (on_state f (if c then t else on_state g t))))"
    for t :: "'a GossipProtocolExecutor" and f g c
    using no_witness_request_witness [of "on_state f (if c then t else on_state g t)" oid] by (auto split: if_splits)
  then show ?thesis
    unfolding handle_new_validity_proof_def Let_def
    by (intro emitting.and_then_step) (auto simp: emission)
qed

lemma no_witness_order_book:
  assumes "\<And>oid p. job \<noteq> OrderWitnessJob oid p"
  shows "emits (\<lambda>m. \<not> witness_request m) ex (snd (handle_order_book_management_job env job ex))"
proof (cases job)
  case (OrderReceivedJob oid n cid)
  show ?thesis
    unfolding OrderReceivedJob handle_order_book_management_job.simps handle_new_order_def
    by (intro emitting.and_then_step) (auto simp: emission)
qed (use assms in \<open>auto simp: handle_order_info_request_def handle_validity_witness_response_def emission
      no_witness_order_info no_witness_new_proof split: option.split\<close>)

lemma no_witness_job:
  assumes "\<And>oid p. job \<noteq> OrderBookJob (OrderWitnessJob oid p)"
  shows "emits (\<lambda>m. \<not> witness_request m) ex (snd (handle_job env job ex))"
proof (cases job)
  case (Bootstrap info channel)
  obtain r ex1 where r: "add_new_peers env [peer_id info] [peer_id info \<mapsto> info] ex = (r, ex1)" by fastforce
  have "emits (\<lambda>m. \<not> witness_request m) ex ex1"
    using emits_add_new_peers [of "\<lambda>m. \<not> witness_request m" ex env "[peer_id info]" "[peer_id info \<mapsto> info]"] r by simp
  then show ?thesis
    unfolding Bootstrap by (cases r) (auto simp: r intro!: emitting.trans [OF _ emits_send])
next
  case (ExecuteHeartbeat p)
  have "emits (\<lambda>m. \<not> witness_request m) t (snd (case maybe_expire_peer env p t of
          (Returns _, ex2) \<Rightarrow> (Returns (Ok ()) :: (unit, GossipError) Result call, ex2)
        | (Panics, ex2) \<Rightarrow> (Panics, ex2)
        | (Blocks, ex2) \<Rightarrow> (Blocks, ex2)))" for t
    using expire_network [of env p t] by (auto split: prod.split call.split intro: emits_quiet)
  then show ?thesis
    by (simp add: ExecuteHeartbeat send_heartbeat_def emission emitting.and_then_step)
next
  case (HandleHeartbeatReq p msg channel)
  obtain r ex1 where r: "send_out (OutResponse channel (RespHeartbeat (build_heartbeat_message env ex))) ex = (r, ex1)"
    by fastforce
  have "emits (\<lambda>m. \<not> witness_request m) ex ex1"
    using emits_send [of "\<lambda>m. \<not> witness_request m"
        "OutResponse channel (RespHeartbeat (build_heartbeat_message env ex))" ex] r by simp
  then show ?thesis
    unfolding HandleHeartbeatReq by (cases r) (auto simp: r intro!: emitting.trans [OF _ emits_merge])
next
  case (HandleHeartbeatResp p msg)
  then show ?thesis
    using emits_merge [of "\<lambda>m. \<not> witness_request m" "record_heartbeat env p ex" env msg]
    by (simp add: record_heartbeat_def)
qed (use assms in \<open>simp_all add: no_witness_cluster no_witness_order_book\<close>)

subsection \<open>Properties of the gossip server\<close>


text \<open>A node that knows one peer of another cluster, last heard of at time 7.\<close>

definition example_gossip_env :: "u64 \<Rightarrow> (nat \<times> (WrappedPeerId \<times> u64) list) gossip_env" where
  "example_gossip_env now = \<lparr>g_crypto = example_crypto, g_sponge = low_env, g_now = now, g_checked = True,
     g_iter_peers = sorted_list_of_set, g_iter_ids = sorted_list_of_set, g_iter_mints = sorted_list_of_set,
     g_iter_names = (\<lambda>_. []), g_gen_range = (\<lambda>_. 0), g_lru = list_expiry,
     peer_id_to_string = (\<lambda>_. ''p''), peer_id_from_str = (\<lambda>_. Err ''no peer id''),
     g_starknet = \<lparr>felt_modulus = 7, contract_address = 0, selector_of = (\<lambda>_. 0), call_contract = (\<lambda>_ _ _. Ok [0])\<rparr>,
     verify_singleprover_proof = (\<lambda>_. Ok ())\<rparr>"

definition example_gossip :: "(nat \<times> (WrappedPeerId \<times> u64) list) GossipProtocolExecutor" where
  "example_gossip = GossipProtocolExecutor_new list_expiry \<lparr>queued = [], receiver_alive = True\<rparr>
     (example_state\<lparr>peer_index := add_peer example_peer PeerIndex_new\<rparr>)
     \<lparr>config_peer_id = WrappedPeerId [0], config_cluster_id = ClusterId ''c'', config_addr = [], bootstrap_servers = []\<rparr>"

lemmas example_gossip_defs =
  example_gossip_def example_gossip_env_def GossipProtocolExecutor_new_def example_peer_def PeerInfo_new_def
  example_state_def initialize_global_state_def PeerIndex_new_def add_peer_def

lemma example_expiry:
  "contains_peer (WrappedPeerId [1]) (peer_index (gossip_state example_gossip))"
  "\<not> contains_peer (WrappedPeerId [1]) (peer_index (gossip_state
      (snd (handle_job (example_gossip_env 40) (ExecuteHeartbeat (WrappedPeerId [1])) example_gossip))))"
  by (simp_all add: example_gossip_defs contains_peer_def Let_def send_heartbeat_def send_out_def send_def
      maybe_expire_peer_def read_peer_def sub_u64_def HEARTBEAT_FAILURE_MS_def remove_peer_def index_remove_peer_def)




lemma verified_after:
  "verified_orders (order_book (state_add_order x st)) =
     (if order_state x = Verified then insert (order_id x) (verified_orders (order_book st))
      else verified_orders (order_book st))"
  "verified_orders (order_book (add_order_validity_proof oid pf st)) = insert oid (verified_orders (order_book st))"
  "verified_orders (attach_validity_proof_witness oid w b) = verified_orders b"
  by (simp_all add: state_add_order_def add_order_validity_proof_def book_fields attach_validity_proof_witness_def
      split: option.split)

text \<open>A query never panics when the StarkNet prime is below the scalar field's modulus, as it is.\<close>

lemma query_contract_returns:
  assumes "0 < felt_modulus sn" and "felt_modulus sn \<le> field_modulus"
  shows "query_contract sn fname a =
    (case call_contract sn (contract_address sn) (selector_of sn fname) [a mod felt_modulus sn] of
       Ok res \<Rightarrow> Returns (Ok res) | Err e \<Rightarrow> Returns (Err (StarknetRequest e)))"
proof -
  have "field_modulus < 2 ^ 256"
    by (rule less_trans [OF field_modulus_bounds(2)]) simp
  moreover have "a mod felt_modulus sn < felt_modulus sn" using assms(1) by simp
  moreover from this have "a mod felt_modulus sn < field_modulus" "a mod felt_modulus sn < 2 ^ 256"
    using assms(2) calculation by linarith+
  ultimately show ?thesis
    by (simp add: query_contract_def biguint_to_starknet_felt_def scalar_to_starknet_felt_def biguint_to_scalar_eq)
qed

text \<open>
  C14: which order book message can make an order count as verified. It is a proof update,
  or an order that the answering peer describes as verified, and the proof that comes with
  it passed the verifier and its nullifier is unspent, except in three cases that the code
  lets through: the message claims the local cluster, or the described order has no proof.
\<close>

theorem verified_orders_checked:
  assumes handled: "handle_job env (OrderBookJob job) ex = (res, ex')"
    and before: "oid \<notin> verified_orders (order_book (gossip_state ex))"
    and after: "oid \<in> verified_orders (order_book (gossip_state ex'))"
  shows "(\<exists>cid b. job = OrderProofUpdatedJob oid cid b
      \<and> (cid = local_cluster_id (gossip_state ex) \<or> verify_valid_commitments_proof env b = Returns (Ok ())))
    \<or> (\<exists>q x. job = OrderInfoResponseJob q (Some x) \<and> order_id x = oid \<and> order_state x = Verified
      \<and> (order_cluster x = local_cluster_id (gossip_state ex) \<or> valid_commit_proof x = None
         \<or> (\<exists>b. valid_commit_proof x = Some b \<and> verify_valid_commitments_proof env b = Returns (Ok ()))))"
proof (cases job)
  case (OrderInfoResponseJob q info)
  then show ?thesis
    using assms
    by (cases "verify_valid_commitments_proof env (the (valid_commit_proof (the info)))" rule: outcome_cases)
      (auto simp: handle_order_info_response_def Let_def on_state_def verified_after request_order_witness_def
        send_out_def split: option.splits if_splits)
next
  case (OrderReceivedJob q n cid)
  then show ?thesis
    using assms by (cases "check_nullifier_unused (g_starknet env) n" rule: outcome_cases)
      (auto simp: handle_new_order_def on_state_def verified_after NetworkOrder_new_def split: if_splits)
next
  case (OrderProofUpdatedJob q cid b)
  then show ?thesis
    using assms by (cases "verify_valid_commitments_proof env b" rule: outcome_cases)
      (auto simp: handle_new_validity_proof_def Let_def on_state_def verified_after request_order_witness_def
        send_out_def NetworkOrder_new_def split: option.splits if_splits)
qed (use assms in \<open>auto simp: handle_order_info_request_def send_out_def handle_validity_witness_request_def
      handle_validity_witness_response_def on_state_def verified_after split: option.splits if_splits\<close>)

theorem verified_orders_checked_witness:
  "verify_valid_commitments_proof (example_gossip_env 40) example_bundle = Returns (Ok ())"
proof -
  let ?job = "OrderProofUpdatedJob 2 (ClusterId ''x'') example_bundle"
  let ?out = "handle_job (example_gossip_env 40) (OrderBookJob ?job) example_gossip"
  have local: "local_cluster_id (gossip_state example_gossip) = ClusterId ''c''"
    by (simp add: example_gossip_defs Let_def)
  have "2 \<notin> verified_orders (order_book (gossip_state example_gossip))"
    by (simp add: example_gossip_def GossipProtocolExecutor_new_def example_state_def example_book_fields)
  moreover have "2 \<in> verified_orders (order_book (gossip_state (snd ?out)))"
    using local field_modulus_bounds
    by (simp add: handle_new_validity_proof_def verify_valid_commitments_proof_def check_nullifier_unused_def
        check_merkle_root_valid_def query_contract_returns example_gossip_env_def on_state_def verified_after Let_def)
  ultimately show ?thesis
    using verified_orders_checked [OF prod.collapse [symmetric], of 2 example_gossip "example_gossip_env 40" ?job] local
    by auto
qed

text \<open>
  C15: a message that nobody signed decides what is verified. The order book message that
  announces a proof needs no cluster signature, and one that names the local cluster makes
  its order count as verified, with the proof it brings attached to a known order, whatever
  the proof and whatever the verifier and the contract say.
\<close>

theorem claimed_local_proof_unchecked:
  "\<not> pubsub_requires_cluster_auth (OrderBookManagement (OrderProofUpdated oid cid bundle))
   \<and> (let ex' = snd (handle_job env (OrderBookJob
            (OrderProofUpdatedJob oid (local_cluster_id (gossip_state ex)) bundle)) ex)
      in oid \<in> verified_orders (order_book (gossip_state ex'))
         \<and> (\<exists>x. get_order_info oid (order_book (gossip_state ex')) = Some x
               \<and> order_state x = Verified \<and> valid_commit_proof x = Some bundle))"
proof -
  have shape: "\<exists>y. order_map (order_book st') oid = Some y"
    if "st' = (if contains_order oid (order_book st) then st
               else state_add_order (NetworkOrder_new oid n cid' True) st)" for st st' n cid'
    using that by (auto simp: contains_order_def state_add_order_def book_fields NetworkOrder_new_def split: if_splits)
  have "order_book (gossip_state (snd (handle_job env (OrderBookJob
            (OrderProofUpdatedJob oid (local_cluster_id (gossip_state ex)) bundle)) ex)))
      = update_order_validity_proof oid bundle (order_book
          (if contains_order oid (order_book (gossip_state ex)) then gossip_state ex
           else state_add_order (NetworkOrder_new oid (nullifier (statement bundle))
             (local_cluster_id (gossip_state ex)) True) (gossip_state ex)))"
    by (simp add: handle_new_validity_proof_def Let_def on_state_def request_order_witness_def
        add_order_validity_proof_def)
  then show ?thesis
    using shape [OF refl, of "gossip_state ex" "nullifier (statement bundle)" "local_cluster_id (gossip_state ex)"]
    by (auto simp: Let_def get_order_info_def book_fields attach_commitment_proof_def)
qed


definition cluster_member :: PeerInfo where
  "cluster_member = PeerInfo_new 7 (WrappedPeerId [1]) (ClusterId ''c'') [4] [99, 1]"

definition cluster_gossip :: "(nat \<times> (WrappedPeerId \<times> u64) list) GossipProtocolExecutor" where
  "cluster_gossip = example_gossip\<lparr>gossip_state := relayer_step example_crypto low_env sorted_list_of_set sorted_list_of_set
     (OpAddPeers 7 [WrappedPeerId [1]] [WrappedPeerId [1] \<mapsto> cluster_member]) example_state\<rparr>"


subsection \<open>The heartbeat timers\<close>

text \<open>The loop of a timer over a peer index that does not change.\<close>

fun run_turns :: "(nat \<Rightarrow> GossipServerJob channel \<Rightarrow> timer_turn call \<times> GossipServerJob channel) \<Rightarrow> nat \<Rightarrow> nat
    \<Rightarrow> GossipServerJob channel \<Rightarrow> (nat \<times> GossipServerJob channel) option" where
  "run_turns turn 0 position jobs = Some (position, jobs)"
| "run_turns turn (Suc n) position jobs =
     (case turn position jobs of
        (Returns (NextTurn position' _), jobs') \<Rightarrow> run_turns turn n position' jobs'
      | _ \<Rightarrow> None)"

definition visited :: "(nat \<Rightarrow> WrappedPeerId option) \<Rightarrow> nat \<Rightarrow> nat \<Rightarrow> GossipServerJob list" where
  "visited next_peer i j = concat (map (\<lambda>k. case next_peer k of Some p \<Rightarrow> [ExecuteHeartbeat p] | None \<Rightarrow> []) [i..<j])"

lemma visited_Cons:
  "i < j \<Longrightarrow> visited next_peer i j =
     (case next_peer i of Some p \<Rightarrow> [ExecuteHeartbeat p] | None \<Rightarrow> []) @ visited next_peer (Suc i) j"
  by (simp add: visited_def upt_rec)

lemma run_turns_cycle:
  assumes "0 < n" and "n < 2 ^ 32" and "i + k \<le> n" and "receiver_alive jobs"
  shows "run_turns (\<lambda>i. finish_turn wait i n (next_peer i)) k i jobs =
    Some (if i + k = n \<and> 0 < k then 0 else i + k, jobs\<lparr>queued := queued jobs @ visited next_peer i (i + k)\<rparr>)"
  using assms(3,4)
proof (induction k arbitrary: i jobs)
  case 0
  then show ?case by (simp add: visited_def)
next
  case (Suc k)
  let ?jobs = "jobs\<lparr>queued := queued jobs @ (case next_peer i of Some p \<Rightarrow> [ExecuteHeartbeat p] | None \<Rightarrow> [])\<rparr>"
  let ?next = "if n \<le> i + 1 then 0 else i + 1"
  have turn: "finish_turn wait i n (next_peer i) jobs = (Returns (NextTurn ?next (wait div n)), ?jobs)"
    using Suc.prems assms(1,2) by (auto simp: finish_turn_def Let_def send_def split: option.split)
  show ?case
  proof (cases "k = 0")
    case True
    then show ?thesis
      using turn Suc.prems by (auto simp: visited_Cons visited_def)
  next
    case False
    then show ?thesis
      using turn Suc.prems Suc.IH [of "Suc i" ?jobs] by (simp add: visited_Cons)
  qed
qed

lemma visited_nth:
  assumes "\<And>i. i < length xs \<Longrightarrow> next_peer i = (if P (xs ! i) then Some (xs ! i) else None)"
  shows "visited next_peer 0 (length xs) = map ExecuteHeartbeat (filter P xs)"
proof -
  have "visited next_peer 0 (length xs) =
      concat (map (\<lambda>k. if P (xs ! k) then [ExecuteHeartbeat (xs ! k)] else []) [0..<length xs])"
    unfolding visited_def by (rule arg_cong [where f = concat]) (simp add: assms)
  also have "\<dots> = concat (map (\<lambda>p. if P p then [ExecuteHeartbeat p] else []) (map ((!) xs) [0..<length xs]))"
    by (simp add: comp_def)
  also have "\<dots> = map ExecuteHeartbeat (filter P xs)"
    unfolding map_nth by (induction xs) auto
  finally show ?thesis .
qed

lemma timer_round:
  assumes "length xs < 2 ^ 32" and "receiver_alive jobs"
    and "visited next_peer 0 (length xs) = map ExecuteHeartbeat (filter P xs)"
  shows "if xs = [] then fst (finish_turn wait 0 (length xs) (next_peer 0) jobs) = Panics
    else run_turns (\<lambda>i. finish_turn wait i (length xs) (next_peer i)) (length xs) 0 jobs
      = Some (0, jobs\<lparr>queued := queued jobs @ map ExecuteHeartbeat (filter P xs)\<rparr>)"
proof (cases "xs = []")
  case True
  then show ?thesis
    using assms(2) by (simp add: finish_turn_def Let_def send_def split: option.split)
next
  case False
  then show ?thesis
    using run_turns_cycle [of "length xs" 0 "length xs" jobs wait next_peer] assms by simp
qed

lemma inter_next:
  assumes "peers_wf ix" and "i < length (get_all_peer_ids iter ix)" and "set (get_all_peer_ids iter ix) = dom (peer_map ix)"
  shows "(case peer_index_nth iter i ix of
      Some info \<Rightarrow> if cluster_id info \<noteq> c then Some (peer_id info) else None | None \<Rightarrow> None) =
    (if map_option cluster_id (peer_map ix (get_all_peer_ids iter ix ! i)) \<noteq> Some c
     then Some (get_all_peer_ids iter ix ! i) else None)"
proof -
  obtain info where info: "peer_map ix (get_all_peer_ids iter ix ! i) = Some info"
    using assms(2,3) nth_mem by blast
  moreover from this have "peer_id info = get_all_peer_ids iter ix ! i"
    using assms(1) by (simp add: peers_wf_def)
  moreover have "peer_index_nth iter i ix = Some info"
    using info assms(2) by (simp add: peer_index_nth_def get_all_peer_ids_def Let_def)
  ultimately show ?thesis by simp
qed

text \<open>
  C18: the heartbeat timers reach everyone. Over an index that does not change, the timer of
  the other clusters enqueues in one round exactly one heartbeat for each indexed peer
  outside the local cluster, that of the local cluster one for each of its peers but the
  local one, and both end where they started. With no peer to count, they panic instead.
\<close>

theorem heartbeat_timers_reach_all:
  assumes "hash_iteration iter" and "peers_wf (peer_index st)" and "receiver_alive jobs"
    and "peer_index_len (peer_index st) < 2 ^ 32"
    and "length (get_all_cluster_peers iter (local_cluster_id st) (peer_index st)) < 2 ^ 32"
  defines "peers \<equiv> get_all_peer_ids iter (peer_index st)"
    and "members \<equiv> get_all_cluster_peers iter (local_cluster_id st) (peer_index st)"
    and "foreign \<equiv> (\<lambda>p. map_option cluster_id (peer_map (peer_index st) p) \<noteq> Some (local_cluster_id st))"
  shows "(if peers = [] then fst (inter_cluster_turn iter st wait 0 jobs) = Panics
       else run_turns (inter_cluster_turn iter st wait) (length peers) 0 jobs
            = Some (0, jobs\<lparr>queued := queued jobs @ map ExecuteHeartbeat (filter foreign peers)\<rparr>))
    \<and> (if members = [] then fst (intra_cluster_turn iter st wait 0 jobs) = Panics
       else run_turns (intra_cluster_turn iter st wait) (length members) 0 jobs
            = Some (0, jobs\<lparr>queued := queued jobs @ map ExecuteHeartbeat (filter (\<lambda>p. p \<noteq> local_peer_id st) members)\<rparr>))"
proof (intro conjI)
  have fin: "finite (dom (peer_map (peer_index st)))"
    using assms(2) by (simp add: peers_wf_def)
  then have len: "length peers = peer_index_len (peer_index st)" and set: "set peers = dom (peer_map (peer_index st))"
    by (simp_all add: peers_def get_all_peer_ids_def peer_index_len_def hash_iteration.length_iter [OF assms(1)]
        hash_iteration.iter_set [OF assms(1)])
  let ?inter = "\<lambda>i. case peer_index_nth iter i (peer_index st) of
      Some info \<Rightarrow> if cluster_id info \<noteq> local_cluster_id st then Some (peer_id info) else None | None \<Rightarrow> None"
  have "?inter i = (if foreign (peers ! i) then Some (peers ! i) else None)" if "i < length peers" for i
    using inter_next [OF assms(2)] that set unfolding peers_def foreign_def by blast
  note inter = visited_nth [of peers ?inter, OF this]
  have inter_turn: "inter_cluster_turn iter st wait = (\<lambda>i. finish_turn wait i (length peers) (?inter i))"
    by (rule ext) (simp only: inter_cluster_turn_def len)
  show "if peers = [] then fst (inter_cluster_turn iter st wait 0 jobs) = Panics
       else run_turns (inter_cluster_turn iter st wait) (length peers) 0 jobs
            = Some (0, jobs\<lparr>queued := queued jobs @ map ExecuteHeartbeat (filter foreign peers)\<rparr>)"
    unfolding inter_turn by (rule timer_round [OF _ assms(3) inter]) (use assms(4) in \<open>simp add: len\<close>)
  let ?intra = "\<lambda>i. if i < length members \<and> members ! i \<noteq> local_peer_id st then Some (members ! i) else None"
  have intra_turn: "intra_cluster_turn iter st wait = (\<lambda>i. finish_turn wait i (length members) (?intra i))"
    by (rule ext) (simp only: intra_cluster_turn_def Let_def members_def)
  have intra: "visited ?intra 0 (length members) = map ExecuteHeartbeat (filter (\<lambda>p. p \<noteq> local_peer_id st) members)"
    by (rule visited_nth) simp
  show "if members = [] then fst (intra_cluster_turn iter st wait 0 jobs) = Panics
       else run_turns (intra_cluster_turn iter st wait) (length members) 0 jobs
            = Some (0, jobs\<lparr>queued := queued jobs @ map ExecuteHeartbeat (filter (\<lambda>p. p \<noteq> local_peer_id st) members)\<rparr>)"
    unfolding intra_turn by (rule timer_round [OF _ assms(3) intra]) (use assms(5) in \<open>simp add: members_def\<close>)
qed

theorem heartbeat_timers_reach_all_witness:
  "run_turns (inter_cluster_turn sorted_list_of_set (gossip_state example_gossip) 10000) 1 0 \<lparr>queued = [], receiver_alive = True\<rparr>
     = Some (0, \<lparr>queued = [ExecuteHeartbeat (WrappedPeerId [1])], receiver_alive = True\<rparr>)"
proof -
  have "peers_wf (peer_index (gossip_state example_gossip))"
    using peers_wf_add [OF peers_wf_new] by (simp add: example_gossip_def GossipProtocolExecutor_new_def)
  then show ?thesis
    using heartbeat_timers_reach_all [of sorted_list_of_set "gossip_state example_gossip" "\<lparr>queued = [], receiver_alive = True\<rparr>"
        10000, OF ascending.hash_iteration_axioms]
    by (simp add: example_gossip_defs Let_def get_all_peer_ids_def peer_index_len_def get_all_cluster_peers_def
        read_cluster_peers_def)
qed

end
