(* ===== verification/Network_Manager.thy ===== *)
theory Network_Manager
  imports Handshake_Manager Gossip_Safety
begin

section \<open>The network manager\<close>

text \<open>
  The model of \<open>core/src/network_manager\<close>: the executor that signs and sends what the other
  workers hand it, checks what arrives from the network and turns it into jobs of the gossip
  server and of the handshake manager.

  The libp2p swarm is third-party code: its operations are the record \<open>swarm_ops\<close> over a state
  \<open>'w\<close>, and what the manager relies on is the locale \<open>swarm_contract\<close>, interpreted on a swarm
  that logs what it accepts. The byte forms of messages and the protocols of an address are
  arguments of the model too. The select loop handles one event at a time, so a run is a list
  of events.
\<close>

datatype NetworkManagerError =
    Authentication string
  | Cancelled string
  | EnqueueJob string
  | Network string
  | SerializeDeserialize string
  | SetupError string

definition ERR_NO_KNOWN_ADDR :: string where
  "ERR_NO_KNOWN_ADDR = ''no known address for peer''"

definition ERR_PARSING_ADDR :: string where
  "ERR_PARSING_ADDR = ''could not parse Multiaddr to SocketAddr''"

definition ERR_SIG_VERIFY :: string where
  "ERR_SIG_VERIFY = ''signature verification failed''"

datatype Protocol = Ip4 bytes | Ip6 bytes | OtherProtocol bytes

record 'w swarm_ops =
  sw_publish :: "string \<Rightarrow> bytes \<Rightarrow> 'w \<Rightarrow> (unit, string) Result \<times> 'w"
  sw_send_request :: "WrappedPeerId \<Rightarrow> GossipRequest authenticated \<Rightarrow> 'w \<Rightarrow> 'w"
  sw_send_response :: "response_handle \<Rightarrow> GossipResponse authenticated \<Rightarrow> 'w \<Rightarrow> bool \<times> 'w"
  sw_add_address :: "WrappedPeerId \<Rightarrow> multiaddr \<Rightarrow> 'w \<Rightarrow> 'w"
  sw_addresses_of_peer :: "WrappedPeerId \<Rightarrow> 'w \<Rightarrow> multiaddr list"
  sw_subscribe :: "string \<Rightarrow> 'w \<Rightarrow> (unit, string) Result \<times> 'w"
  sw_listen_on :: "multiaddr \<Rightarrow> 'w \<Rightarrow> (unit, string) Result \<times> 'w"

record 'w network_env =
  n_crypto :: cluster_crypto
  request_json :: "GossipRequest \<Rightarrow> bytes"
  response_json :: "GossipResponse \<Rightarrow> bytes"
  pubsub_json :: "PubsubMessage \<Rightarrow> bytes"
  pubsub_to_vec :: "PubsubMessage authenticated \<Rightarrow> bytes"
  pubsub_from_slice :: "bytes \<Rightarrow> PubsubMessage authenticated option"
  multiaddr_protocols :: "multiaddr \<Rightarrow> Protocol list"
  tcp_multiaddr :: "u16 \<Rightarrow> multiaddr"
  swarm_of :: "'w swarm_ops"

text \<open>\<open>Multiaddr::pop\<close> takes the last protocol, so the loop visits the protocols from the end.\<close>

fun pop_protocols :: "Protocol list \<Rightarrow> u16 \<Rightarrow> SocketAddr option" where
  "pop_protocols [] port = None"
| "pop_protocols (Ip4 ip # ps) port = Some \<lparr>socket_ip = V4 ip, socket_port = port\<rparr>"
| "pop_protocols (Ip6 ip # ps) port = Some \<lparr>socket_ip = V6 ip, socket_port = port\<rparr>"
| "pop_protocols (OtherProtocol _ # ps) port = pop_protocols ps port"

definition multiaddr_to_socketaddr :: "(multiaddr \<Rightarrow> Protocol list) \<Rightarrow> multiaddr \<Rightarrow> u16 \<Rightarrow> SocketAddr option" where
  "multiaddr_to_socketaddr protocols a port = pop_protocols (rev (protocols a)) port"

subsection \<open>The executor\<close>

record BufferedPubsubMessage =
  buffered_topic :: string
  buffered_message :: PubsubMessage

record 'w NetworkManagerExecutor =
  nm_peer_id :: WrappedPeerId
  cluster_key :: bytes
  warmup_finished :: bool
  warmup_buffer :: "BufferedPubsubMessage list"
  swarm :: 'w
  gossip_work_queue :: "GossipServerJob channel"
  handshake_work_queue :: "HandshakeExecutionJob channel"

type_synonym ('a, 'w) net_handler =
  "'w NetworkManagerExecutor \<Rightarrow> ('a, NetworkManagerError) Result call \<times> 'w NetworkManagerExecutor"

definition NetworkManagerExecutor_new ::
  "WrappedPeerId \<Rightarrow> bytes \<Rightarrow> 'w \<Rightarrow> GossipServerJob channel \<Rightarrow> HandshakeExecutionJob channel
    \<Rightarrow> 'w NetworkManagerExecutor" where
  "NetworkManagerExecutor_new p key w gossip handshake =
     \<lparr>nm_peer_id = p, cluster_key = key, warmup_finished = False, warmup_buffer = [], swarm = w,
      gossip_work_queue = gossip, handshake_work_queue = handshake\<rparr>"

definition enqueue_gossip :: "GossipServerJob \<Rightarrow> (unit, 'w) net_handler" where
  "enqueue_gossip job ex =
     (case send job (gossip_work_queue ex) of
        Some ch \<Rightarrow> (Returns (Ok ()), ex\<lparr>gossip_work_queue := ch\<rparr>)
      | None \<Rightarrow> (Returns (Err (EnqueueJob ''channel closed'')), ex))"

definition enqueue_handshake :: "HandshakeExecutionJob \<Rightarrow> (unit, 'w) net_handler" where
  "enqueue_handshake job ex =
     (case send job (handshake_work_queue ex) of
        Some ch \<Rightarrow> (Returns (Ok ()), ex\<lparr>handshake_work_queue := ch\<rparr>)
      | None \<Rightarrow> (Returns (Err (EnqueueJob ''channel closed'')), ex))"

fun enqueue_all :: "GossipServerJob list \<Rightarrow> (unit, 'w) net_handler" where
  "enqueue_all [] ex = (Returns (Ok ()), ex)"
| "enqueue_all (j # js) ex = and_then (enqueue_gossip j ex) (\<lambda>_. enqueue_all js)"

definition forward_outbound_pubsub :: "'w network_env \<Rightarrow> string \<Rightarrow> PubsubMessage \<Rightarrow> (unit, 'w) net_handler" where
  "forward_outbound_pubsub env topic message ex =
     (if \<not> warmup_finished ex
      then (Returns (Ok ()), ex\<lparr>warmup_buffer := warmup_buffer ex @
              [\<lparr>buffered_topic = topic, buffered_message = message\<rparr>]\<rparr>)
      else case pubsub_new_with_body (n_crypto env) (pubsub_json env) message (cluster_key ex) of
             None \<Rightarrow> (Returns (Err (Authentication ''signature error'')), ex)
           | Some req_body \<Rightarrow>
               (case sw_publish (swarm_of env) topic (pubsub_to_vec env req_body) (swarm ex) of
                  (Ok _, w) \<Rightarrow> (Returns (Ok ()), ex\<lparr>swarm := w\<rparr>)
                | (Err e, w) \<Rightarrow> (Returns (Err (Network e)), ex\<lparr>swarm := w\<rparr>)))"

fun forward_buffered :: "'w network_env \<Rightarrow> BufferedPubsubMessage list \<Rightarrow> (unit, 'w) net_handler" where
  "forward_buffered env [] ex = (Returns (Ok ()), ex)"
| "forward_buffered env (b # bs) ex =
     and_then (forward_outbound_pubsub env (buffered_topic b) (buffered_message b) ex)
       (\<lambda>_. forward_buffered env bs)"

definition loopback :: "u16 \<Rightarrow> SocketAddr" where
  "loopback port = \<lparr>socket_ip = V4 [127, 0, 0, 1], socket_port = port\<rparr>"

fun handle_control_directive :: "'w network_env \<Rightarrow> ManagerControlDirective \<Rightarrow> (unit, 'w) net_handler" where
  "handle_control_directive env (NewAddr p a) ex =
     (Returns (Ok ()), ex\<lparr>swarm := sw_add_address (swarm_of env) p a (swarm ex)\<rparr>)"
| "handle_control_directive env (BrokerMpcNet r p peer_port local_port role) ex =
     (let party = get_party_id role;
          net = (\<lambda>peer_addr. \<lparr>net_party_id = party, net_local_addr = loopback local_port, net_peer_addr = peer_addr\<rparr>);
          forward = (\<lambda>n. enqueue_handshake (MpcNetSetup r party n) ex)
      in case role of
           Dialer \<Rightarrow>
             (case sw_addresses_of_peer (swarm_of env) p (swarm ex) of
                [] \<Rightarrow> (Returns (Err (Network ERR_NO_KNOWN_ADDR)), ex)
              | a # _ \<Rightarrow>
                  (case multiaddr_to_socketaddr (multiaddr_protocols env) a peer_port of
                     None \<Rightarrow> (Returns (Err (SerializeDeserialize ERR_PARSING_ADDR)), ex)
                   | Some peer_addr \<Rightarrow> forward (net peer_addr)))
         | Listener \<Rightarrow> forward (net (loopback 0)))"
| "handle_control_directive env GossipWarmupComplete ex =
     forward_buffered env (warmup_buffer ex) (ex\<lparr>warmup_finished := True, warmup_buffer := []\<rparr>)"

fun handle_outbound_message :: "'w network_env \<Rightarrow> GossipOutbound \<Rightarrow> (unit, 'w) net_handler" where
  "handle_outbound_message env (OutRequest p message) ex =
     (case request_new_with_body (n_crypto env) (request_json env) message (cluster_key ex) of
        None \<Rightarrow> (Returns (Err (Authentication ''signature error'')), ex)
      | Some req_body \<Rightarrow>
          (Returns (Ok ()), ex\<lparr>swarm := sw_send_request (swarm_of env) p req_body (swarm ex)\<rparr>))"
| "handle_outbound_message env (OutResponse channel message) ex =
     (case response_new_with_body (n_crypto env) (response_json env) message (cluster_key ex) of
        None \<Rightarrow> (Returns (Err (Authentication ''signature error'')), ex)
      | Some resp_body \<Rightarrow>
          (case sw_send_response (swarm_of env) channel resp_body (swarm ex) of
             (True, w) \<Rightarrow> (Returns (Ok ()), ex\<lparr>swarm := w\<rparr>)
           | (False, w) \<Rightarrow>
               (Returns (Err (Network ''error sending response, channel closed'')), ex\<lparr>swarm := w\<rparr>)))"
| "handle_outbound_message env (OutPubsub topic message) ex = forward_outbound_pubsub env topic message ex"
| "handle_outbound_message env (OutManagement command) ex = handle_control_directive env command ex"

subsection \<open>Inbound messages\<close>

datatype RequestResponseMessage =
    InRequest "GossipRequest authenticated" response_handle
  | InResponse "GossipResponse authenticated"

definition rejected :: "(unit, 'w) net_handler" where
  "rejected ex = (Returns (Err (Authentication ERR_SIG_VERIFY)), ex)"

fun dispatch_request :: "'w network_env \<Rightarrow> WrappedPeerId \<Rightarrow> response_handle \<Rightarrow> GossipRequest \<Rightarrow> (unit, 'w) net_handler" where
  "dispatch_request env p channel (ReqBootstrap info) ex = enqueue_gossip (Bootstrap info channel) ex"
| "dispatch_request env p channel (ReqHeartbeat msg) ex = enqueue_gossip (HandleHeartbeatReq p msg channel) ex"
| "dispatch_request env p channel (ReqHandshake r msg) ex =
     enqueue_handshake (ProcessHandshakeMessage r p msg (Some channel)) ex"
| "dispatch_request env p channel (ReqOrderInfo oid) ex = enqueue_gossip (OrderBookJob (OrderInfoJob oid channel)) ex"
| "dispatch_request env p channel (ReqReplicate wallets) ex =
     and_then (enqueue_gossip (ClusterJob (ReplicateRequest wallets)) ex) (\<lambda>_ ex1.
       case sw_send_response (swarm_of env) channel response_new_ack (swarm ex1) of
         (True, w) \<Rightarrow> (Returns (Ok ()), ex1\<lparr>swarm := w\<rparr>)
       | (False, w) \<Rightarrow> (Returns (Err (Network ''error sending Ack'')), ex1\<lparr>swarm := w\<rparr>))"
| "dispatch_request env p channel (ReqValidityProof oid bundle) ex =
     enqueue_gossip (ClusterJob (UpdateValidityProof oid bundle)) ex"
| "dispatch_request env p channel (ReqValidityWitness oid wit) ex =
     and_then (enqueue_gossip (OrderBookJob (OrderWitnessResponseJob oid wit)) ex) (\<lambda>_.
       handle_outbound_message env (OutResponse channel RespAck))"

fun dispatch_response :: "WrappedPeerId \<Rightarrow> GossipResponse \<Rightarrow> (unit, 'w) net_handler" where
  "dispatch_response p RespAck ex = (Returns (Ok ()), ex)"
| "dispatch_response p (RespHeartbeat msg) ex = enqueue_gossip (HandleHeartbeatResp p msg) ex"
| "dispatch_response p (RespHandshake r msg) ex = enqueue_handshake (ProcessHandshakeMessage r p msg None) ex"
| "dispatch_response p (RespOrderInfo oid info) ex = enqueue_gossip (OrderBookJob (OrderInfoResponseJob oid info)) ex"

fun handle_inbound_request_response_message ::
  "'w network_env \<Rightarrow> WrappedPeerId \<Rightarrow> RequestResponseMessage \<Rightarrow> (unit, 'w) net_handler" where
  "handle_inbound_request_response_message env p (InRequest request channel) ex =
     (if \<not> request_verify_cluster_auth (n_crypto env) (request_json env) (public_of (n_crypto env) (cluster_key ex)) request
      then rejected ex
      else dispatch_request env p channel (auth_body request) ex)"
| "handle_inbound_request_response_message env p (InResponse response) ex =
     (if \<not> response_verify_cluster_auth (n_crypto env) (response_json env) (public_of (n_crypto env) (cluster_key ex)) response
      then rejected ex
      else dispatch_response p (auth_body response) ex)"

fun dispatch_cluster_message :: "ClusterId \<Rightarrow> ClusterManagementMessage \<Rightarrow> (unit, 'w) net_handler" where
  "dispatch_cluster_message cid (Join msg) ex = enqueue_gossip (ClusterJob (ClusterJoinRequest cid msg)) ex"
| "dispatch_cluster_message cid (Replicated wallets p) ex =
     enqueue_all (map (\<lambda>wid. ClusterJob (AddWalletReplica wid p)) wallets) ex"
| "dispatch_cluster_message cid (CacheSync order1 order2) ex = enqueue_handshake (CacheEntry order1 order2) ex"
| "dispatch_cluster_message cid (MatchInProgress order1 order2) ex =
     enqueue_handshake (PeerMatchInProgress order1 order2) ex"
| "dispatch_cluster_message cid (RequestOrderValidityProof oids sender) ex =
     enqueue_gossip (ClusterJob (ShareValidityProofs oids sender)) ex"
| "dispatch_cluster_message cid (RequestOrderValidityWitness oid sender) ex =
     enqueue_gossip (OrderBookJob (OrderWitnessJob oid sender)) ex"

fun dispatch_pubsub :: "PubsubMessage \<Rightarrow> (unit, 'w) net_handler" where
  "dispatch_pubsub (ClusterManagement cid msg) ex = dispatch_cluster_message cid msg ex"
| "dispatch_pubsub (OrderBookManagement (OrderReceived oid n cid)) ex =
     enqueue_gossip (OrderBookJob (OrderReceivedJob oid n cid)) ex"
| "dispatch_pubsub (OrderBookManagement (OrderProofUpdated oid cid bundle)) ex =
     enqueue_gossip (OrderBookJob (OrderProofUpdatedJob oid cid bundle)) ex"

text \<open>The data of a pubsub message is deserialized with an \<open>unwrap\<close>, before any check.\<close>

definition handle_inbound_pubsub_message :: "'w network_env \<Rightarrow> bytes \<Rightarrow> (unit, 'w) net_handler" where
  "handle_inbound_pubsub_message env data ex =
     (case pubsub_from_slice env data of
        None \<Rightarrow> (Panics, ex)
      | Some event \<Rightarrow>
          if \<not> pubsub_verify_cluster_auth (n_crypto env) (pubsub_json env) (public_of (n_crypto env) (cluster_key ex)) event
          then rejected ex
          else dispatch_pubsub (auth_body event) ex)"

datatype RequestResponseEvent = RRMessage WrappedPeerId RequestResponseMessage | RROther
datatype GossipsubEvent = GSMessage bytes | GSOther

datatype ComposedProtocolEvent =
    EvRequestResponse RequestResponseEvent
  | EvKademlia
  | EvPubSub GossipsubEvent
  | EvIdentify

fun handle_inbound_message :: "'w network_env \<Rightarrow> ComposedProtocolEvent \<Rightarrow> (unit, 'w) net_handler" where
  "handle_inbound_message env (EvRequestResponse (RRMessage p msg)) ex =
     handle_inbound_request_response_message env p msg ex"
| "handle_inbound_message env (EvRequestResponse RROther) ex = (Returns (Ok ()), ex)"
| "handle_inbound_message env (EvPubSub (GSMessage data)) ex = handle_inbound_pubsub_message env data ex"
| "handle_inbound_message env (EvPubSub GSOther) ex = (Returns (Ok ()), ex)"
| "handle_inbound_message env EvKademlia ex = (Returns (Ok ()), ex)"
| "handle_inbound_message env EvIdentify ex = (Returns (Ok ()), ex)"

subsection \<open>The executor loop\<close>

text \<open>
  What the select of the loop can yield, and how a run on a list of such events ends: still
  running, stopped by the coordinator, or with a panic of the thread. The error of a handler is
  logged and the loop goes on.
\<close>

datatype loop_event =
    FromWorker GossipOutbound
  | FromSwarm ComposedProtocolEvent
  | NewListenAddr
  | OtherSwarmEvent
  | CancelSignal

datatype loop_end = Running | Stopped NetworkManagerError | Crashed

definition handle_event :: "'w network_env \<Rightarrow> loop_event \<Rightarrow> (unit, 'w) net_handler" where
  "handle_event env ev ex =
     (case ev of
        FromWorker msg \<Rightarrow> handle_outbound_message env msg ex
      | FromSwarm e \<Rightarrow> handle_inbound_message env e ex
      | _ \<Rightarrow> (Returns (Ok ()), ex))"

fun executor_loop :: "'w network_env \<Rightarrow> loop_event list \<Rightarrow> 'w NetworkManagerExecutor \<Rightarrow> loop_end \<times> 'w NetworkManagerExecutor" where
  "executor_loop env [] ex = (Running, ex)"
| "executor_loop env (ev # evs) ex =
     (if ev = CancelSignal then (Stopped (Cancelled ''received cancel signal''), ex)
      else case handle_event env ev ex of
             (Returns _, ex') \<Rightarrow> executor_loop env evs ex'
           | (_, ex') \<Rightarrow> (Crashed, ex'))"

subsection \<open>Start-up\<close>

text \<open>
  The manager before its executor thread runs. \<open>start\<close> takes the swarm that libp2p builds, or its
  error, the clock and the order in which the peer index is iterated.
\<close>

record NetworkManager =
  manager_peer_id :: WrappedPeerId
  manager_addr :: multiaddr
  manager_cluster_id :: ClusterId
  manager_port :: u16
  manager_cluster_keypair :: bytes
  manager_state :: RelayerState

definition update_global_state_after_startup :: "cluster_crypto \<Rightarrow> u64 \<Rightarrow> NetworkManager \<Rightarrow> NetworkManager call" where
  "update_global_state_after_startup c now nm =
     bind_call (new_with_cluster_secret_key c now (manager_peer_id nm) (manager_cluster_id nm) (manager_addr nm)
         (manager_cluster_keypair nm)) (\<lambda>info.
       Returns (nm\<lparr>manager_state := add_single_peer c now (manager_peer_id nm) info (manager_state nm)\<rparr>))"

fun subscribe_all :: "'w swarm_ops \<Rightarrow> string list \<Rightarrow> 'w \<Rightarrow> (unit, NetworkManagerError) Result \<times> 'w" where
  "subscribe_all ops [] w = (Ok (), w)"
| "subscribe_all ops (t # ts) w =
     (case sw_subscribe ops t w of
        (Ok _, w') \<Rightarrow> subscribe_all ops ts w'
      | (Err e, w') \<Rightarrow> (Err (SetupError e), w'))"

definition setup_pubsub_subscriptions :: "'w swarm_ops \<Rightarrow> NetworkManager \<Rightarrow> 'w \<Rightarrow> (unit, NetworkManagerError) Result \<times> 'w" where
  "setup_pubsub_subscriptions ops nm =
     subscribe_all ops [get_management_topic (manager_cluster_id nm), ORDER_BOOK_TOPIC]"

definition NetworkManager_new :: "ClusterId \<Rightarrow> u16 \<Rightarrow> bytes \<Rightarrow> RelayerState \<Rightarrow> NetworkManager" where
  "NetworkManager_new cid port keypair st =
     \<lparr>manager_peer_id = local_peer_id st, manager_addr = [], manager_cluster_id = cid, manager_port = port,
      manager_cluster_keypair = keypair, manager_state = st\<rparr>"

definition manager_start ::
  "'w network_env \<Rightarrow> (WrappedPeerId set \<Rightarrow> WrappedPeerId list) \<Rightarrow> u64 \<Rightarrow> ('w, string) Result
    \<Rightarrow> GossipServerJob channel \<Rightarrow> HandshakeExecutionJob channel \<Rightarrow> NetworkManager
    \<Rightarrow> ('w NetworkManagerExecutor, NetworkManagerError) Result call \<times> NetworkManager" where
  "manager_start env iter now built gossip handshake nm =
     (case built of
        Err e \<Rightarrow> (Returns (Err (SetupError e)), nm)
      | Ok w \<Rightarrow>
          let infos = peer_map (peer_index (manager_state nm));
              w1 = fold (\<lambda>p. sw_add_address (swarm_of env) p (addr (the (infos p)))) (iter (dom infos)) w;
              a = tcp_multiaddr env (manager_port nm);
              nm1 = nm\<lparr>manager_addr := a, manager_state := (manager_state nm)\<lparr>local_addr := a\<rparr>\<rparr>
          in case sw_listen_on (swarm_of env) a w1 of
               (Err e, _) \<Rightarrow> (Returns (Err (SetupError e)), nm1)
             | (Ok _, w2) \<Rightarrow>
                 (case update_global_state_after_startup (n_crypto env) now nm1 of
                    Returns nm2 \<Rightarrow>
                      (case setup_pubsub_subscriptions (swarm_of env) nm2 w2 of
                         (Err e, _) \<Rightarrow> (Returns (Err e), nm2)
                       | (Ok _, w3) \<Rightarrow>
                           (Returns (Ok (NetworkManagerExecutor_new (manager_peer_id nm2)
                              (manager_cluster_keypair nm2) w3 gossip handshake)), nm2))
                  | Panics \<Rightarrow> (Panics, nm1)
                  | Blocks \<Rightarrow> (Blocks, nm1)))"

subsection \<open>The codec of requests and responses\<close>

text \<open>
  The codec of \<open>composed_protocol.rs\<close>. The length-prefixed reads and writes of libp2p and the
  closing of the stream are arguments; \<open>io\<close> is the stream.
\<close>

definition MAX_MESSAGE_SIZE :: nat where
  "MAX_MESSAGE_SIZE = 1000000000"

definition read_request ::
  "('io \<Rightarrow> nat \<Rightarrow> (bytes, string) Result \<times> 'io) \<Rightarrow> (bytes \<Rightarrow> GossipRequest authenticated option) \<Rightarrow> 'io
    \<Rightarrow> (GossipRequest authenticated, string) Result call \<times> 'io" where
  "read_request read_length_prefixed from_slice io =
     (case read_length_prefixed io MAX_MESSAGE_SIZE of
        (Err e, io') \<Rightarrow> (Returns (Err e), io')
      | (Ok req_data, io') \<Rightarrow>
          if req_data = [] then (Returns (Err ''empty request''), io')
          else case from_slice req_data of
                 None \<Rightarrow> (Panics, io')
               | Some deserialized \<Rightarrow> (Returns (Ok deserialized), io'))"

definition read_response ::
  "('io \<Rightarrow> nat \<Rightarrow> (bytes, string) Result \<times> 'io) \<Rightarrow> (bytes \<Rightarrow> GossipResponse authenticated option) \<Rightarrow> 'io
    \<Rightarrow> (GossipResponse authenticated, string) Result call \<times> 'io" where
  "read_response read_length_prefixed from_slice io =
     (case read_length_prefixed io MAX_MESSAGE_SIZE of
        (Err e, io') \<Rightarrow> (Returns (Err e), io')
      | (Ok resp_data, io') \<Rightarrow>
          if resp_data = [] then (Returns (Err ''empty response''), io')
          else case from_slice resp_data of
                 None \<Rightarrow> (Panics, io')
               | Some deserialized \<Rightarrow> (Returns (Ok deserialized), io'))"

definition write_request ::
  "('io \<Rightarrow> bytes \<Rightarrow> (unit, string) Result \<times> 'io) \<Rightarrow> ('io \<Rightarrow> (unit, string) Result \<times> 'io)
    \<Rightarrow> (GossipRequest authenticated \<Rightarrow> bytes) \<Rightarrow> GossipRequest authenticated \<Rightarrow> 'io \<Rightarrow> (unit, string) Result \<times> 'io" where
  "write_request write_length_prefixed close to_json req io =
     (case write_length_prefixed io (to_json req) of
        (Err e, io') \<Rightarrow> (Err e, io')
      | (Ok _, io') \<Rightarrow> close io')"

definition write_response ::
  "('io \<Rightarrow> bytes \<Rightarrow> (unit, string) Result \<times> 'io) \<Rightarrow> ('io \<Rightarrow> (unit, string) Result \<times> 'io)
    \<Rightarrow> (GossipResponse authenticated \<Rightarrow> bytes) \<Rightarrow> GossipResponse authenticated \<Rightarrow> 'io \<Rightarrow> (unit, string) Result \<times> 'io" where
  "write_response write_length_prefixed close to_json resp io =
     (case write_length_prefixed io (to_json resp) of
        (Err e, io') \<Rightarrow> (Err e, io')
      | (Ok _, io') \<Rightarrow> close io')"

end
