(* ===== verification/Network_Safety.thy ===== *)
theory Network_Safety
  imports Network_Manager
begin

section \<open>What the network manager guarantees\<close>

text \<open>
  The contract of the swarm and its instance, the order in which pubsub messages reach the
  network, which messages become jobs, when the executor thread dies, and the composition of
  the network managers and gossip servers of two nodes.
\<close>

subsection \<open>The contract of the swarm\<close>

locale swarm_contract =
  fixes ops :: "'w swarm_ops" and published :: "'w \<Rightarrow> (string \<times> bytes) list"
  assumes publish_ok: "sw_publish ops t d w = (Ok u, w') \<Longrightarrow> published w' = published w @ [(t, d)]"
    and publish_err: "sw_publish ops t d w = (Err e, w') \<Longrightarrow> published w' = published w"
    and request_silent: "published (sw_send_request ops p req w) = published w"
    and response_silent: "published (snd (sw_send_response ops ch resp w)) = published w"
    and address_silent: "published (sw_add_address ops p a w) = published w"

text \<open>A swarm that logs: what was published, requested and answered, the routes and the open channels.\<close>

record log_swarm =
  mesh_peers :: nat
  published_log :: "(string \<times> bytes) list"
  request_log :: "(WrappedPeerId \<times> GossipRequest authenticated) list"
  response_log :: "(response_handle \<times> GossipResponse authenticated) list"
  closed_channels :: "response_handle list"
  routes :: "(WrappedPeerId \<times> multiaddr) list"
  topics :: "string list"

definition log_ops :: "log_swarm swarm_ops" where
  "log_ops = \<lparr>sw_publish = (\<lambda>t d w. if mesh_peers w = 0 then (Err ''InsufficientPeers'', w)
        else (Ok (), w\<lparr>published_log := published_log w @ [(t, d)]\<rparr>)),
     sw_send_request = (\<lambda>p req w. w\<lparr>request_log := request_log w @ [(p, req)]\<rparr>),
     sw_send_response = (\<lambda>ch resp w. if ch \<in> set (closed_channels w) then (False, w)
        else (True, w\<lparr>response_log := response_log w @ [(ch, resp)]\<rparr>)),
     sw_add_address = (\<lambda>p a w. w\<lparr>routes := routes w @ [(p, a)]\<rparr>),
     sw_addresses_of_peer = (\<lambda>p w. map snd (filter (\<lambda>r. fst r = p) (routes w))),
     sw_subscribe = (\<lambda>t w. (Ok (), w\<lparr>topics := topics w @ [t]\<rparr>)),
     sw_listen_on = (\<lambda>_ w. (Ok (), w))\<rparr>"

interpretation logging: swarm_contract log_ops published_log
  by unfold_locales (auto simp: log_ops_def split: if_splits)

subsection \<open>Fields a handler leaves alone\<close>

text \<open>\<open>keeps_identity\<close>: the key, the peer id and the receivers of the queues stay.\<close>

definition keeps_identity :: "'w NetworkManagerExecutor \<Rightarrow> 'w NetworkManagerExecutor \<Rightarrow> bool" where
  "keeps_identity ex ex' \<longleftrightarrow> cluster_key ex' = cluster_key ex \<and> nm_peer_id ex' = nm_peer_id ex
     \<and> receiver_alive (gossip_work_queue ex') = receiver_alive (gossip_work_queue ex)
     \<and> receiver_alive (handshake_work_queue ex') = receiver_alive (handshake_work_queue ex)"

interpretation identity: step_relation keeps_identity
  by unfold_locales (auto simp: keeps_identity_def)

lemma send_alive: "send m ch = Some ch' \<Longrightarrow> receiver_alive ch' = receiver_alive ch"
  by (auto simp: send_def split: if_splits)

lemma identity_simps [simp]:
  "keeps_identity ex ex" "keeps_identity ex (ex\<lparr>swarm := w\<rparr>)"
  "keeps_identity ex (ex\<lparr>warmup_finished := f, warmup_buffer := b\<rparr>)"
  by (simp_all add: keeps_identity_def)

lemma identity_enqueue:
  "keeps_identity ex (snd (enqueue_gossip j ex))" "keeps_identity ex (snd (enqueue_handshake k ex))"
  by (auto simp: enqueue_gossip_def enqueue_handshake_def keeps_identity_def send_alive split: option.split)

lemma identity_enqueue_all: "keeps_identity ex (snd (enqueue_all js ex))"
  by (induction js arbitrary: ex) (auto intro: identity.refl identity.and_then_step identity_enqueue)

lemma identity_forward: "keeps_identity ex (snd (forward_outbound_pubsub env t m ex))"
  by (auto simp: forward_outbound_pubsub_def keeps_identity_def split: option.split prod.split Result.split)

lemma identity_forward_buffered: "keeps_identity ex (snd (forward_buffered env bs ex))"
  by (induction bs arbitrary: ex) (auto intro: identity.refl identity.and_then_step identity_forward)

lemma identity_directive: "keeps_identity ex (snd (handle_control_directive env d ex))"
proof (cases d)
  case GossipWarmupComplete
  then show ?thesis
    using identity.trans [OF identity_simps(3) identity_forward_buffered] by simp
qed (auto simp: Let_def identity_enqueue split: ConnectionRole.split list.split option.split)

lemma identity_outbound: "keeps_identity ex (snd (handle_outbound_message env m ex))"
  by (cases m) (auto simp: identity_forward identity_directive split: option.split prod.split bool.split)

lemma identity_request: "keeps_identity ex (snd (dispatch_request env p ch r ex))"
  by (cases r) (auto intro!: identity.and_then_step identity_enqueue identity_outbound
      simp del: handle_outbound_message.simps split: prod.split bool.split)

lemma identity_pubsub: "keeps_identity ex (snd (dispatch_pubsub m ex))"
proof (cases "(m, ex)" rule: dispatch_pubsub.cases)
  case (1 cid msg ex')
  then show ?thesis by (cases msg) (auto simp: identity_enqueue identity_enqueue_all)
qed (auto simp: identity_enqueue)

lemma identity_inbound: "keeps_identity ex (snd (handle_inbound_message env e ex))"
proof (cases "(env, e, ex)" rule: handle_inbound_message.cases)
  case (1 env' p msg ex')
  then show ?thesis
  proof (cases msg)
    case (InResponse resp)
    then show ?thesis
      using 1 by (cases "auth_body resp") (auto simp: rejected_def identity.refl identity_enqueue)
  qed (auto simp: rejected_def identity.refl identity_request)
next
  case (3 env' data ex')
  then show ?thesis
    by (auto simp: identity_pubsub handle_inbound_pubsub_message_def rejected_def identity.refl split: option.split)
qed (auto simp: identity.refl)

lemma identity_event: "keeps_identity ex (snd (handle_event env ev ex))"
  by (cases ev) (auto simp: handle_event_def identity.refl identity_outbound identity_inbound)


subsection \<open>Pubsub messages leave in order\<close>

definition signed_pubsub :: "'w network_env \<Rightarrow> bytes \<Rightarrow> BufferedPubsubMessage \<Rightarrow> string \<times> bytes" where
  "signed_pubsub env key b = (buffered_topic b, pubsub_to_vec env
     (the (pubsub_new_with_body (n_crypto env) (pubsub_json env) (buffered_message b) key)))"

fun pubsub_of :: "GossipOutbound \<Rightarrow> BufferedPubsubMessage list" where
  "pubsub_of (OutPubsub t m) = [\<lparr>buffered_topic = t, buffered_message = m\<rparr>]"
| "pubsub_of _ = []"

definition outbound_run :: "'w network_env \<Rightarrow> GossipOutbound list \<Rightarrow> 'w NetworkManagerExecutor \<Rightarrow> 'w NetworkManagerExecutor" where
  "outbound_run env ms ex = fold (\<lambda>m ex. snd (handle_outbound_message env m ex)) ms ex"

definition accepts_all :: "'w swarm_ops \<Rightarrow> 'w set \<Rightarrow> bool" where
  "accepts_all ops W \<longleftrightarrow>
     (\<forall>w\<in>W. (\<forall>t d. fst (sw_publish ops t d w) = Ok () \<and> snd (sw_publish ops t d w) \<in> W)
        \<and> (\<forall>p req. sw_send_request ops p req w \<in> W) \<and> (\<forall>ch resp. snd (sw_send_response ops ch resp w) \<in> W)
        \<and> (\<forall>p a. sw_add_address ops p a w \<in> W))"

lemma pubsub_signed:
  assumes "crypto_complete c"
  shows "pubsub_new_with_body c to_json m k = Some (the (pubsub_new_with_body c to_json m k))"
  using new_with_body_verifies [OF assms, of to_json pubsub_requires_cluster_auth m k]
  by (auto simp: pubsub_new_with_body_def)

context swarm_contract
begin

lemma forward_publishes:
  assumes "crypto_complete (n_crypto env)" and "swarm_of env = ops" and "accepts_all ops W"
    and "swarm ex \<in> W" and "warmup_finished ex"
  shows "\<exists>w\<in>W. forward_outbound_pubsub env t m ex = (Returns (Ok ()), ex\<lparr>swarm := w\<rparr>)
    \<and> published w = published (swarm ex) @ [signed_pubsub env (cluster_key ex) \<lparr>buffered_topic = t, buffered_message = m\<rparr>]"
proof -
  let ?d = "pubsub_to_vec env (the (pubsub_new_with_body (n_crypto env) (pubsub_json env) m (cluster_key ex)))"
  obtain w where w: "sw_publish ops t ?d (swarm ex) = (Ok (), w)" "w \<in> W"
    using assms(3,4) unfolding accepts_all_def by (metis prod.collapse)
  have "forward_outbound_pubsub env t m ex = (Returns (Ok ()), ex\<lparr>swarm := w\<rparr>)"
    unfolding forward_outbound_pubsub_def
    by (subst pubsub_signed [OF assms(1)]) (simp add: assms w)
  then show ?thesis
    using w publish_ok [OF w(1)] by (auto simp: signed_pubsub_def)
qed

lemma buffer_publishes:
  assumes "crypto_complete (n_crypto env)" and "swarm_of env = ops" and "accepts_all ops W"
  shows "swarm ex \<in> W \<Longrightarrow> warmup_finished ex \<Longrightarrow>
    \<exists>w\<in>W. forward_buffered env bs ex = (Returns (Ok ()), ex\<lparr>swarm := w\<rparr>)
      \<and> published w = published (swarm ex) @ map (signed_pubsub env (cluster_key ex)) bs"
proof (induction bs arbitrary: ex)
  case Nil
  then show ?case by (intro bexI [of _ "swarm ex"]) simp_all
next
  case (Cons b bs)
  obtain w where w: "w \<in> W"
      "forward_outbound_pubsub env (buffered_topic b) (buffered_message b) ex = (Returns (Ok ()), ex\<lparr>swarm := w\<rparr>)"
      "published w = published (swarm ex) @ [signed_pubsub env (cluster_key ex) b]"
    using forward_publishes [OF assms Cons.prems, of "buffered_topic b" "buffered_message b"]
    by (auto simp: signed_pubsub_def)
  then show ?case
    using Cons.IH [of "ex\<lparr>swarm := w\<rparr>"] Cons.prems(2) by auto
qed

text \<open>One message: what reaches the network and what stays buffered.\<close>

lemma outbound_step:
  assumes "crypto_complete (n_crypto env)" and "swarm_of env = ops" and "accepts_all ops W"
    and "swarm ex \<in> W" and "warmup_finished ex \<longrightarrow> warmup_buffer ex = []"
    and "ex' = snd (handle_outbound_message env m ex)"
  shows "swarm ex' \<in> W \<and> (warmup_finished ex' \<longrightarrow> warmup_buffer ex' = [])
    \<and> (warmup_finished ex' \<longleftrightarrow> warmup_finished ex \<or> m = OutManagement GossipWarmupComplete)
    \<and> published (swarm ex') @ map (signed_pubsub env (cluster_key ex)) (warmup_buffer ex')
       = published (swarm ex) @ map (signed_pubsub env (cluster_key ex)) (warmup_buffer ex @ pubsub_of m)
    \<and> (\<not> warmup_finished ex' \<longrightarrow> published (swarm ex') = published (swarm ex)
          \<and> warmup_buffer ex' = warmup_buffer ex @ pubsub_of m)"
proof -
  note W = assms(3) [unfolded accepts_all_def, rule_format, OF assms(4)]
  consider (request) p r where "m = OutRequest p r" | (response) ch r where "m = OutResponse ch r"
    | (early) t pm where "m = OutPubsub t pm" "\<not> warmup_finished ex"
    | (late) t pm where "m = OutPubsub t pm" "warmup_finished ex"
    | (warm) "m = OutManagement GossipWarmupComplete"
    | (addr) p a where "m = OutManagement (NewAddr p a)"
    | (broker) r p pp lp role where "m = OutManagement (BrokerMpcNet r p pp lp role)"
    by (cases m; metis ManagerControlDirective.exhaust)
  then show ?thesis
  proof cases
    case request
    then show ?thesis
      using assms W by (auto simp: request_silent split: option.split)
  next
    case response
    then show ?thesis
      using assms W response_silent
      by (auto split: option.split prod.split bool.split) (metis snd_conv)+
  next
    case early
    then show ?thesis
      using assms by (auto simp: forward_outbound_pubsub_def)
  next
    case late
    then show ?thesis
      using forward_publishes [OF assms(1-4), of t pm] assms(5,6) by auto
  next
    case warm
    then show ?thesis
      using buffer_publishes [OF assms(1-3), of "ex\<lparr>warmup_finished := True, warmup_buffer := []\<rparr>" "warmup_buffer ex"]
        assms(4,6) by auto
  next
    case addr
    then show ?thesis
      using assms W by (auto simp: address_silent)
  next
    case broker
    then show ?thesis
      using assms by (auto simp: Let_def enqueue_handshake_def split: ConnectionRole.split list.split option.split)
  qed
qed

lemma outbound_fifo:
  assumes "crypto_complete (n_crypto env)" and "swarm_of env = ops" and "accepts_all ops W"
  shows "swarm ex \<in> W \<Longrightarrow> (warmup_finished ex \<longrightarrow> warmup_buffer ex = []) \<Longrightarrow>
    (let ex' = outbound_run env ms ex; sent = map (signed_pubsub env (cluster_key ex)) (warmup_buffer ex @ concat (map pubsub_of ms))
     in if warmup_finished ex \<or> OutManagement GossipWarmupComplete \<in> set ms
        then published (swarm ex') = published (swarm ex) @ sent \<and> warmup_buffer ex' = []
        else published (swarm ex') = published (swarm ex)
          \<and> warmup_buffer ex' = warmup_buffer ex @ concat (map pubsub_of ms))"
proof (induction ms arbitrary: ex)
  case (Cons m ms)
  define ex1 where "ex1 = snd (handle_outbound_message env m ex)"
  note step = outbound_step [OF assms Cons.prems ex1_def]
  have key: "cluster_key ex1 = cluster_key ex"
    using identity_outbound [of ex env m] by (simp add: ex1_def keeps_identity_def)
  have "outbound_run env (m # ms) ex = outbound_run env ms ex1"
    by (simp add: outbound_run_def ex1_def)
  then show ?case
    using Cons.IH [of ex1] step by (auto simp: Let_def key split: if_splits)
qed (auto simp: Let_def outbound_run_def)

end


subsection \<open>Jobs come from accepted messages\<close>

text \<open>
  The jobs each kind of message stands for, as lists: a specification of the dispatch without
  queues, acknowledgements and errors.
\<close>

fun request_jobs :: "WrappedPeerId \<Rightarrow> response_handle \<Rightarrow> GossipRequest \<Rightarrow> GossipServerJob list" where
  "request_jobs p ch (ReqBootstrap info) = [Bootstrap info ch]"
| "request_jobs p ch (ReqHeartbeat msg) = [HandleHeartbeatReq p msg ch]"
| "request_jobs p ch (ReqHandshake r msg) = []"
| "request_jobs p ch (ReqOrderInfo oid) = [OrderBookJob (OrderInfoJob oid ch)]"
| "request_jobs p ch (ReqReplicate ws) = [ClusterJob (ReplicateRequest ws)]"
| "request_jobs p ch (ReqValidityProof oid bundle) = [ClusterJob (UpdateValidityProof oid bundle)]"
| "request_jobs p ch (ReqValidityWitness oid wit) = [OrderBookJob (OrderWitnessResponseJob oid wit)]"

fun response_jobs :: "WrappedPeerId \<Rightarrow> GossipResponse \<Rightarrow> GossipServerJob list" where
  "response_jobs p (RespHeartbeat msg) = [HandleHeartbeatResp p msg]"
| "response_jobs p (RespOrderInfo oid info) = [OrderBookJob (OrderInfoResponseJob oid info)]"
| "response_jobs p _ = []"

fun pubsub_jobs :: "PubsubMessage \<Rightarrow> GossipServerJob list" where
  "pubsub_jobs (ClusterManagement cid (Join msg)) = [ClusterJob (ClusterJoinRequest cid msg)]"
| "pubsub_jobs (ClusterManagement cid (Replicated wids p)) = map (\<lambda>wid. ClusterJob (AddWalletReplica wid p)) wids"
| "pubsub_jobs (ClusterManagement cid (RequestOrderValidityProof oids p)) = [ClusterJob (ShareValidityProofs oids p)]"
| "pubsub_jobs (ClusterManagement cid (RequestOrderValidityWitness oid p)) = [OrderBookJob (OrderWitnessJob oid p)]"
| "pubsub_jobs (ClusterManagement cid _) = []"
| "pubsub_jobs (OrderBookManagement (OrderReceived oid n cid)) = [OrderBookJob (OrderReceivedJob oid n cid)]"
| "pubsub_jobs (OrderBookManagement (OrderProofUpdated oid cid bundle)) = [OrderBookJob (OrderProofUpdatedJob oid cid bundle)]"

fun event_jobs :: "'w network_env \<Rightarrow> bytes \<Rightarrow> loop_event \<Rightarrow> GossipServerJob list" where
  "event_jobs env key (FromSwarm (EvRequestResponse (RRMessage p (InRequest req ch)))) =
     (if request_verify_cluster_auth (n_crypto env) (request_json env) (public_of (n_crypto env) key) req
      then request_jobs p ch (auth_body req) else [])"
| "event_jobs env key (FromSwarm (EvRequestResponse (RRMessage p (InResponse resp)))) = response_jobs p (auth_body resp)"
| "event_jobs env key (FromSwarm (EvPubSub (GSMessage data))) =
     (case pubsub_from_slice env data of
        Some m \<Rightarrow> if pubsub_verify_cluster_auth (n_crypto env) (pubsub_json env) (public_of (n_crypto env) key) m
                  then pubsub_jobs (auth_body m) else []
      | None \<Rightarrow> [])"
| "event_jobs env key _ = []"

text \<open>\<open>queues js ex ex'\<close>: the gossip server's queue has grown by exactly \<open>js\<close>.\<close>

definition queues :: "GossipServerJob list \<Rightarrow> 'w NetworkManagerExecutor \<Rightarrow> 'w NetworkManagerExecutor \<Rightarrow> bool" where
  "queues js ex ex' \<longleftrightarrow> queued (gossip_work_queue ex') = queued (gossip_work_queue ex) @ js"

lemma queues_simps [simp]:
  "queues [] ex ex" "queues [] ex (ex\<lparr>swarm := w\<rparr>)" "queues [] ex (ex\<lparr>handshake_work_queue := q\<rparr>)"
  "queues [] ex (ex\<lparr>warmup_finished := f, warmup_buffer := b\<rparr>)" "queues [] ex (ex\<lparr>warmup_buffer := b\<rparr>)"
  by (simp_all add: queues_def)

lemma queues_trans: "queues js ex ex1 \<Longrightarrow> queues ks ex1 ex2 \<Longrightarrow> queues (js @ ks) ex ex2"
  by (simp add: queues_def)

interpretation silent: step_relation "queues []"
  by unfold_locales (auto simp: queues_def)

lemma queues_handshake: "queues [] ex (snd (enqueue_handshake j ex))"
  by (auto simp: enqueue_handshake_def split: option.split)

lemma queues_gossip:
  assumes "receiver_alive (gossip_work_queue ex)"
  shows "\<exists>ex'. enqueue_gossip j ex = (Returns (Ok ()), ex') \<and> queues [j] ex ex' \<and> receiver_alive (gossip_work_queue ex')"
  using assms by (auto simp: enqueue_gossip_def send_def queues_def)

lemma queues_forward: "queues [] ex (snd (forward_outbound_pubsub env t m ex))"
  by (auto simp: forward_outbound_pubsub_def split: option.split prod.split Result.split)

lemma queues_forward_buffered: "queues [] ex (snd (forward_buffered env bs ex))"
  by (induction bs arbitrary: ex) (auto intro: silent.and_then_step queues_forward)

lemma queues_outbound: "queues [] ex (snd (handle_outbound_message env m ex))"
proof (cases m)
  case (OutManagement d)
  then show ?thesis
    using silent.trans [OF queues_simps(4) queues_forward_buffered]
    by (cases d) (auto simp: Let_def queues_handshake split: ConnectionRole.split list.split option.split)
qed (auto simp: queues_forward split: option.split prod.split bool.split)

lemma queues_all:
  "receiver_alive (gossip_work_queue ex) \<Longrightarrow> queues js ex (snd (enqueue_all js ex))"
proof (induction js arbitrary: ex)
  case (Cons j js)
  obtain ex' where "enqueue_gossip j ex = (Returns (Ok ()), ex')" "queues [j] ex ex'"
      "receiver_alive (gossip_work_queue ex')"
    using queues_gossip [OF Cons.prems] by blast
  then show ?case
    using queues_trans [of "[j]" ex ex' js] Cons.IH by simp
qed simp

lemma queues_one:
  "receiver_alive (gossip_work_queue ex) \<Longrightarrow> queues [j] ex (snd (enqueue_gossip j ex))"
  using queues_gossip [of ex j] by auto

lemma queues_then:
  assumes "receiver_alive (gossip_work_queue ex)" and "\<And>ex'. queues [] ex' (snd (f () ex'))"
  shows "queues [j] ex (snd (and_then (enqueue_gossip j ex) f))"
proof -
  obtain ex' where "enqueue_gossip j ex = (Returns (Ok ()), ex')" "queues [j] ex ex'"
    using queues_gossip [OF assms(1)] by blast
  then show ?thesis
    using queues_trans [OF _ assms(2), of "[j]" ex ex'] by simp
qed

lemma queues_request:
  "receiver_alive (gossip_work_queue ex) \<Longrightarrow> queues (request_jobs p ch r) ex (snd (dispatch_request env p ch r ex))"
  by (cases r) (auto simp: queues_one queues_handshake simp del: handle_outbound_message.simps
      intro!: queues_then queues_outbound split: prod.split bool.split)

lemma queues_pubsub:
  assumes "receiver_alive (gossip_work_queue ex)"
  shows "queues (pubsub_jobs m) ex (snd (dispatch_pubsub m ex))"
proof (cases "(m, ex)" rule: dispatch_pubsub.cases)
  case (1 cid msg ex')
  then show ?thesis
    using assms by (cases msg) (auto simp: queues_one queues_handshake queues_all)
qed (use assms in \<open>auto simp: queues_one\<close>)

lemma queues_event:
  assumes "receiver_alive (gossip_work_queue ex)"
  shows "queues (event_jobs env (cluster_key ex) ev) ex (snd (handle_event env ev ex))"
proof (cases "(env, cluster_key ex, ev)" rule: event_jobs.cases)
  case (2 env' key p resp)
  then show ?thesis
    using assms by (cases "auth_body resp") (auto simp: handle_event_def queues_one queues_handshake
      response_verify_cluster_auth_def verify_cluster_auth_def)
qed (use assms in \<open>auto simp: handle_event_def queues_request queues_pubsub queues_outbound rejected_def
      handle_inbound_pubsub_message_def split: option.split\<close>)


subsection \<open>When the thread dies\<close>

definition returns :: "('a call \<times> 's) \<Rightarrow> bool" where
  "returns m \<longleftrightarrow> (\<exists>r. fst m = Returns r)"

lemma returns_pair [simp]: "returns (Returns r, s)" "\<not> returns (Panics, s)"
  by (simp_all add: returns_def)

lemma returns_then: "returns m \<Longrightarrow> (\<And>x s. returns (f x s)) \<Longrightarrow> returns (and_then m f)"
  by (cases "(m, f)" rule: and_then.cases) (auto simp: returns_def)

lemma returns_enqueue [simp]: "returns (enqueue_gossip j ex)" "returns (enqueue_handshake k ex)"
  by (auto simp: enqueue_gossip_def enqueue_handshake_def split: option.split)

lemma returns_enqueue_all [simp]: "returns (enqueue_all js ex)"
  by (induction js arbitrary: ex) (auto intro: returns_then)

lemma returns_forward [simp]: "returns (forward_outbound_pubsub env t m ex)"
  by (auto simp: forward_outbound_pubsub_def split: option.split prod.split Result.split)

lemma returns_forward_buffered [simp]: "returns (forward_buffered env bs ex)"
  by (induction bs arbitrary: ex) (auto intro: returns_then)

lemma returns_outbound: "returns (handle_outbound_message env m ex)"
proof (cases m)
  case (OutManagement d)
  then show ?thesis
    by (cases d) (auto simp: Let_def split: ConnectionRole.split list.split option.split)
qed (auto split: option.split prod.split bool.split)

lemma returns_request: "returns (dispatch_request env p ch r ex)"
  by (cases r) (auto simp del: handle_outbound_message.simps intro!: returns_then returns_outbound
      split: prod.split bool.split)

lemma returns_pubsub: "returns (dispatch_pubsub m ex)"
proof (cases "(m, ex)" rule: dispatch_pubsub.cases)
  case (1 cid msg ex')
  then show ?thesis by (cases msg) auto
qed auto

lemma returns_response: "returns (dispatch_response p r ex)"
  by (cases r) auto

definition malformed :: "'w network_env \<Rightarrow> loop_event \<Rightarrow> bool" where
  "malformed env ev \<longleftrightarrow> (\<exists>data. ev = FromSwarm (EvPubSub (GSMessage data)) \<and> pubsub_from_slice env data = None)"

lemma returns_event: "returns (handle_event env ev ex) \<longleftrightarrow> \<not> malformed env ev"
  by (cases "(env, cluster_key ex, ev)" rule: event_jobs.cases)
    (auto simp: handle_event_def malformed_def returns_outbound returns_request returns_response returns_pubsub
      rejected_def handle_inbound_pubsub_message_def split: option.split)

lemma loop_step:
  "executor_loop env (ev # evs) ex =
     (if ev = CancelSignal then (Stopped (Cancelled ''received cancel signal''), ex)
      else if malformed env ev then (Crashed, ex)
      else executor_loop env evs (snd (handle_event env ev ex)))"
proof (cases "malformed env ev")
  case True
  then show ?thesis
    by (auto simp: malformed_def handle_event_def handle_inbound_pubsub_message_def)
next
  case False
  then obtain r where "fst (handle_event env ev ex) = Returns r"
    using returns_event [of env ev ex] by (auto simp: returns_def)
  then show ?thesis
    using False by (cases "handle_event env ev ex") auto
qed

lemma malformed_not_cancel [simp]: "\<not> malformed env CancelSignal"
  by (simp add: malformed_def)

lemma loop_crashes_iff:
  "fst (executor_loop env evs ex) = Crashed \<longleftrightarrow>
     (\<exists>evs1 ev evs2. evs = evs1 @ ev # evs2 \<and> CancelSignal \<notin> set evs1 \<and> malformed env ev)"
proof (induction evs arbitrary: ex)
  case (Cons e evs)
  have "(\<exists>evs1 ev evs2. e # evs = evs1 @ ev # evs2 \<and> CancelSignal \<notin> set evs1 \<and> malformed env ev) \<longleftrightarrow>
      malformed env e \<or> e \<noteq> CancelSignal
        \<and> (\<exists>evs1 ev evs2. evs = evs1 @ ev # evs2 \<and> CancelSignal \<notin> set evs1 \<and> malformed env ev)"
    by (auto simp: Cons_eq_append_conv intro: exI [of _ "[]"]) (metis append_Cons list.set_intros(1) set_ConsD)+
  then show ?case
    unfolding loop_step using Cons.IH by auto
qed simp

text \<open>A run that goes on enqueues the jobs of its events, in order.\<close>

lemma loop_queues:
  assumes "receiver_alive (gossip_work_queue ex)" and "executor_loop env evs ex = (Running, ex')"
  shows "queues (concat (map (event_jobs env (cluster_key ex)) evs)) ex ex'"
  using assms
proof (induction evs arbitrary: ex)
  case (Cons ev evs)
  define ex1 where "ex1 = snd (handle_event env ev ex)"
  have same: "cluster_key ex1 = cluster_key ex" "receiver_alive (gossip_work_queue ex1)"
    using identity_event [of ex env ev] Cons.prems(1) by (simp_all add: keeps_identity_def ex1_def)
  have rest: "executor_loop env evs ex1 = (Running, ex')"
    using Cons.prems(2) unfolding loop_step ex1_def by (simp split: if_splits)
  show ?case
    using queues_trans [OF queues_event [OF Cons.prems(1), of env ev]] Cons.IH [OF same(2) rest] same(1)
    by (simp add: ex1_def)
qed simp

text \<open>The jobs only a member of the cluster may cause.\<close>

fun cluster_only :: "GossipServerJob \<Rightarrow> bool" where
  "cluster_only (ClusterJob (ReplicateRequest _)) = False"
| "cluster_only (ClusterJob _) = True"
| "cluster_only (OrderBookJob (OrderWitnessJob _ _)) = True"
| "cluster_only (OrderBookJob (OrderWitnessResponseJob _ _)) = True"
| "cluster_only _ = False"

definition signature_valid :: "cluster_crypto \<Rightarrow> bytes \<Rightarrow> bytes \<Rightarrow> bytes \<Rightarrow> bool" where
  "signature_valid c pubkey body s \<longleftrightarrow>
     (\<exists>sig. signature_from_bytes c s = Some sig \<and> verify_prehashed c pubkey (sha512 c body) sig)"

fun cluster_signed :: "'w network_env \<Rightarrow> bytes \<Rightarrow> loop_event \<Rightarrow> bool" where
  "cluster_signed env key (FromSwarm (EvRequestResponse (RRMessage p (InRequest req ch)))) \<longleftrightarrow>
     signature_valid (n_crypto env) (public_of (n_crypto env) key) (request_json env (auth_body req)) (auth_sig req)"
| "cluster_signed env key (FromSwarm (EvPubSub (GSMessage data))) \<longleftrightarrow>
     (\<exists>m. pubsub_from_slice env data = Some m \<and>
        signature_valid (n_crypto env) (public_of (n_crypto env) key) (pubsub_json env (auth_body m)) (auth_sig m))"
| "cluster_signed env key _ \<longleftrightarrow> False"

lemma verified_signed:
  "verify_cluster_auth c to_json requires pk m \<Longrightarrow> requires (auth_body m) \<Longrightarrow>
   signature_valid c pk (to_json (auth_body m)) (auth_sig m)"
  by (auto simp: verify_cluster_auth_def signature_valid_def split: option.splits)

lemma request_cluster_only:
  "j \<in> set (request_jobs p ch r) \<Longrightarrow> cluster_only j \<Longrightarrow> request_requires_cluster_auth r"
  by (cases r) auto

lemma pubsub_cluster_only:
  "j \<in> set (pubsub_jobs m) \<Longrightarrow> cluster_only j \<Longrightarrow> pubsub_requires_cluster_auth m"
  by (cases m rule: pubsub_jobs.cases) auto

lemma event_cluster_only:
  "j \<in> set (event_jobs env key ev) \<Longrightarrow> cluster_only j \<Longrightarrow> cluster_signed env key ev"
proof (cases "(env, key, ev)" rule: event_jobs.cases)
  case (2 env' key' p resp)
  then show "j \<in> set (event_jobs env key ev) \<Longrightarrow> cluster_only j \<Longrightarrow> cluster_signed env key ev"
    by (cases "auth_body resp") auto
next
  case (3 env' key' data)
  assume "j \<in> set (event_jobs env key ev)" and "cluster_only j"
  then obtain m where m: "pubsub_from_slice env data = Some m" "pubsub_requires_cluster_auth (auth_body m)"
      "verify_cluster_auth (n_crypto env) (pubsub_json env) pubsub_requires_cluster_auth (public_of (n_crypto env) key) m"
    using 3 pubsub_cluster_only
    by (cases "pubsub_from_slice env data") (auto simp: pubsub_verify_cluster_auth_def split: if_splits)
  then show "cluster_signed env key ev"
    using 3 verified_signed [OF m(3,2)] by auto
qed (auto simp: request_verify_cluster_auth_def intro: verified_signed dest: request_cluster_only split: if_splits)


subsection \<open>Joining a cluster\<close>

text \<open>
  The announcement a node publishes, and what is left of a message after it has crossed the
  network: the heartbeat timestamp of a peer is not serialized.
\<close>

definition join_announcement :: "'c GossipProtocolExecutor \<Rightarrow> PubsubMessage" where
  "join_announcement g =
     (let cfg = gossip_config g
      in ClusterManagement (config_cluster_id cfg) (Join \<lparr>join_peer_id = config_peer_id cfg,
           join_peer_info = the (get_peer_info (config_peer_id cfg) (peer_index (gossip_state g))),
           join_addr = config_addr cfg\<rparr>))"

fun pubsub_over_the_wire :: "PubsubMessage \<Rightarrow> PubsubMessage" where
  "pubsub_over_the_wire (ClusterManagement cid (Join msg)) =
     ClusterManagement cid (Join (msg\<lparr>join_peer_info := PeerInfo_over_the_wire (join_peer_info msg)\<rparr>))"
| "pubsub_over_the_wire m = m"

lemma start_indexes_self:
  assumes "crypto_complete (n_crypto env)"
    and "manager_start env iter now (Ok w) gq hq nm = (Returns (Ok ex), nm')"
    and "manager_cluster_id nm = ClusterId_new (n_crypto env) (public_of (n_crypto env) (manager_cluster_keypair nm))"
    and "peer_map (peer_index (manager_state nm)) (manager_peer_id nm) = None"
  shows "cluster_key ex = manager_cluster_keypair nm \<and> (\<exists>info. peer_id info = manager_peer_id nm
    \<and> peer_map (peer_index (manager_state nm')) (manager_peer_id nm) = Some info
    \<and> verify_cluster_auth_sig (n_crypto env) (PeerInfo_over_the_wire info))"
proof -
  let ?c = "n_crypto env" and ?a = "tcp_multiaddr env (manager_port nm)"
  obtain info where info: "new_with_cluster_secret_key ?c now (manager_peer_id nm) (manager_cluster_id nm) ?a
      (manager_cluster_keypair nm) = Returns info" "verify_cluster_auth_sig ?c info"
    using cluster_auth_sig_accepted [OF assms(1)] unfolding assms(3) by blast
  have [simp]: "peer_id info = manager_peer_id nm"
    using info(1) by (auto simp: new_with_cluster_secret_key_def PeerInfo_new_def split: option.splits)
  have "verify_cluster_auth_sig ?c (PeerInfo_over_the_wire (successful_heartbeat now info))"
    using info(2) by (simp add: verify_cluster_auth_sig_def PeerInfo_over_the_wire_def successful_heartbeat_def
        split: option.splits)
  then show ?thesis
    using assms(2,4) info
    by (auto simp: manager_start_def Let_def update_global_state_after_startup_def NetworkManagerExecutor_new_def
        add_single_peer_def add_peers_def add_known_peer_def add_peer_map successful_heartbeat_def
        split: prod.splits Result.splits)
qed

lemma announcement_sent:
  assumes "receiver_alive (gossip_network g)"
    and "peer_map (peer_index (gossip_state g)) (config_peer_id (gossip_config g)) = Some info"
  shows "\<exists>g'. warmup_then_join_cluster g = (Returns (Ok ()), g')
    \<and> queued (gossip_network g') = queued (gossip_network g) @
        [OutPubsub (get_management_topic (config_cluster_id (gossip_config g))) (join_announcement g)]"
  using assms by (simp add: warmup_then_join_cluster_def join_announcement_def get_peer_info_def send_out_def send_def Let_def)

lemma announcement_received:
  assumes "crypto_complete (n_crypto env)" and "receiver_alive (gossip_work_queue ex)"
    and "\<And>s. pubsub_from_slice env (pubsub_to_vec env \<lparr>auth_sig = s, auth_body = m\<rparr>) = Some \<lparr>auth_sig = s, auth_body = m'\<rparr>"
    and "pubsub_json env m' = pubsub_json env m" and "m' = ClusterManagement cid (Join msg)"
    and "m = ClusterManagement cid (Join msg0)"
  shows "\<exists>sealed ex'. pubsub_new_with_body (n_crypto env) (pubsub_json env) m (cluster_key ex) = Some sealed
    \<and> handle_inbound_pubsub_message env (pubsub_to_vec env sealed) ex = (Returns (Ok ()), ex')
    \<and> queued (gossip_work_queue ex') = queued (gossip_work_queue ex) @ [ClusterJob (ClusterJoinRequest cid msg)]"
proof -
  obtain sealed where sealed: "pubsub_new_with_body (n_crypto env) (pubsub_json env) m (cluster_key ex) = Some sealed"
      "auth_body sealed = m" "pubsub_verify_cluster_auth (n_crypto env) (pubsub_json env)
        (public_of (n_crypto env) (cluster_key ex)) sealed"
    using new_with_body_verifies [OF assms(1), of "pubsub_json env" pubsub_requires_cluster_auth m "cluster_key ex"]
    by (auto simp: pubsub_new_with_body_def pubsub_verify_cluster_auth_def)
  then have "sealed = \<lparr>auth_sig = auth_sig sealed, auth_body = m\<rparr>" by simp
  then have read: "pubsub_from_slice env (pubsub_to_vec env sealed) = Some \<lparr>auth_sig = auth_sig sealed, auth_body = m'\<rparr>"
    using assms(3) by metis
  have "pubsub_verify_cluster_auth (n_crypto env) (pubsub_json env) (public_of (n_crypto env) (cluster_key ex))
      \<lparr>auth_sig = auth_sig sealed, auth_body = m'\<rparr>"
    using sealed(2,3) assms(4-6) by (simp add: pubsub_verify_cluster_auth_def verify_cluster_auth_def
        split: option.splits)
  then show ?thesis
    using sealed(1) read assms(2,5)
    by (simp add: handle_inbound_pubsub_message_def enqueue_gossip_def send_def)
qed

lemma join_indexes_peer:
  assumes "local_cluster_id (gossip_state g) = cid" and "verify_cluster_auth_sig (g_crypto env) (join_peer_info msg)"
    and "peer_id (join_peer_info msg) = join_peer_id msg"
  shows "contains_peer (join_peer_id msg)
    (peer_index (gossip_state (snd (handle_job env (ClusterJob (ClusterJoinRequest cid msg)) g))))"
proof -
  have keeps: "gossip_state (snd (send_replicate_request p ws h)) = gossip_state h" for p ws and h :: "'a GossipProtocolExecutor"
    by (auto simp: send_replicate_request_def send_out_def split: option.split)
  have "contains_peer (join_peer_id msg) (peer_index (add_single_peer (g_crypto env) (g_now env) (join_peer_id msg)
      (join_peer_info msg) (gossip_state g)))"
    using assms(2,3)
    by (auto simp: add_single_peer_def add_peers_def add_known_peer_def add_peer_map contains_peer_def successful_heartbeat_def)
  moreover have "gossip_state (snd (and_then (send_replicate_request p ws h) (\<lambda>_ ex1. send_replicate_request q (vs ex1) ex1)))
      = gossip_state h" for p ws q vs and h :: "'a GossipProtocolExecutor"
    by (cases "(send_replicate_request p ws h, \<lambda>(_ :: unit) ex1. send_replicate_request q (vs ex1) ex1)" rule: and_then.cases)
      (use keeps [of p ws h] keeps in \<open>auto\<close>)
  ultimately show ?thesis
    using assms(1) by (simp add: handle_cluster_join_job_def add_peer_to_cluster_def Let_def on_state_def)
qed


subsection \<open>Properties\<close>

text \<open>The environment of the examples: signatures are the key followed by the digest.\<close>

definition example_network :: "PubsubMessage \<Rightarrow> log_swarm network_env" where
  "example_network m = \<lparr>n_crypto = example_crypto, request_json = (\<lambda>_. [1]), response_json = (\<lambda>_. [2]), pubsub_json = (\<lambda>_. [3]),
     pubsub_to_vec = auth_sig, pubsub_from_slice = (\<lambda>bs. if bs = [0] then None else Some \<lparr>auth_sig = bs, auth_body = m\<rparr>),
     multiaddr_protocols = (\<lambda>a. [Ip4 a, OtherProtocol []]), tcp_multiaddr = (\<lambda>_. [9]), swarm_of = log_ops\<rparr>"

definition quiet_swarm :: "nat \<Rightarrow> log_swarm" where
  "quiet_swarm n = \<lparr>mesh_peers = n, published_log = [], request_log = [], response_log = [], closed_channels = [],
     routes = [], topics = []\<rparr>"

definition example_network_executor :: "nat \<Rightarrow> log_swarm NetworkManagerExecutor" where
  "example_network_executor n = NetworkManagerExecutor_new (WrappedPeerId [1]) [7] (quiet_swarm n)
     \<lparr>queued = [], receiver_alive = True\<rparr> \<lparr>queued = [], receiver_alive = True\<rparr>"

lemmas example_network_defs = example_network_def example_network_executor_def NetworkManagerExecutor_new_def
  quiet_swarm_def log_ops_def

lemma example_crypto_complete: "crypto_complete example_crypto"
  by (simp add: crypto_complete_def example_crypto_def comp_def)

text \<open>
  C30: the jobs a running network manager puts on the gossip server's queue are exactly those of
  the messages it accepted, in the order of their arrival, and a job that only a cluster member
  may cause (a join, a replica, a share of proofs or of a witness, a pushed proof or witness)
  comes from a message that carries a valid signature of the cluster's key.
\<close>

theorem network_jobs_authorised:
  assumes "receiver_alive (gossip_work_queue ex)" and "executor_loop env evs ex = (Running, ex')"
  shows "queued (gossip_work_queue ex') =
      queued (gossip_work_queue ex) @ concat (map (event_jobs env (cluster_key ex)) evs)
    \<and> (\<forall>job\<in>set (concat (map (event_jobs env (cluster_key ex)) evs)). cluster_only job \<longrightarrow>
         (\<exists>ev\<in>set evs. job \<in> set (event_jobs env (cluster_key ex) ev) \<and> cluster_signed env (cluster_key ex) ev))"
  using loop_queues [OF assms] event_cluster_only by (fastforce simp: queues_def)

theorem network_jobs_authorised_witness:
  "let m = ClusterManagement (ClusterId ''a'') (RequestOrderValidityWitness 4 (WrappedPeerId [2]));
       job = OrderBookJob (OrderWitnessJob 4 (WrappedPeerId [2]));
       arrives = (\<lambda>bs. FromSwarm (EvPubSub (GSMessage bs)))
   in queued (gossip_work_queue (snd (executor_loop (example_network m) [arrives [7, 1], arrives [8, 1]] (example_network_executor 1))))
      = [job]"
proof -
  let ?m = "ClusterManagement (ClusterId ''a'') (RequestOrderValidityWitness 4 (WrappedPeerId [2]))"
  let ?evs = "[FromSwarm (EvPubSub (GSMessage [7, 1])), FromSwarm (EvPubSub (GSMessage [8, 1]))]"
  have run: "executor_loop (example_network ?m) ?evs (example_network_executor 1)
      = (Running, snd (executor_loop (example_network ?m) ?evs (example_network_executor 1)))"
    by (simp add: handle_event_def handle_inbound_pubsub_message_def example_network_defs example_crypto_def
        pubsub_verify_cluster_auth_def verify_cluster_auth_def rejected_def enqueue_gossip_def send_def)
  show ?thesis
    unfolding Let_def
    using network_jobs_authorised [OF _ run]
    by (simp add: example_network_defs example_crypto_def pubsub_verify_cluster_auth_def verify_cluster_auth_def)
qed

text \<open>
  Pubsub messages leave the node in the order in which the workers hand them over. Until the
  gossip server reports the end of the warmup nothing is published and every message is kept;
  from then on, on a swarm that accepts what it is given, what has been published is each
  message once, signed where its kind requires it, the buffered ones first.
\<close>

theorem pubsub_messages_in_order:
  assumes "swarm_contract ops log_of" and "crypto_complete (n_crypto env)" and "swarm_of env = ops"
    and "accepts_all ops W" and "w \<in> W"
  shows "let ex' = outbound_run env ms (NetworkManagerExecutor_new p key w gq hq);
             handed = concat (map pubsub_of ms)
         in if OutManagement GossipWarmupComplete \<in> set ms
            then log_of (swarm ex') = log_of w @ map (signed_pubsub env key) handed \<and> warmup_buffer ex' = []
            else log_of (swarm ex') = log_of w \<and> warmup_buffer ex' = handed"
  using swarm_contract.outbound_fifo [OF assms(1-4), of "NetworkManagerExecutor_new p key w gq hq" ms] assms(5)
  by (simp add: NetworkManagerExecutor_new_def Let_def)

theorem pubsub_messages_in_order_witness:
  "let m = (\<lambda>n. OrderBookManagement (OrderReceived n 5 (ClusterId ''a'')));
       ex = outbound_run (example_network (m 0))
         [OutPubsub ''t'' (m 1), OutPubsub ''t'' (m 2), OutManagement GossipWarmupComplete, OutPubsub ''t'' (m 3)]
         (NetworkManagerExecutor_new (WrappedPeerId [1]) [7] (quiet_swarm 1) \<lparr>queued = [], receiver_alive = True\<rparr>
            \<lparr>queued = [], receiver_alive = True\<rparr>)
   in published_log (swarm ex) = [(''t'', []), (''t'', []), (''t'', [])] \<and> warmup_buffer ex = []"
proof -
  let ?m = "\<lambda>n. OrderBookManagement (OrderReceived n 5 (ClusterId ''a''))"
  have "accepts_all log_ops {w. mesh_peers w = 1}"
    by (simp add: accepts_all_def log_ops_def)
  from pubsub_messages_in_order [OF logging.swarm_contract_axioms _ _ this, of "example_network (?m 0)" "quiet_swarm 1"
      "[OutPubsub ''t'' (?m 1), OutPubsub ''t'' (?m 2), OutManagement GossipWarmupComplete, OutPubsub ''t'' (?m 3)]"
      "WrappedPeerId [1]" "[7]" "\<lparr>queued = [], receiver_alive = True\<rparr>" "\<lparr>queued = [], receiver_alive = True\<rparr>"]
  show ?thesis
    using example_crypto_complete
    by (simp add: Let_def example_network_def quiet_swarm_def signed_pubsub_def pubsub_new_with_body_def new_with_body_def)
qed

text \<open>
  the buffer does not survive a failed publish. When the warmup ends and the swarm refuses the
  first buffered message, as gossipsub does while it knows no peers, the handler returns its
  error with the whole buffer dropped: no later message is published or kept.
\<close>

theorem warmup_failure_drops_buffer:
  assumes "crypto_complete (n_crypto env)" and "warmup_buffer ex = b # bs"
    and "sw_publish (swarm_of env) (fst (signed_pubsub env (cluster_key ex) b))
           (snd (signed_pubsub env (cluster_key ex) b)) (swarm ex) = (Err e, w)"
  shows "handle_outbound_message env (OutManagement GossipWarmupComplete) ex
    = (Returns (Err (Network e)), ex\<lparr>warmup_finished := True, warmup_buffer := [], swarm := w\<rparr>)"
  using assms(2,3) pubsub_signed [OF assms(1), of "pubsub_json env" "buffered_message b" "cluster_key ex"]
  by (auto simp: forward_outbound_pubsub_def signed_pubsub_def split: option.split)

theorem warmup_failure_drops_buffer_witness:
  "let b = \<lparr>buffered_topic = ''t'', buffered_message = OrderBookManagement (OrderReceived 1 5 (ClusterId ''a''))\<rparr>;
       ex = (example_network_executor 0)\<lparr>warmup_buffer := [b, b]\<rparr>
   in handle_outbound_message (example_network (buffered_message b)) (OutManagement GossipWarmupComplete) ex
      = (Returns (Err (Network ''InsufficientPeers'')), ex\<lparr>warmup_finished := True, warmup_buffer := []\<rparr>)"
  unfolding Let_def
  by (subst warmup_failure_drops_buffer [where e = "''InsufficientPeers''" and w = "quiet_swarm 0"])
    (simp_all add: example_crypto_complete example_network_defs)

text \<open>
  C32: the executor's thread dies exactly when a pubsub message arrives, before a cancel signal,
  whose bytes are not the serialization of a message: they are unwrapped before any
  authentication. No other event, no failing handler and no closed queue ends the loop.
\<close>

theorem malformed_pubsub_kills_executor:
  "(\<exists>ex'. executor_loop env evs ex = (Crashed, ex')) \<longleftrightarrow>
     (\<exists>evs1 data evs2. evs = evs1 @ FromSwarm (EvPubSub (GSMessage data)) # evs2
        \<and> CancelSignal \<notin> set evs1 \<and> pubsub_from_slice env data = None)"
  using loop_crashes_iff [of env evs ex] unfolding malformed_def by (metis fst_conv prod.collapse)



definition joining_cluster :: ClusterId where
  "joining_cluster = ClusterId_new example_crypto [7]"

definition joining_manager :: NetworkManager where
  "joining_manager = NetworkManager_new joining_cluster 80 [7] example_state"

definition joining_env :: "log_swarm network_env" where
  "joining_env = (example_network (OrderBookManagement (OrderReceived 1 5 (ClusterId ''a''))))
     \<lparr>pubsub_from_slice := (\<lambda>bs. Some \<lparr>auth_sig = bs, auth_body = ClusterManagement joining_cluster
        (Join \<lparr>join_peer_id = local_peer_id example_state,
           join_peer_info = PeerInfo_new 0 (local_peer_id example_state) joining_cluster [9]
             ([7] @ [of_nat (length (peer_bytes (local_peer_id example_state)))]), join_addr = []\<rparr>)\<rparr>)\<rparr>"

definition joining_result :: "(log_swarm NetworkManagerExecutor, NetworkManagerError) Result call \<times> NetworkManager" where
  "joining_result = manager_start joining_env (\<lambda>_. []) 3 (Ok (quiet_swarm 1)) \<lparr>queued = [], receiver_alive = True\<rparr>
     \<lparr>queued = [], receiver_alive = True\<rparr> joining_manager"

definition cluster_gossip_at :: "RelayerState \<Rightarrow> (nat \<times> (WrappedPeerId \<times> u64) list) GossipProtocolExecutor" where
  "cluster_gossip_at st = GossipProtocolExecutor_new list_expiry \<lparr>queued = [], receiver_alive = True\<rparr> st
     \<lparr>config_peer_id = local_peer_id example_state, config_cluster_id = joining_cluster, config_addr = [], bootstrap_servers = []\<rparr>"

lemmas joining_defs = joining_result_def joining_env_def joining_manager_def cluster_gossip_at_def
  NetworkManager_new_def manager_start_def update_global_state_after_startup_def setup_pubsub_subscriptions_def
  GossipProtocolExecutor_new_def example_state_def initialize_global_state_def PeerIndex_new_def

lemma joining_starts:
  "fst joining_result = Returns (Ok (NetworkManagerExecutor_new (local_peer_id example_state) [7]
     ((quiet_swarm 1)\<lparr>topics := [get_management_topic joining_cluster, ORDER_BOOK_TOPIC]\<rparr>)
     \<lparr>queued = [], receiver_alive = True\<rparr> \<lparr>queued = [], receiver_alive = True\<rparr>))"
  "peer_map (peer_index (manager_state (snd joining_result))) (local_peer_id example_state)
     = Some (PeerInfo_new 3 (local_peer_id example_state) joining_cluster [9]
         ([7] @ [of_nat (length (peer_bytes (local_peer_id example_state)))]))"
  by (simp_all add: joining_defs example_network_defs Let_def new_with_cluster_secret_key_def example_crypto_def
      add_single_peer_def add_peers_def add_known_peer_def add_peer_map verify_cluster_auth_sig_def PeerInfo_new_def
      successful_heartbeat_def get_public_key_def joining_cluster_def ClusterId_new_def)


end
