(* ===== verification/Proof_Manager.thy ===== *)
theory Proof_Manager
  imports Encumber Relayer_State
begin

section \<open>The proof manager\<close>

text \<open>
  The worker of \<open>core/src/proof_generation\<close>: it takes proof jobs off its queue one at a time,
  builds the statement of the proof where the job has none, and answers on the job's response
  channel. The prover is a parameter. A response channel is used once; it is named by a number,
  and its state is what its receiver finds.
\<close>

record ValidWalletCreateBundle =
  create_commitment :: bytes
  create_statement :: scalar
  create_proof :: bytes

record ValidMatchEncryptBundle =
  encrypt_commitment :: bytes
  encrypt_statement :: ValidMatchEncryptionStatement
  encrypt_proof :: bytes

datatype ProofBundle =
    ProvedWalletCreate ValidWalletCreateBundle
  | ProvedCommitments ValidCommitmentsBundle
  | ProvedMatchEncryption ValidMatchEncryptBundle

text \<open>The cast of a bundle to the type the caller expects panics on any other.\<close>

fun ValidCommitmentsBundle_from :: "ProofBundle \<Rightarrow> ValidCommitmentsBundle call" where
  "ValidCommitmentsBundle_from (ProvedCommitments b) = Returns b"
| "ValidCommitmentsBundle_from _ = Panics"

datatype ProofJob =
    ProveWalletCreate "Fee list" KeyChain scalar
  | ProveCommitments CommitmentsWitness ValidCommitmentsStatement
  | ProveMatchEncrypt ValidMatchEncryptionWitness ValidMatchEncryptionStatement

record ProofManagerJob =
  job_type :: ProofJob
  response_channel :: nat

datatype ProofManagerError =
    ManagerCancelled string
  | JobQueueClosed string
  | Prover string
  | RecvError string
  | Response string
  | ManagerSetup string

definition ERR_SENDING_RESPONSE :: string where
  "ERR_SENDING_RESPONSE = ''error sending proof response, channel closed''"

datatype reply = Pending | Answered ProofBundle | SenderDropped

record response_channels =
  replies :: "nat \<Rightarrow> reply"
  receivers_dropped :: "nat set"

text \<open>
  The prover for each circuit: from the witness and the statement a commitment to the witness
  and a proof.
\<close>

record prover =
  prove_create :: "Fee list \<Rightarrow> KeyChain \<Rightarrow> scalar \<Rightarrow> scalar \<Rightarrow> (bytes \<times> bytes, string) Result"
  prove_commit :: "CommitmentsWitness \<Rightarrow> ValidCommitmentsStatement \<Rightarrow> (bytes \<times> bytes, string) Result"
  prove_encrypt :: "ValidMatchEncryptionWitness \<Rightarrow> ValidMatchEncryptionStatement \<Rightarrow> (bytes \<times> bytes, string) Result"

subsection \<open>Jobs\<close>

definition prove_valid_wallet_create ::
  "prover \<Rightarrow> sponge_env \<Rightarrow> Fee list \<Rightarrow> KeyChain \<Rightarrow> scalar \<Rightarrow> (ValidWalletCreateBundle, ProofManagerError) Result call" where
  "prove_valid_wallet_create pv env fees keys r =
     (if length fees \<noteq> MAX_FEES then Panics
      else let empty_wallet = \<lparr>circuit_balances = replicate MAX_BALANCES Balance_default,
                 circuit_orders = replicate MAX_ORDERS Order_default, circuit_fees = fees, circuit_keys = keys, circuit_randomness = r\<rparr>;
               st = prime_field_to_scalar (compute_wallet_commitment env empty_wallet)
      in Returns (case prove_create pv fees keys r st of
           Ok (c, pf) \<Rightarrow> Ok \<lparr>create_commitment = c, create_statement = st, create_proof = pf\<rparr>
         | Err e \<Rightarrow> Err (Prover e)))"

definition prove_valid_commitments ::
  "prover \<Rightarrow> CommitmentsWitness \<Rightarrow> ValidCommitmentsStatement \<Rightarrow> (ValidCommitmentsBundle, ProofManagerError) Result" where
  "prove_valid_commitments pv w st =
     (case prove_commit pv w st of
        Ok (c, pf) \<Rightarrow> Ok \<lparr>commitment = c, statement = st, proof_bytes = pf\<rparr>
      | Err e \<Rightarrow> Err (Prover e))"

definition prove_valid_match_encrypt ::
  "prover \<Rightarrow> ValidMatchEncryptionStatement \<Rightarrow> ValidMatchEncryptionWitness \<Rightarrow> (ValidMatchEncryptBundle, ProofManagerError) Result" where
  "prove_valid_match_encrypt pv st w =
     (case prove_encrypt pv w st of
        Ok (c, pf) \<Rightarrow> Ok \<lparr>encrypt_commitment = c, encrypt_statement = st, encrypt_proof = pf\<rparr>
      | Err e \<Rightarrow> Err (Prover e))"

fun prove_job :: "prover \<Rightarrow> sponge_env \<Rightarrow> ProofJob \<Rightarrow> (ProofBundle, ProofManagerError) Result call" where
  "prove_job pv env (ProveWalletCreate fees keys r) =
     bind_call (prove_valid_wallet_create pv env fees keys r) (\<lambda>b. Returns (case b of Ok b \<Rightarrow> Ok (ProvedWalletCreate b) | Err e \<Rightarrow> Err e))"
| "prove_job pv env (ProveCommitments w st) =
     Returns (case prove_valid_commitments pv w st of Ok b \<Rightarrow> Ok (ProvedCommitments b) | Err e \<Rightarrow> Err e)"
| "prove_job pv env (ProveMatchEncrypt w st) =
     Returns (case prove_valid_match_encrypt pv st w of Ok b \<Rightarrow> Ok (ProvedMatchEncryption b) | Err e \<Rightarrow> Err e)"

definition handle_proof_job ::
  "prover \<Rightarrow> sponge_env \<Rightarrow> ProofManagerJob \<Rightarrow> response_channels \<Rightarrow> (unit, ProofManagerError) Result call \<times> response_channels" where
  "handle_proof_job pv env job ch = (let i = response_channel job; answer = (\<lambda>r. ch\<lparr>replies := (replies ch)(i := r)\<rparr>) in
     case prove_job pv env (job_type job) of
       Returns (Ok b) \<Rightarrow>
         if i \<in> receivers_dropped ch then (Returns (Err (Response ERR_SENDING_RESPONSE)), answer SenderDropped)
         else (Returns (Ok ()), answer (Answered b))
     | Returns (Err e) \<Rightarrow> (Returns (Err e), answer SenderDropped)
     | Panics \<Rightarrow> (Panics, answer SenderDropped)
     | Blocks \<Rightarrow> (Blocks, ch))"

text \<open>
  One turn of the execution loop takes what the cancel channel and the job queue have for it. A
  job that fails is reported and the loop goes on; the pool runs a job while the loop waits and
  passes a panic of the job on to it.
\<close>

record manager_turn =
  cancelled :: "(bool, string) Result"
  next_job :: "(ProofManagerJob, string) Result"

datatype manager_end = StillRunning | Ended ProofManagerError | ManagerCrashed | Stuck

fun execution_loop :: "prover \<Rightarrow> sponge_env \<Rightarrow> manager_turn list \<Rightarrow> response_channels \<Rightarrow> manager_end \<times> response_channels" where
  "execution_loop pv env [] ch = (StillRunning, ch)"
| "execution_loop pv env (t # ts) ch =
     (case cancelled t of
        Err e \<Rightarrow> (Ended (RecvError e), ch)
      | Ok True \<Rightarrow> (Ended (ManagerCancelled ''received cancel signal''), ch)
      | Ok False \<Rightarrow>
          (case next_job t of
             Err e \<Rightarrow> (Ended (JobQueueClosed e), ch)
           | Ok job \<Rightarrow>
               (case handle_proof_job pv env job ch of
                  (Returns _, ch') \<Rightarrow> execution_loop pv env ts ch'
                | (Panics, ch') \<Rightarrow> (ManagerCrashed, ch')
                | (Blocks, ch') \<Rightarrow> (Stuck, ch'))))"

subsection \<open>What the manager promises\<close>

text \<open>A job the prover can be called on, and what its response channel holds afterwards.\<close>

fun sized_job :: "ProofJob \<Rightarrow> bool" where
  "sized_job (ProveWalletCreate fees keys r) \<longleftrightarrow> length fees = MAX_FEES"
| "sized_job _ \<longleftrightarrow> True"

fun reply_of :: "(ProofBundle, ProofManagerError) Result call \<Rightarrow> reply" where
  "reply_of (Returns (Ok b)) = Answered b"
| "reply_of _ = SenderDropped"

definition job_turns :: "ProofManagerJob list \<Rightarrow> manager_turn list" where
  "job_turns js = map (\<lambda>j. \<lparr>cancelled = Ok False, next_job = Ok j\<rparr>) js"

lemma prove_job_panics: "prove_job pv env j = Panics \<longleftrightarrow> \<not> sized_job j" "prove_job pv env j \<noteq> Blocks"
  by (cases j; auto simp: prove_valid_wallet_create_def Let_def split: Result.splits)+

lemma handle_proof_job_sized:
  assumes "sized_job (job_type j)" "response_channel j \<notin> receivers_dropped ch"
  obtains r where "handle_proof_job pv env j ch = (Returns r, ch\<lparr>replies := (replies ch)(response_channel j := reply_of (prove_job pv env (job_type j)))\<rparr>)"
  using assms prove_job_panics [of pv env "job_type j"] that
  by (cases "prove_job pv env (job_type j)" rule: outcome_cases) (auto simp: handle_proof_job_def Let_def)

lemma execution_loop_jobs:
  assumes "distinct (map response_channel js)" "response_channel ` set js \<inter> receivers_dropped ch = {}"
  shows "fst (execution_loop pv env (job_turns js) ch) = (if \<forall>j\<in>set js. sized_job (job_type j) then StillRunning else ManagerCrashed)
    \<and> ((\<forall>j\<in>set js. sized_job (job_type j)) \<longrightarrow> (\<forall>i. replies (snd (execution_loop pv env (job_turns js) ch)) i
        = (case map_of (map (\<lambda>j. (response_channel j, reply_of (prove_job pv env (job_type j)))) js) i of Some r \<Rightarrow> r | None \<Rightarrow> replies ch i)))"
  using assms
proof (induction js arbitrary: ch)
  case (Cons j js)
  show ?case
  proof (cases "sized_job (job_type j)")
    case True
    obtain r where h: "handle_proof_job pv env j ch = (Returns r, ch\<lparr>replies := (replies ch)(response_channel j := reply_of (prove_job pv env (job_type j)))\<rparr>)"
      by (rule handle_proof_job_sized [OF True, of ch pv env]) (use Cons.prems(2) in auto)
    have "map_of (map (\<lambda>j. (response_channel j, reply_of (prove_job pv env (job_type j)))) js) (response_channel j) = None"
      using Cons.prems(1) by (auto simp: map_of_eq_None_iff image_iff)
    then show ?thesis
      using True h Cons.prems Cons.IH [of "ch\<lparr>replies := (replies ch)(response_channel j := reply_of (prove_job pv env (job_type j)))\<rparr>"]
      by (auto simp: job_turns_def split: option.splits)
  next
    case False
    then have "prove_job pv env (job_type j) = Panics"
      using prove_job_panics by blast
    then show ?thesis
      using False by (auto simp: job_turns_def handle_proof_job_def Let_def)
  qed
qed (simp add: job_turns_def)

text \<open>
  C40: jobs are answered one by one: as long as nothing cancels the manager, a run over jobs with
  their own response channels goes on past prover errors, and every channel holds the bundle of
  its job or tells its receiver that there will be none. The manager's thread dies exactly when
  a job asks for a new wallet with another number of fees than the wallet holds.\<close>

theorem proof_jobs_answered:
  assumes "distinct (map response_channel js)" "response_channel ` set js \<inter> receivers_dropped ch = {}"
  shows "(fst (execution_loop pv env (job_turns js) ch) = ManagerCrashed \<longleftrightarrow> (\<exists>fees keys r. ProveWalletCreate fees keys r \<in> job_type ` set js \<and> length fees \<noteq> MAX_FEES))
    \<and> (fst (execution_loop pv env (job_turns js) ch) = StillRunning \<longrightarrow>
        (\<forall>j\<in>set js. replies (snd (execution_loop pv env (job_turns js) ch)) (response_channel j) = reply_of (prove_job pv env (job_type j))))"
proof -
  note loop = execution_loop_jobs [OF assms, of pv env]
  have bad: "(\<exists>fees keys r. ProveWalletCreate fees keys r \<in> job_type ` set js \<and> length fees \<noteq> MAX_FEES) \<longleftrightarrow> \<not> (\<forall>j\<in>set js. sized_job (job_type j))"
  proof
    assume "\<not> (\<forall>j\<in>set js. sized_job (job_type j))"
    then obtain j where j: "j \<in> set js" "\<not> sized_job (job_type j)"
      by blast
    then obtain fees keys r where "job_type j = ProveWalletCreate fees keys r" "length fees \<noteq> MAX_FEES"
      by (cases "job_type j") auto
    with j(1) show "\<exists>fees keys r. ProveWalletCreate fees keys r \<in> job_type ` set js \<and> length fees \<noteq> MAX_FEES"
      by (metis imageI)
  next
    assume "\<exists>fees keys r. ProveWalletCreate fees keys r \<in> job_type ` set js \<and> length fees \<noteq> MAX_FEES"
    then show "\<not> (\<forall>j\<in>set js. sized_job (job_type j))"
      by (metis imageE sized_job.simps(1))
  qed
  have found: "map_of (map (\<lambda>j. (response_channel j, reply_of (prove_job pv env (job_type j)))) js) (response_channel j) = Some (reply_of (prove_job pv env (job_type j)))"
    if "j \<in> set js" for j
    using assms(1) that by (intro map_of_is_SomeI) (auto simp: comp_def)
  show ?thesis
    unfolding bad using loop found by (auto split: if_splits)
qed

definition example_prover :: prover where
  "example_prover = \<lparr>prove_create = \<lambda>_ _ _ _. Ok ([1], [2]), prove_commit = \<lambda>_ _. Err ''unsatisfied'', prove_encrypt = \<lambda>_ _. Err ''unsatisfied''\<rparr>"

theorem proof_jobs_answered_witness:
  "fst (execution_loop example_prover low_env (job_turns [\<lparr>job_type = ProveCommitments [] \<lparr>nullifier = 1, merkle_root = 2, stmt_pk_settle = 3\<rparr>, response_channel = 0\<rparr>,
      \<lparr>job_type = ProveWalletCreate [] \<lparr>pk_root = 1, pk_match = 2, pk_settle = 3, pk_view = 4\<rparr> 5, response_channel = 1\<rparr>]) \<lparr>replies = \<lambda>_. Pending, receivers_dropped = {}\<rparr>) = ManagerCrashed"
  using proof_jobs_answered [of "[\<lparr>job_type = ProveCommitments [] \<lparr>nullifier = 1, merkle_root = 2, stmt_pk_settle = 3\<rparr>, response_channel = 0\<rparr>,
      \<lparr>job_type = ProveWalletCreate [] \<lparr>pk_root = 1, pk_match = 2, pk_settle = 3, pk_view = 4\<rparr> 5, response_channel = 1\<rparr>]"
      "\<lparr>replies = \<lambda>_. Pending, receivers_dropped = {}\<rparr>" example_prover low_env]
  by (auto simp: MAX_FEES_def)

end
