(* ===== verification/Chain_Events.thy ===== *)
theory Chain_Events
  imports Handshake_Manager Proof_Manager
begin

section \<open>The on-chain event listener\<close>

text \<open>
  The worker of \<open>core/src/chain_events\<close>: it pages through the events of the contract, shoots down
  handshakes and cancels orders whose nullifier is spent, keeps the Merkle paths of the wallets
  at the newest root and has the validity proofs of a wallet's orders renewed. The JSON-RPC
  client and the state of the chain behind it are parameters. A task that a handler spawns is
  kept in a list until it runs; the loops over pages take the number of pages they may fetch.
\<close>

datatype OnChainEventListenerError =
    ProofGeneration string
  | Rpc string
  | SendMessage string
  | ListenerSetup string

definition EVENT_CHUNK_SIZE :: u64 where
  "EVENT_CHUNK_SIZE = 100"

text \<open>Page tokens are decimal numbers, printed and parsed as the standard library does.\<close>

fun nat_to_string :: "nat \<Rightarrow> string" where
  "nat_to_string n = (if n < 10 then [char_of (48 + n)] else nat_to_string (n div 10) @ [char_of (48 + n mod 10)])"

declare nat_to_string.simps [simp del]

definition u64_to_string :: "u64 \<Rightarrow> string" where
  "u64_to_string n = nat_to_string (unat n)"

fun parse_digits :: "nat \<Rightarrow> string \<Rightarrow> nat option" where
  "parse_digits acc [] = Some acc"
| "parse_digits acc (c # cs) = (let d = of_char c :: nat in
     if 48 \<le> d \<and> d < 58 then parse_digits (10 * acc + (d - 48)) cs else None)"

definition u64_from_str :: "string \<Rightarrow> u64 option" where
  "u64_from_str s = (let ds = (case s of c # cs \<Rightarrow> if c = CHR ''+'' then cs else s | [] \<Rightarrow> []) in
     if ds = [] then None
     else case parse_digits 0 ds of None \<Rightarrow> None | Some n \<Rightarrow> if n < 2 ^ 64 then Some (of_nat n) else None)"

text \<open>The interface of the JSON-RPC client.\<close>

record EmittedEvent =
  event_keys :: "nat list"
  event_data :: "nat list"
  event_block :: u64

record event_filter =
  from_block :: u64
  filter_keys :: "nat list option"

record events_page =
  page_events :: "EmittedEvent list"
  continuation_token :: "string option"

datatype rpc_error = InvalidContinuationToken | RpcFailure string

record 'w chain_env =
  block_number :: "'w \<Rightarrow> (u64, string) Result \<times> 'w"
  get_events :: "event_filter \<Rightarrow> string option \<Rightarrow> u64 \<Rightarrow> 'w \<Rightarrow> (events_page, rpc_error) Result \<times> 'w"
  get_selector_from_name :: "string \<Rightarrow> nat"
  with_wallet_opening :: "MerkleOpening \<Rightarrow> CommitmentsWitness \<Rightarrow> CommitmentsWitness"
  c_sponge :: sponge_env
  iter_wallets :: "WalletIdentifier set \<Rightarrow> WalletIdentifier list"
  iter_orders :: "OrderIdentifier set \<Rightarrow> OrderIdentifier list"
  iter_balances :: "nat set \<Rightarrow> nat list"

definition MERKLE_ROOT_CHANGED_EVENT_SELECTOR :: "'w chain_env \<Rightarrow> nat" where
  "MERKLE_ROOT_CHANGED_EVENT_SELECTOR env = get_selector_from_name env ''Merkle_root_changed''"

definition MERKLE_NODE_CHANGED_EVENT_SELECTOR :: "'w chain_env \<Rightarrow> nat" where
  "MERKLE_NODE_CHANGED_EVENT_SELECTOR env = get_selector_from_name env ''Merkle_internal_node_changed''"

definition NULLIFIER_SPENT_EVENT_SELECTOR :: "'w chain_env \<Rightarrow> nat" where
  "NULLIFIER_SPENT_EVENT_SELECTOR env = get_selector_from_name env ''Nullifier_spent''"

record 'w OnChainEventListenerExecutor =
  start_block :: u64
  merkle_last_consistent_block :: u64
  pagination_token :: u64
  listener_state :: RelayerState
  handshake_manager_job_queue :: "HandshakeExecutionJob channel"
  proof_generation_work_queue :: "ProofManagerJob channel"
  network_manager_work_queue :: "GossipOutbound channel"
  chain :: 'w
  spawned_updates :: "Wallet list"
  next_response :: nat

type_synonym ('a, 'w) chain_handler =
  "'w OnChainEventListenerExecutor \<Rightarrow> ('a, OnChainEventListenerError) Result call \<times> 'w OnChainEventListenerExecutor"

definition OnChainEventListenerExecutor_new ::
  "RelayerState \<Rightarrow> HandshakeExecutionJob channel \<Rightarrow> ProofManagerJob channel \<Rightarrow> GossipOutbound channel \<Rightarrow> 'w
    \<Rightarrow> 'w OnChainEventListenerExecutor" where
  "OnChainEventListenerExecutor_new st hq pq nq w =
     \<lparr>start_block = 0, merkle_last_consistent_block = 0, pagination_token = 0, listener_state = st,
      handshake_manager_job_queue = hq, proof_generation_work_queue = pq, network_manager_work_queue = nq,
      chain = w, spawned_updates = [], next_response = 0\<rparr>"

subsection \<open>Spent nullifiers\<close>

definition handle_nullifier_spent :: "'w chain_env \<Rightarrow> scalar \<Rightarrow> (unit, 'w) chain_handler" where
  "handle_nullifier_spent env n ex =
     (case send (MpcShootdown n) (handshake_manager_job_queue ex) of
        None \<Rightarrow> (Returns (Err (SendMessage ''channel closed'')), ex)
      | Some q \<Rightarrow> (Returns (Ok ()), ex\<lparr>handshake_manager_job_queue := q,
            listener_state := nullify_orders (iter_orders env) n (listener_state ex)\<rparr>))"

subsection \<open>New Merkle roots\<close>

text \<open>Reads past the end of an event's data panic.\<close>

fun record_node_changes :: "EmittedEvent list \<Rightarrow> (MerkleTreeCoords \<rightharpoonup> scalar) \<Rightarrow> (MerkleTreeCoords \<rightharpoonup> scalar) call" where
  "record_node_changes [] changes = Returns changes"
| "record_node_changes (e # es) changes =
     (if length (event_data e) < 3 then Panics
      else let height = unat (starknet_felt_to_u64 (event_data e ! 0)); index = starknet_felt_to_biguint (event_data e ! 1);
               new_value = starknet_felt_to_scalar (event_data e ! 2)
      in record_node_changes es (changes((height, index) \<mapsto> new_value)))"

fun fetch_node_changes ::
  "nat \<Rightarrow> 'w chain_env \<Rightarrow> event_filter \<Rightarrow> string \<Rightarrow> (MerkleTreeCoords \<rightharpoonup> scalar) \<Rightarrow> (MerkleTreeCoords \<rightharpoonup> scalar, 'w) chain_handler" where
  "fetch_node_changes 0 env flt token changes ex = (Blocks, ex)"
| "fetch_node_changes (Suc pages) env flt token changes ex =
     (case get_events env flt (Some token) 100 (chain ex) of
        (Err InvalidContinuationToken, w) \<Rightarrow> (Returns (Err (Rpc ''invalid continuation token'')), ex\<lparr>chain := w\<rparr>)
      | (Err (RpcFailure e), w) \<Rightarrow> (Returns (Err (Rpc e)), ex\<lparr>chain := w\<rparr>)
      | (Ok batch, w) \<Rightarrow>
          (case record_node_changes (page_events batch) changes of
             Returns changes' \<Rightarrow>
               (case continuation_token batch of
                  None \<Rightarrow> (Returns (Ok changes'), ex\<lparr>chain := w\<rparr>)
                | Some t \<Rightarrow> fetch_node_changes pages env flt t changes' (ex\<lparr>chain := w\<rparr>))
           | _ \<Rightarrow> (Panics, ex\<lparr>chain := w\<rparr>)))"

definition update_wallet_merkle_path ::
  "(MerkleTreeCoords \<rightharpoonup> scalar) \<Rightarrow> MerkleAuthenticationPath \<Rightarrow> MerkleAuthenticationPath" where
  "update_wallet_merkle_path updated_nodes p =
     fold (\<lambda>(i, coord) p. case updated_nodes coord of
         Some updated_value \<Rightarrow> p\<lparr>path_siblings := (path_siblings p)[i := updated_value]\<rparr>
       | None \<Rightarrow> p) (enumerate 0 (compute_authentication_path_coords p)) p"

fun sync_wallets :: "(MerkleTreeCoords \<rightharpoonup> scalar) \<Rightarrow> WalletIdentifier list \<Rightarrow> (unit, 'w) chain_handler" where
  "sync_wallets changes [] ex = (Returns (Ok ()), ex)"
| "sync_wallets changes (wid # wids) ex =
     (case get_wallet wid (wallet_index (listener_state ex)) of
        None \<Rightarrow> (Panics, ex)
      | Some w \<Rightarrow>
          (case merkle_proof w of
             None \<Rightarrow> sync_wallets changes wids ex
           | Some p \<Rightarrow>
               let w' = w\<lparr>proof_staleness := proof_staleness w + 1, merkle_proof := Some (update_wallet_merkle_path changes p)\<rparr>;
                   st = listener_state ex
               in sync_wallets changes wids (ex\<lparr>
                    listener_state := st\<lparr>wallet_index := Wallets.update_wallet wid (\<lambda>_. w') (wallet_index st)\<rparr>,
                    spawned_updates := spawned_updates ex @ (if needs_new_commitment_proof w' then [w'] else [])\<rparr>)))"

definition handle_root_changed :: "nat \<Rightarrow> 'w chain_env \<Rightarrow> u64 \<Rightarrow> (unit, 'w) chain_handler" where
  "handle_root_changed pages env block ex =
     and_then (fetch_node_changes pages env \<lparr>from_block = block, filter_keys = Some [MERKLE_NODE_CHANGED_EVENT_SELECTOR env]\<rparr> ''0'' Map.empty ex)
       (\<lambda>changes ex. sync_wallets changes (get_all_wallet_ids (iter_wallets env) (wallet_index (listener_state ex))) ex)"

subsection \<open>Events\<close>

definition handle_contract_event :: "nat \<Rightarrow> 'w chain_env \<Rightarrow> EmittedEvent \<Rightarrow> (unit, 'w) chain_handler" where
  "handle_contract_event pages env e ex =
     (case event_keys e of
        [] \<Rightarrow> (Panics, ex)
      | key # _ \<Rightarrow>
          if key = MERKLE_ROOT_CHANGED_EVENT_SELECTOR env then
            (if event_block e \<le> merkle_last_consistent_block ex then (Returns (Ok ()), ex)
             else and_then (handle_root_changed pages env (event_block e) ex)
               (\<lambda>_ ex. (Returns (Ok ()), ex\<lparr>merkle_last_consistent_block := event_block e\<rparr>)))
          else if key = NULLIFIER_SPENT_EVENT_SELECTOR env then
            (case event_data e of
               [] \<Rightarrow> (Panics, ex)
             | d # _ \<Rightarrow> handle_nullifier_spent env (starknet_felt_to_scalar d) ex)
          else (Returns (Ok ()), ex))"

text \<open>A page is requested with the token as it is, and the token moves when the response arrives.\<close>

definition request_events_page :: "'w chain_env \<Rightarrow> 'w OnChainEventListenerExecutor \<Rightarrow> (events_page, rpc_error) Result \<times> 'w" where
  "request_events_page env ex =
     get_events env \<lparr>from_block = start_block ex, filter_keys = None\<rparr> (Some (u64_to_string (pagination_token ex))) EVENT_CHUNK_SIZE (chain ex)"

definition receive_events_page :: "(events_page, rpc_error) Result \<Rightarrow> (EmittedEvent list \<times> bool, 'w) chain_handler" where
  "receive_events_page response ex =
     (case response of
        Err InvalidContinuationToken \<Rightarrow> (Returns (Ok ([], False)), ex)
      | Err (RpcFailure e) \<Rightarrow> (Returns (Err (Rpc e)), ex)
      | Ok resp \<Rightarrow>
          (case continuation_token resp of
             Some token \<Rightarrow>
               (case u64_from_str token of
                  None \<Rightarrow> (Panics, ex)
                | Some parsed_token \<Rightarrow> (Returns (Ok (page_events resp, True)), ex\<lparr>pagination_token := parsed_token\<rparr>))
           | None \<Rightarrow>
               (Returns (Ok (page_events resp, False)),
                ex\<lparr>pagination_token := pagination_token ex + of_nat (length (page_events resp))\<rparr>)))"

definition fetch_next_events_page :: "'w chain_env \<Rightarrow> (EmittedEvent list \<times> bool, 'w) chain_handler" where
  "fetch_next_events_page env ex =
     (case request_events_page env ex of (response, w) \<Rightarrow> receive_events_page response (ex\<lparr>chain := w\<rparr>))"

fun handle_events :: "nat \<Rightarrow> 'w chain_env \<Rightarrow> EmittedEvent list \<Rightarrow> (unit, 'w) chain_handler" where
  "handle_events pages env [] ex = (Returns (Ok ()), ex)"
| "handle_events pages env (e # es) ex = and_then (handle_contract_event pages env e ex) (\<lambda>_. handle_events pages env es)"

fun poll_contract_events :: "nat \<Rightarrow> nat \<Rightarrow> 'w chain_env \<Rightarrow> (unit, 'w) chain_handler" where
  "poll_contract_events pages 0 env ex = (Blocks, ex)"
| "poll_contract_events pages (Suc n) env ex =
     and_then (fetch_next_events_page env ex) (\<lambda>(events, more_pages) ex.
     and_then (handle_events pages env events ex) (\<lambda>_ ex.
     if more_pages then poll_contract_events pages n env ex else (Returns (Ok ()), ex)))"

text \<open>The start of the execution loop, which then polls at a fixed interval.\<close>

definition start_listening :: "'w chain_env \<Rightarrow> (unit, 'w) chain_handler" where
  "start_listening env ex =
     (case block_number env (chain ex) of
        (Err e, w) \<Rightarrow> (Returns (Err (Rpc e)), ex\<lparr>chain := w\<rparr>)
      | (Ok n, w) \<Rightarrow> (Returns (Ok ()), ex\<lparr>chain := w, start_block := n, merkle_last_consistent_block := n\<rparr>))"

text \<open>
  The execution loop does not wait for a poll: at each interval it spawns a task on a clone that
  shares the token. A task gives way to the others while it waits for a page and between events;
  an error or a panic ends the task only.
\<close>

datatype poll_task =
    Requesting
  | Responded "(events_page, rpc_error) Result"
  | Handling "EmittedEvent list" bool
  | PollDone

fun task_turn :: "nat \<Rightarrow> 'w chain_env \<Rightarrow> poll_task \<Rightarrow> 'w OnChainEventListenerExecutor \<Rightarrow> poll_task \<times> 'w OnChainEventListenerExecutor" where
  "task_turn pages env Requesting ex = (case request_events_page env ex of (response, w) \<Rightarrow> (Responded response, ex\<lparr>chain := w\<rparr>))"
| "task_turn pages env (Responded response) ex =
     (case receive_events_page response ex of
        (Returns (Ok (events, more_pages)), ex') \<Rightarrow> (Handling events more_pages, ex')
      | (_, ex') \<Rightarrow> (PollDone, ex'))"
| "task_turn pages env (Handling [] more_pages) ex = (if more_pages then Requesting else PollDone, ex)"
| "task_turn pages env (Handling (e # es) more_pages) ex =
     (case handle_contract_event pages env e ex of
        (Returns (Ok _), ex') \<Rightarrow> (Handling es more_pages, ex')
      | (_, ex') \<Rightarrow> (PollDone, ex'))"
| "task_turn pages env PollDone ex = (PollDone, ex)"

inductive listens ::
  "nat \<Rightarrow> 'w chain_env \<Rightarrow> 'w OnChainEventListenerExecutor \<times> poll_task list \<Rightarrow> 'w OnChainEventListenerExecutor \<times> poll_task list \<Rightarrow> bool"
  for pages env where
  spawn_poll: "listens pages env (ex, ts) (ex, ts @ [Requesting])"
| poll_turn: "i < length ts \<Longrightarrow> task_turn pages env (ts ! i) ex = (t, ex') \<Longrightarrow> listens pages env (ex, ts) (ex', ts[i := t])"

subsection \<open>Renewed validity proofs\<close>

text \<open>
  The proofs of a wallet's orders are asked for one by one; an order without a witness ends the
  task, which drops the channels of the jobs asked for so far.
\<close>

fun enqueue_proof_jobs ::
  "'w chain_env \<Rightarrow> Wallet \<Rightarrow> MerkleAuthenticationPath \<Rightarrow> OrderIdentifier list \<Rightarrow> (OrderIdentifier \<rightharpoonup> nat)
    \<Rightarrow> ((OrderIdentifier \<rightharpoonup> nat) option, 'w) chain_handler" where
  "enqueue_proof_jobs env w p [] pending ex = (Returns (Ok (Some pending)), ex)"
| "enqueue_proof_jobs env w p (oid # oids) pending ex =
     (case get_validity_proof_witness oid (order_book (listener_state ex)) of
        None \<Rightarrow> (Returns (Ok None), ex)
      | Some stale_witness \<Rightarrow>
          let job = ProveCommitments (with_wallet_opening env (MerkleOpening_from p) stale_witness)
                \<lparr>nullifier = wallet_match_nullifier (c_sponge env) (iter_balances env) (iter_orders env) w,
                 merkle_root = compute_root (c_sponge env) p, stmt_pk_settle = pk_settle (public_keys w)\<rparr>
          in (case send \<lparr>job_type = job, response_channel = next_response ex\<rparr> (proof_generation_work_queue ex) of
                None \<Rightarrow> (Returns (Err (SendMessage ''channel closed'')), ex)
              | Some q \<Rightarrow> enqueue_proof_jobs env w p oids (pending(oid \<mapsto> next_response ex))
                  (ex\<lparr>proof_generation_work_queue := q, next_response := next_response ex + 1\<rparr>)))"

definition update_order_proof :: "OrderIdentifier \<Rightarrow> ValidCommitmentsBundle \<Rightarrow> (unit, 'w) chain_handler" where
  "update_order_proof oid proof ex =
     (let st = add_order_validity_proof oid proof (listener_state ex); ex' = ex\<lparr>listener_state := st\<rparr>
      in case send (OutPubsub ORDER_BOOK_TOPIC (OrderBookManagement (OrderProofUpdated oid (local_cluster_id st) proof))) (network_manager_work_queue ex) of
           None \<Rightarrow> (Returns (Err (SendMessage ''channel closed'')), ex')
         | Some q \<Rightarrow> (Returns (Ok ()), ex'\<lparr>network_manager_work_queue := q\<rparr>))"

fun await_proofs :: "(nat \<Rightarrow> reply) \<Rightarrow> (OrderIdentifier \<times> nat) list \<Rightarrow> (unit, 'w) chain_handler" where
  "await_proofs responses [] ex = (Returns (Ok ()), ex)"
| "await_proofs responses ((oid, i) # rest) ex =
     (case responses i of
        Pending \<Rightarrow> (Blocks, ex)
      | SenderDropped \<Rightarrow> (Returns (Err (ProofGeneration ''channel closed'')), ex)
      | Answered b \<Rightarrow>
          (case ValidCommitmentsBundle_from b of
             Returns proof \<Rightarrow> and_then (update_order_proof oid proof ex) (\<lambda>_. await_proofs responses rest)
           | _ \<Rightarrow> (Panics, ex)))"

definition update_wallet_commitment_proofs ::
  "'w chain_env \<Rightarrow> (nat \<Rightarrow> reply) \<Rightarrow> Wallet \<Rightarrow> (unit, 'w) chain_handler" where
  "update_wallet_commitment_proofs env responses w ex =
     (case merkle_proof w of
        None \<Rightarrow> (Returns (Ok ()), ex)
      | Some p \<Rightarrow>
          and_then (enqueue_proof_jobs env w p (iter_orders env (dom (wallet_orders w))) Map.empty ex) (\<lambda>pending ex.
            case pending of
              None \<Rightarrow> (Returns (Ok ()), ex)
            | Some m \<Rightarrow> await_proofs responses (map (\<lambda>oid. (oid, the (m oid))) (iter_orders env (dom m))) ex))"

subsection \<open>Page tokens\<close>

lemma parse_digits_append:
  "parse_digits acc (xs @ ys) = (case parse_digits acc xs of None \<Rightarrow> None | Some a \<Rightarrow> parse_digits a ys)"
  by (induction xs arbitrary: acc) (auto simp: Let_def)

lemma of_digit: "n < 10 \<Longrightarrow> of_char (char_of (48 + n) :: char) = 48 + (n :: nat)"
  by (simp add: of_char_of)

lemma parse_nat_to_string: "parse_digits 0 (nat_to_string n) = Some n"
proof (induction n rule: nat_to_string.induct)
  case (1 n)
  show ?case
  proof (cases "n < 10")
    case True
    then show ?thesis
      by (subst nat_to_string.simps) (simp add: of_digit Let_def)
  next
    case False
    then have "parse_digits 0 (nat_to_string (n div 10)) = Some (n div 10)"
      by (rule 1)
    then show ?thesis
      using False by (subst nat_to_string.simps) (simp add: parse_digits_append of_digit Let_def)
  qed
qed

lemma nat_to_string_head: "\<exists>c cs. nat_to_string n = c # cs \<and> c \<noteq> CHR ''+''"
proof (induction n rule: nat_to_string.induct)
  case (1 n)
  have "char_of (48 + n) \<noteq> CHR ''+''" if "n < 10"
  proof
    assume "char_of (48 + n) = CHR ''+''"
    then have "(of_char (char_of (48 + n) :: char) :: nat) = 43"
      by (simp only:) simp
    then show False
      using of_digit [OF that] by simp
  qed
  then show ?case
    using 1 by (subst nat_to_string.simps) auto
qed

lemma token_roundtrip [simp]: "u64_from_str (u64_to_string n) = Some n"
proof -
  obtain c cs where "nat_to_string (unat n) = c # cs" "c \<noteq> CHR ''+''"
    using nat_to_string_head by blast
  moreover have "unat n < 2 ^ LENGTH(64)"
    by (rule unsigned_less)
  ultimately show ?thesis
    using parse_nat_to_string [of "unat n"] by (simp add: u64_from_str_def u64_to_string_def)
qed

lemma unat_of_length: "n < 2 ^ 64 \<Longrightarrow> unat (of_nat n :: u64) = n"
  by (simp add: unat_of_nat take_bit_nat_eq_self)

subsection \<open>A log of events\<close>

text \<open>
  What the listener relies on the client for: for each filter the chain has a list of events, a
  token is the number of events to skip, a page holds the next ones up to the chunk size and
  names the next token when more are left.
\<close>

locale event_log =
  fixes env :: "'w chain_env" and log_of :: "event_filter \<Rightarrow> 'w \<Rightarrow> EmittedEvent list"
  assumes get_page: "unat t \<le> length (log_of flt w) \<Longrightarrow> length (log_of flt w) + unat c < 2 ^ 64 \<Longrightarrow>
    get_events env flt (Some (u64_to_string t)) c w = (Ok \<lparr>page_events = take (unat c) (drop (unat t) (log_of flt w)),
      continuation_token = (if unat t + unat c < length (log_of flt w) then Some (u64_to_string (t + c)) else None)\<rparr>, w)"
    and same_chain: "snd (get_events env flt tok c w) = w"

text \<open>A chain that is a list of events.\<close>

definition passes :: "event_filter \<Rightarrow> EmittedEvent \<Rightarrow> bool" where
  "passes flt e \<longleftrightarrow> from_block flt \<le> event_block e \<and> (case filter_keys flt of None \<Rightarrow> True | Some ks \<Rightarrow> take 1 (event_keys e) = ks)"

definition listed_events :: "event_filter \<Rightarrow> string option \<Rightarrow> u64 \<Rightarrow> EmittedEvent list \<Rightarrow> (events_page, rpc_error) Result \<times> EmittedEvent list" where
  "listed_events flt token c w = (let es = filter (passes flt) w in
     case token of None \<Rightarrow> (Err (RpcFailure ''no token''), w) | Some s \<Rightarrow>
     case u64_from_str s of
       None \<Rightarrow> (Err (RpcFailure ''bad token''), w)
     | Some t \<Rightarrow> if length es < unat t then (Err InvalidContinuationToken, w)
         else (Ok \<lparr>page_events = take (unat c) (drop (unat t) es),
           continuation_token = (if unat t + unat c < length es then Some (u64_to_string (t + c)) else None)\<rparr>, w))"

definition list_chain :: "EmittedEvent list chain_env" where
  "list_chain = \<lparr>block_number = \<lambda>w. (Ok 0, w), get_events = listed_events,
     get_selector_from_name = length, with_wallet_opening = \<lambda>_ w. w, c_sponge = low_env,
     iter_wallets = sorted_list_of_set, iter_orders = sorted_list_of_set, iter_balances = sorted_list_of_set\<rparr>"

interpretation list_chain: event_log list_chain "\<lambda>flt. filter (passes flt)"
  by unfold_locales (auto simp: list_chain_def listed_events_def Let_def split: option.splits)

text \<open>Handling an event neither reads nor writes the token of the next page.\<close>

definition token_free :: "('a, 'w) chain_handler \<Rightarrow> bool" where
  "token_free h \<longleftrightarrow> (\<forall>k ex. h (ex\<lparr>pagination_token := k\<rparr>) = apsnd (\<lambda>x. x\<lparr>pagination_token := k\<rparr>) (h ex))"

lemma token_freeD: "token_free h \<Longrightarrow> h ex = (r, ex') \<Longrightarrow> h (ex\<lparr>pagination_token := k\<rparr>) = (r, ex'\<lparr>pagination_token := k\<rparr>)"
  by (simp add: token_free_def)

lemma token_free_and_then:
  assumes "token_free h" "\<And>x. token_free (f x)"
  shows "token_free (\<lambda>ex. and_then (h ex) f)"
  unfolding token_free_def
proof (intro allI)
  fix k ex
  show "and_then (h (ex\<lparr>pagination_token := k\<rparr>)) f = apsnd (\<lambda>x. x\<lparr>pagination_token := k\<rparr>) (and_then (h ex) f)"
    using assms by (cases "h ex"; cases "fst (h ex)" rule: outcome_cases) (auto simp: token_free_def)
qed

lemma fetch_node_changes_token:
  "fetch_node_changes pages env flt t changes (ex\<lparr>pagination_token := k\<rparr>)
    = apsnd (\<lambda>x. x\<lparr>pagination_token := k\<rparr>) (fetch_node_changes pages env flt t changes ex)"
proof (induction pages arbitrary: t changes ex)
  case (Suc pages)
  have swap: "ex\<lparr>pagination_token := k\<rparr>\<lparr>chain := w\<rparr> = ex\<lparr>chain := w\<rparr>\<lparr>pagination_token := k\<rparr>" for w
    by simp
  show ?case
    by (simp only: fetch_node_changes.simps swap Suc) (simp split: prod.splits Result.splits rpc_error.splits call.splits option.splits)
qed simp

lemma sync_wallets_token:
  "sync_wallets changes wids (ex\<lparr>pagination_token := k\<rparr>) = apsnd (\<lambda>x. x\<lparr>pagination_token := k\<rparr>) (sync_wallets changes wids ex)"
proof (induction wids arbitrary: ex)
  case (Cons wid wids)
  have swap: "ex\<lparr>pagination_token := k\<rparr>\<lparr>listener_state := st, spawned_updates := ws\<rparr> = ex\<lparr>listener_state := st, spawned_updates := ws\<rparr>\<lparr>pagination_token := k\<rparr>" for st ws
    by simp
  show ?case
    by (simp only: sync_wallets.simps Let_def swap Cons) (simp add: Cons split: option.splits)
qed simp

lemma token_free_event: "token_free (handle_contract_event pages env e)"
proof -
  have "token_free (\<lambda>ex. sync_wallets changes (get_all_wallet_ids (iter_wallets env) (wallet_index (listener_state ex))) ex)" for changes
    by (simp add: token_free_def sync_wallets_token)
  then have "token_free (handle_root_changed pages env b)" for b
    unfolding handle_root_changed_def by (intro token_free_and_then) (simp_all add: token_free_def fetch_node_changes_token)
  then have "token_free (\<lambda>ex. and_then (handle_root_changed pages env (event_block e) ex)
      (\<lambda>_ ex. (Returns (Ok ()), ex\<lparr>merkle_last_consistent_block := event_block e\<rparr>)))"
    by (rule token_free_and_then) (simp add: token_free_def)
  moreover have "token_free (handle_nullifier_spent env n)" for n
    by (auto simp: token_free_def handle_nullifier_spent_def send_def)
  ultimately show ?thesis
    unfolding token_free_def handle_contract_event_def by (auto split: list.splits)
qed

lemma token_free_events: "token_free (handle_events pages env es)"
proof (induction es)
  case (Cons e es)
  have "token_free (\<lambda>ex. and_then (handle_contract_event pages env e ex) (\<lambda>_. handle_events pages env es))"
    using token_free_event Cons by (rule token_free_and_then)
  then show ?case
    by simp
qed (simp add: token_free_def)

lemma handle_events_append:
  "handle_events pages env (xs @ ys) ex = and_then (handle_events pages env xs ex) (\<lambda>_. handle_events pages env ys)"
proof (induction xs arbitrary: ex)
  case (Cons e xs)
  then show ?case
    by (cases "handle_contract_event pages env e ex"; cases "fst (handle_contract_event pages env e ex)" rule: outcome_cases) auto
qed simp

text \<open>The last value a list of events announces for each node of the tree.\<close>

definition node_change :: "EmittedEvent \<Rightarrow> MerkleTreeCoords \<times> scalar" where
  "node_change e = ((unat (starknet_felt_to_u64 (event_data e ! 0)), starknet_felt_to_biguint (event_data e ! 1)),
    starknet_felt_to_scalar (event_data e ! 2))"

definition announced :: "EmittedEvent list \<Rightarrow> MerkleTreeCoords \<rightharpoonup> scalar" where
  "announced es = map_of (rev (map node_change es))"

lemma announced_append: "announced (xs @ ys) = announced xs ++ announced ys"
  by (simp add: announced_def)

lemma record_announced:
  "\<forall>e\<in>set es. 3 \<le> length (event_data e) \<Longrightarrow> record_node_changes es changes = Returns (changes ++ announced es)"
proof (induction es arbitrary: changes)
  case (Cons e es)
  have "announced (e # es) = [fst (node_change e) \<mapsto> snd (node_change e)] ++ announced es"
    using announced_append [of "[e]" es] by (simp add: announced_def)
  then show ?case
    using Cons by (auto simp: node_change_def Let_def)
qed (simp add: announced_def)

context event_log
begin

lemma page_tokens:
  assumes "unat t + unat c < length (log_of flt w)" "length (log_of flt w) + unat c < 2 ^ 64"
  shows "unat (t + c :: u64) = unat t + unat c"
  using assms by (subst unat_add_lem [THEN iffD1]) auto

lemma fetch_keeps: "chain (snd (fetch_node_changes pages env flt t changes ex)) = chain ex
    \<and> start_block (snd (fetch_node_changes pages env flt t changes ex)) = start_block ex"
proof (induction pages arbitrary: t changes ex)
  case (Suc pages)
  have "snd (get_events env flt (Some t) 100 (chain ex)) = chain ex"
    by (rule same_chain)
  then show ?case
    using Suc by (auto split: prod.splits Result.splits rpc_error.splits call.splits option.splits)
qed simp

lemma sync_keeps: "chain (snd (sync_wallets changes wids ex)) = chain ex \<and> start_block (snd (sync_wallets changes wids ex)) = start_block ex"
  by (induction wids arbitrary: ex) (auto simp: Let_def split: option.splits)

lemma event_keeps: "chain (snd (handle_contract_event pages env e ex)) = chain ex \<and> start_block (snd (handle_contract_event pages env e ex)) = start_block ex"
proof -
  have "chain (snd (handle_root_changed pages env b ex)) = chain ex \<and> start_block (snd (handle_root_changed pages env b ex)) = start_block ex" for b ex
    using fetch_keeps [of pages "\<lparr>from_block = b, filter_keys = Some [MERKLE_NODE_CHANGED_EVENT_SELECTOR env]\<rparr>" "''0''" Map.empty ex]
    unfolding handle_root_changed_def
    by (cases "fetch_node_changes pages env \<lparr>from_block = b, filter_keys = Some [MERKLE_NODE_CHANGED_EVENT_SELECTOR env]\<rparr> ''0'' Map.empty ex";
        cases "fst (fetch_node_changes pages env \<lparr>from_block = b, filter_keys = Some [MERKLE_NODE_CHANGED_EVENT_SELECTOR env]\<rparr> ''0'' Map.empty ex)" rule: outcome_cases) (auto simp: sync_keeps)
  from this [of "event_block e" ex] show ?thesis
    unfolding handle_contract_event_def
    by (cases "handle_root_changed pages env (event_block e) ex"; cases "fst (handle_root_changed pages env (event_block e) ex)" rule: outcome_cases)
      (auto simp: handle_nullifier_spent_def split: list.splits option.splits)
qed

lemma events_keep: "chain (snd (handle_events pages env es ex)) = chain ex \<and> start_block (snd (handle_events pages env es ex)) = start_block ex"
proof (induction es arbitrary: ex)
  case (Cons e es)
  show ?case
    using event_keeps [of pages e ex] Cons
    by (cases "handle_contract_event pages env e ex"; cases "fst (handle_contract_event pages env e ex)" rule: outcome_cases) auto
qed simp

text \<open>The next page, and polling until there is none.\<close>

lemma fetch_page:
  assumes "unat (pagination_token ex) \<le> length L" "length L + 100 < 2 ^ 64" "L = log_of \<lparr>from_block = start_block ex, filter_keys = None\<rparr> (chain ex)"
  shows "fetch_next_events_page env ex = (Returns (Ok (take 100 (drop (unat (pagination_token ex)) L), unat (pagination_token ex) + 100 < length L)),
    ex\<lparr>pagination_token := of_nat (min (unat (pagination_token ex) + 100) (length L))\<rparr>)"
proof -
  have page: "get_events env \<lparr>from_block = start_block ex, filter_keys = None\<rparr> (Some (u64_to_string (pagination_token ex))) 100 (chain ex)
      = (Ok \<lparr>page_events = take 100 (drop (unat (pagination_token ex)) L),
        continuation_token = (if unat (pagination_token ex) + 100 < length L then Some (u64_to_string (pagination_token ex + 100)) else None)\<rparr>, chain ex)"
    using get_page [of "pagination_token ex" "\<lparr>from_block = start_block ex, filter_keys = None\<rparr>" "chain ex" 100] assms by simp
  have "pagination_token ex + of_nat (length L - unat (pagination_token ex)) = of_nat (length L)"
    using assms(1) by (simp add: of_nat_diff)
  then show ?thesis
    using page by (simp add: fetch_next_events_page_def request_events_page_def receive_events_page_def EVENT_CHUNK_SIZE_def min_def)
qed

lemma poll_all:
  assumes "unat (pagination_token ex) \<le> length L" "length L + 100 < 2 ^ 64" "L = log_of \<lparr>from_block = start_block ex, filter_keys = None\<rparr> (chain ex)"
    and "length L - unat (pagination_token ex) < 100 * n"
    and "handle_events pages env (drop (unat (pagination_token ex)) L) ex = (Returns (Ok ()), ex')"
  shows "poll_contract_events pages n env ex = (Returns (Ok ()), ex'\<lparr>pagination_token := of_nat (length L)\<rparr>)"
  using assms
proof (induction n arbitrary: ex ex')
  case (Suc n)
  let ?t = "unat (pagination_token ex)" and ?t' = "of_nat (min (unat (pagination_token ex) + 100) (length L)) :: u64"
  note page = fetch_page [OF Suc.prems(1-3)]
  show ?case
  proof (cases "?t + 100 < length L")
    case False
    then have "handle_events pages env (take 100 (drop ?t L)) (ex\<lparr>pagination_token := ?t'\<rparr>) = (Returns (Ok ()), ex'\<lparr>pagination_token := ?t'\<rparr>)"
      using token_freeD [OF token_free_events Suc.prems(5)] by simp
    then show ?thesis
      using False page by (simp add: min_def)
  next
    case True
    have t': "unat ?t' = ?t + 100"
      using True Suc.prems(2,3) page_tokens [of "pagination_token ex" 100 "\<lparr>from_block = start_block ex, filter_keys = None\<rparr>" "chain ex"]
      by (simp add: min_def)
    have split: "take 100 (drop ?t L) @ drop (?t + 100) L = drop ?t L"
      using append_take_drop_id [of 100 "drop ?t L"] by (simp add: add.commute)
    have "and_then (handle_events pages env (take 100 (drop ?t L)) ex) (\<lambda>_. handle_events pages env (drop (?t + 100) L)) = (Returns (Ok ()), ex')"
      using Suc.prems(5) by (simp only: split handle_events_append [symmetric])
    then obtain ex1 where first: "handle_events pages env (take 100 (drop ?t L)) ex = (Returns (Ok ()), ex1)"
      and rest: "handle_events pages env (drop (?t + 100) L) ex1 = (Returns (Ok ()), ex')"
      by (rule and_then_elim) auto
    have same: "chain ex1 = chain ex" "start_block ex1 = start_block ex"
      using events_keep [of pages "take 100 (drop ?t L)" ex] first by simp_all
    have "poll_contract_events pages n env (ex1\<lparr>pagination_token := ?t'\<rparr>) = (Returns (Ok ()), ex'\<lparr>pagination_token := ?t'\<rparr>\<lparr>pagination_token := of_nat (length L)\<rparr>)"
    proof (rule Suc.IH)
      show "handle_events pages env (drop (unat (pagination_token (ex1\<lparr>pagination_token := ?t'\<rparr>))) L) (ex1\<lparr>pagination_token := ?t'\<rparr>)
          = (Returns (Ok ()), ex'\<lparr>pagination_token := ?t'\<rparr>)"
        using token_freeD [OF token_free_events rest] t' by simp
    qed (use Suc.prems(2-4) same True t' in auto)
    moreover have "handle_events pages env (take 100 (drop ?t L)) (ex\<lparr>pagination_token := ?t'\<rparr>) = (Returns (Ok ()), ex1\<lparr>pagination_token := ?t'\<rparr>)"
      using token_freeD [OF token_free_events first] by simp
    ultimately show ?thesis
      using True page by simp
  qed
qed simp

lemma fetch_all:
  assumes "unat t \<le> length N" "length N + 100 < 2 ^ 64" "N = log_of flt (chain ex)" "length N - unat t < 100 * n" "\<forall>e\<in>set N. 3 \<le> length (event_data e)"
  shows "fetch_node_changes n env flt (u64_to_string t) changes ex = (Returns (Ok (changes ++ announced (drop (unat t) N))), ex)"
  using assms
proof (induction n arbitrary: t changes)
  case (Suc n)
  have page: "get_events env flt (Some (u64_to_string t)) 100 (chain ex) = (Ok \<lparr>page_events = take 100 (drop (unat t) N),
      continuation_token = (if unat t + 100 < length N then Some (u64_to_string (t + 100)) else None)\<rparr>, chain ex)"
    using get_page [of t flt "chain ex" 100] Suc.prems by simp
  have recorded: "record_node_changes (take 100 (drop (unat t) N)) changes = Returns (changes ++ announced (take 100 (drop (unat t) N)))"
    by (rule record_announced) (use Suc.prems(5) in \<open>auto dest: in_set_takeD in_set_dropD\<close>)
  show ?case
  proof (cases "unat t + 100 < length N")
    case False
    then show ?thesis
      using page recorded by simp
  next
    case True
    have t': "unat (t + 100) = unat t + 100"
      using True Suc.prems(2,3) page_tokens [of t 100 flt "chain ex"] by simp
    have "drop (unat t) N = take 100 (drop (unat t) N) @ drop (unat t + 100) N"
      using append_take_drop_id [of 100 "drop (unat t) N"] by (simp add: add.commute)
    then have "announced (drop (unat t) N) = announced (take 100 (drop (unat t) N)) ++ announced (drop (unat t + 100) N)"
      using announced_append by metis
    moreover have "fetch_node_changes n env flt (u64_to_string (t + 100)) (changes ++ announced (take 100 (drop (unat t) N))) ex
        = (Returns (Ok (changes ++ announced (take 100 (drop (unat t) N)) ++ announced (drop (unat t + 100) N))), ex)"
      using Suc.IH [of "t + 100"] Suc.prems True t' by simp
    ultimately show ?thesis
      using True page recorded by simp
  qed
qed simp

end

subsection \<open>Wallets at a new root\<close>

definition synced :: "(MerkleTreeCoords \<rightharpoonup> scalar) \<Rightarrow> Wallet \<Rightarrow> Wallet" where
  "synced changes w = (case merkle_proof w of None \<Rightarrow> w
     | Some p \<Rightarrow> w\<lparr>proof_staleness := proof_staleness w + 1, merkle_proof := Some (update_wallet_merkle_path changes p)\<rparr>)"

lemma path_coords_length: "length (path_coords h i) = h"
  by (induction h arbitrary: i) simp_all

lemma update_path_siblings:
  assumes "length (path_siblings p) = MERKLE_HEIGHT"
  shows "update_wallet_merkle_path changes p = p\<lparr>path_siblings :=
    map2 (\<lambda>c s. case changes c of Some v \<Rightarrow> v | None \<Rightarrow> s) (compute_authentication_path_coords p) (path_siblings p)\<rparr>"
proof -
  let ?f = "\<lambda>c s. case changes c of Some v \<Rightarrow> v | None \<Rightarrow> s"
  let ?upd = "\<lambda>(i, c) p. case changes c of Some v \<Rightarrow> p\<lparr>path_siblings := (path_siblings p)[i := v]\<rparr> | None \<Rightarrow> p"
  have "fold ?upd (enumerate k cs) q = q\<lparr>path_siblings := take k (path_siblings q) @ map2 ?f cs (drop k (path_siblings q))\<rparr>"
    if "k + length cs = length (path_siblings q)" for cs k q
    using that
  proof (induction cs arbitrary: k q)
    case (Cons c cs)
    let ?q = "?upd (k, c) q"
    have k: "k < length (path_siblings q)"
      using Cons.prems by simp
    have "path_siblings ?q = (path_siblings q)[k := ?f c (path_siblings q ! k)]"
      by (simp split: option.splits)
    moreover have "fold ?upd (enumerate (Suc k) cs) ?q = ?q\<lparr>path_siblings := take (Suc k) (path_siblings ?q) @ map2 ?f cs (drop (Suc k) (path_siblings ?q))\<rparr>"
      using Cons.prems by (intro Cons.IH) (simp split: option.splits)
    ultimately show ?case
      using k by (simp add: take_Suc_conv_app_nth Cons_nth_drop_Suc [symmetric] split: option.splits)
  qed simp
  from this [of 0 "compute_authentication_path_coords p" p] show ?thesis
    using assms by (simp add: update_wallet_merkle_path_def compute_authentication_path_coords_def path_coords_length)
qed

definition renewals :: "(MerkleTreeCoords \<rightharpoonup> scalar) \<Rightarrow> (WalletIdentifier \<rightharpoonup> Wallet) \<Rightarrow> WalletIdentifier list \<Rightarrow> Wallet list" where
  "renewals changes m wids = concat (map (\<lambda>wid. case m wid of None \<Rightarrow> []
     | Some w \<Rightarrow> if merkle_proof w \<noteq> None \<and> needs_new_commitment_proof (synced changes w) then [synced changes w] else []) wids)"

lemma renewals_other: "wid \<notin> set wids \<Longrightarrow> renewals changes (m(wid \<mapsto> w)) wids = renewals changes m wids"
  unfolding renewals_def by (rule arg_cong [where f = concat], rule map_cong [OF refl]) (auto split: option.splits)

lemma sync_all:
  assumes "distinct wids" "set wids \<subseteq> dom (wallet_map (wallet_index (listener_state ex)))"
  shows "\<exists>ex'. sync_wallets changes wids ex = (Returns (Ok ()), ex')
    \<and> wallet_map (wallet_index (listener_state ex')) = (\<lambda>wid. if wid \<in> set wids then map_option (synced changes) (wallet_map (wallet_index (listener_state ex)) wid)
        else wallet_map (wallet_index (listener_state ex)) wid)
    \<and> spawned_updates ex' = spawned_updates ex @ renewals changes (wallet_map (wallet_index (listener_state ex))) wids"
  using assms
proof (induction wids arbitrary: ex)
  case (Cons wid wids)
  let ?map = "\<lambda>ex. wallet_map (wallet_index (listener_state ex))"
  obtain w where w: "?map ex wid = Some w"
    using Cons.prems by auto
  show ?case
  proof (cases "merkle_proof w")
    case None
    have "renewals changes (?map ex) (wid # wids) = renewals changes (?map ex) wids" "synced changes w = w"
      using w None by (simp_all add: renewals_def synced_def)
    moreover obtain ex' where "sync_wallets changes wids ex = (Returns (Ok ()), ex')"
      "?map ex' = (\<lambda>wid. if wid \<in> set wids then map_option (synced changes) (?map ex wid) else ?map ex wid)"
      "spawned_updates ex' = spawned_updates ex @ renewals changes (?map ex) wids"
      using Cons.IH [of ex] Cons.prems by auto
    ultimately show ?thesis
      using None w Cons.prems by (intro exI [of _ ex']) (auto simp: get_wallet_def fun_eq_iff)
  next
    case (Some p)
    let ?ex = "ex\<lparr>listener_state := (listener_state ex)\<lparr>wallet_index := Wallets.update_wallet wid (\<lambda>_. synced changes w) (wallet_index (listener_state ex))\<rparr>,
      spawned_updates := spawned_updates ex @ (if needs_new_commitment_proof (synced changes w) then [synced changes w] else [])\<rparr>"
    have step: "sync_wallets changes (wid # wids) ex = sync_wallets changes wids ?ex"
      using w Some by (simp add: get_wallet_def synced_def Let_def)
    have map: "?map ?ex = (?map ex)(wid \<mapsto> synced changes w)"
      using w by (simp add: Wallets.update_wallet_def)
    have "set wids \<subseteq> dom (?map ?ex)" "wid \<notin> set wids" "distinct wids"
      unfolding map using Cons.prems by auto
    then obtain ex' where ex': "sync_wallets changes wids ?ex = (Returns (Ok ()), ex')"
      "?map ex' = (\<lambda>wid. if wid \<in> set wids then map_option (synced changes) (?map ?ex wid) else ?map ?ex wid)"
      "spawned_updates ex' = spawned_updates ?ex @ renewals changes (?map ?ex) wids"
      using Cons.IH [of ?ex] by blast
    have "renewals changes (?map ex) (wid # wids) = (if needs_new_commitment_proof (synced changes w) then [synced changes w] else []) @ renewals changes (?map ex) wids"
      using w Some by (simp add: renewals_def)
    moreover note ex'(2,3) [unfolded map renewals_other [OF \<open>wid \<notin> set wids\<close>]]
    ultimately show ?thesis
      unfolding step using ex'(1) \<open>wid \<notin> set wids\<close> w by (intro exI [of _ ex']) (auto simp: fun_eq_iff)
  qed
qed (simp add: renewals_def)

subsection \<open>Renewing the proofs of a wallet\<close>

definition renewed_statement :: "'w chain_env \<Rightarrow> Wallet \<Rightarrow> MerkleAuthenticationPath \<Rightarrow> ValidCommitmentsStatement" where
  "renewed_statement env w p = \<lparr>nullifier = wallet_match_nullifier (c_sponge env) (iter_balances env) (iter_orders env) w,
     merkle_root = compute_root (c_sponge env) p, stmt_pk_settle = pk_settle (public_keys w)\<rparr>"

definition renewal_jobs :: "'w chain_env \<Rightarrow> Wallet \<Rightarrow> MerkleAuthenticationPath \<Rightarrow> NetworkOrderBook \<Rightarrow> OrderIdentifier list \<Rightarrow> nat \<Rightarrow> ProofManagerJob list" where
  "renewal_jobs env w p b oids n = map2 (\<lambda>oid i. \<lparr>job_type = ProveCommitments (with_wallet_opening env (MerkleOpening_from p) (the (get_validity_proof_witness oid b)))
     (renewed_statement env w p), response_channel = i\<rparr>) oids [n..<n + length oids]"

lemma renewal_jobs_Cons:
  "renewal_jobs env w p b (oid # oids) n = \<lparr>job_type = ProveCommitments (with_wallet_opening env (MerkleOpening_from p) (the (get_validity_proof_witness oid b)))
     (renewed_statement env w p), response_channel = n\<rparr> # renewal_jobs env w p b oids (Suc n)"
  by (simp add: renewal_jobs_def upt_conv_Cons del: upt_Suc)

lemma enqueue_all:
  assumes "\<forall>oid\<in>set oids. get_validity_proof_witness oid (order_book (listener_state ex)) \<noteq> None" "receiver_alive (proof_generation_work_queue ex)"
  shows "enqueue_proof_jobs env w p oids pending ex = (Returns (Ok (Some (pending ++ map_of (rev (zip oids [next_response ex..<next_response ex + length oids]))))),
    ex\<lparr>proof_generation_work_queue := (proof_generation_work_queue ex)\<lparr>queued := queued (proof_generation_work_queue ex)
        @ renewal_jobs env w p (order_book (listener_state ex)) oids (next_response ex)\<rparr>, next_response := next_response ex + length oids\<rparr>)"
  using assms
proof (induction oids arbitrary: pending ex)
  case (Cons oid oids)
  let ?q = "(proof_generation_work_queue ex)\<lparr>queued := queued (proof_generation_work_queue ex) @
    [\<lparr>job_type = ProveCommitments (with_wallet_opening env (MerkleOpening_from p) (the (get_validity_proof_witness oid (order_book (listener_state ex)))))
      (renewed_statement env w p), response_channel = next_response ex\<rparr>]\<rparr>"
  let ?ex = "ex\<lparr>proof_generation_work_queue := ?q, next_response := next_response ex + 1\<rparr>"
  have step: "enqueue_proof_jobs env w p (oid # oids) pending ex = enqueue_proof_jobs env w p oids (pending(oid \<mapsto> next_response ex)) ?ex"
    using Cons.prems by (auto simp: send_def renewed_statement_def Let_def)
  note rest = Cons.IH [of ?ex "pending(oid \<mapsto> next_response ex)"]
  show ?case
    unfolding step by (subst rest) (use Cons.prems in \<open>simp_all add: renewal_jobs_Cons upt_conv_Cons del: upt_Suc\<close>)
qed (simp add: renewal_jobs_def)

lemma await_all:
  assumes "\<forall>(oid, i)\<in>set ps. responses i = Answered (ProvedCommitments (proof_for oid))" "receiver_alive (network_manager_work_queue ex)"
  shows "await_proofs responses ps ex = (Returns (Ok ()), ex\<lparr>
    listener_state := fold (\<lambda>(oid, i). add_order_validity_proof oid (proof_for oid)) ps (listener_state ex),
    network_manager_work_queue := (network_manager_work_queue ex)\<lparr>queued := queued (network_manager_work_queue ex)
      @ map (\<lambda>(oid, i). OutPubsub ORDER_BOOK_TOPIC (OrderBookManagement (OrderProofUpdated oid (local_cluster_id (listener_state ex)) (proof_for oid)))) ps\<rparr>\<rparr>)"
  using assms
proof (induction ps arbitrary: ex)
  case (Cons oi ps)
  obtain oid i where oi: "oi = (oid, i)"
    by fastforce
  let ?ex = "ex\<lparr>listener_state := add_order_validity_proof oid (proof_for oid) (listener_state ex),
    network_manager_work_queue := (network_manager_work_queue ex)\<lparr>queued := queued (network_manager_work_queue ex)
      @ [OutPubsub ORDER_BOOK_TOPIC (OrderBookManagement (OrderProofUpdated oid (local_cluster_id (listener_state ex)) (proof_for oid)))]\<rparr>\<rparr>"
  have "await_proofs responses (oi # ps) ex = await_proofs responses ps ?ex"
    using Cons.prems by (simp add: oi update_order_proof_def send_def add_order_validity_proof_def Let_def)
  then show ?case
    using Cons.IH [of ?ex] Cons.prems by (simp add: oi add_order_validity_proof_def)
qed simp

lemma renewed_proofs_stored:
  fixes ps :: "(OrderIdentifier \<times> nat) list"
  assumes "distinct (map fst ps)" "(oid, i) \<in> set ps" "read_order oid (order_book st) \<noteq> None"
  shows "get_validity_proof oid (order_book (fold (\<lambda>(oid, i). add_order_validity_proof oid (proof_for oid)) ps st)) = Some (proof_for oid)"
proof -
  have kept: "order_map (order_book (fold (\<lambda>(oid, i). add_order_validity_proof oid (proof_for oid)) qs st)) oid = order_map (order_book st) oid" if "oid \<notin> fst ` set qs" for qs :: "(OrderIdentifier \<times> nat) list" and st
    using that by (induction qs arbitrary: st) (auto simp: add_order_validity_proof_def update_order_validity_proof_fields split: option.splits)
  have "\<exists>x. order_map (order_book (fold (\<lambda>(oid, i). add_order_validity_proof oid (proof_for oid)) ps st)) oid = Some x \<and> valid_commit_proof x = Some (proof_for oid)"
    using assms
  proof (induction ps arbitrary: st)
    case (Cons q qs)
    show ?case
    proof (cases "fst q = oid")
      case True
      then have other: "oid \<notin> fst ` set qs"
        using Cons.prems(1) by auto
      have eq: "order_map (order_book (fold (\<lambda>(oid, i). add_order_validity_proof oid (proof_for oid)) (q # qs) st)) oid
          = order_map (order_book (add_order_validity_proof (fst q) (proof_for (fst q)) st)) oid"
        by (simp only: fold_Cons comp_apply kept [OF other]) (simp add: case_prod_beta)
      show ?thesis
        unfolding eq using Cons.prems(3) True
        by (auto simp: add_order_validity_proof_def update_order_validity_proof_fields read_order_def attach_commitment_proof_def)
    next
      case False
      then show ?thesis
        using Cons.IH [of "add_order_validity_proof (fst q) (proof_for (fst q)) st"] Cons.prems
        by (auto simp: case_prod_beta add_order_validity_proof_def update_order_validity_proof_fields read_order_def split: option.splits)
    qed
  qed simp
  then show ?thesis
    by (auto simp: get_validity_proof_def read_order_def)
qed

subsection \<open>Properties\<close>

text \<open>A path whose siblings and value are those of a tree.\<close>

definition authentic :: "sponge_env \<Rightarrow> (nat \<Rightarrow> scalar) \<Rightarrow> MerkleAuthenticationPath \<Rightarrow> bool" where
  "authentic senv leaf p \<longleftrightarrow> leaf_index p < 2 ^ MERKLE_HEIGHT \<and> path_value p = leaf (leaf_index p)
    \<and> path_siblings p = map (\<lambda>(h, j). tree_node senv leaf (MERKLE_HEIGHT - h) j) (compute_authentication_path_coords p)"

lemma authentic_root: "authentic senv leaf p \<Longrightarrow> compute_root senv p = tree_node senv leaf MERKLE_HEIGHT 0"
  using fold_path_tree [of MERKLE_HEIGHT MERKLE_HEIGHT senv leaf "leaf_index p"]
  by (simp add: authentic_def compute_root_def compute_authentication_path_coords_def)

lemma authentic_update:
  assumes "authentic senv leaf p" "leaf' (leaf_index p) = leaf (leaf_index p)"
    and "\<forall>(h, j)\<in>set (compute_authentication_path_coords p). tree_node senv leaf' (MERKLE_HEIGHT - h) j
      = (case changes (h, j) of Some v \<Rightarrow> v | None \<Rightarrow> tree_node senv leaf (MERKLE_HEIGHT - h) j)"
  shows "authentic senv leaf' (update_wallet_merkle_path changes p)"
proof -
  let ?cs = "compute_authentication_path_coords p"
  have "length (path_siblings p) = MERKLE_HEIGHT"
    using assms(1) by (simp add: authentic_def compute_authentication_path_coords_def path_coords_length)
  note upd = update_path_siblings [OF this, of changes]
  have "map2 (\<lambda>c s. case changes c of Some v \<Rightarrow> v | None \<Rightarrow> s) ?cs (path_siblings p) = map (\<lambda>(h, j). tree_node senv leaf' (MERKLE_HEIGHT - h) j) ?cs"
    using assms(1,3) by (auto simp: authentic_def map2_map_map zip_map2 zip_same_conv_map comp_def)
  then show ?thesis
    using assms(1,2) unfolding upd by (simp add: authentic_def compute_authentication_path_coords_def)
qed

text \<open>
  C37: a poll that succeeds handles every event since the last one exactly once and in order, however
  many pages they take, and a poll with no new events handles none.\<close>

theorem poll_handles_each_event_once:
  assumes "event_log env log_of" "L = log_of \<lparr>from_block = start_block ex, filter_keys = None\<rparr> (chain ex)"
    and "unat (pagination_token ex) \<le> length L" "length L + 100 < 2 ^ 64" "length L - unat (pagination_token ex) < 100 * n"
    and "handle_events pages env (drop (unat (pagination_token ex)) L) ex = (Returns (Ok ()), ex')"
  shows "poll_contract_events pages n env ex = (Returns (Ok ()), ex'\<lparr>pagination_token := of_nat (length L)\<rparr>)
    \<and> poll_contract_events pages (Suc m) env (ex'\<lparr>pagination_token := of_nat (length L)\<rparr>) = (Returns (Ok ()), ex'\<lparr>pagination_token := of_nat (length L)\<rparr>)"
proof -
  let ?ex = "ex'\<lparr>pagination_token := of_nat (length L)\<rparr>"
  have same: "chain ex' = chain ex" "start_block ex' = start_block ex"
    using event_log.events_keep [OF assms(1), of pages "drop (unat (pagination_token ex)) L" ex] assms(6) by simp_all
  have len: "unat (of_nat (length L) :: u64) = length L"
    using assms(4) by (intro unat_of_length) simp
  have "poll_contract_events pages (Suc m) env ?ex = (Returns (Ok ()), ?ex\<lparr>pagination_token := of_nat (length L)\<rparr>)"
    by (rule event_log.poll_all [OF assms(1)]) (use assms(2,4) same len in auto)
  then show ?thesis
    using event_log.poll_all [OF assms(1,3,4,2,5,6)] by simp
qed

definition spent_event :: "nat \<Rightarrow> EmittedEvent" where
  "spent_event n = \<lparr>event_keys = [15], event_data = [n], event_block = 1\<rparr>"

definition example_listener :: "bool \<Rightarrow> EmittedEvent list \<Rightarrow> EmittedEvent list OnChainEventListenerExecutor" where
  "example_listener alive es = OnChainEventListenerExecutor_new example_state \<lparr>queued = [], receiver_alive = alive\<rparr>
     \<lparr>queued = [], receiver_alive = True\<rparr> \<lparr>queued = [], receiver_alive = True\<rparr> es"

lemma example_spent:
  "handle_contract_event pages list_chain (spent_event n) ex = handle_nullifier_spent list_chain (n mod field_modulus) ex"
  by (simp add: handle_contract_event_def spent_event_def list_chain_def MERKLE_ROOT_CHANGED_EVENT_SELECTOR_def NULLIFIER_SPENT_EVENT_SELECTOR_def
      starknet_felt_to_scalar_def)

lemma example_log: "passes \<lparr>from_block = 0, filter_keys = None\<rparr> e"
  by (simp add: passes_def)

theorem poll_handles_each_event_once_witness:
  "\<exists>ex'. poll_contract_events 1 1 list_chain (example_listener True [spent_event 5, spent_event 6]) = (Returns (Ok ()), ex')
    \<and> queued (handshake_manager_job_queue ex') = [MpcShootdown 5, MpcShootdown 6] \<and> poll_contract_events 1 1 list_chain ex' = (Returns (Ok ()), ex')"
proof -
  let ?es = "[spent_event 5, spent_event 6]" and ?ex = "example_listener True [spent_event 5, spent_event 6]"
  obtain ex' where ex': "handle_events 1 list_chain ?es ?ex = (Returns (Ok ()), ex')" "queued (handshake_manager_job_queue ex') = [MpcShootdown 5, MpcShootdown 6]"
    by (simp add: example_spent handle_nullifier_spent_def send_def example_listener_def OnChainEventListenerExecutor_new_def field_modulus_def)
  have "poll_contract_events 1 1 list_chain ?ex = (Returns (Ok ()), ex'\<lparr>pagination_token := of_nat (length ?es)\<rparr>)
      \<and> poll_contract_events 1 (Suc 0) list_chain (ex'\<lparr>pagination_token := of_nat (length ?es)\<rparr>) = (Returns (Ok ()), ex'\<lparr>pagination_token := of_nat (length ?es)\<rparr>)"
    by (rule poll_handles_each_event_once [OF list_chain.event_log_axioms])
      (use ex'(1) in \<open>simp_all add: example_listener_def OnChainEventListenerExecutor_new_def example_log del: handle_events.simps\<close>)
  then show ?thesis
    using ex'(2) by (intro exI [of _ "ex'\<lparr>pagination_token := of_nat (length ?es)\<rparr>"]) simp
qed

text \<open>A task that has the other tasks wait does what the poll does.\<close>

lemma runs_spawn: "(listens pages env)\<^sup>*\<^sup>* (ex, ts @ [Requesting]) s \<Longrightarrow> (listens pages env)\<^sup>*\<^sup>* (ex, ts) s"
  using spawn_poll [of pages env ex ts] by (rule converse_rtranclp_into_rtranclp)

lemma runs_step:
  assumes "task_turn pages env t ex = (t', ex')" "(listens pages env)\<^sup>*\<^sup>* (ex', ts @ t' # us) s"
  shows "(listens pages env)\<^sup>*\<^sup>* (ex, ts @ t # us) s"
proof -
  have "listens pages env (ex, ts @ t # us) (ex', (ts @ t # us)[length ts := t'])"
    by (rule poll_turn) (simp_all add: assms(1))
  then show ?thesis
    using assms(2) unfolding list_update_length by (rule converse_rtranclp_into_rtranclp)
qed

lemma runs_events:
  assumes "handle_events pages env es ex = (Returns (Ok ()), ex')" "(listens pages env)\<^sup>*\<^sup>* (ex', ts @ Handling [] more_pages # us) s"
  shows "(listens pages env)\<^sup>*\<^sup>* (ex, ts @ Handling es more_pages # us) s"
  using assms(1)
proof (induction es arbitrary: ex)
  case (Cons e es)
  from Cons.prems obtain u ex1 where first: "handle_contract_event pages env e ex = (Returns (Ok u), ex1)"
    and rest: "handle_events pages env es ex1 = (Returns (Ok ()), ex')"
    unfolding handle_events.simps by (rule and_then_elim) auto
  show ?case
    by (rule runs_step [OF _ Cons.IH [OF rest]]) (simp add: first)
qed (use assms(2) in simp)

lemma task_refines_poll:
  assumes "poll_contract_events pages n env ex = (Returns (Ok ()), ex')"
  shows "(listens pages env)\<^sup>*\<^sup>* (ex, ts @ Requesting # us) (ex', ts @ PollDone # us)"
  using assms
proof (induction n arbitrary: ex)
  case (Suc n)
  obtain resp w where req: "request_events_page env ex = (resp, w)"
    by force
  let ?next = "\<lambda>(events, more_pages) ex. and_then (handle_events pages env events ex)
      (\<lambda>_ ex. if more_pages then poll_contract_events pages n env ex else (Returns (Ok ()), ex))"
  have "and_then (receive_events_page resp (ex\<lparr>chain := w\<rparr>)) ?next = (Returns (Ok ()), ex')"
    using Suc.prems by (simp only: poll_contract_events.simps fetch_next_events_page_def req prod.case)
  then obtain page ex1 where received: "receive_events_page resp (ex\<lparr>chain := w\<rparr>) = (Returns (Ok page), ex1)" "?next page ex1 = (Returns (Ok ()), ex')"
  proof (cases rule: and_then_elim)
    case stops
    then show ?thesis
      by blast
  qed
  obtain es more_pages where page: "page = (es, more_pages)"
    by (cases page)
  note recv = received(1) [unfolded page]
  from received(2) [unfolded page prod.case] obtain u ex2 where handled: "handle_events pages env es ex1 = (Returns (Ok u), ex2)"
    and rest: "(if more_pages then poll_contract_events pages n env ex2 else (Returns (Ok ()), ex2)) = (Returns (Ok ()), ex')"
  proof (cases rule: and_then_elim)
    case stops
    then show ?thesis
      by blast
  qed
  have "(listens pages env)\<^sup>*\<^sup>* (ex2, ts @ Handling [] more_pages # us) (ex', ts @ PollDone # us)"
  proof (cases more_pages)
    case True
    then have "(listens pages env)\<^sup>*\<^sup>* (ex2, ts @ Requesting # us) (ex', ts @ PollDone # us)"
      using rest by (intro Suc.IH) simp
    then show ?thesis
      by (rule runs_step [rotated]) (simp add: True)
  next
    case False
    then show ?thesis
      using rest by - (rule runs_step [where t' = PollDone and ex' = ex'], simp_all)
  qed
  then have "(listens pages env)\<^sup>*\<^sup>* (ex1, ts @ Handling es more_pages # us) (ex', ts @ PollDone # us)"
    by (rule runs_events [rotated]) (simp add: handled)
  then have "(listens pages env)\<^sup>*\<^sup>* (ex\<lparr>chain := w\<rparr>, ts @ Responded resp # us) (ex', ts @ PollDone # us)"
    by (rule runs_step [rotated]) (simp add: recv)
  then show ?case
    by (rule runs_step [rotated]) (simp add: req)
qed simp

lemma overlapping_polls:
  assumes "request_events_page env ex = (Ok \<lparr>page_events = page, continuation_token = None\<rparr>, chain ex)"
    and "handle_events pages env page ex = (Returns (Ok ()), ex1)" "handle_events pages env page ex1 = (Returns (Ok ()), ex2)"
  shows "(listens pages env)\<^sup>*\<^sup>* (ex, []) (ex2\<lparr>pagination_token := pagination_token ex + of_nat (length page) + of_nat (length page)\<rparr>, [PollDone, PollDone])"
proof -
  let ?t = "pagination_token ex" and ?n = "of_nat (length page) :: u64" and ?resp = "Ok \<lparr>page_events = page, continuation_token = None\<rparr> :: (events_page, rpc_error) Result"
  let ?ex = "\<lambda>e. e\<lparr>pagination_token := ?t + ?n + ?n\<rparr>"
  have twice: "handle_events pages env page (?ex ex) = (Returns (Ok ()), ?ex ex1)" "handle_events pages env page (?ex ex1) = (Returns (Ok ()), ?ex ex2)"
    using assms(2,3) by (auto intro: token_freeD [OF token_free_events])
  have "(listens pages env)\<^sup>*\<^sup>* (?ex ex1, [PollDone] @ Handling page False # []) (?ex ex2, [PollDone, PollDone])"
    by (rule runs_events [OF twice(2)], rule runs_step [where t' = PollDone and ex' = "?ex ex2"], simp, simp only: append_Cons append_Nil rtranclp.rtrancl_refl)
  then have "(listens pages env)\<^sup>*\<^sup>* (?ex ex1, [] @ PollDone # [Handling page False]) (?ex ex2, [PollDone, PollDone])"
    by simp
  then have "(listens pages env)\<^sup>*\<^sup>* (?ex ex1, [] @ Handling [] False # [Handling page False]) (?ex ex2, [PollDone, PollDone])"
    by (rule runs_step [rotated]) simp
  note handled = runs_events [OF twice(1) this]
  have turns: "task_turn pages env Requesting ex = (Responded ?resp, ex)"
    "task_turn pages env (Responded ?resp) ex = (Handling page False, ex\<lparr>pagination_token := ?t + ?n\<rparr>)"
    "task_turn pages env (Responded ?resp) (ex\<lparr>pagination_token := ?t + ?n\<rparr>) = (Handling page False, ?ex ex)"
    by (simp_all add: assms(1) receive_events_page_def)
  have "(listens pages env)\<^sup>*\<^sup>* (ex\<lparr>pagination_token := ?t + ?n\<rparr>, [Handling page False] @ Responded ?resp # []) (?ex ex2, [PollDone, PollDone])"
    by (rule runs_step [OF turns(3)]) (simp only: append_Cons append_Nil handled [unfolded append_Nil])
  then have "(listens pages env)\<^sup>*\<^sup>* (ex, [] @ Responded ?resp # [Responded ?resp]) (?ex ex2, [PollDone, PollDone])"
    by - (rule runs_step [OF turns(2)], simp only: append_Cons append_Nil)
  then have "(listens pages env)\<^sup>*\<^sup>* (ex, [Responded ?resp] @ Requesting # []) (?ex ex2, [PollDone, PollDone])"
    by - (rule runs_step [OF turns(1)], simp)
  then have "(listens pages env)\<^sup>*\<^sup>* (ex, [] @ Requesting # [Requesting]) (?ex ex2, [PollDone, PollDone])"
    by - (rule runs_step [OF turns(1)], simp)
  then have "(listens pages env)\<^sup>*\<^sup>* (ex, [Requesting] @ [Requesting]) (?ex ex2, [PollDone, PollDone])"
    by (simp only: append_Cons append_Nil)
  then have "(listens pages env)\<^sup>*\<^sup>* (ex, [] @ [Requesting]) (?ex ex2, [PollDone, PollDone])"
    unfolding append_Nil by (rule runs_spawn)
  then show ?thesis
    by (rule runs_spawn)
qed

text \<open>
  C38: two polls that wait for a page at the same time both handle its events and both move the token:
  once the log has grown by as many events as the page held, the next page starts after them, so
  that no handler ever sees them.\<close>

theorem overlapping_polls_skip_events:
  assumes "event_log env log_of" "L = log_of \<lparr>from_block = start_block ex, filter_keys = None\<rparr> (chain ex)"
    and "unat (pagination_token ex) \<le> length L" "page = drop (unat (pagination_token ex)) L" "length page \<le> 100"
    and "handle_events pages env page ex = (Returns (Ok ()), ex1)" "handle_events pages env page ex1 = (Returns (Ok ()), ex2)"
    and "log_of \<lparr>from_block = start_block ex, filter_keys = None\<rparr> w = L @ missed @ later" "length missed = length page" "length (L @ missed @ later) + 100 < 2 ^ 64"
  shows "\<exists>t. (listens pages env)\<^sup>*\<^sup>* (ex, []) (ex2\<lparr>pagination_token := t\<rparr>, [PollDone, PollDone])
    \<and> fst (fetch_next_events_page env (ex2\<lparr>pagination_token := t, chain := w\<rparr>)) = Returns (Ok (take 100 later, 100 < length later))"
proof -
  let ?t = "pagination_token ex" and ?n = "of_nat (length page) :: u64" and ?resp = "Ok \<lparr>page_events = page, continuation_token = None\<rparr> :: (events_page, rpc_error) Result"
  have req: "request_events_page env ex = (?resp, chain ex)"
    using event_log.get_page [OF assms(1), of ?t "\<lparr>from_block = start_block ex, filter_keys = None\<rparr>" "chain ex" 100] assms(2-5,10)
    by (simp add: request_events_page_def EVENT_CHUNK_SIZE_def)
  note run = overlapping_polls [OF req assms(6,7)]
  have same: "start_block ex2 = start_block ex"
    using event_log.events_keep [OF assms(1), of pages page ex] event_log.events_keep [OF assms(1), of pages page ex1] assms(6,7) by simp
  have len: "length L = unat ?t + length page"
    using assms(3,4) by simp
  have "?t + ?n + ?n = of_nat (unat ?t + length page + length page)"
    by simp
  then have "?t + ?n + ?n = of_nat (length L + length page)"
    by (simp only: len)
  moreover have "unat (of_nat (length L + length page) :: u64) = length L + length page"
    by (rule unat_of_length) (use assms(9,10) in simp)
  ultimately have t: "unat (?t + ?n + ?n) = length L + length page"
    by (simp only:)
  have "fst (fetch_next_events_page env (ex2\<lparr>pagination_token := t, chain := w\<rparr>)) = Returns (Ok (take 100 later, 100 < length later))"
    if "unat t = length L + length page" for t
    by (subst event_log.fetch_page [OF assms(1), of _ "L @ missed @ later"]) (use assms(8-10) that same in simp_all)
  from run this [OF t] show ?thesis
    by blast
qed

theorem overlapping_polls_skip_events_witness:
  "\<exists>ex'. (listens 1 list_chain)\<^sup>*\<^sup>* (example_listener True [spent_event 5], []) (ex', [PollDone, PollDone])
    \<and> queued (handshake_manager_job_queue ex') = [MpcShootdown 5, MpcShootdown 5]
    \<and> fst (fetch_next_events_page list_chain (ex'\<lparr>chain := [spent_event 5, spent_event 6]\<rparr>)) = Returns (Ok ([], False))"
proof -
  let ?ex = "example_listener True [spent_event 5]"
  obtain ex1 where ex1: "handle_events 1 list_chain [spent_event 5] ?ex = (Returns (Ok ()), ex1)"
      "handshake_manager_job_queue ex1 = \<lparr>queued = [MpcShootdown 5], receiver_alive = True\<rparr>"
    by (simp add: example_spent handle_nullifier_spent_def send_def example_listener_def OnChainEventListenerExecutor_new_def field_modulus_def)
  obtain ex2 where ex2: "handle_events 1 list_chain [spent_event 5] ex1 = (Returns (Ok ()), ex2)"
      "queued (handshake_manager_job_queue ex2) = [MpcShootdown 5, MpcShootdown 5]"
    by (simp add: example_spent handle_nullifier_spent_def send_def ex1(2) field_modulus_def)
  have "\<exists>t. (listens 1 list_chain)\<^sup>*\<^sup>* (?ex, []) (ex2\<lparr>pagination_token := t\<rparr>, [PollDone, PollDone])
      \<and> fst (fetch_next_events_page list_chain (ex2\<lparr>pagination_token := t, chain := [spent_event 5, spent_event 6]\<rparr>)) = Returns (Ok (take 100 [], 100 < length ([] :: EmittedEvent list)))"
    by (rule overlapping_polls_skip_events [OF list_chain.event_log_axioms, where L = "[spent_event 5]" and missed = "[spent_event 6]" and page = "[spent_event 5]", OF _ _ _ _ ex1(1) ex2(1)])
      (simp_all add: example_listener_def OnChainEventListenerExecutor_new_def example_log)
  then obtain t where "(listens 1 list_chain)\<^sup>*\<^sup>* (?ex, []) (ex2\<lparr>pagination_token := t\<rparr>, [PollDone, PollDone])"
      "fst (fetch_next_events_page list_chain (ex2\<lparr>pagination_token := t, chain := [spent_event 5, spent_event 6]\<rparr>)) = Returns (Ok ([], False))"
    by auto
  then show ?thesis
    using ex2(2) by (intro exI [of _ "ex2\<lparr>pagination_token := t\<rparr>"]) simp
qed

text \<open>
  C39: an event that cannot be handled takes the rest of its page with it: the poll fails with the
  token already past the page, so the next one starts behind events that nothing has handled.\<close>

theorem failed_event_loses_page:
  assumes "event_log env log_of" "L = log_of \<lparr>from_block = start_block ex, filter_keys = None\<rparr> (chain ex)"
    and "unat (pagination_token ex) \<le> length L" "length L + 100 < 2 ^ 64"
    and "take 100 (drop (unat (pagination_token ex)) L) = es @ e # lost"
    and "handle_events pages env es ex = (Returns (Ok ()), ex1)" "handle_contract_event pages env e ex1 = (Returns (Err err), ex2)"
  shows "\<exists>t. poll_contract_events pages (Suc n) env ex = (Returns (Err err), ex2\<lparr>pagination_token := t\<rparr>)
    \<and> take (unat t) L = take (unat (pagination_token ex)) L @ es @ e # lost"
proof -
  let ?t = "of_nat (min (unat (pagination_token ex) + 100) (length L)) :: u64"
  have t: "unat ?t = min (unat (pagination_token ex) + 100) (length L)"
    using assms(4) by (intro unat_of_length) (simp add: min_def)
  have "handle_events pages env (es @ e # lost) ex = (Returns (Err err), ex2)"
    using assms(6,7) by (simp add: handle_events_append)
  then have "handle_events pages env (es @ e # lost) (ex\<lparr>pagination_token := ?t\<rparr>) = (Returns (Err err), ex2\<lparr>pagination_token := ?t\<rparr>)"
    by (rule token_freeD [OF token_free_events])
  then have "poll_contract_events pages (Suc n) env ex = (Returns (Err err), ex2\<lparr>pagination_token := ?t\<rparr>)"
    using event_log.fetch_page [OF assms(1,3,4,2)] assms(5) by simp
  moreover have "take (unat ?t) L = take (unat (pagination_token ex)) L @ es @ e # lost"
    unfolding t assms(5) [symmetric] by (simp add: take_add min_def)
  ultimately show ?thesis
    by blast
qed

theorem failed_event_loses_page_witness:
  "\<exists>ex'. poll_contract_events 1 1 list_chain (example_listener False [spent_event 5, spent_event 6]) = (Returns (Err (SendMessage ''channel closed'')), ex')
    \<and> take (unat (pagination_token ex')) [spent_event 5, spent_event 6] = [spent_event 5, spent_event 6]"
proof -
  let ?es = "[spent_event 5, spent_event 6]" and ?ex = "example_listener False [spent_event 5, spent_event 6]"
  have "\<exists>t. poll_contract_events 1 (Suc 0) list_chain ?ex = (Returns (Err (SendMessage ''channel closed'')), ?ex\<lparr>pagination_token := t\<rparr>)
      \<and> take (unat t) ?es = take (unat (pagination_token ?ex)) ?es @ [] @ spent_event 5 # [spent_event 6]"
    by (rule failed_event_loses_page [OF list_chain.event_log_axioms, where ?ex1.0 = ?ex])
      (simp_all add: example_spent handle_nullifier_spent_def send_def example_listener_def OnChainEventListenerExecutor_new_def example_log)
  then show ?thesis
    by (auto simp: example_listener_def OnChainEventListenerExecutor_new_def)
qed

text \<open>
  C35: after a new root is handled, the Merkle path of a wallet is the one in the new tree and gives
  the new root, provided the events of the block announce the nodes of the path that changed.
  A wallet whose proofs have become stale is queued for new ones.\<close>

theorem root_change_syncs_paths:
  assumes "event_log env log_of" "N = log_of \<lparr>from_block = block, filter_keys = Some [MERKLE_NODE_CHANGED_EVENT_SELECTOR env]\<rparr> (chain ex)"
    and "length N + 100 < 2 ^ 64" "length N < 100 * pages" "\<forall>e\<in>set N. 3 \<le> length (event_data e)"
    and "hash_iteration (iter_wallets env)" "finite (dom (wallet_map (wallet_index (listener_state ex))))"
    and "get_wallet wid (wallet_index (listener_state ex)) = Some w" "merkle_proof w = Some p" "authentic (c_sponge env) leaf p"
    and "leaf' (leaf_index p) = leaf (leaf_index p)"
    and "\<forall>(h, j)\<in>set (compute_authentication_path_coords p). tree_node (c_sponge env) leaf' (MERKLE_HEIGHT - h) j
      = (case announced N (h, j) of Some v \<Rightarrow> v | None \<Rightarrow> tree_node (c_sponge env) leaf (MERKLE_HEIGHT - h) j)"
  shows "\<exists>ex' w' p'. handle_root_changed pages env block ex = (Returns (Ok ()), ex')
    \<and> get_wallet wid (wallet_index (listener_state ex')) = Some w' \<and> merkle_proof w' = Some p'
    \<and> authentic (c_sponge env) leaf' p' \<and> compute_root (c_sponge env) p' = tree_node (c_sponge env) leaf' MERKLE_HEIGHT 0
    \<and> proof_staleness w' = proof_staleness w + 1 \<and> (needs_new_commitment_proof w' \<longrightarrow> w' \<in> set (spawned_updates ex'))"
proof -
  let ?m = "wallet_map (wallet_index (listener_state ex))" and ?ids = "get_all_wallet_ids (iter_wallets env) (wallet_index (listener_state ex))"
  have zero: "u64_to_string 0 = ''0''"
    by (simp add: u64_to_string_def nat_to_string.simps char_of_def bit_Suc_0_iff)
  have "fetch_node_changes pages env \<lparr>from_block = block, filter_keys = Some [MERKLE_NODE_CHANGED_EVENT_SELECTOR env]\<rparr> (u64_to_string 0) Map.empty ex
      = (Returns (Ok (Map.empty ++ announced (drop (unat (0 :: u64)) N))), ex)"
    by (rule event_log.fetch_all [OF assms(1)]) (use assms(2-5) in auto)
  then have run: "handle_root_changed pages env block ex = sync_wallets (announced N) ?ids ex"
    by (simp add: handle_root_changed_def zero)
  have ids: "distinct ?ids" "set ?ids = dom ?m"
    using hash_iteration.iter_distinct [OF assms(6,7)] hash_iteration.iter_set [OF assms(6,7)] by (simp_all add: get_all_wallet_ids_def)
  obtain ex' where ex': "sync_wallets (announced N) ?ids ex = (Returns (Ok ()), ex')"
    "wallet_map (wallet_index (listener_state ex')) = (\<lambda>wid. if wid \<in> set ?ids then map_option (synced (announced N)) (?m wid) else ?m wid)"
    "spawned_updates ex' = spawned_updates ex @ renewals (announced N) ?m ?ids"
    using sync_all [OF ids(1), of ex "announced N"] ids(2) by auto
  have w: "?m wid = Some w"
    using assms(8) by (simp add: get_wallet_def)
  then have "get_wallet wid (wallet_index (listener_state ex')) = Some (synced (announced N) w)" "wid \<in> set ?ids"
    using ex'(2) ids(2) by (auto simp: get_wallet_def)
  moreover have "synced (announced N) w \<in> set (renewals (announced N) ?m ?ids)" if "needs_new_commitment_proof (synced (announced N) w)"
    using that w assms(9) \<open>wid \<in> set ?ids\<close> by (force simp: renewals_def)
  moreover note authentic_update [OF assms(10,11,12)]
  ultimately show ?thesis
    using run ex'(1,3) assms(9) authentic_root by (intro exI [of _ ex'] exI [of _ "synced (announced N) w"] exI [of _ "update_wallet_merkle_path (announced N) p"])
      (auto simp: synced_def)
qed

lemma renewal_channels: "map response_channel (renewal_jobs env w p b oids n) = [n..<n + length oids]"
  by (induction oids arbitrary: n) (simp_all add: renewal_jobs_Cons upt_conv_Cons del: upt_Suc, simp add: renewal_jobs_def)

definition renewed_bundle :: "prover \<Rightarrow> 'w chain_env \<Rightarrow> Wallet \<Rightarrow> MerkleAuthenticationPath \<Rightarrow> NetworkOrderBook \<Rightarrow> OrderIdentifier \<Rightarrow> ValidCommitmentsBundle" where
  "renewed_bundle pv env w p b oid = (case prove_commit pv (with_wallet_opening env (MerkleOpening_from p) (the (get_validity_proof_witness oid b))) (renewed_statement env w p) of
     Ok (c, pf) \<Rightarrow> \<lparr>commitment = c, statement = renewed_statement env w p, proof_bytes = pf\<rparr>
   | Err e \<Rightarrow> \<lparr>commitment = [], statement = renewed_statement env w p, proof_bytes = []\<rparr>)"

lemma renewal_answers:
  assumes "\<forall>wit. \<exists>c pf. prove_commit pv wit (renewed_statement env w p) = Ok (c, pf)" "(oid, i) \<in> set (zip oids [n..<n + length oids])"
  shows "replies (snd (execution_loop pv senv (job_turns (renewal_jobs env w p b oids n)) \<lparr>replies = \<lambda>_. Pending, receivers_dropped = {}\<rparr>)) i
    = Answered (ProvedCommitments (renewed_bundle pv env w p b oid))"
proof -
  let ?js = "renewal_jobs env w p b oids n" and ?ch = "\<lparr>replies = \<lambda>_. Pending, receivers_dropped = {}\<rparr>"
  let ?j = "\<lparr>job_type = ProveCommitments (with_wallet_opening env (MerkleOpening_from p) (the (get_validity_proof_witness oid b))) (renewed_statement env w p), response_channel = i\<rparr>"
  have j: "?j \<in> set ?js"
    using assms(2) by (force simp: renewal_jobs_def)
  have sized: "\<forall>j\<in>set ?js. sized_job (job_type j)"
    by (auto simp: renewal_jobs_def)
  have dist: "distinct (map response_channel ?js)"
    by (simp add: renewal_channels)
  then have "map_of (map (\<lambda>j. (response_channel j, reply_of (prove_job pv senv (job_type j)))) ?js) (response_channel ?j)
      = Some (reply_of (prove_job pv senv (job_type ?j)))"
    using j by (intro map_of_is_SomeI) (auto simp: comp_def intro!: image_eqI [of _ _ ?j])
  then have "replies (snd (execution_loop pv senv (job_turns ?js) ?ch)) i = reply_of (prove_job pv senv (job_type ?j))"
    using execution_loop_jobs [OF dist, of ?ch pv senv] sized by simp
  moreover obtain c pf where "prove_commit pv (with_wallet_opening env (MerkleOpening_from p) (the (get_validity_proof_witness oid b))) (renewed_statement env w p) = Ok (c, pf)"
    using assms(1) by blast
  ultimately show ?thesis
    by (simp add: prove_valid_commitments_def renewed_bundle_def)
qed


text \<open>An example: the leaf next to the wallet's changes.\<close>

definition example_path :: MerkleAuthenticationPath where
  "example_path = \<lparr>path_siblings = map (\<lambda>(h, j). tree_node low_env (\<lambda>_. 0) (MERKLE_HEIGHT - h) j) (path_coords MERKLE_HEIGHT 0), leaf_index = 0, path_value = 0\<rparr>"

definition synced_wallet :: Wallet where
  "synced_wallet = two_order_wallet\<lparr>merkle_proof := Some example_path\<rparr>"

definition neighbour_event :: EmittedEvent where
  "neighbour_event = \<lparr>event_keys = [28], event_data = [32, 1, 9], event_block = 3\<rparr>"

definition syncing_listener :: "EmittedEvent list OnChainEventListenerExecutor" where
  "syncing_listener = (example_listener True [neighbour_event])\<lparr>listener_state := example_state\<lparr>wallet_index :=
     \<lparr>index_peer_id = WrappedPeerId [], wallet_map = [1 \<mapsto> synced_wallet], order_to_wallet = Map.empty\<rparr>\<rparr>\<rparr>"

lemma zero_coords: "(h, j) \<in> set (path_coords n 0) \<Longrightarrow> j = 1 \<and> h \<le> n"
  by (induction n) (auto simp: sibling_index_def)

lemma low_node: "0 < k \<Longrightarrow> tree_node low_env leaf k j = tree_node low_env leaf' k j"
  by (cases k) (simp_all add: compute_poseidon_hash_def low_env_def)

theorem root_change_syncs_paths_witness:
  "\<exists>ex' w' p'. handle_root_changed 1 list_chain 2 syncing_listener = (Returns (Ok ()), ex')
    \<and> get_wallet 1 (wallet_index (listener_state ex')) = Some w' \<and> merkle_proof w' = Some p'
    \<and> compute_root low_env p' = tree_node low_env ((\<lambda>_. 0)(1 := 9)) MERKLE_HEIGHT 0"
proof -
  let ?N = "[neighbour_event]" and ?leaf' = "(\<lambda>_. 0)(1 := 9) :: nat \<Rightarrow> scalar"
  have env: "c_sponge list_chain = low_env" "hash_iteration (iter_wallets list_chain)"
    using ascending.hash_iteration_axioms by (simp_all add: list_chain_def)
  have log: "?N = filter (passes \<lparr>from_block = 2, filter_keys = Some [MERKLE_NODE_CHANGED_EVENT_SELECTOR list_chain]\<rparr>) (chain syncing_listener)"
    by (simp add: syncing_listener_def example_listener_def OnChainEventListenerExecutor_new_def passes_def neighbour_event_def list_chain_def
        MERKLE_NODE_CHANGED_EVENT_SELECTOR_def)
  have "announced ?N = [(32, 1) \<mapsto> 9]"
    by (simp add: announced_def node_change_def neighbour_event_def starknet_felt_to_u64_def starknet_felt_to_biguint_def starknet_felt_to_scalar_def field_modulus_def)
  then have nodes: "\<forall>(h, j)\<in>set (compute_authentication_path_coords example_path). tree_node (c_sponge list_chain) ?leaf' (MERKLE_HEIGHT - h) j
      = (case announced ?N (h, j) of Some v \<Rightarrow> v | None \<Rightarrow> tree_node (c_sponge list_chain) (\<lambda>_. 0) (MERKLE_HEIGHT - h) j)"
    unfolding env(1) using low_node [of "MERKLE_HEIGHT - _" ?leaf' _ "\<lambda>_. 0"]
    by (auto simp: compute_authentication_path_coords_def example_path_def MERKLE_HEIGHT_def dest!: zero_coords)
  have "\<exists>ex' w' p'. handle_root_changed 1 list_chain 2 syncing_listener = (Returns (Ok ()), ex')
    \<and> get_wallet 1 (wallet_index (listener_state ex')) = Some w' \<and> merkle_proof w' = Some p'
    \<and> authentic (c_sponge list_chain) ?leaf' p' \<and> compute_root (c_sponge list_chain) p' = tree_node (c_sponge list_chain) ?leaf' MERKLE_HEIGHT 0
    \<and> proof_staleness w' = proof_staleness synced_wallet + 1 \<and> (needs_new_commitment_proof w' \<longrightarrow> w' \<in> set (spawned_updates ex'))"
    by (rule root_change_syncs_paths [OF list_chain.event_log_axioms log _ _ _ env(2), where p = example_path and leaf = "\<lambda>_. 0"])
      (use nodes env(1) in \<open>simp_all add: syncing_listener_def get_wallet_def synced_wallet_def neighbour_event_def authentic_def example_path_def
        compute_authentication_path_coords_def\<close>)
  then show ?thesis
    unfolding env(1) by blast
qed

definition renewing_listener :: "EmittedEvent list OnChainEventListenerExecutor" where
  "renewing_listener = (example_listener True [])\<lparr>listener_state := example_state\<lparr>order_book := NetworkOrderBook_new\<lparr>order_map :=
     (\<lambda>oid. if oid \<in> {1, 2} then Some ((NetworkOrder_new oid 5 (ClusterId ''c'') True)\<lparr>valid_commit_witness := Some [7]\<rparr>) else None)\<rparr>\<rparr>\<rparr>"


end
