(* ===== verification/Constraint_System.thy ===== *)
theory Constraint_System
  imports Complex_Main Prelude
begin

section \<open>Constraint systems\<close>

text \<open>
  The circuits of \<open>circuits/src\<close> are written against the constraint system of the
  \<open>mpc-bulletproof\<close> crate and the scalars of \<open>curve25519-dalek\<close>. Both are parameters. Scalars
  are the elements of any field \<open>'f\<close>; the operations of a constraint system are the fields of
  \<open>cs_ops\<close>, an argument of every gadget. Its documented meaning is the locale
  \<open>constraint_system\<close>: which assignments \<open>\<rho>\<close> of values to variables satisfy the constraints
  collected so far, which variables exist, and which values the prover assigned.

  A linear combination is the list of its terms.
\<close>

lemma bind_call_Returns:
  assumes "bind_call c f = Returns y"
  obtains x where "c = Returns x" "f x = Returns y"
  using assms by (cases c) auto

type_synonym ('v, 'f) lc = "('v \<times> 'f) list"

definition lc_eval :: "('v \<Rightarrow> 'f::comm_ring_1) \<Rightarrow> ('v, 'f) lc \<Rightarrow> 'f" where
  "lc_eval \<rho> l = (\<Sum>(v, c)\<leftarrow>l. c * \<rho> v)"

definition lc_var :: "'v \<Rightarrow> ('v, 'f::comm_ring_1) lc" where
  "lc_var v = [(v, 1)]"

definition lc_add :: "('v, 'f) lc \<Rightarrow> ('v, 'f) lc \<Rightarrow> ('v, 'f) lc" where
  "lc_add a b = a @ b"

definition lc_scale :: "'f::comm_ring_1 \<Rightarrow> ('v, 'f) lc \<Rightarrow> ('v, 'f) lc" where
  "lc_scale k l = map (\<lambda>(v, c). (v, k * c)) l"

definition lc_neg :: "('v, 'f::comm_ring_1) lc \<Rightarrow> ('v, 'f) lc" where
  "lc_neg l = lc_scale (- 1) l"

definition lc_sub :: "('v, 'f::comm_ring_1) lc \<Rightarrow> ('v, 'f) lc \<Rightarrow> ('v, 'f) lc" where
  "lc_sub a b = lc_add a (lc_neg b)"

definition lc_vars :: "('v, 'f) lc \<Rightarrow> 'v set" where
  "lc_vars l = fst ` set l"

named_theorems lc_simps

lemma lc_eval_Nil [simp, lc_simps]: "lc_eval \<rho> [] = 0"
  by (simp add: lc_eval_def)

lemma lc_eval_var [simp, lc_simps]: "lc_eval \<rho> (lc_var v) = \<rho> v"
  by (simp add: lc_eval_def lc_var_def)

lemma lc_eval_add [simp, lc_simps]: "lc_eval \<rho> (lc_add a b) = lc_eval \<rho> a + lc_eval \<rho> b"
  by (simp add: lc_eval_def lc_add_def)

lemma lc_eval_scale [simp, lc_simps]: "lc_eval \<rho> (lc_scale k l) = k * lc_eval \<rho> l"
  by (induction l) (auto simp: lc_eval_def lc_scale_def algebra_simps)

lemma lc_eval_neg [simp, lc_simps]: "lc_eval \<rho> (lc_neg l) = - lc_eval \<rho> l"
  by (simp add: lc_neg_def)

lemma lc_eval_sub [simp, lc_simps]: "lc_eval \<rho> (lc_sub a b) = lc_eval \<rho> a - lc_eval \<rho> b"
  by (simp add: lc_sub_def)

lemma lc_vars_simps [simp]:
  "lc_vars [] = {}" "lc_vars (lc_var v) = {v}" "lc_vars (lc_add a b) = lc_vars a \<union> lc_vars b"
  "lc_vars (lc_scale k a) = lc_vars a" "lc_vars (lc_neg a) = lc_vars a" "lc_vars (lc_sub a b) = lc_vars a \<union> lc_vars b"
  by (force simp: lc_vars_def lc_var_def lc_add_def lc_scale_def lc_neg_def lc_sub_def)+

lemma lc_eval_cong: "(\<And>v. v \<in> lc_vars l \<Longrightarrow> \<rho> v = \<rho>' v) \<Longrightarrow> lc_eval \<rho> l = lc_eval \<rho>' l"
  unfolding lc_eval_def lc_vars_def by (rule arg_cong [where f = sum_list]) force

subsection \<open>The operations\<close>

record ('s, 'v, 'f) cs_ops =
  var_one :: 'v
  var_zero :: 'v
  cs_multiply :: "('v, 'f) lc \<Rightarrow> ('v, 'f) lc \<Rightarrow> 's \<Rightarrow> ('v \<times> 'v \<times> 'v) \<times> 's"
  cs_allocate :: "'f \<Rightarrow> 's \<Rightarrow> 'v \<times> 's"
  cs_constrain :: "('v, 'f) lc \<Rightarrow> 's \<Rightarrow> 's"
  cs_eval :: "('v, 'f) lc \<Rightarrow> 's \<Rightarrow> 'f"

definition lc_const :: "('s, 'v, 'f) cs_ops \<Rightarrow> 'f \<Rightarrow> ('v, 'f) lc" where
  "lc_const cs c = [(var_one cs, c)]"

abbreviation lc_one :: "('s, 'v, 'f::comm_ring_1) cs_ops \<Rightarrow> ('v, 'f) lc" where
  "lc_one cs \<equiv> lc_var (var_one cs)"

lemma lc_vars_const [simp]: "lc_vars (lc_const cs c) = {var_one cs}"
  by (simp add: lc_vars_def lc_const_def)

text \<open>A multiplication of which only the output wire is used.\<close>

definition cs_product :: "('s, 'v, 'f) cs_ops \<Rightarrow> ('v, 'f) lc \<Rightarrow> ('v, 'f) lc \<Rightarrow> 's \<Rightarrow> 'v \<times> 's" where
  "cs_product cs l r s = (case cs_multiply cs l r s of ((_, _, out), s') \<Rightarrow> (out, s'))"

subsection \<open>The contract\<close>

text \<open>
  Whether the constraints of a state only speak about its variables, and whether the values
  the prover assigned satisfy them.
\<close>

definition closed_state :: "('s \<Rightarrow> ('v \<Rightarrow> 'f) \<Rightarrow> bool) \<Rightarrow> ('s \<Rightarrow> 'v set) \<Rightarrow> 's \<Rightarrow> bool" where
  "closed_state sat wires s \<longleftrightarrow> (\<forall>\<rho> \<rho>'. (\<forall>v\<in>wires s. \<rho> v = \<rho>' v) \<longrightarrow> sat s \<rho> = sat s \<rho>')"

definition honest :: "('s \<Rightarrow> ('v \<Rightarrow> 'f) \<Rightarrow> bool) \<Rightarrow> ('s \<Rightarrow> 'v set) \<Rightarrow> ('s \<Rightarrow> 'v \<Rightarrow> 'f) \<Rightarrow> 's \<Rightarrow> bool" where
  "honest sat wires assigned s \<longleftrightarrow> closed_state sat wires s \<and> sat s (assigned s)"

text \<open>
  A later state keeps the constraints, the variables and the assigned values of an earlier
  one. It is \<open>unconstrained\<close> when
  every satisfying assignment of the earlier state extends to one of the later state.
\<close>

definition grows :: "('s \<Rightarrow> ('v \<Rightarrow> 'f) \<Rightarrow> bool) \<Rightarrow> ('s \<Rightarrow> 'v set) \<Rightarrow> ('s \<Rightarrow> 'v \<Rightarrow> 'f) \<Rightarrow> 's \<Rightarrow> 's \<Rightarrow> bool" where
  "grows sat wires assigned s s' \<longleftrightarrow>
    (\<forall>\<rho>. sat s' \<rho> \<longrightarrow> sat s \<rho>) \<and> wires s \<subseteq> wires s' \<and> (\<forall>v\<in>wires s. assigned s' v = assigned s v)"

definition unconstrained :: "('s \<Rightarrow> ('v \<Rightarrow> 'f) \<Rightarrow> bool) \<Rightarrow> ('s \<Rightarrow> 'v set) \<Rightarrow> 's \<Rightarrow> 's \<Rightarrow> bool" where
  "unconstrained sat wires s s' \<longleftrightarrow>
    (\<forall>\<rho>. sat s \<rho> \<longrightarrow> (\<exists>\<rho>'. (\<forall>v\<in>wires s. \<rho>' v = \<rho> v) \<and> sat s' \<rho>'))"

text \<open>
  A gadget run from \<open>s\<close> to \<open>s'\<close> with inputs over the variables \<open>V\<close> and outputs over \<open>W\<close> is
  sound when every satisfying assignment has the property \<open>Q\<close>, and complete when every
  assignment that satisfies the constraints before it extends to one that satisfies those after
  it, the prover's values among them.
\<close>

definition gadget :: "('s \<Rightarrow> ('v \<Rightarrow> 'f) \<Rightarrow> bool) \<Rightarrow> ('s \<Rightarrow> 'v set) \<Rightarrow> ('s \<Rightarrow> 'v \<Rightarrow> 'f) \<Rightarrow> 'v set \<Rightarrow> 'v set \<Rightarrow> 's \<Rightarrow> 's \<Rightarrow> (('v \<Rightarrow> 'f) \<Rightarrow> bool) \<Rightarrow> bool" where
  "gadget sat wires assigned V W s s' Q \<longleftrightarrow> grows sat wires assigned s s' \<and> (\<forall>\<rho>. sat s' \<rho> \<longrightarrow> Q \<rho>)
    \<and> (closed_state sat wires s \<longrightarrow> V \<subseteq> wires s \<longrightarrow> closed_state sat wires s' \<and> W \<subseteq> wires s' \<and> unconstrained sat wires s s')
    \<and> (honest sat wires assigned s \<longrightarrow> V \<subseteq> wires s \<longrightarrow> honest sat wires assigned s' \<and> W \<subseteq> wires s')"

locale constraint_system =
  fixes cs :: "('s, 'v, 'f::field) cs_ops"
    and sat :: "'s \<Rightarrow> ('v \<Rightarrow> 'f) \<Rightarrow> bool"
    and wires :: "'s \<Rightarrow> 'v set"
    and assigned :: "'s \<Rightarrow> 'v \<Rightarrow> 'f"
  assumes sat_constants: "sat s \<rho> \<Longrightarrow> \<rho> (var_one cs) = 1 \<and> \<rho> (var_zero cs) = 0"
    and sat_multiply: "cs_multiply cs l r s = ((a, b, out), s') \<Longrightarrow>
      sat s' \<rho> \<longleftrightarrow> sat s \<rho> \<and> \<rho> a = lc_eval \<rho> l \<and> \<rho> b = lc_eval \<rho> r \<and> \<rho> out = \<rho> a * \<rho> b"
    and sat_allocate: "cs_allocate cs x s = (v, s') \<Longrightarrow> sat s' \<rho> \<longleftrightarrow> sat s \<rho>"
    and sat_constrain: "sat (cs_constrain cs l s) \<rho> \<longleftrightarrow> sat s \<rho> \<and> lc_eval \<rho> l = 0"
    and wires_constants: "var_one cs \<in> wires s \<and> var_zero cs \<in> wires s"
    and wires_multiply: "cs_multiply cs l r s = ((a, b, out), s') \<Longrightarrow>
      distinct [a, b, out] \<and> {a, b, out} \<inter> wires s = {} \<and> wires s' = {a, b, out} \<union> wires s"
    and wires_allocate: "cs_allocate cs x s = (v, s') \<Longrightarrow> v \<notin> wires s \<and> wires s' = insert v (wires s)"
    and wires_constrain: "wires (cs_constrain cs l s) = wires s"
    and eval_assigned: "cs_eval cs l s = lc_eval (assigned s) l"
    and assigned_multiply: "cs_multiply cs l r s = ((a, b, out), s') \<Longrightarrow>
      assigned s' = (assigned s)(a := lc_eval (assigned s) l, b := lc_eval (assigned s) r,
        out := lc_eval (assigned s) l * lc_eval (assigned s) r)"
    and assigned_allocate: "cs_allocate cs x s = (v, s') \<Longrightarrow> assigned s' = (assigned s)(v := x)"
    and assigned_constrain: "assigned (cs_constrain cs l s) = assigned s"
begin

lemma product_sat:
  "cs_product cs l r s = (out, s') \<Longrightarrow> sat s' \<rho> \<Longrightarrow> sat s \<rho> \<and> \<rho> out = lc_eval \<rho> l * lc_eval \<rho> r"
  by (auto simp: cs_product_def sat_multiply split: prod.splits)

lemma constrain_sat: "sat (cs_constrain cs l s) \<rho> \<Longrightarrow> sat s \<rho> \<and> lc_eval \<rho> l = 0"
  by (simp add: sat_constrain)

lemma allocate_sat: "cs_allocate cs x s = (v, s') \<Longrightarrow> sat s' \<rho> \<Longrightarrow> sat s \<rho>"
  by (simp add: sat_allocate)

lemma const_eval: "sat s \<rho> \<Longrightarrow> lc_eval \<rho> (lc_const cs c) = c"
  using sat_constants [of s \<rho>] by (simp add: lc_const_def lc_eval_def)

lemma one_eval: "sat s \<rho> \<Longrightarrow> \<rho> (var_one cs) = 1"
  using sat_constants by blast

abbreviation hon :: "'s \<Rightarrow> bool" where "hon \<equiv> honest sat wires assigned"

abbreviation gro :: "'s \<Rightarrow> 's \<Rightarrow> bool" where "gro \<equiv> grows sat wires assigned"

lemma grows_refl [simp, intro]: "gro s s"
  by (simp add: grows_def)

lemma grows_trans [trans]: "gro s t \<Longrightarrow> gro t u \<Longrightarrow> gro s u"
  unfolding grows_def by (metis subset_iff)

lemma grows_sat: "gro s t \<Longrightarrow> sat t \<rho> \<Longrightarrow> sat s \<rho>"
  by (simp add: grows_def)

lemma grows_wires: "gro s t \<Longrightarrow> V \<subseteq> wires s \<Longrightarrow> V \<subseteq> wires t"
  by (auto simp: grows_def)

lemma grows_value: "gro s t \<Longrightarrow> lc_vars l \<subseteq> wires s \<Longrightarrow> lc_eval (assigned t) l = lc_eval (assigned s) l"
  by (rule lc_eval_cong) (auto simp: grows_def)

lemma honest_sat: "hon s \<Longrightarrow> sat s (assigned s)"
  by (simp add: honest_def)

lemma multiply_grows:
  assumes "cs_multiply cs l r s = ((a, b, out), s')"
  shows "gro s s'"
  using sat_multiply [OF assms] wires_multiply [OF assms] assigned_multiply [OF assms]
  by (auto simp: grows_def)

lemma allocate_grows: "cs_allocate cs x s = (v, s') \<Longrightarrow> gro s s'"
  by (auto simp: grows_def sat_allocate assigned_allocate dest: wires_allocate)

lemma constrain_grows [simp]: "gro s (cs_constrain cs l s)"
  by (simp add: grows_def sat_constrain wires_constrain assigned_constrain)

lemma product_grows: "cs_product cs l r s = (out, s') \<Longrightarrow> gro s s'"
  by (auto simp: cs_product_def intro: multiply_grows split: prod.splits)

lemma closed_agree: "closed_state sat wires s \<Longrightarrow> (\<And>v. v \<in> wires s \<Longrightarrow> \<rho> v = \<rho>' v) \<Longrightarrow> sat s \<rho> = sat s \<rho>'"
  by (auto simp: closed_state_def)

lemma multiply_closed:
  assumes run: "cs_multiply cs l r s = ((a, b, out), s')" and closed: "closed_state sat wires s"
    and scope: "lc_vars l \<union> lc_vars r \<subseteq> wires s"
  shows "closed_state sat wires s'"
  unfolding closed_state_def
proof (intro allI impI)
  fix \<rho> \<rho>' :: "'v \<Rightarrow> 'f" assume agree: "\<forall>v\<in>wires s'. \<rho> v = \<rho>' v"
  have "sat s \<rho> = sat s \<rho>'" "lc_eval \<rho> l = lc_eval \<rho>' l" "lc_eval \<rho> r = lc_eval \<rho>' r"
    using agree scope wires_multiply [OF run] by (auto intro!: closed_agree [OF closed] lc_eval_cong)
  then show "sat s' \<rho> = sat s' \<rho>'"
    using agree wires_multiply [OF run] by (simp add: sat_multiply [OF run])
qed

lemma multiply_honest:
  assumes run: "cs_multiply cs l r s = ((a, b, out), s')" and hon: "hon s"
    and scope: "lc_vars l \<union> lc_vars r \<subseteq> wires s"
  shows "hon s' \<and> {a, b, out} \<subseteq> wires s'"
proof -
  have eval: "lc_eval (assigned s') l = lc_eval (assigned s) l" "lc_eval (assigned s') r = lc_eval (assigned s) r"
    using scope by (auto intro!: grows_value [OF multiply_grows [OF run]])
  have "sat s (assigned s')"
    using hon multiply_grows [OF run] closed_agree [of s "assigned s'" "assigned s"]
    by (simp add: honest_def grows_def)
  moreover have "assigned s' a = lc_eval (assigned s) l" "assigned s' b = lc_eval (assigned s) r"
    "assigned s' out = lc_eval (assigned s) l * lc_eval (assigned s) r"
    using wires_multiply [OF run] by (simp_all add: assigned_multiply [OF run])
  ultimately show ?thesis
    using hon multiply_closed [OF run _ scope] wires_multiply [OF run]
    by (simp add: honest_def sat_multiply [OF run] eval)
qed

lemma product_honest:
  "cs_product cs l r s = (out, s') \<Longrightarrow> hon s \<Longrightarrow> lc_vars l \<union> lc_vars r \<subseteq> wires s \<Longrightarrow> hon s' \<and> out \<in> wires s'"
  by (auto simp: cs_product_def dest: multiply_honest split: prod.splits)

lemma product_value:
  "cs_product cs l r s = (out, s') \<Longrightarrow> assigned s' out = lc_eval (assigned s) l * lc_eval (assigned s) r"
  by (auto simp: cs_product_def dest: assigned_multiply split: prod.splits)

lemma allocate_honest:
  assumes "cs_allocate cs x s = (v, s')" "hon s"
  shows "hon s' \<and> v \<in> wires s' \<and> assigned s' v = x"
proof -
  have "closed_state sat wires s'"
    using assms wires_allocate [OF assms(1)] by (simp add: honest_def closed_state_def sat_allocate [OF assms(1)])
  moreover have "sat s (assigned s')"
    using assms(2) allocate_grows [OF assms(1)] closed_agree [of s "assigned s'" "assigned s"]
    by (simp add: honest_def grows_def)
  ultimately show ?thesis
    using wires_allocate [OF assms(1)] by (simp add: honest_def sat_allocate [OF assms(1)] assigned_allocate [OF assms(1)])
qed

lemma constrain_closed:
  assumes "closed_state sat wires s" "lc_vars l \<subseteq> wires s"
  shows "closed_state sat wires (cs_constrain cs l s)"
  unfolding closed_state_def
proof (intro allI impI)
  fix \<rho> \<rho>' :: "'v \<Rightarrow> 'f" assume agree: "\<forall>v\<in>wires (cs_constrain cs l s). \<rho> v = \<rho>' v"
  have "sat s \<rho> = sat s \<rho>'" "lc_eval \<rho> l = lc_eval \<rho>' l"
    using agree assms(2) by (auto intro!: closed_agree [OF assms(1)] lc_eval_cong simp: wires_constrain)
  then show "sat (cs_constrain cs l s) \<rho> = sat (cs_constrain cs l s) \<rho>'"
    by (simp add: sat_constrain)
qed

lemma constrain_honest:
  "hon s \<Longrightarrow> lc_vars l \<subseteq> wires s \<Longrightarrow> lc_eval (assigned s) l = 0 \<Longrightarrow> hon (cs_constrain cs l s)"
  by (simp add: honest_def constrain_closed sat_constrain assigned_constrain)

text \<open>Extending an assignment past one operation of the constraint system.\<close>

abbreviation closed :: "'s \<Rightarrow> bool" where "closed \<equiv> closed_state sat wires"

lemma allocate_closed: "cs_allocate cs x s = (v, s') \<Longrightarrow> closed s \<Longrightarrow> closed s'"
  using wires_allocate [of x s v s'] by (simp add: closed_state_def sat_allocate)

lemma product_closed: "cs_product cs l r s = (out, s') \<Longrightarrow> closed s \<Longrightarrow> lc_vars l \<union> lc_vars r \<subseteq> wires s \<Longrightarrow> closed s'"
  by (auto simp: cs_product_def intro: multiply_closed split: prod.splits)

lemma closed_transfer: "closed s \<Longrightarrow> sat s \<rho> \<Longrightarrow> \<forall>v\<in>wires s. \<rho>' v = \<rho> v \<Longrightarrow> sat s \<rho>'"
  unfolding closed_state_def by blast

lemma product_wires: "cs_product cs l r s = (out, s') \<Longrightarrow> insert out (wires s) \<subseteq> wires s'"
  using wires_multiply by (fastforce simp: cs_product_def split: prod.splits)

lemma allocate_extend:
  assumes "cs_allocate cs x s = (v, s')" "closed s" "sat s \<rho>"
  shows "\<exists>\<rho>'. (\<forall>u\<in>wires s. \<rho>' u = \<rho> u) \<and> sat s' \<rho>' \<and> \<rho>' v = y"
proof -
  have "sat s (\<rho>(v := y))"
    using wires_allocate [OF assms(1)] by (intro closed_transfer [OF assms(2,3)]) auto
  then show ?thesis
    using wires_allocate [OF assms(1)] by (intro exI [of _ "\<rho>(v := y)"]) (auto simp: sat_allocate [OF assms(1)])
qed

lemma product_extend:
  assumes "cs_product cs l r s = (out, s')" "closed s" "sat s \<rho>" "lc_vars l \<union> lc_vars r \<subseteq> wires s"
  shows "\<exists>\<rho>'. (\<forall>u\<in>wires s. \<rho>' u = \<rho> u) \<and> sat s' \<rho>' \<and> \<rho>' out = lc_eval \<rho> l * lc_eval \<rho> r"
proof -
  obtain a b where run: "cs_multiply cs l r s = ((a, b, out), s')"
    using assms(1) by (auto simp: cs_product_def split: prod.splits)
  let ?\<rho> = "\<rho>(a := lc_eval \<rho> l, b := lc_eval \<rho> r, out := lc_eval \<rho> l * lc_eval \<rho> r)"
  have agree: "\<forall>u\<in>wires s. ?\<rho> u = \<rho> u"
    using wires_multiply [OF run] by auto
  have "sat s ?\<rho>" "lc_eval ?\<rho> l = lc_eval \<rho> l" "lc_eval ?\<rho> r = lc_eval \<rho> r"
    using agree assms(4) by (auto intro!: lc_eval_cong closed_transfer [OF assms(2,3)])
  moreover have "?\<rho> a = lc_eval \<rho> l" "?\<rho> b = lc_eval \<rho> r" "?\<rho> out = lc_eval \<rho> l * lc_eval \<rho> r"
    using wires_multiply [OF run] by auto
  ultimately have "sat s' ?\<rho>"
    by (simp only: sat_multiply [OF run])
  then show ?thesis
    using agree by (intro exI [of _ ?\<rho>]) simp
qed

lemma unconstrained_refl [simp]: "unconstrained sat wires s s"
  by (auto simp: unconstrained_def)

lemma unconstrained_trans:
  assumes "unconstrained sat wires s t" "unconstrained sat wires t u" "wires s \<subseteq> wires t"
  shows "unconstrained sat wires s u"
  unfolding unconstrained_def
proof (intro allI impI)
  fix \<rho> assume "sat s \<rho>"
  then obtain \<rho>1 where 1: "\<forall>v\<in>wires s. \<rho>1 v = \<rho> v" "sat t \<rho>1"
    using assms(1) unfolding unconstrained_def by blast
  then obtain \<rho>2 where "\<forall>v\<in>wires t. \<rho>2 v = \<rho>1 v" "sat u \<rho>2"
    using assms(2) unfolding unconstrained_def by blast
  with 1 show "\<exists>\<rho>'. (\<forall>v\<in>wires s. \<rho>' v = \<rho> v) \<and> sat u \<rho>'"
    using assms(3) by (intro exI [of _ \<rho>2]) auto
qed

abbreviation gad :: "'v set \<Rightarrow> 'v set \<Rightarrow> 's \<Rightarrow> 's \<Rightarrow> (('v \<Rightarrow> 'f) \<Rightarrow> bool) \<Rightarrow> bool" where
  "gad \<equiv> gadget sat wires assigned"

lemma gadgetI:
  assumes "gro s s'" "\<And>\<rho>. sat s' \<rho> \<Longrightarrow> Q \<rho>" "closed s \<Longrightarrow> V \<subseteq> wires s \<Longrightarrow> closed s' \<and> W \<subseteq> wires s'"
    "\<And>\<rho>. closed s \<Longrightarrow> V \<subseteq> wires s \<Longrightarrow> sat s \<rho> \<Longrightarrow> \<exists>\<rho>'. (\<forall>v\<in>wires s. \<rho>' v = \<rho> v) \<and> sat s' \<rho>'"
    "hon s \<Longrightarrow> V \<subseteq> wires s \<Longrightarrow> hon s' \<and> W \<subseteq> wires s'"
  shows "gad V W s s' Q"
  using assms by (simp add: gadget_def unconstrained_def)

lemma gadget_sound: "gad V W s s' Q \<Longrightarrow> sat s' \<rho> \<Longrightarrow> sat s \<rho> \<and> Q \<rho>"
  by (simp add: gadget_def grows_def)

lemma gadget_grows: "gad V W s s' Q \<Longrightarrow> gro s s'"
  by (simp add: gadget_def)

lemma gadget_honest: "gad V W s s' Q \<Longrightarrow> hon s \<Longrightarrow> V \<subseteq> wires s \<Longrightarrow> hon s' \<and> W \<subseteq> wires s'"
  by (simp add: gadget_def)

lemma gadget_complete:
  "gad V W s s' Q \<Longrightarrow> closed s \<Longrightarrow> V \<subseteq> wires s \<Longrightarrow> closed s' \<and> W \<subseteq> wires s' \<and> unconstrained sat wires s s'"
  by (simp add: gadget_def)

lemma gadget_stay: "gad V {var_one cs, var_zero cs} s s (\<lambda>\<rho>. \<rho> (var_one cs) = 1 \<and> \<rho> (var_zero cs) = 0)"
  using wires_constants [of s] sat_constants by (auto simp: gadget_def)

lemma gadget_seq:
  assumes "gad V W s t Q" "gad V' W' t u Q'" "V' \<subseteq> V \<union> W \<union> {var_one cs, var_zero cs}"
  shows "gad V (W \<union> W') s u (\<lambda>\<rho>. Q \<rho> \<and> Q' \<rho>)"
proof -
  have grow: "gro s t" "gro t u" and sound: "\<And>\<rho>. sat u \<rho> \<Longrightarrow> Q \<rho> \<and> Q' \<rho>"
    using assms(1,2) gadget_sound by (blast intro: gadget_grows)+
  have "hon u \<and> W \<union> W' \<subseteq> wires u" if "hon s" "V \<subseteq> wires s"
    using gadget_honest [OF assms(1) that] gadget_honest [OF assms(2)] assms(3)
      grows_wires [OF grow(1) that(2)] grows_wires [OF grow(2)] wires_constants [of t] by blast
  moreover have "closed u \<and> W \<union> W' \<subseteq> wires u \<and> unconstrained sat wires s u" if "closed s" "V \<subseteq> wires s"
  proof -
    have t: "closed t" "W \<subseteq> wires t" "unconstrained sat wires s t"
      using gadget_complete [OF assms(1) that] by blast+
    have "V' \<subseteq> wires t"
      using assms(3) t(2) grows_wires [OF grow(1) that(2)] wires_constants [of t] by blast
    from gadget_complete [OF assms(2) t(1) this] show ?thesis
      using t grow unconstrained_trans [of s t u] by (auto simp: grows_def)
  qed
  ultimately show ?thesis
    using grow sound grows_trans [OF grow] by (simp add: gadget_def)
qed

lemma gadget_weaken:
  assumes "gad V W s t Q" "V \<subseteq> V' \<union> {var_one cs, var_zero cs}" "W' \<subseteq> V' \<union> W \<union> {var_one cs, var_zero cs}"
    "\<And>\<rho>. sat t \<rho> \<Longrightarrow> Q \<rho> \<Longrightarrow> Q' \<rho>"
  shows "gad V' W' s t Q'"
proof -
  have "hon t \<and> W' \<subseteq> wires t" if "hon s" "V' \<subseteq> wires s"
    using gadget_honest [OF assms(1) that(1)] assms(2,3) that(2) wires_constants [of s] wires_constants [of t]
      grows_wires [OF gadget_grows [OF assms(1)] that(2)] by blast
  moreover have "closed t \<and> W' \<subseteq> wires t \<and> unconstrained sat wires s t" if "closed s" "V' \<subseteq> wires s"
    using gadget_complete [OF assms(1) that(1)] assms(2,3) that(2) wires_constants [of s] wires_constants [of t]
      grows_wires [OF gadget_grows [OF assms(1)] that(2)] by blast
  ultimately show ?thesis
    using assms(1,4) by (simp add: gadget_def)
qed

lemma gadget_chain:
  assumes "gad V1 W1 s t Q1" "gad V2 W2 t u Q2" "V1 \<subseteq> V \<union> {var_one cs, var_zero cs}"
    "V2 \<subseteq> V \<union> W1 \<union> {var_one cs, var_zero cs}" "W \<subseteq> V \<union> W1 \<union> W2 \<union> {var_one cs, var_zero cs}"
    "\<And>\<rho>. sat u \<rho> \<Longrightarrow> Q1 \<rho> \<Longrightarrow> Q2 \<rho> \<Longrightarrow> Q \<rho>"
  shows "gad V W s u Q"
proof -
  have "gad V W1 s t Q1"
    using assms(1,3) by (rule gadget_weaken) auto
  from gadget_seq [OF this assms(2,4)] show ?thesis
    using assms(5,6) by (elim gadget_weaken) auto
qed

lemma product_gadget:
  assumes "cs_product cs l r s = (out, s')"
  shows "gad (lc_vars l \<union> lc_vars r) {out} s s' (\<lambda>\<rho>. \<rho> out = lc_eval \<rho> l * lc_eval \<rho> r)"
  using product_grows [OF assms] product_sat [OF assms] product_closed [OF assms] product_wires [OF assms]
    product_extend [OF assms] product_honest [OF assms]
  by (intro gadgetI) (simp_all, metis)

end

subsection \<open>A prover with explicit constraints\<close>

text \<open>
  An instance of the contract: the variables are numbered, with 0 for the constant one and 1
  for the constant zero; the state holds the values of the variables in order and the
  constraints, a product \<open>(l, r, out)\<close> or a linear combination that is zero.
\<close>

datatype 'f r1cs_row = Product "(nat, 'f) lc" "(nat, 'f) lc" nat | Linear "(nat, 'f) lc"

record 'f r1cs =
  r1cs_values :: "'f list"
  r1cs_rows :: "'f r1cs_row list"

definition r1cs_new :: "'f::field r1cs" where
  "r1cs_new = \<lparr>r1cs_values = [], r1cs_rows = []\<rparr>"

definition r1cs_assigned :: "'f::field r1cs \<Rightarrow> nat \<Rightarrow> 'f" where
  "r1cs_assigned s v = (if v = 0 then 1 else if v - 2 < length (r1cs_values s) \<and> 2 \<le> v then r1cs_values s ! (v - 2) else 0)"

definition r1cs_wires :: "'f::field r1cs \<Rightarrow> nat set" where
  "r1cs_wires s = {..<length (r1cs_values s) + 2}"

fun row_holds :: "(nat \<Rightarrow> 'f::field) \<Rightarrow> 'f r1cs_row \<Rightarrow> bool" where
  "row_holds \<rho> (Product l r out) \<longleftrightarrow>
    \<rho> out = lc_eval \<rho> l \<and> \<rho> (out + 1) = lc_eval \<rho> r \<and> \<rho> (out + 2) = \<rho> out * \<rho> (out + 1)"
| "row_holds \<rho> (Linear l) \<longleftrightarrow> lc_eval \<rho> l = 0"

definition r1cs_sat :: "'f::field r1cs \<Rightarrow> (nat \<Rightarrow> 'f) \<Rightarrow> bool" where
  "r1cs_sat s \<rho> \<longleftrightarrow> \<rho> 0 = 1 \<and> \<rho> 1 = 0 \<and> list_all (row_holds \<rho>) (r1cs_rows s)"

definition r1cs_ops :: "('f::field r1cs, nat, 'f) cs_ops" where
  "r1cs_ops = \<lparr>var_one = 0, var_zero = 1,
    cs_multiply = (\<lambda>l r s. let n = length (r1cs_values s) + 2; x = lc_eval (r1cs_assigned s) l; y = lc_eval (r1cs_assigned s) r in
      ((n, n + 1, n + 2), \<lparr>r1cs_values = r1cs_values s @ [x, y, x * y], r1cs_rows = r1cs_rows s @ [Product l r n]\<rparr>)),
    cs_allocate = (\<lambda>x s. (length (r1cs_values s) + 2, s\<lparr>r1cs_values := r1cs_values s @ [x]\<rparr>)),
    cs_constrain = (\<lambda>l s. s\<lparr>r1cs_rows := r1cs_rows s @ [Linear l]\<rparr>),
    cs_eval = (\<lambda>l s. lc_eval (r1cs_assigned s) l)\<rparr>"

interpretation r1cs: constraint_system "r1cs_ops :: ('f::field r1cs, nat, 'f) cs_ops" r1cs_sat r1cs_wires r1cs_assigned
  by unfold_locales
    (auto simp: r1cs_ops_def r1cs_sat_def r1cs_wires_def r1cs_assigned_def Let_def fun_eq_iff nth_append)

end
