(* ===== verification/Gadgets.thy ===== *)
theory Gadgets
  imports Constraint_System
begin

section \<open>Zero-knowledge gadgets\<close>

text \<open>
  The single-prover gadgets of \<open>circuits/src/zk_gadgets\<close>: gates, comparators, bit
  decomposition, selection and arithmetic. A gadget takes the constraint system's operations,
  its inputs as linear combinations and the state, and returns its output with the new state;
  those with an \<open>assert!\<close> or a slice that may be out of range return a \<open>call\<close>.

  \<open>repr\<close> is the canonical integer of a scalar (\<open>Scalar::as_bytes\<close>, little endian). The
  allocations of the prover depend on it, the constraints do not.
\<close>

subsection \<open>Gates\<close>

definition or_gate :: "('s, 'v, 'f::field) cs_ops \<Rightarrow> ('v, 'f) lc \<Rightarrow> ('v, 'f) lc \<Rightarrow> 's \<Rightarrow> ('v, 'f) lc \<times> 's" where
  "or_gate cs a b s = (case cs_multiply cs a b s of ((a, b, a_times_b), s) \<Rightarrow>
    (lc_sub (lc_add (lc_var a) (lc_var b)) (lc_var a_times_b), s))"

definition and_gate :: "('s, 'v, 'f::field) cs_ops \<Rightarrow> ('v, 'f) lc \<Rightarrow> ('v, 'f) lc \<Rightarrow> 's \<Rightarrow> 'v \<times> 's" where
  "and_gate cs a b s = cs_product cs a b s"

definition constrain_binary :: "('s, 'v, 'f::field) cs_ops \<Rightarrow> ('v, 'f) lc \<Rightarrow> 's \<Rightarrow> 's" where
  "constrain_binary cs x s = (case cs_product cs x (lc_sub (lc_one cs) x) s of (mul_out, s) \<Rightarrow>
    cs_constrain cs (lc_var mul_out) s)"

subsection \<open>Equality\<close>

definition eq_zero :: "('s, 'v, 'f::field) cs_ops \<Rightarrow> ('v, 'f) lc \<Rightarrow> 's \<Rightarrow> 'v \<times> 's" where
  "eq_zero cs val s =
    (let val_eval = cs_eval cs val s;
      (is_zero, inv) = (if val_eval = 0 then (1, 0) else (0, inverse val_eval));
      (is_zero_var, s) = cs_allocate cs is_zero s;
      (inv_var, s) = cs_allocate cs inv s;
      (val_times_inv, s) = cs_product cs val (lc_var inv_var) s;
      s = cs_constrain cs (lc_add (lc_sub (lc_var is_zero_var) (lc_const cs 1)) (lc_var val_times_inv)) s;
      (in_times_out, s) = cs_product cs val (lc_var is_zero_var) s;
      s = cs_constrain cs (lc_var in_times_out) s
    in (is_zero_var, s))"

definition eq_gadget :: "('s, 'v, 'f::field) cs_ops \<Rightarrow> ('v, 'f) lc \<Rightarrow> ('v, 'f) lc \<Rightarrow> 's \<Rightarrow> 'v \<times> 's" where
  "eq_gadget cs a b s = eq_zero cs (lc_sub a b) s"

definition not_equal :: "('s, 'v, 'f::field) cs_ops \<Rightarrow> ('v, 'f) lc \<Rightarrow> ('v, 'f) lc \<Rightarrow> 's \<Rightarrow> ('v, 'f) lc \<times> 's" where
  "not_equal cs a b s = (case eq_zero cs (lc_sub a b) s of (is_eq, s) \<Rightarrow>
    (lc_sub (lc_one cs) (lc_var is_eq), s))"

fun not_equal_values :: "('s, 'v, 'f::field) cs_ops \<Rightarrow> (('v, 'f) lc \<times> ('v, 'f) lc) list \<Rightarrow> 's \<Rightarrow> ('v, 'f) lc list \<times> 's" where
  "not_equal_values cs [] s = ([], s)"
| "not_equal_values cs ((a, b) # rest) s = (case not_equal cs a b s of (ne, s) \<Rightarrow>
    case not_equal_values cs rest s of (nes, s) \<Rightarrow> (ne # nes, s))"

definition eq_vec :: "('s, 'v, 'f::field) cs_ops \<Rightarrow> ('v, 'f) lc list \<Rightarrow> ('v, 'f) lc list \<Rightarrow> 's \<Rightarrow> ('v \<times> 's) call" where
  "eq_vec cs a b s = (if length a \<noteq> length b then Panics
    else (case not_equal_values cs (zip a b) s of (nes, s) \<Rightarrow>
      Returns (eq_zero cs (foldl lc_add (lc_var (var_zero cs)) nes) s)))"

definition constrain_eq_vec :: "('s, 'v, 'f::field) cs_ops \<Rightarrow> ('v, 'f) lc list \<Rightarrow> ('v, 'f) lc list \<Rightarrow> 's \<Rightarrow> 's call" where
  "constrain_eq_vec cs a b s = (if length a \<noteq> length b then Panics
    else Returns (fold (\<lambda>(a_lc, b_lc). cs_constrain cs (lc_sub a_lc b_lc)) (zip a b) s))"

subsection \<open>Order\<close>

definition POSITIVE_SCALAR_MAX_BITS :: nat where
  "POSITIVE_SCALAR_MAX_BITS = 251"

definition scalar_to_bits_le :: "('f::field \<Rightarrow> nat) \<Rightarrow> 'f \<Rightarrow> 'f list" where
  "scalar_to_bits_le repr a = map (\<lambda>i. if odd (repr a div 2 ^ i) then 1 else 0) [0..<256]"

fun allocate_all :: "('s, 'v, 'f::field) cs_ops \<Rightarrow> 'f list \<Rightarrow> 's \<Rightarrow> 'v list \<times> 's" where
  "allocate_all cs [] s = ([], s)"
| "allocate_all cs (x # xs) s = (case cs_allocate cs x s of (v, s) \<Rightarrow>
    case allocate_all cs xs s of (vs, s) \<Rightarrow> (v # vs, s))"

definition bit_decompose_reconstruct ::
  "nat \<Rightarrow> ('f \<Rightarrow> nat) \<Rightarrow> ('s, 'v, 'f::field) cs_ops \<Rightarrow> ('v, 'f) lc \<Rightarrow> 's \<Rightarrow> (('v, 'f) lc \<times> 's) call" where
  "bit_decompose_reconstruct D repr cs x s = (if D > POSITIVE_SCALAR_MAX_BITS then Panics
    else (case allocate_all cs (take D (scalar_to_bits_le repr (cs_eval cs x s))) s of (bits, s) \<Rightarrow>
      Returns (foldl (\<lambda>res bit. lc_add (lc_scale 2 res) (lc_var bit)) [] (rev bits), s)))"

definition greater_than_zero ::
  "nat \<Rightarrow> ('f \<Rightarrow> nat) \<Rightarrow> ('s, 'v, 'f::field) cs_ops \<Rightarrow> ('v, 'f) lc \<Rightarrow> 's \<Rightarrow> ('v \<times> 's) call" where
  "greater_than_zero D repr cs x s = bind_call (bit_decompose_reconstruct D repr cs x s)
    (\<lambda>(reconstructed, s). Returns (eq_zero cs (lc_sub reconstructed x) s))"

definition constrain_greater_than_zero ::
  "nat \<Rightarrow> ('f \<Rightarrow> nat) \<Rightarrow> ('s, 'v, 'f::field) cs_ops \<Rightarrow> ('v, 'f) lc \<Rightarrow> 's \<Rightarrow> 's call" where
  "constrain_greater_than_zero D repr cs x s = bind_call (bit_decompose_reconstruct D repr cs x s)
    (\<lambda>(reconstructed, s). Returns (cs_constrain cs (lc_sub reconstructed x) s))"

definition greater_than_eq ::
  "nat \<Rightarrow> ('f \<Rightarrow> nat) \<Rightarrow> ('s, 'v, 'f::field) cs_ops \<Rightarrow> ('v, 'f) lc \<Rightarrow> ('v, 'f) lc \<Rightarrow> 's \<Rightarrow> ('v \<times> 's) call" where
  "greater_than_eq D repr cs a b s = greater_than_zero D repr cs (lc_sub a b) s"

definition constrain_greater_than_eq ::
  "nat \<Rightarrow> ('f \<Rightarrow> nat) \<Rightarrow> ('s, 'v, 'f::field) cs_ops \<Rightarrow> ('v, 'f) lc \<Rightarrow> ('v, 'f) lc \<Rightarrow> 's \<Rightarrow> 's call" where
  "constrain_greater_than_eq D repr cs a b s = constrain_greater_than_zero D repr cs (lc_sub a b) s"

definition less_than ::
  "nat \<Rightarrow> ('f \<Rightarrow> nat) \<Rightarrow> ('s, 'v, 'f::field) cs_ops \<Rightarrow> ('v, 'f) lc \<Rightarrow> ('v, 'f) lc \<Rightarrow> 's \<Rightarrow> (('v, 'f) lc \<times> 's) call" where
  "less_than D repr cs a b s = bind_call (greater_than_eq D repr cs a b s)
    (\<lambda>(a_geq_b, s). Returns (lc_sub (lc_one cs) (lc_var a_geq_b), s))"

definition constrain_less_than ::
  "nat \<Rightarrow> ('f \<Rightarrow> nat) \<Rightarrow> ('s, 'v, 'f::field) cs_ops \<Rightarrow> ('v, 'f) lc \<Rightarrow> ('v, 'f) lc \<Rightarrow> 's \<Rightarrow> 's call" where
  "constrain_less_than D repr cs a b s = bind_call (less_than D repr cs a b s)
    (\<lambda>(lt_result, s). Returns (cs_constrain cs (lc_sub (lc_one cs) lt_result) s))"

subsection \<open>Bits and selection\<close>

definition to_bits ::
  "nat \<Rightarrow> ('f \<Rightarrow> nat) \<Rightarrow> ('s, 'v, 'f::field) cs_ops \<Rightarrow> ('v, 'f) lc \<Rightarrow> 's \<Rightarrow> ('v list \<times> 's) call" where
  "to_bits D repr cs a s = (if D > 256 then Panics
    else (case allocate_all cs (take D (scalar_to_bits_le repr (cs_eval cs a s))) s of (res_bits, s) \<Rightarrow>
      let reconstructed = foldl (\<lambda>acc (index, bit). lc_add acc (lc_scale (2 ^ index) (lc_var bit))) [] (enumerate 0 res_bits)
      in Returns (res_bits, cs_constrain cs (lc_sub reconstructed a) s)))"

definition select_gadget ::
  "('s, 'v, 'f::field) cs_ops \<Rightarrow> ('v, 'f) lc \<Rightarrow> ('v, 'f) lc \<Rightarrow> ('v, 'f) lc \<Rightarrow> 's \<Rightarrow> ('v, 'f) lc \<times> 's" where
  "select_gadget cs a b selector s =
    (case cs_product cs a selector s of (mul1_out, s) \<Rightarrow>
     case cs_product cs b (lc_sub (lc_one cs) selector) s of (mul2_out, s) \<Rightarrow>
     (lc_add (lc_var mul1_out) (lc_var mul2_out), s))"

fun select_each ::
  "('s, 'v, 'f::field) cs_ops \<Rightarrow> ('v, 'f) lc \<Rightarrow> (('v, 'f) lc \<times> ('v, 'f) lc) list \<Rightarrow> 's \<Rightarrow> ('v, 'f) lc list \<times> 's" where
  "select_each cs selector [] s = ([], s)"
| "select_each cs selector ((a, b) # rest) s = (case select_gadget cs a b selector s of (x, s) \<Rightarrow>
    case select_each cs selector rest s of (xs, s) \<Rightarrow> (x # xs, s))"

definition select_vector ::
  "('s, 'v, 'f::field) cs_ops \<Rightarrow> ('v, 'f) lc list \<Rightarrow> ('v, 'f) lc list \<Rightarrow> ('v, 'f) lc \<Rightarrow> 's \<Rightarrow> (('v, 'f) lc list \<times> 's) call" where
  "select_vector cs a b selector s = (if length a \<noteq> length b then Panics
    else Returns (select_each cs selector (zip a b) s))"

subsection \<open>Arithmetic\<close>

definition div_rem ::
  "nat \<Rightarrow> ('f \<Rightarrow> nat) \<Rightarrow> ('s, 'v, 'f::field) cs_ops \<Rightarrow> ('v, 'f) lc \<Rightarrow> ('v, 'f) lc \<Rightarrow> 's \<Rightarrow> (('v \<times> 'v) \<times> 's) call" where
  "div_rem D repr cs a b s =
    (let a_bigint = repr (cs_eval cs a s);
      b_bigint = repr (cs_eval cs b s);
      (q, r) = (if b_bigint = 0 then (0, b_bigint) else (a_bigint div b_bigint, a_bigint mod b_bigint));
      (q_var, s) = cs_allocate cs (of_nat q) s;
      (r_var, s) = cs_allocate cs (of_nat r) s;
      (bq, s) = cs_product cs b (lc_var q_var) s;
      s = cs_constrain cs (lc_sub (lc_sub a (lc_var bq)) (lc_var r_var)) s
    in bind_call (constrain_less_than D repr cs (lc_var r_var) b s) (\<lambda>s. Returns ((q_var, r_var), s)))"

fun exp_gadget :: "('s, 'v, 'f::field) cs_ops \<Rightarrow> ('v, 'f) lc \<Rightarrow> nat \<Rightarrow> 's \<Rightarrow> ('v, 'f) lc \<times> 's" where
  "exp_gadget cs x alpha s =
    (if alpha = 0 then (lc_const cs 1, s)
     else if alpha = 1 then (x, s)
     else if alpha mod 2 = 0 then
       (case exp_gadget cs x (alpha div 2) s of (recursive_result, s) \<Rightarrow>
        case cs_product cs recursive_result recursive_result s of (out_var, s) \<Rightarrow> (lc_var out_var, s))
     else
       (case exp_gadget cs x ((alpha - 1) div 2) s of (recursive_result, s) \<Rightarrow>
        case cs_product cs recursive_result recursive_result s of (out_var1, s) \<Rightarrow>
        case cs_product cs (lc_var out_var1) x s of (out_var2, s) \<Rightarrow> (lc_var out_var2, s)))"

declare exp_gadget.simps [simp del]

definition all_bits_zero :: "('s, 'v, 'f::field) cs_ops \<Rightarrow> 'v list \<Rightarrow> 's \<Rightarrow> 'v \<times> 's" where
  "all_bits_zero cs bits s = eq_zero cs (foldl (\<lambda>acc bit. lc_add acc (lc_var bit)) (lc_var (var_zero cs)) bits) s"

text \<open>The two private exponentiations, with the base public and with the base private.\<close>

fun exp_private_fixed_base_impl ::
  "('s, 'v, 'f::field) cs_ops \<Rightarrow> 'f \<Rightarrow> 'v list \<Rightarrow> 's \<Rightarrow> ('v, 'f) lc \<times> 's" where
  "exp_private_fixed_base_impl cs x [] s = (lc_const cs 1, s)"
| "exp_private_fixed_base_impl cs x (is_odd # rest) s =
    (case all_bits_zero cs (is_odd # rest) s of (alpha_zero, s) \<Rightarrow>
     case exp_private_fixed_base_impl cs x rest s of (recursive_result, s) \<Rightarrow>
     case cs_product cs recursive_result recursive_result s of (recursive_doubled, s) \<Rightarrow>
     case select_gadget cs (lc_scale x (lc_var recursive_doubled)) (lc_var recursive_doubled) (lc_var is_odd) s of (odd_bit_selection, s) \<Rightarrow>
     select_gadget cs (lc_one cs) odd_bit_selection (lc_var alpha_zero) s)"

fun exp_private_impl ::
  "('s, 'v, 'f::field) cs_ops \<Rightarrow> ('v, 'f) lc \<Rightarrow> 'v list \<Rightarrow> 's \<Rightarrow> ('v, 'f) lc \<times> 's" where
  "exp_private_impl cs x [] s = (lc_const cs 1, s)"
| "exp_private_impl cs x (is_odd # rest) s =
    (case all_bits_zero cs (is_odd # rest) s of (alpha_zero, s) \<Rightarrow>
     case exp_private_impl cs x rest s of (recursive_result, s) \<Rightarrow>
     case cs_product cs recursive_result recursive_result s of (recursive_doubled, s) \<Rightarrow>
     case cs_product cs x (lc_var recursive_doubled) s of (recursive_plus_one, s) \<Rightarrow>
     case select_gadget cs (lc_var recursive_plus_one) (lc_var recursive_doubled) (lc_var is_odd) s of (odd_bit_selection, s) \<Rightarrow>
     select_gadget cs (lc_one cs) odd_bit_selection (lc_var alpha_zero) s)"

definition exp_private_fixed_base ::
  "nat \<Rightarrow> ('f \<Rightarrow> nat) \<Rightarrow> ('s, 'v, 'f::field) cs_ops \<Rightarrow> 'f \<Rightarrow> ('v, 'f) lc \<Rightarrow> 's \<Rightarrow> (('v, 'f) lc \<times> 's) call" where
  "exp_private_fixed_base ALPHA_BITS repr cs x alpha s = bind_call (to_bits ALPHA_BITS repr cs alpha s)
    (\<lambda>(alpha_bits, s). Returns (exp_private_fixed_base_impl cs x alpha_bits s))"

definition exp_private ::
  "nat \<Rightarrow> ('f \<Rightarrow> nat) \<Rightarrow> ('s, 'v, 'f::field) cs_ops \<Rightarrow> ('v, 'f) lc \<Rightarrow> ('v, 'f) lc \<Rightarrow> 's \<Rightarrow> (('v, 'f) lc \<times> 's) call" where
  "exp_private ALPHA_BITS repr cs x alpha s = bind_call (to_bits ALPHA_BITS repr cs alpha s)
    (\<lambda>(alpha_bits, s). Returns (exp_private_impl cs x alpha_bits s))"

subsection \<open>What the gadgets compute\<close>

text \<open>Every gadget is sound and complete for its function of the values of its inputs.\<close>

context constraint_system
begin

lemma or_gate_gadget:
  assumes "or_gate cs a b s = (out, s')"
  shows "gad (lc_vars a \<union> lc_vars b) (lc_vars out) s s'
    (\<lambda>\<rho>. lc_eval \<rho> out = lc_eval \<rho> a + lc_eval \<rho> b - lc_eval \<rho> a * lc_eval \<rho> b)"
proof -
  obtain x y z where run: "cs_multiply cs a b s = ((x, y, z), s')"
    and out: "out = lc_sub (lc_add (lc_var x) (lc_var y)) (lc_var z)"
    using assms by (auto simp: or_gate_def split: prod.splits)
  show ?thesis
    using product_gadget [of a b s z s'] multiply_honest [OF run] multiply_closed [OF run] wires_multiply [OF run] sat_multiply [OF run]
    by (auto simp: gadget_def out cs_product_def run)
qed

lemma and_gate_gadget:
  "and_gate cs a b s = (out, s') \<Longrightarrow>
    gad (lc_vars a \<union> lc_vars b) {out} s s' (\<lambda>\<rho>. \<rho> out = lc_eval \<rho> a * lc_eval \<rho> b)"
  unfolding and_gate_def by (rule product_gadget)

lemma constrain_binary_sat:
  "sat (constrain_binary cs x s) \<rho> \<Longrightarrow> sat s \<rho> \<and> lc_eval \<rho> x \<in> {0, 1}"
  by (auto simp: constrain_binary_def one_eval dest!: constrain_sat product_sat split: prod.splits)

lemma constrain_binary_honest:
  assumes "hon s" "lc_vars x \<subseteq> wires s" "lc_eval (assigned s) x \<in> {0, 1}"
  shows "hon (constrain_binary cs x s)"
proof -
  obtain out t where run: "cs_product cs x (lc_sub (lc_one cs) x) s = (out, t)"
    by fastforce
  have "hon t" "out \<in> wires t"
    using product_honest [OF run assms(1)] assms(2) wires_constants [of s] by auto
  moreover have "assigned t out = 0"
    using assms(3) one_eval [OF honest_sat [OF assms(1)]] by (auto simp: product_value [OF run])
  ultimately show ?thesis
    by (simp add: constrain_binary_def run constrain_honest)
qed

lemma eq_zero_run:
  assumes "eq_zero cs x s = (out, s')"
  obtains inv s1 s2 p s3 q s4 where
    "cs_allocate cs (of_bool (cs_eval cs x s = 0)) s = (out, s1)"
    "cs_allocate cs (inverse (cs_eval cs x s)) s1 = (inv, s2)"
    "cs_product cs x (lc_var inv) s2 = (p, s3)"
    "cs_product cs x (lc_var out) (cs_constrain cs (lc_add (lc_sub (lc_var out) (lc_const cs 1)) (lc_var p)) s3) = (q, s4)"
    "s' = cs_constrain cs (lc_var q) s4"
  using assms by (cases "cs_eval cs x s = 0") (auto simp: eq_zero_def Let_def split: prod.splits)

lemma eq_zero_sat:
  assumes "eq_zero cs x s = (out, s')" "sat s' \<rho>"
  shows "sat s \<rho> \<and> \<rho> out = of_bool (lc_eval \<rho> x = 0)"
  using assms(1)
proof (rule eq_zero_run)
  fix inv s1 s2 p s3 q s4
  let ?c = "lc_add (lc_sub (lc_var out) (lc_const cs 1)) (lc_var p)"
  assume run: "cs_allocate cs (of_bool (cs_eval cs x s = 0)) s = (out, s1)"
    "cs_allocate cs (inverse (cs_eval cs x s)) s1 = (inv, s2)"
    "cs_product cs x (lc_var inv) s2 = (p, s3)"
    "cs_product cs x (lc_var out) (cs_constrain cs ?c s3) = (q, s4)" "s' = cs_constrain cs (lc_var q) s4"
  have q: "sat s4 \<rho>" "\<rho> q = 0"
    using assms(2) run(5) by (auto dest: constrain_sat)
  have c: "sat s3 \<rho>" "lc_eval \<rho> ?c = 0" "lc_eval \<rho> x * \<rho> out = 0"
    using product_sat [OF run(4) q(1)] q(2) by (auto dest: constrain_sat)
  have p: "sat s2 \<rho>" "\<rho> p = lc_eval \<rho> x * \<rho> inv"
    using product_sat [OF run(3) c(1)] by auto
  have "\<rho> out = 1 - lc_eval \<rho> x * \<rho> inv"
    using c(2) p(2) const_eval [OF c(1)] by (simp add: algebra_simps)
  with c(3) have "\<rho> out = of_bool (lc_eval \<rho> x = 0)"
    by (cases "lc_eval \<rho> x = 0") auto
  then show ?thesis
    using p(1) run(1,2) by (auto dest: allocate_sat)
qed

lemma eq_zero_grows: "eq_zero cs x s = (out, s') \<Longrightarrow> gro s s'"
  by (erule eq_zero_run) (metis allocate_grows product_grows constrain_grows grows_trans)

lemma eq_zero_honest:
  assumes "eq_zero cs x s = (out, s')" "hon s" "lc_vars x \<subseteq> wires s"
  shows "hon s' \<and> out \<in> wires s'"
  using assms(1)
proof (rule eq_zero_run)
  fix inv s1 s2 p s3 q s4
  let ?v = "lc_eval (assigned s) x" and ?c = "lc_add (lc_sub (lc_var out) (lc_const cs 1)) (lc_var p)"
  assume run: "cs_allocate cs (of_bool (cs_eval cs x s = 0)) s = (out, s1)"
    "cs_allocate cs (inverse (cs_eval cs x s)) s1 = (inv, s2)"
    "cs_product cs x (lc_var inv) s2 = (p, s3)"
    "cs_product cs x (lc_var out) (cs_constrain cs ?c s3) = (q, s4)" "s' = cs_constrain cs (lc_var q) s4"
  note grow = allocate_grows [OF run(1)] allocate_grows [OF run(2)] product_grows [OF run(3)]
  have 1: "hon s1" "out \<in> wires s1" "assigned s1 out = of_bool (?v = 0)"
    using allocate_honest [OF run(1) assms(2)] by (auto simp: eval_assigned)
  have 2: "hon s2" "inv \<in> wires s2" "assigned s2 inv = inverse ?v"
    using allocate_honest [OF run(2) 1(1)] by (auto simp: eval_assigned)
  have x: "lc_vars x \<subseteq> wires s2" "lc_vars x \<subseteq> wires s3" "lc_eval (assigned s2) x = ?v" "lc_eval (assigned s3) x = ?v"
    using grow assms(3) by (meson grows_wires grows_value grows_trans)+
  have o: "out \<in> wires s2" "out \<in> wires s3" "assigned s2 out = of_bool (?v = 0)" "assigned s3 out = of_bool (?v = 0)"
    using grow 1(2,3) by (auto simp: grows_def)
  have 3: "hon s3" "p \<in> wires s3" "assigned s3 p = ?v * inverse ?v"
    using product_honest [OF run(3) 2(1)] x(1) 2(2) product_value [OF run(3)] x(3) 2(3) by auto
  have c: "hon (cs_constrain cs ?c s3)"
    using 3 o(2,4) wires_constants [of s3] const_eval [OF honest_sat [OF 3(1)]]
    by (intro constrain_honest) (auto split: if_splits)
  have 4: "hon s4" "q \<in> wires s4" "assigned s4 q = 0"
    using product_honest [OF run(4) c] product_value [OF run(4)] x(2,4) o(2,4)
    by (auto simp: wires_constrain assigned_constrain)
  have "gro s3 s4"
    using constrain_grows product_grows [OF run(4)] by (rule grows_trans)
  then show ?thesis
    using 4 o(2) run(5) by (auto simp: wires_constrain grows_def intro!: constrain_honest)
qed

lemma eq_zero_extend:
  assumes "eq_zero cs x s = (out, s')" "closed s" "sat s \<rho>" "lc_vars x \<subseteq> wires s"
  shows "\<exists>\<rho>'. (\<forall>u\<in>wires s. \<rho>' u = \<rho> u) \<and> sat s' \<rho>'"
  using assms(1)
proof (rule eq_zero_run)
  fix inv s1 s2 p s3 q s4
  let ?v = "lc_eval \<rho> x" and ?c = "lc_add (lc_sub (lc_var out) (lc_const cs 1)) (lc_var p)"
  assume run: "cs_allocate cs (of_bool (cs_eval cs x s = 0)) s = (out, s1)"
    "cs_allocate cs (inverse (cs_eval cs x s)) s1 = (inv, s2)"
    "cs_product cs x (lc_var inv) s2 = (p, s3)"
    "cs_product cs x (lc_var out) (cs_constrain cs ?c s3) = (q, s4)" "s' = cs_constrain cs (lc_var q) s4"
  have w: "wires s1 = insert out (wires s)" "wires s2 = insert inv (wires s1)" "insert p (wires s2) \<subseteq> wires s3"
    using wires_allocate [OF run(1)] wires_allocate [OF run(2)] product_wires [OF run(3)] by auto
  have closed1: "closed s1" and closed2: "closed s2"
    using allocate_closed run(1,2) assms(2) by blast+
  have scope: "lc_vars x \<union> {inv} \<subseteq> wires s2" "{out, p} \<subseteq> wires s3" "lc_vars x \<subseteq> wires s3"
    using assms(4) w by auto
  have closed3: "closed s3"
    using product_closed [OF run(3) closed2] scope(1) by simp
  have closedc: "closed (cs_constrain cs ?c s3)"
    using constrain_closed [OF closed3, of ?c] scope(2) wires_constants [of s3] by simp
  obtain \<rho>1 where 1: "\<forall>u\<in>wires s. \<rho>1 u = \<rho> u" "sat s1 \<rho>1" "\<rho>1 out = of_bool (?v = 0)"
    using allocate_extend [OF run(1) assms(2,3)] by blast
  obtain \<rho>2 where 2: "\<forall>u\<in>wires s1. \<rho>2 u = \<rho>1 u" "sat s2 \<rho>2" "\<rho>2 inv = inverse ?v"
    using allocate_extend [OF run(2) closed1 1(2)] by blast
  have x2: "lc_eval \<rho>2 x = ?v"
    using 1(1) 2(1) w assms(4) by (intro lc_eval_cong) auto
  obtain \<rho>3 where 3: "\<forall>u\<in>wires s2. \<rho>3 u = \<rho>2 u" "sat s3 \<rho>3" "\<rho>3 p = ?v * inverse ?v"
    using product_extend [OF run(3) closed2 2(2)] 2(3) x2 scope(1) by (metis lc_eval_var lc_vars_simps(2))
  have x3: "lc_eval \<rho>3 x = ?v" and o3: "\<rho>3 out = of_bool (?v = 0)"
    using 1 2(1) 3(1) w assms(4) by (auto intro!: lc_eval_cong)
  have "sat (cs_constrain cs ?c s3) \<rho>3"
    using 3 o3 const_eval [OF 3(2)] by (auto simp: sat_constrain)
  from product_extend [OF run(4) closedc this]
  obtain \<rho>4 where 4: "\<forall>u\<in>wires s3. \<rho>4 u = \<rho>3 u" "sat s4 \<rho>4" "\<rho>4 q = 0"
    using x3 o3 scope(2,3) by (auto simp: wires_constrain)
  show ?thesis
    using 1(1) 2(1) 3(1) 4 w by (intro exI [of _ \<rho>4]) (auto simp: run(5) sat_constrain)
qed

lemma eq_zero_closed:
  assumes "eq_zero cs x s = (out, s')" "closed s" "lc_vars x \<subseteq> wires s"
  shows "closed s' \<and> out \<in> wires s'"
  using assms(1)
proof (rule eq_zero_run)
  fix inv s1 s2 p s3 q s4
  let ?c = "lc_add (lc_sub (lc_var out) (lc_const cs 1)) (lc_var p)"
  assume run: "cs_allocate cs (of_bool (cs_eval cs x s = 0)) s = (out, s1)"
    "cs_allocate cs (inverse (cs_eval cs x s)) s1 = (inv, s2)"
    "cs_product cs x (lc_var inv) s2 = (p, s3)"
    "cs_product cs x (lc_var out) (cs_constrain cs ?c s3) = (q, s4)" "s' = cs_constrain cs (lc_var q) s4"
  have w: "wires s1 = insert out (wires s)" "wires s2 = insert inv (wires s1)" "insert p (wires s2) \<subseteq> wires s3" "insert q (wires s3) \<subseteq> wires s4"
    using wires_allocate [OF run(1)] wires_allocate [OF run(2)] product_wires [OF run(3)] product_wires [OF run(4)] by (auto simp: wires_constrain)
  have "closed s2"
    using allocate_closed run(1,2) assms(2) by blast
  then have "closed s3"
    using product_closed [OF run(3)] assms(3) w by auto
  then have "closed (cs_constrain cs ?c s3)"
    using constrain_closed [of s3 ?c] w wires_constants [of s3] by auto
  then have "closed s4"
    using product_closed [OF run(4)] assms(3) w by (auto simp: wires_constrain)
  then show ?thesis
    using constrain_closed [of s4 "lc_var q"] w by (auto simp: run(5) wires_constrain)
qed

lemma eq_zero_gadget:
  assumes "eq_zero cs x s = (out, s')"
  shows "gad (lc_vars x) {out} s s' (\<lambda>\<rho>. \<rho> out = of_bool (lc_eval \<rho> x = 0))"
  using eq_zero_grows [OF assms] eq_zero_sat [OF assms] eq_zero_closed [OF assms] eq_zero_extend [OF assms] eq_zero_honest [OF assms]
  by (intro gadgetI) simp_all

lemma eq_gadget_gadget:
  "eq_gadget cs a b s = (out, s') \<Longrightarrow>
    gad (lc_vars a \<union> lc_vars b) {out} s s' (\<lambda>\<rho>. \<rho> out = of_bool (lc_eval \<rho> a = lc_eval \<rho> b))"
  by (auto simp: eq_gadget_def elim!: gadget_weaken [OF eq_zero_gadget])

lemma not_equal_gadget:
  "not_equal cs a b s = (out, s') \<Longrightarrow>
    gad (lc_vars a \<union> lc_vars b) (lc_vars out) s s' (\<lambda>\<rho>. lc_eval \<rho> out = of_bool (lc_eval \<rho> a \<noteq> lc_eval \<rho> b))"
  by (auto simp: not_equal_def one_eval split: prod.splits elim!: gadget_weaken [OF eq_zero_gadget])

lemma not_equal_values_gadget:
  "not_equal_values cs ps s = (nes, s') \<Longrightarrow>
    gad (\<Union>(a, b)\<in>set ps. lc_vars a \<union> lc_vars b) (\<Union>(lc_vars ` set nes)) s s'
      (\<lambda>\<rho>. map (lc_eval \<rho>) nes = map (\<lambda>(a, b). of_bool (lc_eval \<rho> a \<noteq> lc_eval \<rho> b)) ps)"
proof (induction ps arbitrary: s nes)
  case Nil
  then show ?case by (auto simp: gadget_def)
next
  case (Cons ab ps)
  obtain a b where ab: "ab = (a, b)"
    by fastforce
  obtain ne t nes' where run: "not_equal cs a b s = (ne, t)" "not_equal_values cs ps t = (nes', s')" "nes = ne # nes'"
    using Cons.prems by (auto simp: ab split: prod.splits)
  show ?case
    using not_equal_gadget [OF run(1)] Cons.IH [OF run(2)] by (rule gadget_chain) (auto simp: run(3) ab)
qed

lemma sum_differing:
  "(\<Sum>(a, b)\<leftarrow>ps. of_bool (f a \<noteq> f b)) = of_nat (length (filter (\<lambda>(a, b). f a \<noteq> f b) ps))"
  by (induction ps) auto

lemma no_differing:
  "length a = length b \<Longrightarrow> filter (\<lambda>(a, b). f a \<noteq> f b) (zip a b) = [] \<longleftrightarrow> map f a = map f b"
  by (induction a b rule: list_induct2) auto

lemma foldl_lc_add: "foldl lc_add z ls = lc_add z (concat ls)"
  by (induction ls arbitrary: z) (simp_all add: lc_add_def)

lemma lc_eval_concat: "lc_eval \<rho> (concat ls) = sum_list (map (lc_eval \<rho>) ls)"
  by (induction ls) (simp_all add: lc_eval_def)

lemma lc_vars_concat [simp]: "lc_vars (concat ls) = \<Union>(lc_vars ` set ls)"
  by (auto simp: lc_vars_def)

lemma eq_vec_gadget:
  assumes "eq_vec cs a b s = Returns (out, s')"
    and small: "\<And>n. 0 < n \<Longrightarrow> n \<le> length a \<Longrightarrow> (of_nat n :: 'f) \<noteq> 0"
  shows "gad (\<Union>(lc_vars ` (set a \<union> set b))) {out} s s'
    (\<lambda>\<rho>. \<rho> out = of_bool (map (lc_eval \<rho>) a = map (lc_eval \<rho>) b))"
proof -
  obtain nes t where run: "not_equal_values cs (zip a b) s = (nes, t)" "length a = length b"
    "eq_zero cs (foldl lc_add (lc_var (var_zero cs)) nes) t = (out, s')"
    using assms(1) by (auto simp: eq_vec_def split: prod.splits if_splits)
  have "lc_eval \<rho> (foldl lc_add (lc_var (var_zero cs)) nes) = 0 \<longleftrightarrow> map (lc_eval \<rho>) a = map (lc_eval \<rho>) b"
    if "sat s' \<rho>" "map (lc_eval \<rho>) nes = map (\<lambda>(a, b). of_bool (lc_eval \<rho> a \<noteq> lc_eval \<rho> b)) (zip a b)" for \<rho>
  proof -
    have "lc_eval \<rho> (foldl lc_add (lc_var (var_zero cs)) nes) = of_nat (length (filter (\<lambda>(a, b). lc_eval \<rho> a \<noteq> lc_eval \<rho> b) (zip a b)))"
      using sat_constants [OF that(1)] by (simp add: foldl_lc_add lc_eval_concat that(2) sum_differing)
    moreover have "length (filter (\<lambda>(a, b). lc_eval \<rho> a \<noteq> lc_eval \<rho> b) (zip a b)) \<le> length a"
      using length_filter_le [of _ "zip a b"] run(2) by simp
    ultimately show ?thesis
      using small [of "length (filter (\<lambda>(a, b). lc_eval \<rho> a \<noteq> lc_eval \<rho> b) (zip a b))"]
        no_differing [OF run(2), of "lc_eval \<rho>"]
      by (cases "filter (\<lambda>(a, b). lc_eval \<rho> a \<noteq> lc_eval \<rho> b) (zip a b) = []") simp_all
  qed
  then show ?thesis
    using run(2) by (intro gadget_chain [OF not_equal_values_gadget [OF run(1)] eq_zero_gadget [OF run(3)]])
      (auto simp: foldl_lc_add dest: set_zip_leftD set_zip_rightD)
qed

end

subsection \<open>Bit decomposition\<close>

fun bits_value :: "'f::field list \<Rightarrow> 'f" where
  "bits_value [] = 0"
| "bits_value (b # bs) = b + 2 * bits_value bs"

lemma horner_eval:
  "lc_eval \<rho> (foldl (\<lambda>res bit. lc_add (lc_scale 2 res) (lc_var bit)) [] (rev bits)) = bits_value (map \<rho> bits)"
  by (induction bits) simp_all

lemma horner_vars [simp]:
  "lc_vars (foldl (\<lambda>res bit. lc_add (lc_scale 2 res) (lc_var bit)) [] (rev bits)) = set bits"
  by (induction bits) auto

lemma weighted_eval:
  "lc_eval \<rho> (foldl (\<lambda>acc (index, bit). lc_add acc (lc_scale (2 ^ index) (lc_var bit))) acc (enumerate n bits))
    = lc_eval \<rho> acc + 2 ^ n * bits_value (map \<rho> bits)"
  by (induction bits arbitrary: acc n) (simp_all add: algebra_simps)

lemma weighted_vars:
  "lc_vars (foldl (\<lambda>acc (index, bit). lc_add acc (lc_scale (2 ^ index) (lc_var bit))) acc (enumerate n bits)) = lc_vars acc \<union> set bits"
  by (induction bits arbitrary: acc n) auto

text \<open>The number whose bits, least significant first, are the ones of the list.\<close>

fun bits_nat :: "'f::field list \<Rightarrow> nat" where
  "bits_nat [] = 0"
| "bits_nat (b # bs) = of_bool (b = 1) + 2 * bits_nat bs"

lemma bits_nat_snoc: "bits_nat (bs @ [b]) = bits_nat bs + 2 ^ length bs * of_bool (b = 1)"
  by (induction bs) (simp_all add: algebra_simps)

lemma bits_nat_value: "set bs \<subseteq> {0, 1} \<Longrightarrow> of_nat (bits_nat bs) = bits_value bs"
  by (induction bs) auto

lemma bits_nat_le:
  assumes "D \<le> 256"
  shows "bits_nat (take D (scalar_to_bits_le repr a)) = repr a mod 2 ^ D"
  using assms
proof (induction D)
  case (Suc D)
  have "take (Suc D) (scalar_to_bits_le repr a) = take D (scalar_to_bits_le repr a) @ [of_bool (odd (repr a div 2 ^ D))]"
    using Suc.prems by (subst take_Suc_conv_app_nth) (auto simp: scalar_to_bits_le_def)
  moreover have "length (take D (scalar_to_bits_le repr a)) = D"
    using Suc.prems by (simp add: scalar_to_bits_le_def)
  moreover have "repr a mod 2 ^ Suc D = repr a mod 2 ^ D + 2 ^ D * of_bool (odd (repr a div 2 ^ D))"
    by (simp add: mod2_eq_if mult.commute [of 2] mod_mult2_eq)
  ultimately show ?case
    using Suc by (simp add: bits_nat_snoc)
qed simp

lemma bits_binary: "set (take D (scalar_to_bits_le repr a)) \<subseteq> {0, 1}"
  using set_take_subset [of D "scalar_to_bits_le repr a"] by (auto simp: scalar_to_bits_le_def split: if_splits)

lemma bits_value_le: "D \<le> 256 \<Longrightarrow> bits_value (take D (scalar_to_bits_le repr a)) = of_nat (repr a mod 2 ^ D)"
  using bits_nat_value [OF bits_binary, of D repr a] by (simp add: bits_nat_le)

context constraint_system
begin

lemma allocate_all_fresh:
  "allocate_all cs xs s = (vs, s') \<Longrightarrow> length vs = length xs \<and> distinct vs \<and> set vs \<inter> wires s = {}
    \<and> wires s' = wires s \<union> set vs \<and> (\<forall>\<rho>. sat s' \<rho> = sat s \<rho>) \<and> map (assigned s') vs = xs \<and> gro s s'"
proof (induction xs arbitrary: s vs)
  case (Cons x xs)
  then obtain v t ws where run: "cs_allocate cs x s = (v, t)" "allocate_all cs xs t = (ws, s')" "vs = v # ws"
    by (auto split: prod.splits)
  note rest = Cons.IH [OF run(2)]
  have "assigned s' v = x"
    using rest wires_allocate [OF run(1)] assigned_allocate [OF run(1)] by (auto simp: grows_def)
  then show ?case
    using rest wires_allocate [OF run(1)] sat_allocate [OF run(1)] run(3) grows_trans [OF allocate_grows [OF run(1)]]
    by auto
qed auto

lemma allocate_all_honest:
  "allocate_all cs xs s = (vs, s') \<Longrightarrow> hon s \<Longrightarrow> hon s' \<and> set vs \<subseteq> wires s'"
proof (induction xs arbitrary: s vs)
  case (Cons x xs)
  then obtain v t ws where run: "cs_allocate cs x s = (v, t)" "allocate_all cs xs t = (ws, s')" "vs = v # ws"
    by (auto split: prod.splits)
  show ?case
    using Cons.IH [OF run(2)] allocate_honest [OF run(1) Cons.prems(2)] allocate_all_fresh [OF run(2)] run(3) by auto
qed auto

lemma allocate_all_gadget:
  assumes "allocate_all cs xs s = (vs, s')"
  shows "gad {} (set vs) s s' (\<lambda>\<rho>. True)"
proof (rule gadgetI)
  note fresh = allocate_all_fresh [OF assms]
  show "gro s s'" "hon s \<Longrightarrow> hon s' \<and> set vs \<subseteq> wires s'"
    using fresh allocate_all_honest [OF assms] by simp_all
  show "closed s' \<and> set vs \<subseteq> wires s'" if "closed s"
    using that fresh by (auto simp: closed_state_def)
  show "\<exists>\<rho>'. (\<forall>v\<in>wires s. \<rho>' v = \<rho> v) \<and> sat s' \<rho>'" if "sat s \<rho>" for \<rho>
    using that fresh by (intro exI [of _ \<rho>]) simp
qed simp

lemma decompose_run:
  assumes "bit_decompose_reconstruct D repr cs x s = Returns (r, s')"
  obtains bits where "D \<le> 251" "allocate_all cs (take D (scalar_to_bits_le repr (cs_eval cs x s))) s = (bits, s')"
    "\<And>\<rho>. lc_eval \<rho> r = bits_value (map \<rho> bits)" "lc_vars r = set bits" "length bits = D"
proof -
  obtain bits where run: "D \<le> 251" "allocate_all cs (take D (scalar_to_bits_le repr (cs_eval cs x s))) s = (bits, s')"
    "r = foldl (\<lambda>res bit. lc_add (lc_scale 2 res) (lc_var bit)) [] (rev bits)"
    using assms by (auto simp: bit_decompose_reconstruct_def POSITIVE_SCALAR_MAX_BITS_def split: if_splits prod.splits)
  moreover have "length bits = D"
    using allocate_all_fresh [OF run(2)] run(1) by (simp add: scalar_to_bits_le_def)
  ultimately show ?thesis
    by (intro that [of bits]) (simp_all add: horner_eval)
qed

lemma decompose_gadget:
  "bit_decompose_reconstruct D repr cs x s = Returns (r, s') \<Longrightarrow> gad {} (lc_vars r) s s' (\<lambda>\<rho>. True)"
  by (erule decompose_run) (simp add: allocate_all_gadget)

lemma decompose_value:
  assumes "bit_decompose_reconstruct D repr cs x s = Returns (r, s')"
  shows "lc_eval (assigned s') r = of_nat (repr (lc_eval (assigned s) x) mod 2 ^ D)"
  using assms
  by (rule decompose_run) (use allocate_all_fresh in \<open>auto simp: bits_value_le eval_assigned\<close>)

lemma greater_than_zero_run:
  assumes "greater_than_zero D repr cs x s = Returns (out, s')"
  obtains r t where "bit_decompose_reconstruct D repr cs x s = Returns (r, t)" "eq_zero cs (lc_sub r x) t = (out, s')"
  using assms by (auto simp: greater_than_zero_def elim!: bind_call_Returns)

lemma greater_than_zero_gadget:
  assumes "greater_than_zero D repr cs x s = Returns (out, s')"
  shows "gad (lc_vars x) {out} s s' (\<lambda>\<rho>. \<rho> out \<in> {0, 1})"
  using assms
proof (rule greater_than_zero_run)
  fix r t assume "bit_decompose_reconstruct D repr cs x s = Returns (r, t)" "eq_zero cs (lc_sub r x) t = (out, s')"
  then show ?thesis
    by (intro gadget_chain [OF decompose_gadget eq_zero_gadget]) auto
qed

lemma greater_than_zero_value:
  assumes "greater_than_zero D repr cs x s = Returns (out, s')" "hon s" "lc_vars x \<subseteq> wires s"
  shows "assigned s' out = of_bool (of_nat (repr (lc_eval (assigned s) x) mod 2 ^ D) = lc_eval (assigned s) x)"
  using assms(1)
proof (rule greater_than_zero_run)
  fix r t assume run: "bit_decompose_reconstruct D repr cs x s = Returns (r, t)" "eq_zero cs (lc_sub r x) t = (out, s')"
  have t: "hon t" "lc_vars r \<subseteq> wires t" "lc_vars x \<subseteq> wires t" and x: "lc_eval (assigned t) x = lc_eval (assigned s) x"
    using gadget_honest [OF decompose_gadget [OF run(1)] assms(2)] gadget_grows [OF decompose_gadget [OF run(1)]]
      grows_wires grows_value assms(3) by auto
  have out: "hon s'" "gro t s'"
    using eq_zero_honest [OF run(2) t(1)] t(2,3) eq_zero_grows [OF run(2)] by auto
  have "lc_eval (assigned s') (lc_sub r x) = lc_eval (assigned t) (lc_sub r x)"
    using grows_value [OF out(2)] t(2,3) by simp
  then show ?thesis
    using eq_zero_sat [OF run(2) honest_sat [OF out(1)]] x decompose_value [OF run(1)] by simp
qed

lemma constrain_greater_than_zero_honest:
  assumes "constrain_greater_than_zero D repr cs x s = Returns s'" "hon s" "lc_vars x \<subseteq> wires s"
    "of_nat (repr (lc_eval (assigned s) x)) = lc_eval (assigned s) x" "repr (lc_eval (assigned s) x) < 2 ^ D"
  shows "hon s'"
proof -
  obtain r t where run: "bit_decompose_reconstruct D repr cs x s = Returns (r, t)" "s' = cs_constrain cs (lc_sub r x) t"
    using assms(1) by (auto simp: constrain_greater_than_zero_def elim!: bind_call_Returns)
  have "hon t" "lc_vars r \<subseteq> wires t" "lc_vars x \<subseteq> wires t" "lc_eval (assigned t) x = lc_eval (assigned s) x"
    using gadget_honest [OF decompose_gadget [OF run(1)] assms(2)] gadget_grows [OF decompose_gadget [OF run(1)]]
      grows_wires grows_value assms(3) by auto
  then show ?thesis
    using decompose_value [OF run(1)] assms(4,5) by (simp add: run(2) constrain_honest)
qed

end

subsection \<open>What the range checks leave open\<close>

context constraint_system
begin

lemma bits_value_zero: "v \<notin> set bs \<Longrightarrow> bits_value (map (\<lambda>u. if u = v then y else if u \<in> V then 0 else f u) bs) = 0"
  if "set bs \<subseteq> V"
  using that by (induction bs) auto

lemma bits_extend:
  assumes run: "allocate_all cs xs s = (vs, s')" and "xs \<noteq> []" "closed s" "sat s \<rho>"
  shows "closed s' \<and> (\<exists>\<rho>'. (\<forall>u\<in>wires s. \<rho>' u = \<rho> u) \<and> sat s' \<rho>' \<and> bits_value (map \<rho>' vs) = y)"
proof -
  note fresh = allocate_all_fresh [OF run]
  obtain v ws where vs: "vs = v # ws"
    using fresh assms(2) by (cases vs) auto
  let ?\<rho> = "\<lambda>u. if u = v then y else if u \<in> set ws then 0 else \<rho> u"
  have agree: "\<forall>u\<in>wires s. ?\<rho> u = \<rho> u"
    using fresh by (auto simp: vs)
  have "v \<notin> set ws" and keeps: "\<And>\<rho>. sat s' \<rho> = sat s \<rho>" and grow: "wires s \<subseteq> wires s'"
    using fresh by (auto simp: vs)
  from this(1) have "bits_value (map ?\<rho> vs) = y"
    using bits_value_zero [of ws "set ws" v y \<rho>] by (simp add: vs)
  moreover have "sat s' ?\<rho>"
    unfolding keeps by (rule closed_transfer [OF assms(3,4) agree])
  moreover have "closed s'"
    using grow assms(3) unfolding closed_state_def keeps by (meson subsetD)
  ultimately show ?thesis
    using agree by (intro conjI exI [of _ ?\<rho>])
qed

lemma decompose_extend:
  assumes "bit_decompose_reconstruct D repr cs x s = Returns (r, s')" "0 < D" "closed s" "sat s \<rho>"
  shows "closed s' \<and> lc_vars r \<subseteq> wires s' \<and> (\<exists>\<rho>'. (\<forall>u\<in>wires s. \<rho>' u = \<rho> u) \<and> sat s' \<rho>' \<and> lc_eval \<rho>' r = y)"
  using assms(1)
proof (rule decompose_run)
  fix bits
  assume run: "D \<le> 251" "allocate_all cs (take D (scalar_to_bits_le repr (cs_eval cs x s))) s = (bits, s')"
    and r: "\<And>\<rho>. lc_eval \<rho> r = bits_value (map \<rho> bits)" "lc_vars r = set bits"
  have "take D (scalar_to_bits_le repr (cs_eval cs x s)) \<noteq> []"
    using assms(2) by (simp add: scalar_to_bits_le_def)
  from bits_extend [OF run(2) this assms(3,4)] show ?thesis
    using allocate_all_fresh [OF run(2)] by (simp add: r)
qed

lemma greater_than_zero_forged:
  assumes "greater_than_zero D repr cs x s = Returns (out, s')" "0 < D" "closed s" "sat s \<rho>" "lc_vars x \<subseteq> wires s"
  shows "\<exists>\<rho>'. (\<forall>u\<in>wires s. \<rho>' u = \<rho> u) \<and> sat s' \<rho>' \<and> \<rho>' out = of_bool b"
  using assms(1)
proof (rule greater_than_zero_run)
  fix r t assume run: "bit_decompose_reconstruct D repr cs x s = Returns (r, t)" "eq_zero cs (lc_sub r x) t = (out, s')"
  obtain \<rho>1 where t: "closed t" "lc_vars r \<subseteq> wires t" and 1: "\<forall>u\<in>wires s. \<rho>1 u = \<rho> u" "sat t \<rho>1" "lc_eval \<rho>1 r = lc_eval \<rho> x + of_bool (\<not> b)"
    using decompose_extend [OF run(1) assms(2-4)] by blast
  have grow: "wires s \<subseteq> wires t"
    using gadget_grows [OF decompose_gadget [OF run(1)]] by (simp add: grows_def)
  have scope: "lc_vars (lc_sub r x) \<subseteq> wires t"
    using t(2) grow assms(5) by auto
  obtain \<rho>2 where 2: "\<forall>u\<in>wires t. \<rho>2 u = \<rho>1 u" "sat s' \<rho>2"
    using eq_zero_extend [OF run(2) t(1) 1(2) scope] by blast
  have "lc_eval \<rho>2 (lc_sub r x) = lc_eval \<rho>1 (lc_sub r x)"
    using 2(1) scope by (intro lc_eval_cong) auto
  moreover have "lc_eval \<rho>1 x = lc_eval \<rho> x"
    using 1(1) assms(5) by (intro lc_eval_cong) auto
  ultimately have "\<rho>2 out = of_bool b"
    using eq_zero_sat [OF run(2) 2(2)] 1(3) by simp
  then show ?thesis
    using 1(1) 2 grow by (intro exI [of _ \<rho>2]) auto
qed

lemma constrain_greater_than_zero_vacuous:
  assumes "constrain_greater_than_zero D repr cs x s = Returns s'" "0 < D" "closed s" "lc_vars x \<subseteq> wires s"
  shows "unconstrained sat wires s s'"
  unfolding unconstrained_def
proof (intro allI impI)
  fix \<rho> assume \<rho>: "sat s \<rho>"
  obtain r t where run: "bit_decompose_reconstruct D repr cs x s = Returns (r, t)" "s' = cs_constrain cs (lc_sub r x) t"
    using assms(1) by (auto simp: constrain_greater_than_zero_def elim!: bind_call_Returns)
  obtain \<rho>' where 1: "\<forall>u\<in>wires s. \<rho>' u = \<rho> u" "sat t \<rho>'" "lc_eval \<rho>' r = lc_eval \<rho> x"
    using decompose_extend [OF run(1) assms(2,3) \<rho>] by blast
  have "lc_eval \<rho>' x = lc_eval \<rho> x"
    using 1(1) assms(4) by (intro lc_eval_cong) auto
  with 1 show "\<exists>\<rho>'. (\<forall>v\<in>wires s. \<rho>' v = \<rho> v) \<and> sat s' \<rho>'"
    by (intro exI [of _ \<rho>']) (simp add: run(2) sat_constrain)
qed

lemma constrain_less_than_forged:
  assumes "constrain_less_than D repr cs a b s = Returns s'" "0 < D" "closed s" "sat s \<rho>" "lc_vars a \<union> lc_vars b \<subseteq> wires s"
  shows "\<exists>\<rho>'. (\<forall>u\<in>wires s. \<rho>' u = \<rho> u) \<and> sat s' \<rho>'"
proof -
  obtain out t where run: "greater_than_zero D repr cs (lc_sub a b) s = Returns (out, t)"
    "s' = cs_constrain cs (lc_sub (lc_one cs) (lc_sub (lc_one cs) (lc_var out))) t"
    using assms(1) by (auto simp: constrain_less_than_def less_than_def greater_than_eq_def elim!: bind_call_Returns)
  obtain \<rho>' where "\<forall>u\<in>wires s. \<rho>' u = \<rho> u" "sat t \<rho>'" "\<rho>' out = of_bool False"
    using greater_than_zero_forged [OF run(1) assms(2-4), of False] assms(5) by auto
  then show ?thesis
    by (intro exI [of _ \<rho>']) (simp add: run(2) sat_constrain)
qed

text \<open>The quotient of a division can be any scalar.\<close>

lemma div_rem_run:
  assumes "div_rem D repr cs a b s = Returns ((q, r), s')"
  obtains s1 s2 bq s3 x y where "cs_allocate cs x s = (q, s1)" "cs_allocate cs y s1 = (r, s2)"
    "cs_product cs b (lc_var q) s2 = (bq, s3)"
    "constrain_less_than D repr cs (lc_var r) b (cs_constrain cs (lc_sub (lc_sub a (lc_var bq)) (lc_var r)) s3) = Returns s'"
  using assms by (auto simp: div_rem_def Let_def split: prod.splits elim!: bind_call_Returns)

lemma div_rem_forged:
  assumes "div_rem D repr cs a b s = Returns ((q, r), s')" "0 < D" "closed s" "sat s \<rho>" "lc_vars a \<union> lc_vars b \<subseteq> wires s"
  shows "\<exists>\<rho>'. (\<forall>u\<in>wires s. \<rho>' u = \<rho> u) \<and> sat s' \<rho>' \<and> \<rho>' q = y"
  using assms(1)
proof (rule div_rem_run)
  fix s1 s2 bq s3 x x'
  let ?c = "lc_sub (lc_sub a (lc_var bq)) (lc_var r)"
  assume run: "cs_allocate cs x s = (q, s1)" "cs_allocate cs x' s1 = (r, s2)"
    "cs_product cs b (lc_var q) s2 = (bq, s3)"
    "constrain_less_than D repr cs (lc_var r) b (cs_constrain cs ?c s3) = Returns s'"
  have w: "wires s1 = insert q (wires s)" "wires s2 = insert r (wires s1)" "insert bq (wires s2) \<subseteq> wires s3"
    using wires_allocate [OF run(1)] wires_allocate [OF run(2)] product_wires [OF run(3)] by auto
  have closed1: "closed s1" and closed2: "closed s2"
    using allocate_closed run(1,2) assms(3) by blast+
  have scope: "lc_vars b \<union> {q} \<subseteq> wires s2" "lc_vars a \<union> lc_vars b \<union> {r, bq} \<subseteq> wires s3"
    using assms(5) w by auto
  have closed3: "closed s3"
    using product_closed [OF run(3) closed2] scope(1) by simp
  have closedc: "closed (cs_constrain cs ?c s3)"
    using constrain_closed [OF closed3, of ?c] scope(2) by simp
  obtain \<rho>1 where 1: "\<forall>u\<in>wires s. \<rho>1 u = \<rho> u" "sat s1 \<rho>1" "\<rho>1 q = y"
    using allocate_extend [OF run(1) assms(3,4)] by blast
  obtain \<rho>2 where 2: "\<forall>u\<in>wires s1. \<rho>2 u = \<rho>1 u" "sat s2 \<rho>2" "\<rho>2 r = lc_eval \<rho> a - lc_eval \<rho> b * y"
    using allocate_extend [OF run(2) closed1 1(2)] by blast
  have q2: "\<rho>2 q = y" and b2: "lc_eval \<rho>2 b = lc_eval \<rho> b"
    using 1 2(1) w assms(5) by (auto intro!: lc_eval_cong)
  obtain \<rho>3 where 3: "\<forall>u\<in>wires s2. \<rho>3 u = \<rho>2 u" "sat s3 \<rho>3" "\<rho>3 bq = lc_eval \<rho> b * y"
    using product_extend [OF run(3) closed2 2(2)] b2 q2 scope(1) by (metis lc_eval_var lc_vars_simps(2))
  have "lc_eval \<rho>3 a = lc_eval \<rho> a" "\<rho>3 r = lc_eval \<rho> a - lc_eval \<rho> b * y" "\<rho>3 q = y"
    using 1 2 3(1) w assms(5) by (auto intro!: lc_eval_cong)
  then have "sat (cs_constrain cs ?c s3) \<rho>3" "\<rho>3 q = y"
    using 3 by (auto simp: sat_constrain)
  from constrain_less_than_forged [OF run(4) assms(2) closedc this(1)] this(2)
  obtain \<rho>4 where "\<forall>u\<in>wires s3. \<rho>4 u = \<rho>3 u" "sat s' \<rho>4"
    using scope(2) by (auto simp: wires_constrain)
  then show ?thesis
    using 1(1) 2(1) 3(1) \<open>\<rho>3 q = y\<close> w by (intro exI [of _ \<rho>4]) (simp add: subset_iff)
qed

end

subsection \<open>Selection and exponentiation\<close>

lemma bits_nat_zero_iff: "set bs \<subseteq> {0, 1} \<Longrightarrow> bits_nat bs = 0 \<longleftrightarrow> (\<forall>b\<in>set bs. b = 0)"
  by (induction bs) auto

lemma sum_binary: "set bs \<subseteq> {0, 1} \<Longrightarrow> sum_list bs = of_nat (length (filter (\<lambda>b. b = 1) bs))" for bs :: "'f::field list"
  by (induction bs) auto

lemma sum_bits_zero_iff:
  fixes bs :: "'f::field list"
  assumes "set bs \<subseteq> {0, 1}" "\<And>n. 0 < n \<Longrightarrow> n \<le> length bs \<Longrightarrow> (of_nat n :: 'f) \<noteq> 0"
  shows "sum_list bs = 0 \<longleftrightarrow> bits_nat bs = 0"
proof -
  have "sum_list bs = 0 \<longleftrightarrow> filter (\<lambda>b. b = 1) bs = []"
    using assms(2) [of "length (filter (\<lambda>b. b = 1) bs)"] by (cases "filter (\<lambda>b. b = 1) bs = []") (simp_all add: sum_binary [OF assms(1)])
  also have "\<dots> \<longleftrightarrow> (\<forall>b\<in>set bs. b = 0)"
    using assms(1) by (auto simp: filter_empty_conv)
  finally show ?thesis
    by (simp add: bits_nat_zero_iff [OF assms(1)])
qed

lemma foldl_var_eval: "lc_eval \<rho> (foldl (\<lambda>acc bit. lc_add acc (lc_var bit)) acc bits) = lc_eval \<rho> acc + sum_list (map \<rho> bits)"
  by (induction bits arbitrary: acc) (simp_all add: algebra_simps)

lemma foldl_var_vars [simp]: "lc_vars (foldl (\<lambda>acc bit. lc_add acc (lc_var bit)) acc bits) = lc_vars acc \<union> set bits"
  by (induction bits arbitrary: acc) auto

context constraint_system
begin

lemma select_gadget_gadget:
  assumes "select_gadget cs a b c s = (out, s')"
  shows "gad (lc_vars a \<union> lc_vars b \<union> lc_vars c) (lc_vars out) s s'
    (\<lambda>\<rho>. lc_eval \<rho> out = lc_eval \<rho> a * lc_eval \<rho> c + lc_eval \<rho> b * (1 - lc_eval \<rho> c))"
proof -
  obtain p t q where run: "cs_product cs a c s = (p, t)" "cs_product cs b (lc_sub (lc_one cs) c) t = (q, s')"
    "out = lc_add (lc_var p) (lc_var q)"
    using assms by (auto simp: select_gadget_def split: prod.splits)
  show ?thesis
    using product_gadget [OF run(1)] product_gadget [OF run(2)] by (rule gadget_chain) (auto simp: run(3) one_eval)
qed

lemma select_each_gadget:
  "select_each cs c ps s = (outs, s') \<Longrightarrow>
    gad (lc_vars c \<union> (\<Union>(a, b)\<in>set ps. lc_vars a \<union> lc_vars b)) (\<Union>(lc_vars ` set outs)) s s'
      (\<lambda>\<rho>. map (lc_eval \<rho>) outs = map (\<lambda>(a, b). lc_eval \<rho> a * lc_eval \<rho> c + lc_eval \<rho> b * (1 - lc_eval \<rho> c)) ps)"
proof (induction ps arbitrary: s outs)
  case (Cons ab ps)
  obtain a b where ab: "ab = (a, b)"
    by fastforce
  obtain x t xs where run: "select_gadget cs a b c s = (x, t)" "select_each cs c ps t = (xs, s')" "outs = x # xs"
    using Cons.prems by (auto simp: ab split: prod.splits)
  show ?case
    using select_gadget_gadget [OF run(1)] Cons.IH [OF run(2)] by (rule gadget_chain) (auto simp: run(3) ab)
qed (auto simp: gadget_def)

lemma exp_gadget_gadget:
  "exp_gadget cs x alpha s = (out, s') \<Longrightarrow> gad (lc_vars x) (lc_vars out) s s' (\<lambda>\<rho>. lc_eval \<rho> out = lc_eval \<rho> x ^ alpha)"
proof (induction alpha arbitrary: s out s' rule: less_induct)
  case (less n)
  consider "n = 0" | "n = 1" | m where "n = 2 * m" "m < n" "n > 1" | m where "n = 2 * m + 1" "m < n" "n > 1"
    by (metis One_nat_def evenE oddE less_add_same_cancel1 linorder_neqE_nat mult_2 not_less_zero less_one trans_less_add1 zero_less_one less_SucE)
  then show ?case
  proof cases
    case 1
    then show ?thesis
      using less.prems wires_constants [of s] by (auto simp: exp_gadget.simps gadget_def const_eval)
  next
    case 2
    then show ?thesis
      using less.prems by (auto simp: exp_gadget.simps gadget_def)
  next
    case (3 m)
    then obtain r t p where run: "exp_gadget cs x m s = (r, t)" "cs_product cs r r t = (p, s')" "out = lc_var p"
      using less.prems unfolding exp_gadget.simps [of cs x n] by (auto split: prod.splits)
    show ?thesis
      using less.IH [OF 3(2) run(1)] product_gadget [OF run(2)]
      by (rule gadget_chain) (auto simp: run(3) 3(1) power_add mult_2)
  next
    case (4 m)
    then obtain r t p u q where run: "exp_gadget cs x m s = (r, t)" "cs_product cs r r t = (p, u)"
      "cs_product cs (lc_var p) x u = (q, s')" "out = lc_var q"
      using less.prems unfolding exp_gadget.simps [of cs x n] by (auto split: prod.splits)
    have "gad (lc_vars x) {p} s u (\<lambda>\<rho>. \<rho> p = lc_eval \<rho> x ^ (2 * m))"
      using less.IH [OF 4(2) run(1)] product_gadget [OF run(2)] by (rule gadget_chain) (auto simp: power_add mult_2)
    from this product_gadget [OF run(3)] show ?thesis
      by (rule gadget_chain) (auto simp: run(4) 4(1))
  qed
qed

lemma all_bits_zero_gadget:
  "all_bits_zero cs bits s = (out, s') \<Longrightarrow> gad (set bits) {out} s s' (\<lambda>\<rho>. \<rho> out = of_bool (sum_list (map \<rho> bits) = 0))"
  unfolding all_bits_zero_def
  by (drule eq_zero_gadget, erule gadget_weaken) (auto simp: foldl_var_eval dest: sat_constants)

abbreviation binary :: "('v \<Rightarrow> 'f) \<Rightarrow> 'v list \<Rightarrow> bool" where
  "binary \<rho> bits \<equiv> \<rho> ` set bits \<subseteq> {0, 1}"

lemma masked_power:
  assumes "\<rho> z = of_bool (sum_list (map \<rho> (b # bs)) = 0)" "binary \<rho> (b # bs)"
    and "\<And>n. 0 < n \<Longrightarrow> n \<le> length (b # bs) \<Longrightarrow> (of_nat n :: 'f) \<noteq> 0"
    and "d = (x ^ bits_nat (map \<rho> bs)) * (x ^ bits_nat (map \<rho> bs))"
    and "y = x * d * \<rho> b + d * (1 - \<rho> b)"
  shows "1 * \<rho> z + y * (1 - \<rho> z) = x ^ bits_nat (map \<rho> (b # bs))"
proof -
  have z: "\<rho> z = of_bool (bits_nat (map \<rho> (b # bs)) = 0)"
    using sum_bits_zero_iff [of "map \<rho> (b # bs)"] assms(1-3) by simp
  have "y = x ^ bits_nat (map \<rho> (b # bs))"
    using assms(2,4,5) by (auto simp: power_add mult_2)
  then show ?thesis
    unfolding z by (cases "bits_nat (map \<rho> (b # bs)) = 0") simp_all
qed

lemma exp_private_step:
  assumes "all_bits_zero cs (b # bs) s = (z, s1)"
    and "gad V (lc_vars r) s1 s2 (\<lambda>\<rho>. binary \<rho> bs \<longrightarrow> lc_eval \<rho> r = X \<rho> ^ bits_nat (map \<rho> bs))"
    and "cs_product cs r r s2 = (d, s3)"
    and "gad (V \<union> {d}) (lc_vars p) s3 s4 (\<lambda>\<rho>. lc_eval \<rho> p = X \<rho> * \<rho> d)"
    and "select_gadget cs p (lc_var d) (lc_var b) s4 = (o1, s5)"
    and "select_gadget cs (lc_one cs) o1 (lc_var z) s5 = (out, s')"
    and small: "\<And>n. 0 < n \<Longrightarrow> n \<le> length (b # bs) \<Longrightarrow> (of_nat n :: 'f) \<noteq> 0"
  shows "gad (V \<union> set (b # bs)) (lc_vars out) s s'
    (\<lambda>\<rho>. binary \<rho> (b # bs) \<longrightarrow> lc_eval \<rho> out = X \<rho> ^ bits_nat (map \<rho> (b # bs)))"
proof -
  let ?V = "V \<union> set (b # bs)"
  define P where "P \<rho> = X \<rho> ^ bits_nat (map \<rho> bs)" for \<rho>
  define Z where "Z \<rho> \<longleftrightarrow> \<rho> z = of_bool (sum_list (map \<rho> (b # bs)) = 0)" for \<rho> :: "'v \<Rightarrow> 'f"
  have "gad (set (b # bs)) {z} s s1 Z"
    using all_bits_zero_gadget [OF assms(1)] by (simp only: Z_def [abs_def])
  moreover have "gad V (lc_vars r) s1 s2 (\<lambda>\<rho>. binary \<rho> bs \<longrightarrow> lc_eval \<rho> r = P \<rho>)"
    using assms(2) by (simp add: P_def)
  ultimately have "gad ?V ({z} \<union> lc_vars r) s s2 (\<lambda>\<rho>. Z \<rho> \<and> (binary \<rho> bs \<longrightarrow> lc_eval \<rho> r = P \<rho>))"
    by (rule gadget_chain) auto
  from this product_gadget [OF assms(3)]
  have "gad ?V {z, d} s s3 (\<lambda>\<rho>. Z \<rho> \<and> (binary \<rho> bs \<longrightarrow> \<rho> d = P \<rho> * P \<rho>))"
    by (rule gadget_chain) auto
  from this assms(4)
  have "gad ?V ({z, d} \<union> lc_vars p) s s4 (\<lambda>\<rho>. Z \<rho> \<and> (binary \<rho> bs \<longrightarrow> \<rho> d = P \<rho> * P \<rho>) \<and> lc_eval \<rho> p = X \<rho> * \<rho> d)"
    by (rule gadget_chain) auto
  from this select_gadget_gadget [OF assms(5)]
  have "gad ?V ({z} \<union> lc_vars o1) s s5 (\<lambda>\<rho>. Z \<rho>
    \<and> (binary \<rho> bs \<longrightarrow> lc_eval \<rho> o1 = X \<rho> * (P \<rho> * P \<rho>) * \<rho> b + P \<rho> * P \<rho> * (1 - \<rho> b)))"
    by (rule gadget_chain) auto
  from this select_gadget_gadget [OF assms(6)] show ?thesis
  proof (rule gadget_chain)
    fix \<rho>
    assume sat: "sat s' \<rho>" and h: "Z \<rho> \<and> (binary \<rho> bs \<longrightarrow> lc_eval \<rho> o1 = X \<rho> * (P \<rho> * P \<rho>) * \<rho> b + P \<rho> * P \<rho> * (1 - \<rho> b))"
      and out: "lc_eval \<rho> out = lc_eval \<rho> (lc_one cs) * lc_eval \<rho> (lc_var z) + lc_eval \<rho> o1 * (1 - lc_eval \<rho> (lc_var z))"
    have "1 * \<rho> z + lc_eval \<rho> o1 * (1 - \<rho> z) = X \<rho> ^ bits_nat (map \<rho> (b # bs))" if bin: "binary \<rho> (b # bs)"
      using h bin small by (intro masked_power [OF _ bin, where d = "P \<rho> * P \<rho>"]) (auto simp: Z_def P_def)
    then show "binary \<rho> (b # bs) \<longrightarrow> lc_eval \<rho> out = X \<rho> ^ bits_nat (map \<rho> (b # bs))"
      unfolding out lc_eval_var one_eval [OF sat] by blast
  qed auto
qed

lemma exp_private_impl_gadget:
  assumes "exp_private_impl cs x bits s = (out, s')"
    and "\<And>n. 0 < n \<Longrightarrow> n \<le> length bits \<Longrightarrow> (of_nat n :: 'f) \<noteq> 0"
  shows "gad (lc_vars x \<union> set bits) (lc_vars out) s s'
    (\<lambda>\<rho>. binary \<rho> bits \<longrightarrow> lc_eval \<rho> out = lc_eval \<rho> x ^ bits_nat (map \<rho> bits))"
  using assms
proof (induction bits arbitrary: s out s')
  case Nil
  then show ?case
    using wires_constants [of s] by (auto simp: gadget_def const_eval)
next
  case (Cons b bs)
  obtain z s1 r s2 d s3 p s4 o1 s5 where run: "all_bits_zero cs (b # bs) s = (z, s1)" "exp_private_impl cs x bs s1 = (r, s2)"
    "cs_product cs r r s2 = (d, s3)" "cs_product cs x (lc_var d) s3 = (p, s4)"
    "select_gadget cs (lc_var p) (lc_var d) (lc_var b) s4 = (o1, s5)"
    "select_gadget cs (lc_one cs) o1 (lc_var z) s5 = (out, s')"
    using Cons.prems(1) by (auto split: prod.splits)
  have "gad (lc_vars x \<union> set bs \<union> {d}) (lc_vars (lc_var p)) s3 s4 (\<lambda>\<rho>. lc_eval \<rho> (lc_var p) = lc_eval \<rho> x * \<rho> d)"
    by (rule gadget_weaken [OF product_gadget [OF run(4)]]) auto
  moreover have "gad (lc_vars x \<union> set bs) (lc_vars r) s1 s2 (\<lambda>\<rho>. binary \<rho> bs \<longrightarrow> lc_eval \<rho> r = lc_eval \<rho> x ^ bits_nat (map \<rho> bs))"
    using Cons.IH [OF run(2)] Cons.prems(2) by simp
  ultimately show ?case
    using Cons.prems(2) by (intro gadget_weaken [OF exp_private_step [OF run(1) _ run(3) _ run(5,6)]]) auto
qed

lemma exp_private_fixed_base_impl_gadget:
  assumes "exp_private_fixed_base_impl cs x bits s = (out, s')"
    and "\<And>n. 0 < n \<Longrightarrow> n \<le> length bits \<Longrightarrow> (of_nat n :: 'f) \<noteq> 0"
  shows "gad (set bits) (lc_vars out) s s' (\<lambda>\<rho>. binary \<rho> bits \<longrightarrow> lc_eval \<rho> out = x ^ bits_nat (map \<rho> bits))"
  using assms
proof (induction bits arbitrary: s out s')
  case Nil
  then show ?case
    using wires_constants [of s] by (auto simp: gadget_def const_eval)
next
  case (Cons b bs)
  obtain z s1 r s2 d s3 o1 s5 where run: "all_bits_zero cs (b # bs) s = (z, s1)" "exp_private_fixed_base_impl cs x bs s1 = (r, s2)"
    "cs_product cs r r s2 = (d, s3)" "select_gadget cs (lc_scale x (lc_var d)) (lc_var d) (lc_var b) s3 = (o1, s5)"
    "select_gadget cs (lc_one cs) o1 (lc_var z) s5 = (out, s')"
    using Cons.prems(1) by (auto split: prod.splits)
  have "gad (set bs \<union> {d}) (lc_vars (lc_scale x (lc_var d))) s3 s3 (\<lambda>\<rho>. lc_eval \<rho> (lc_scale x (lc_var d)) = x * \<rho> d)"
    by (auto simp: gadget_def)
  moreover have "gad (set bs) (lc_vars r) s1 s2 (\<lambda>\<rho>. binary \<rho> bs \<longrightarrow> lc_eval \<rho> r = x ^ bits_nat (map \<rho> bs))"
    using Cons.IH [OF run(2)] Cons.prems(2) by simp
  ultimately show ?case
    using Cons.prems(2) by (intro gadget_weaken [OF exp_private_step [OF run(1) _ run(3) _ run(4,5)]]) auto
qed

lemma to_bits_run:
  assumes "to_bits D repr cs a s = Returns (bits, s')"
  obtains r t where "D \<le> 256" "allocate_all cs (take D (scalar_to_bits_le repr (cs_eval cs a s))) s = (bits, t)"
    "s' = cs_constrain cs (lc_sub r a) t" "\<And>\<rho>. lc_eval \<rho> r = bits_value (map \<rho> bits)" "lc_vars r = set bits"
    "length bits = D"
proof -
  let ?r = "foldl (\<lambda>acc (index, bit). lc_add acc (lc_scale (2 ^ index) (lc_var bit))) [] (enumerate 0 bits)"
  obtain t where run: "D \<le> 256" "allocate_all cs (take D (scalar_to_bits_le repr (cs_eval cs a s))) s = (bits, t)"
    "s' = cs_constrain cs (lc_sub ?r a) t"
    using assms by (auto simp: to_bits_def Let_def split: if_splits prod.splits)
  moreover have "length bits = D"
    using allocate_all_fresh [OF run(2)] run(1) by (simp add: scalar_to_bits_le_def)
  ultimately show ?thesis
    by (intro that [of t ?r]) (simp_all add: weighted_eval weighted_vars)
qed

lemma to_bits_sat:
  assumes "to_bits D repr cs a s = Returns (bits, s')" "sat s' \<rho>"
  shows "sat s \<rho> \<and> bits_value (map \<rho> bits) = lc_eval \<rho> a"
  using assms(1)
proof (rule to_bits_run)
  fix r t
  assume run: "allocate_all cs (take D (scalar_to_bits_le repr (cs_eval cs a s))) s = (bits, t)"
    and s': "s' = cs_constrain cs (lc_sub r a) t" and r: "\<And>\<rho>. lc_eval \<rho> r = bits_value (map \<rho> bits)"
  show ?thesis
    using constrain_sat [OF assms(2) [unfolded s']] allocate_all_fresh [OF run] by (simp add: r)
qed

lemma to_bits_honest:
  assumes "to_bits D repr cs a s = Returns (bits, s')" "hon s" "lc_vars a \<subseteq> wires s"
    and "of_nat (repr (lc_eval (assigned s) a)) = lc_eval (assigned s) a" "repr (lc_eval (assigned s) a) < 2 ^ D"
  shows "hon s' \<and> set bits \<subseteq> wires s' \<and> gro s s' \<and> map (assigned s') bits = take D (scalar_to_bits_le repr (lc_eval (assigned s) a))"
  using assms(1)
proof (rule to_bits_run)
  fix r t
  assume D: "D \<le> 256" and run: "allocate_all cs (take D (scalar_to_bits_le repr (cs_eval cs a s))) s = (bits, t)"
    and s': "s' = cs_constrain cs (lc_sub r a) t" and r: "\<And>\<rho>. lc_eval \<rho> r = bits_value (map \<rho> bits)" "lc_vars r = set bits"
  have t: "hon t" "set bits \<subseteq> wires t" "gro s t"
    "map (assigned t) bits = take D (scalar_to_bits_le repr (lc_eval (assigned s) a))"
    using allocate_all_honest [OF run assms(2)] allocate_all_fresh [OF run] by (auto simp: eval_assigned)
  have "lc_eval (assigned t) (lc_sub r a) = 0"
    using assms(4,5) D grows_value [OF t(3) assms(3)] by (simp add: r t(4) bits_value_le)
  then have "hon s'"
    using t grows_wires [OF t(3) assms(3)] by (simp add: s' constrain_honest r)
  then show ?thesis
    using t grows_trans [OF t(3) constrain_grows] by (simp add: s' wires_constrain assigned_constrain)
qed

lemma div_rem_sat:
  assumes "div_rem D repr cs a b s = Returns ((q, r), s')" "sat s' \<rho>"
  shows "lc_eval \<rho> a = lc_eval \<rho> b * \<rho> q + \<rho> r"
  using assms(1)
proof (rule div_rem_run)
  fix s1 s2 bq s3 x x'
  let ?t = "cs_constrain cs (lc_sub (lc_sub a (lc_var bq)) (lc_var r)) s3"
  assume run: "cs_product cs b (lc_var q) s2 = (bq, s3)" "constrain_less_than D repr cs (lc_var r) b ?t = Returns s'"
  obtain out u where less: "greater_than_zero D repr cs (lc_sub (lc_var r) b) ?t = Returns (out, u)"
    "s' = cs_constrain cs (lc_sub (lc_one cs) (lc_sub (lc_one cs) (lc_var out))) u"
    using run(2) by (auto simp: constrain_less_than_def less_than_def greater_than_eq_def elim!: bind_call_Returns)
  have "sat u \<rho>"
    using assms(2) less(2) by (simp add: sat_constrain)
  then have "sat ?t \<rho>"
    using gadget_sound [OF greater_than_zero_gadget [OF less(1)]] by blast
  then have "sat s3 \<rho>" "lc_eval \<rho> a - \<rho> bq - \<rho> r = 0"
    by (simp_all add: sat_constrain)
  then show ?thesis
    using product_sat [OF run(1)] by (simp add: algebra_simps)
qed

lemma private_exponent:
  assumes "hon s" "lc_vars e \<subseteq> wires s" "of_nat (repr (cs_eval cs e s)) = cs_eval cs e s"
    and "repr (cs_eval cs e s) < 2 ^ N" "N \<le> 256"
  obtains bits t where "to_bits N repr cs e s = Returns (bits, t)" "hon t" "set bits \<subseteq> wires t" "gro s t"
    "binary (assigned t) bits" "bits_nat (map (assigned t) bits) = repr (cs_eval cs e s)" "length bits = N"
proof -
  obtain bits t where run: "to_bits N repr cs e s = Returns (bits, t)"
    using assms(5) by (cases "allocate_all cs (take N (scalar_to_bits_le repr (cs_eval cs e s))) s") (simp add: to_bits_def)
  have bits: "map (assigned t) bits = take N (scalar_to_bits_le repr (cs_eval cs e s))" and t: "hon t" "set bits \<subseteq> wires t" "gro s t"
    using to_bits_honest [OF run assms(1,2)] assms(3,4) by (auto simp: eval_assigned)
  have "length bits = N"
    using run by (rule to_bits_run)
  moreover have "binary (assigned t) bits"
    using bits_binary [of N repr] bits by (metis set_map)
  ultimately show ?thesis
    using that [OF run t] bits bits_nat_le [OF assms(5), of repr] assms(4) by simp
qed

lemma exp_private_honest:
  assumes "hon s" "lc_vars x \<union> lc_vars e \<subseteq> wires s" "of_nat (repr (cs_eval cs e s)) = cs_eval cs e s"
    and "repr (cs_eval cs e s) < 2 ^ N" "N \<le> 256" "\<And>n. 0 < n \<Longrightarrow> n \<le> N \<Longrightarrow> (of_nat n :: 'f) \<noteq> 0"
  shows "\<exists>out s'. exp_private N repr cs x e s = Returns (out, s') \<and> hon s'
    \<and> cs_eval cs out s' = cs_eval cs x s ^ repr (cs_eval cs e s)"
proof -
  obtain bits t where t: "to_bits N repr cs e s = Returns (bits, t)" "hon t" "set bits \<subseteq> wires t" "gro s t"
    "binary (assigned t) bits" "bits_nat (map (assigned t) bits) = repr (cs_eval cs e s)" "length bits = N"
    using private_exponent [of s e repr N] assms(1-5) by auto
  obtain out s' where run: "exp_private_impl cs x bits t = (out, s')"
    by fastforce
  have g: "gad (lc_vars x \<union> set bits) (lc_vars out) t s'
    (\<lambda>\<rho>. binary \<rho> bits \<longrightarrow> lc_eval \<rho> out = lc_eval \<rho> x ^ bits_nat (map \<rho> bits))"
    using exp_private_impl_gadget [OF run] assms(6) t(7) by simp
  have x: "lc_vars x \<subseteq> wires t" "lc_eval (assigned t) x = lc_eval (assigned s) x"
    using grows_wires [OF t(4)] grows_value [OF t(4)] assms(2) by auto
  have "hon s'" and grow: "gro t s'"
    using gadget_honest [OF g t(2)] x t(3) gadget_grows [OF g] by auto
  moreover have same: "map (assigned s') bits = map (assigned t) bits" "lc_eval (assigned s') x = lc_eval (assigned t) x"
    using grow t(3) grows_value [OF grow x(1)] by (auto simp: grows_def)
  moreover have "assigned s' ` set bits = assigned t ` set bits"
    using same(1) by (metis set_map)
  ultimately have "lc_eval (assigned s') out = lc_eval (assigned s) x ^ repr (cs_eval cs e s)"
    using gadget_sound [OF g honest_sat] t(5,6) x(2) by metis
  then show ?thesis
    using \<open>hon s'\<close> t(1) run by (simp add: exp_private_def eval_assigned)
qed

lemma exp_private_fixed_base_honest:
  assumes "hon s" "lc_vars x \<union> lc_vars e \<subseteq> wires s" "of_nat (repr (cs_eval cs e s)) = cs_eval cs e s"
    and "repr (cs_eval cs e s) < 2 ^ N" "N \<le> 256" "\<And>n. 0 < n \<Longrightarrow> n \<le> N \<Longrightarrow> (of_nat n :: 'f) \<noteq> 0"
  shows "\<exists>out s'. exp_private_fixed_base N repr cs c e s = Returns (out, s') \<and> hon s'
    \<and> cs_eval cs out s' = c ^ repr (cs_eval cs e s)"
proof -
  obtain bits t where t: "to_bits N repr cs e s = Returns (bits, t)" "hon t" "set bits \<subseteq> wires t" "gro s t"
    "binary (assigned t) bits" "bits_nat (map (assigned t) bits) = repr (cs_eval cs e s)" "length bits = N"
    using private_exponent [of s e repr N] assms(1-5) by auto
  obtain out s' where run: "exp_private_fixed_base_impl cs c bits t = (out, s')"
    by fastforce
  have g: "gad (set bits) (lc_vars out) t s'
    (\<lambda>\<rho>. binary \<rho> bits \<longrightarrow> lc_eval \<rho> out = c ^ bits_nat (map \<rho> bits))"
    using exp_private_fixed_base_impl_gadget [OF run] assms(6) t(7) by simp
  have "hon s'" and grow: "gro t s'"
    using gadget_honest [OF g t(2)] t(3) gadget_grows [OF g] by auto
  moreover have same: "map (assigned s') bits = map (assigned t) bits"
    using grow t(3) by (auto simp: grows_def)
  moreover have "assigned s' ` set bits = assigned t ` set bits"
    using same by (metis set_map)
  ultimately have "lc_eval (assigned s') out = c ^ repr (cs_eval cs e s)"
    using gadget_sound [OF g honest_sat] t(5,6) by metis
  then show ?thesis
    using \<open>hon s'\<close> t(1) run by (simp add: exp_private_fixed_base_def eval_assigned)
qed

end

lemma div_rem_returns:
  assumes "D \<le> POSITIVE_SCALAR_MAX_BITS"
  shows "\<exists>q r s'. div_rem D repr cs a b s = Returns ((q, r), s')"
proof -
  have decompose: "\<exists>r t. bit_decompose_reconstruct D repr cs x s = Returns (r, t)" for x s
    using assms by (cases "allocate_all cs (take D (scalar_to_bits_le repr (cs_eval cs x s))) s") (simp add: bit_decompose_reconstruct_def)
  have less: "\<exists>s'. constrain_less_than D repr cs x y s = Returns s'" for x y s
  proof -
    obtain r t where r: "bit_decompose_reconstruct D repr cs (lc_sub x y) s = Returns (r, t)"
      using decompose by blast
    show ?thesis
      by (cases "eq_zero cs (lc_sub r (lc_sub x y)) t")
        (simp add: constrain_less_than_def less_than_def greater_than_eq_def greater_than_zero_def r)
  qed
  have finish: "\<exists>q r s'. bind_call (constrain_less_than D repr cs x y s) (\<lambda>s. Returns ((q0, r0), s)) = Returns ((q, r), s')" for x y s q0 r0
    using less [of x y s] by auto
  show ?thesis
    unfolding div_rem_def Let_def by (simp add: finish split: prod.split)
qed

subsection \<open>Properties\<close>

text \<open>The state of a prover that has committed to the given values, from variable 2 on.\<close>

definition committed :: "'f::field list \<Rightarrow> 'f r1cs" where
  "committed xs = \<lparr>r1cs_values = xs, r1cs_rows = []\<rparr>"

lemma committed_honest [simp]: "honest r1cs_sat r1cs_wires r1cs_assigned (committed xs)"
  by (auto simp: honest_def closed_state_def committed_def r1cs_sat_def r1cs_wires_def r1cs_assigned_def)

lemma committed_closed [simp]: "closed_state r1cs_sat r1cs_wires (committed xs)"
  using committed_honest [of xs] unfolding honest_def by blast

lemma committed_wires [simp]: "r1cs_wires (committed xs) = {..<length xs + 2}"
  by (simp add: r1cs_wires_def committed_def)

lemma r1cs_contract: "constraint_system (r1cs_ops :: ('f::field r1cs, nat, 'f) cs_ops) r1cs_sat r1cs_wires r1cs_assigned"
  by (rule r1cs.constraint_system_axioms)

text \<open>
  The vector comparison asserts equal lengths; otherwise, in every satisfying
  assignment its output is one when the vectors are equal and zero when they are not,
  provided the lengths stay below the characteristic of the field, and the honest prover
  always satisfies its constraints.
\<close>

theorem eq_vec_correct:
  fixes cs :: "('s, 'v, 'f::field) cs_ops"
  assumes "constraint_system cs sat wires assigned"
    and "\<And>n. 0 < n \<Longrightarrow> n \<le> length a \<Longrightarrow> (of_nat n :: 'f) \<noteq> 0"
  shows "if length a = length b then \<exists>out s'. eq_vec cs a b s = Returns (out, s')
      \<and> (\<forall>\<rho>. sat s' \<rho> \<longrightarrow> sat s \<rho> \<and> \<rho> out = (if map (lc_eval \<rho>) a = map (lc_eval \<rho>) b then 1 else 0))
      \<and> (honest sat wires assigned s \<and> \<Union>(lc_vars ` (set a \<union> set b)) \<subseteq> wires s \<longrightarrow> honest sat wires assigned s')
    else eq_vec cs a b s = Panics"
proof (cases "length a = length b")
  case True
  then obtain out s' where run: "eq_vec cs a b s = Returns (out, s')"
    by (cases "not_equal_values cs (zip a b) s") (simp add: eq_vec_def, metis surj_pair)
  note correct = constraint_system.eq_vec_gadget [OF assms(1) run assms(2)]
  show ?thesis
    using True run constraint_system.gadget_sound [OF assms(1) correct] constraint_system.gadget_honest [OF assms(1) correct]
    by (auto simp: of_bool_def)
qed (simp add: eq_vec_def)

theorem eq_vec_correct_witness:
  "\<exists>out s'. eq_vec r1cs_ops [lc_var 2, lc_var 3] [lc_var 4, lc_var 5] (committed [5, 7, 5, 8 :: rat]) = Returns (out, s')
    \<and> honest r1cs_sat r1cs_wires r1cs_assigned s' \<and> r1cs_assigned s' out = 0"
proof -
  let ?s = "committed [5, 7, 5, 8 :: rat]"
  obtain out s' where run: "eq_vec r1cs_ops [lc_var 2, lc_var 3] [lc_var 4, lc_var 5] ?s = Returns (out, s')"
    and sound: "\<And>\<rho>. r1cs_sat s' \<rho> \<Longrightarrow> \<rho> out = (if map (lc_eval \<rho>) [lc_var 2, lc_var 3] = map (lc_eval \<rho>) [lc_var 4, lc_var 5] then 1 else 0)"
    and hon: "honest r1cs_sat r1cs_wires r1cs_assigned s'"
    using eq_vec_correct [OF r1cs_contract, of "[lc_var 2, lc_var 3]" "[lc_var 4, lc_var 5]" ?s] by auto
  have "r1cs.gro ?s s'"
    by (rule r1cs.gadget_grows [OF r1cs.eq_vec_gadget [OF run]]) simp
  then have "r1cs_assigned s' 3 = 7" "r1cs_assigned s' 5 = 8"
    by (simp_all add: grows_def) (simp_all add: r1cs_assigned_def committed_def)
  then show ?thesis
    using run hon sound [of "r1cs_assigned s'"] r1cs.honest_sat [OF hon] by (intro exI [of _ out] exI [of _ s']) simp
qed

text \<open>
  C26: the range checks check nothing. As soon as the width is positive, every assignment
  that satisfies the constraints before \<open>constrain_greater_than_zero\<close> extends to one that
  satisfies them after it, whatever the value under test, and the output of
  \<open>greater_than_zero\<close> can be made zero or one at will: the allocated bits are never
  constrained to be binary.\<close>

theorem range_checks_vacuous:
  assumes "constraint_system cs sat wires assigned"
    and "closed_state sat wires s" "lc_vars x \<subseteq> wires s" "0 < D" "D \<le> POSITIVE_SCALAR_MAX_BITS"
  shows "\<exists>s1 out s2. constrain_greater_than_zero D repr cs x s = Returns s1
    \<and> greater_than_zero D repr cs x s = Returns (out, s2)
    \<and> (\<forall>\<rho>. sat s \<rho> \<longrightarrow> (\<exists>\<rho>'. (\<forall>v\<in>wires s. \<rho>' v = \<rho> v) \<and> sat s1 \<rho>')
        \<and> (\<forall>b\<in>{0, 1}. \<exists>\<rho>'. (\<forall>v\<in>wires s. \<rho>' v = \<rho> v) \<and> sat s2 \<rho>' \<and> \<rho>' out = b))"
proof -
  obtain r t where dec: "bit_decompose_reconstruct D repr cs x s = Returns (r, t)"
    using assms(5)
    by (cases "allocate_all cs (take D (scalar_to_bits_le repr (cs_eval cs x s))) s") (simp add: bit_decompose_reconstruct_def)
  obtain out s2 where "eq_zero cs (lc_sub r x) t = (out, s2)"
    by fastforce
  with dec obtain s1 where run: "constrain_greater_than_zero D repr cs x s = Returns s1"
    "greater_than_zero D repr cs x s = Returns (out, s2)"
    by (simp add: constrain_greater_than_zero_def greater_than_zero_def)
  have "\<exists>\<rho>'. (\<forall>v\<in>wires s. \<rho>' v = \<rho> v) \<and> sat s1 \<rho>'" if "sat s \<rho>" for \<rho>
    using constraint_system.constrain_greater_than_zero_vacuous [OF assms(1) run(1) assms(4,2,3)] that
    by (simp add: unconstrained_def)
  moreover have "\<exists>\<rho>'. (\<forall>v\<in>wires s. \<rho>' v = \<rho> v) \<and> sat s2 \<rho>' \<and> \<rho>' out = of_bool b" if "sat s \<rho>" for \<rho> b
    using constraint_system.greater_than_zero_forged [OF assms(1) run(2) assms(4,2) that assms(3)] .
  from this [of _ True] this [of _ False] have "\<forall>b\<in>{0, 1}. \<exists>\<rho>'. (\<forall>v\<in>wires s. \<rho>' v = \<rho> v) \<and> sat s2 \<rho>' \<and> \<rho>' out = b" if "sat s \<rho>" for \<rho>
    using that by simp
  ultimately show ?thesis
    using run by blast
qed

theorem range_checks_vacuous_witness:
  "\<exists>s1. constrain_greater_than_zero 64 (\<lambda>x. nat \<lfloor>x\<rfloor>) r1cs_ops (lc_var 2) (committed [- 1 :: rat]) = Returns s1
    \<and> (\<exists>\<rho>. \<rho> 2 = - 1 \<and> r1cs_sat s1 \<rho>)"
proof -
  let ?s = "committed [- 1 :: rat]"
  have "r1cs_sat ?s (r1cs_assigned ?s)" "r1cs_assigned ?s 2 = - 1"
    using r1cs.honest_sat [OF committed_honest] by (auto simp: r1cs_assigned_def committed_def)
  then show ?thesis
    using range_checks_vacuous [OF r1cs_contract, of ?s "lc_var 2" 64 "\<lambda>x. nat \<lfloor>x\<rfloor>"]
    by (auto simp: POSITIVE_SCALAR_MAX_BITS_def) (metis lessThan_iff lessI numeral_3_eq_3 numeral_2_eq_2)
qed

text \<open>
  The division gadget always fixes the remainder \<open>r = a - b q\<close> for its quotient \<open>q\<close>,
  but its check \<open>r < b\<close> checks nothing: a prover can give the quotient any value.\<close>

theorem quotient_unconstrained:
  assumes "constraint_system cs sat wires assigned"
    and "closed_state sat wires s" "lc_vars a \<union> lc_vars b \<subseteq> wires s" "0 < D" "D \<le> POSITIVE_SCALAR_MAX_BITS"
  shows "\<exists>q r s'. div_rem D repr cs a b s = Returns ((q, r), s')
    \<and> (\<forall>\<rho>. sat s' \<rho> \<longrightarrow> lc_eval \<rho> a = lc_eval \<rho> b * \<rho> q + \<rho> r)
    \<and> (\<forall>\<rho> y. sat s \<rho> \<longrightarrow> (\<exists>\<rho>'. (\<forall>v\<in>wires s. \<rho>' v = \<rho> v) \<and> sat s' \<rho>' \<and> \<rho>' q = y))"
proof -
  obtain q r s' where run: "div_rem D repr cs a b s = Returns ((q, r), s')"
    using div_rem_returns [OF assms(5), of repr cs a b s] by blast
  show ?thesis
    using run constraint_system.div_rem_sat [OF assms(1) run]
      constraint_system.div_rem_forged [OF assms(1) run assms(4,2) _ assms(3)] by blast
qed

theorem quotient_unconstrained_witness:
  "\<exists>q r s'. div_rem 64 (\<lambda>x. nat \<lfloor>x\<rfloor>) r1cs_ops (lc_var 2) (lc_var 3) (committed [7, 2 :: rat]) = Returns ((q, r), s')
    \<and> (\<exists>\<rho>. \<rho> 2 = 7 \<and> \<rho> 3 = 2 \<and> \<rho> q = 1000 \<and> r1cs_sat s' \<rho>)"
proof -
  let ?s = "committed [7, 2 :: rat]"
  have start: "r1cs_sat ?s (r1cs_assigned ?s)" "r1cs_assigned ?s 2 = 7" "r1cs_assigned ?s 3 = 2"
    using r1cs.honest_sat [OF committed_honest] by (auto simp: r1cs_assigned_def committed_def)
  obtain q r s' where run: "div_rem 64 (\<lambda>x. nat \<lfloor>x\<rfloor>) r1cs_ops (lc_var 2) (lc_var 3) ?s = Returns ((q, r), s')"
    and forged: "\<And>\<rho> y. r1cs_sat ?s \<rho> \<Longrightarrow> \<exists>\<rho>'. (\<forall>v\<in>r1cs_wires ?s. \<rho>' v = \<rho> v) \<and> r1cs_sat s' \<rho>' \<and> \<rho>' q = y"
    using quotient_unconstrained [OF r1cs_contract, of ?s "lc_var 2" "lc_var 3" 64 "\<lambda>x. nat \<lfloor>x\<rfloor>"]
    by (auto simp: POSITIVE_SCALAR_MAX_BITS_def)
  obtain \<rho> where "\<forall>v\<in>r1cs_wires ?s. \<rho> v = r1cs_assigned ?s v" "r1cs_sat s' \<rho>" "\<rho> q = 1000"
    using forged [OF start(1)] by blast
  then show ?thesis
    using run start(2,3) by (intro exI [of _ q] exI [of _ r] exI [of _ s'] conjI exI [of _ \<rho>]) simp_all
qed

text \<open>
  Exponentiation. For a public exponent, every satisfying assignment gives the output the
  power of the base. For a private exponent of at most \<open>N\<close> bits the honest prover satisfies the
  constraints, and its output is the power of the base.\<close>

theorem exponentiation_correct:
  fixes cs :: "('s, 'v, 'f::field) cs_ops"
  assumes "constraint_system cs sat wires assigned"
    and "honest sat wires assigned s" "lc_vars x \<union> lc_vars e \<subseteq> wires s"
    and "of_nat (repr (cs_eval cs e s)) = cs_eval cs e s" "repr (cs_eval cs e s) < 2 ^ N" "N \<le> 256"
    and "\<And>n. 0 < n \<Longrightarrow> n \<le> N \<Longrightarrow> (of_nat n :: 'f) \<noteq> 0"
  shows "(\<forall>\<rho>. sat (snd (exp_gadget cs x alpha s)) \<rho> \<longrightarrow> lc_eval \<rho> (fst (exp_gadget cs x alpha s)) = lc_eval \<rho> x ^ alpha)
    \<and> (\<exists>out s'. exp_private N repr cs x e s = Returns (out, s') \<and> honest sat wires assigned s'
        \<and> cs_eval cs out s' = cs_eval cs x s ^ repr (cs_eval cs e s))
    \<and> (\<exists>out s'. exp_private_fixed_base N repr cs c e s = Returns (out, s') \<and> honest sat wires assigned s'
        \<and> cs_eval cs out s' = c ^ repr (cs_eval cs e s))"
proof (intro conjI)
  show "\<forall>\<rho>. sat (snd (exp_gadget cs x alpha s)) \<rho> \<longrightarrow> lc_eval \<rho> (fst (exp_gadget cs x alpha s)) = lc_eval \<rho> x ^ alpha"
    using constraint_system.gadget_sound [OF assms(1) constraint_system.exp_gadget_gadget [OF assms(1) prod.collapse [symmetric]]] by blast
  show "\<exists>out s'. exp_private N repr cs x e s = Returns (out, s') \<and> honest sat wires assigned s'
      \<and> cs_eval cs out s' = cs_eval cs x s ^ repr (cs_eval cs e s)"
    by (rule constraint_system.exp_private_honest [OF assms(1), of s x e repr N]) (fact assms)+
  show "\<exists>out s'. exp_private_fixed_base N repr cs c e s = Returns (out, s') \<and> honest sat wires assigned s'
      \<and> cs_eval cs out s' = c ^ repr (cs_eval cs e s)"
    by (rule constraint_system.exp_private_fixed_base_honest [OF assms(1), of s x e repr N]) (fact assms)+
qed

theorem exponentiation_correct_witness:
  "\<exists>out s'. exp_private 4 (\<lambda>x. nat \<lfloor>x\<rfloor>) r1cs_ops (lc_var 2) (lc_var 3) (committed [2, 10 :: rat]) = Returns (out, s')
    \<and> cs_eval r1cs_ops out s' = 1024"
proof -
  have "cs_eval r1cs_ops (lc_var 2) (committed [2, 10 :: rat]) = 2" "cs_eval r1cs_ops (lc_var 3) (committed [2, 10 :: rat]) = 10"
    by (simp_all add: r1cs_ops_def r1cs_assigned_def committed_def)
  then show ?thesis
    using exponentiation_correct [OF r1cs_contract committed_honest, of "lc_var 2" "lc_var 3" "[2, 10 :: rat]" "\<lambda>x. nat \<lfloor>x\<rfloor>" 4 0 0]
    by auto
qed

end
