(* ===== verification/Poseidon.thy ===== *)
theory Poseidon
  imports Gadgets
begin

section \<open>The Poseidon hash\<close>

text \<open>
  The sponge over shared scalars (\<open>mpc_gadgets/poseidon.rs\<close>) and the same sponge inside a
  constraint system (\<open>zk_gadgets/poseidon.rs\<close>). A value shared over the fabric is modelled by the
  scalar it opens to: the sums and products of the \<open>mpc-ristretto\<close> crate are those of the opened
  values. The gadgets' \<open>Result\<close> is always \<open>Ok\<close> and is left out; indexing out of range and a
  failed assertion are \<open>Panics\<close>.
\<close>

subsection \<open>Parameters\<close>

record 'f PoseidonSpongeParameters =
  round_constants :: "'f list list"
  mds_matrix :: "'f list list"
  alpha :: nat
  rate :: nat
  capacity :: nat
  full_rounds :: nat
  parital_rounds :: nat

definition valid_params :: "'f PoseidonSpongeParameters \<Rightarrow> bool" where
  "valid_params p \<longleftrightarrow> full_rounds p mod 2 = 0
    \<and> full_rounds p + parital_rounds p = length (round_constants p)
    \<and> list_all (\<lambda>rc. length rc = rate p + capacity p) (round_constants p)
    \<and> length (mds_matrix p) = rate p + capacity p
    \<and> list_all (\<lambda>row. length row = rate p + capacity p) (mds_matrix p)"

definition PoseidonSpongeParameters_new ::
  "'f list list \<Rightarrow> 'f list list \<Rightarrow> nat \<Rightarrow> nat \<Rightarrow> nat \<Rightarrow> nat \<Rightarrow> nat \<Rightarrow> 'f PoseidonSpongeParameters call" where
  "PoseidonSpongeParameters_new rcs mds a r c full part =
    (let p = \<lparr>round_constants = rcs, mds_matrix = mds, alpha = a, rate = r, capacity = c,
        full_rounds = full, parital_rounds = part\<rparr>
     in if valid_params p then Returns p else Panics)"

definition get_round_constant :: "'f PoseidonSpongeParameters \<Rightarrow> nat \<Rightarrow> 'f list call" where
  "get_round_constant p i = (if i < length (round_constants p) then Returns (round_constants p ! i) else Panics)"

fun fold_call :: "('a \<Rightarrow> 'b \<Rightarrow> 'b call) \<Rightarrow> 'a list \<Rightarrow> 'b \<Rightarrow> 'b call" where
  "fold_call f [] y = Returns y"
| "fold_call f (x # xs) y = bind_call (f x y) (fold_call f xs)"

subsection \<open>The hasher over shared scalars\<close>

fun scalar_exp :: "'f::field \<Rightarrow> nat \<Rightarrow> 'f" where
  "scalar_exp x a =
    (if a = 0 then 1
     else if a = 1 then x
     else if a mod 2 = 1 then (let recursive_result = scalar_exp x ((a - 1) div 2) in recursive_result * recursive_result * x)
     else (let recursive_result = scalar_exp x (a div 2) in recursive_result * recursive_result))"

declare scalar_exp.simps [simp del]

record 'f PoseidonHasher =
  hash_params :: "'f PoseidonSpongeParameters"
  hash_state :: "'f list"
  next_index :: nat
  in_squeeze_state :: bool

definition PoseidonHasher_new :: "'f::field PoseidonSpongeParameters \<Rightarrow> 'f PoseidonHasher" where
  "PoseidonHasher_new p = \<lparr>hash_params = p, hash_state = replicate (rate p + capacity p) 0, next_index = 0, in_squeeze_state = False\<rparr>"

definition add_round_constants :: "'f::field PoseidonSpongeParameters \<Rightarrow> nat \<Rightarrow> 'f list \<Rightarrow> 'f list call" where
  "add_round_constants p round_number st = bind_call (get_round_constant p round_number)
    (\<lambda>rc. Returns (map2 (+) st rc @ drop (length rc) st))"

definition apply_sbox :: "'f::field PoseidonSpongeParameters \<Rightarrow> bool \<Rightarrow> 'f list \<Rightarrow> 'f list call" where
  "apply_sbox p full_round st =
    (if full_round then Returns (map (\<lambda>elem. scalar_exp elem (alpha p)) st)
     else if st = [] then Panics
     else Returns (st[0 := scalar_exp (st ! 0) (alpha p)]))"

definition apply_mds :: "'f::field PoseidonSpongeParameters \<Rightarrow> 'f list \<Rightarrow> 'f list" where
  "apply_mds p st =
    (let res = map (\<lambda>row. foldl (\<lambda>acc (a, b). acc + a * b) 0 (zip row st)) (mds_matrix p)
     in take (length st) res @ drop (length res) st)"

definition poseidon_round :: "'f::field PoseidonSpongeParameters \<Rightarrow> bool \<Rightarrow> nat \<Rightarrow> 'f list \<Rightarrow> 'f list call" where
  "poseidon_round p full_round round_number st = bind_call (add_round_constants p round_number st)
    (\<lambda>st. bind_call (apply_sbox p full_round st) (\<lambda>st. Returns (apply_mds p st)))"

definition permute :: "'f::field PoseidonSpongeParameters \<Rightarrow> 'f list \<Rightarrow> 'f list call" where
  "permute p st =
    (let partial_rounds_start = full_rounds p div 2;
      partial_rounds_end = partial_rounds_start + parital_rounds p;
      final_full_rounds_end = parital_rounds p + full_rounds p
    in bind_call (fold_call (poseidon_round p True) [0..<full_rounds p div 2] st)
      (\<lambda>st. bind_call (fold_call (poseidon_round p False) [partial_rounds_start..<partial_rounds_end] st)
      (fold_call (poseidon_round p True) [partial_rounds_end..<final_full_rounds_end])))"

definition absorb :: "'f::field \<Rightarrow> 'f PoseidonHasher \<Rightarrow> 'f PoseidonHasher call" where
  "absorb a h = (if in_squeeze_state h then Panics
    else bind_call
      (if next_index h = rate (hash_params h)
       then bind_call (permute (hash_params h) (hash_state h)) (\<lambda>st. Returns (h\<lparr>hash_state := st, next_index := 0\<rparr>))
       else Returns h)
      (\<lambda>h. let access_index = capacity (hash_params h) + next_index h in
        if access_index < length (hash_state h)
        then Returns (h\<lparr>hash_state := (hash_state h)[access_index := hash_state h ! access_index + a], next_index := next_index h + 1\<rparr>)
        else Panics))"

definition absorb_batch :: "'f::field list \<Rightarrow> 'f PoseidonHasher \<Rightarrow> 'f PoseidonHasher call" where
  "absorb_batch a h = fold_call absorb a h"

definition squeeze_hasher :: "'f::field PoseidonHasher \<Rightarrow> ('f \<times> 'f PoseidonHasher) call" where
  "squeeze_hasher h = bind_call
    (if \<not> in_squeeze_state h \<or> next_index h = rate (hash_params h)
     then bind_call (permute (hash_params h) (hash_state h)) (\<lambda>st. Returns (h\<lparr>hash_state := st, next_index := 0, in_squeeze_state := True\<rparr>))
     else Returns h)
    (\<lambda>h. let h = h\<lparr>next_index := next_index h + 1\<rparr>; i = capacity (hash_params h) + next_index h - 1 in
      if i < length (hash_state h) then Returns (hash_state h ! i, h) else Panics)"

fun squeeze_batch :: "nat \<Rightarrow> 'f::field PoseidonHasher \<Rightarrow> ('f list \<times> 'f PoseidonHasher) call" where
  "squeeze_batch 0 h = Returns ([], h)"
| "squeeze_batch (Suc n) h = bind_call (squeeze_hasher h) (\<lambda>(x, h).
    bind_call (squeeze_batch n h) (\<lambda>(xs, h). Returns (x # xs, h)))"

text \<open>The hash of a message: absorb it in one batch and squeeze once.\<close>

definition poseidon_hash :: "'f::field PoseidonSpongeParameters \<Rightarrow> 'f list \<Rightarrow> 'f call" where
  "poseidon_hash p xs = bind_call (absorb_batch xs (PoseidonHasher_new p))
    (\<lambda>h. bind_call (squeeze_hasher h) (\<lambda>(x, _). Returns x))"

subsection \<open>The hash gadget\<close>

record ('v, 'f) PoseidonHashGadget =
  gadget_params :: "'f PoseidonSpongeParameters"
  gadget_state :: "('v, 'f) lc list"
  gadget_next :: nat
  gadget_squeezing :: bool

definition PoseidonHashGadget_new :: "('s, 'v, 'f::field) cs_ops \<Rightarrow> 'f PoseidonSpongeParameters \<Rightarrow> ('v, 'f) PoseidonHashGadget" where
  "PoseidonHashGadget_new cs p =
    \<lparr>gadget_params = p, gadget_state = map (\<lambda>_. lc_const cs 0) [0..<capacity p + rate p], gadget_next = 0, gadget_squeezing = False\<rparr>"

definition gadget_add_round_constants ::
  "('s, 'v, 'f::field) cs_ops \<Rightarrow> 'f PoseidonSpongeParameters \<Rightarrow> nat \<Rightarrow> ('v, 'f) lc list \<Rightarrow> ('v, 'f) lc list call" where
  "gadget_add_round_constants cs p round_number st = bind_call (get_round_constant p round_number)
    (\<lambda>rc. Returns (map2 (\<lambda>elem c. lc_add elem (lc_const cs c)) st rc @ drop (length rc) st))"

fun exp_each :: "('s, 'v, 'f::field) cs_ops \<Rightarrow> nat \<Rightarrow> ('v, 'f) lc list \<Rightarrow> 's \<Rightarrow> ('v, 'f) lc list \<times> 's" where
  "exp_each cs a [] s = ([], s)"
| "exp_each cs a (x # xs) s = (case exp_gadget cs x a s of (y, s) \<Rightarrow> case exp_each cs a xs s of (ys, s) \<Rightarrow> (y # ys, s))"

definition gadget_apply_sbox ::
  "('s, 'v, 'f::field) cs_ops \<Rightarrow> 'f PoseidonSpongeParameters \<Rightarrow> bool \<Rightarrow> ('v, 'f) lc list \<Rightarrow> 's \<Rightarrow> (('v, 'f) lc list \<times> 's) call" where
  "gadget_apply_sbox cs p full_round st s =
    (if full_round then Returns (exp_each cs (alpha p) st s)
     else if st = [] then Panics
     else (case exp_gadget cs (st ! 0) (alpha p) s of (y, s) \<Rightarrow> Returns (st[0 := y], s)))"

definition gadget_apply_mds :: "'f::field PoseidonSpongeParameters \<Rightarrow> ('v, 'f) lc list \<Rightarrow> ('v, 'f) lc list call" where
  "gadget_apply_mds p st =
    (if length (mds_matrix p) > length st then Panics
     else Returns (map (\<lambda>row. foldl (\<lambda>acc (a, b). lc_add acc (lc_scale a b)) [] (zip row st)) (mds_matrix p)
       @ replicate (length st - length (mds_matrix p)) []))"

definition gadget_round ::
  "('s, 'v, 'f::field) cs_ops \<Rightarrow> 'f PoseidonSpongeParameters \<Rightarrow> bool \<Rightarrow> nat \<Rightarrow> ('v, 'f) lc list \<times> 's \<Rightarrow> (('v, 'f) lc list \<times> 's) call" where
  "gadget_round cs p full_round round_number = (\<lambda>(st, s). bind_call (gadget_add_round_constants cs p round_number st)
    (\<lambda>st. bind_call (gadget_apply_sbox cs p full_round st s) (\<lambda>(st, s). bind_call (gadget_apply_mds p st) (\<lambda>st. Returns (st, s)))))"

definition gadget_permute ::
  "('s, 'v, 'f::field) cs_ops \<Rightarrow> 'f PoseidonSpongeParameters \<Rightarrow> ('v, 'f) lc list \<times> 's \<Rightarrow> (('v, 'f) lc list \<times> 's) call" where
  "gadget_permute cs p st =
    (let partial_rounds_start = full_rounds p div 2;
      partial_rounds_end = partial_rounds_start + parital_rounds p;
      final_full_rounds_end = parital_rounds p + full_rounds p
    in bind_call (fold_call (gadget_round cs p True) [0..<full_rounds p div 2] st)
      (\<lambda>st. bind_call (fold_call (gadget_round cs p False) [partial_rounds_start..<partial_rounds_end] st)
      (fold_call (gadget_round cs p True) [partial_rounds_end..<final_full_rounds_end])))"

definition gadget_absorb ::
  "('s, 'v, 'f::field) cs_ops \<Rightarrow> ('v, 'f) lc \<Rightarrow> ('v, 'f) PoseidonHashGadget \<times> 's \<Rightarrow> (('v, 'f) PoseidonHashGadget \<times> 's) call" where
  "gadget_absorb cs a = (\<lambda>(g, s). if gadget_squeezing g then Panics
    else bind_call
      (if gadget_next g = rate (gadget_params g)
       then bind_call (gadget_permute cs (gadget_params g) (gadget_state g, s)) (\<lambda>(st, s). Returns (g\<lparr>gadget_state := st, gadget_next := 0\<rparr>, s))
       else Returns (g, s))
      (\<lambda>(g, s). let access_index = gadget_next g + capacity (gadget_params g) in
        if access_index < length (gadget_state g)
        then Returns (g\<lparr>gadget_state := (gadget_state g)[access_index := lc_add (gadget_state g ! access_index) a], gadget_next := gadget_next g + 1\<rparr>, s)
        else Panics))"

definition gadget_batch_absorb ::
  "('s, 'v, 'f::field) cs_ops \<Rightarrow> ('v, 'f) lc list \<Rightarrow> ('v, 'f) PoseidonHashGadget \<times> 's \<Rightarrow> (('v, 'f) PoseidonHashGadget \<times> 's) call" where
  "gadget_batch_absorb cs a = fold_call (gadget_absorb cs) a"

definition gadget_squeeze ::
  "('s, 'v, 'f::field) cs_ops \<Rightarrow> ('v, 'f) PoseidonHashGadget \<times> 's \<Rightarrow> (('v, 'f) lc \<times> ('v, 'f) PoseidonHashGadget \<times> 's) call" where
  "gadget_squeeze cs = (\<lambda>(g, s). bind_call
    (if \<not> gadget_squeezing g \<or> gadget_next g = rate (gadget_params g)
     then bind_call (gadget_permute cs (gadget_params g) (gadget_state g, s))
       (\<lambda>(st, s). Returns (g\<lparr>gadget_state := st, gadget_next := 0, gadget_squeezing := True\<rparr>, s))
     else Returns (g, s))
    (\<lambda>(g, s). if capacity (gadget_params g) + gadget_next g < length (gadget_state g)
      then Returns (gadget_state g ! (capacity (gadget_params g) + gadget_next g), g, s) else Panics))"

fun gadget_batch_squeeze ::
  "('s, 'v, 'f::field) cs_ops \<Rightarrow> nat \<Rightarrow> ('v, 'f) PoseidonHashGadget \<times> 's \<Rightarrow> (('v, 'f) lc list \<times> ('v, 'f) PoseidonHashGadget \<times> 's) call" where
  "gadget_batch_squeeze cs 0 g = Returns ([], g)"
| "gadget_batch_squeeze cs (Suc n) g = bind_call (gadget_squeeze cs g) (\<lambda>(x, g).
    bind_call (gadget_batch_squeeze cs n g) (\<lambda>(xs, g). Returns (x # xs, g)))"

definition gadget_constrained_squeeze ::
  "('s, 'v, 'f::field) cs_ops \<Rightarrow> ('v, 'f) lc \<Rightarrow> ('v, 'f) PoseidonHashGadget \<times> 's \<Rightarrow> (('v, 'f) PoseidonHashGadget \<times> 's) call" where
  "gadget_constrained_squeeze cs expected g = bind_call (gadget_squeeze cs g)
    (\<lambda>(squeezed_elem, g, s). Returns (g, cs_constrain cs (lc_sub squeezed_elem expected) s))"

definition gadget_batch_constrained_squeeze ::
  "('s, 'v, 'f::field) cs_ops \<Rightarrow> ('v, 'f) lc list \<Rightarrow> ('v, 'f) PoseidonHashGadget \<times> 's \<Rightarrow> (('v, 'f) PoseidonHashGadget \<times> 's) call" where
  "gadget_batch_constrained_squeeze cs expected g = fold_call (gadget_constrained_squeeze cs) expected g"

definition gadget_hash ::
  "('s, 'v, 'f::field) cs_ops \<Rightarrow> ('v, 'f) lc list \<Rightarrow> ('v, 'f) lc \<Rightarrow> ('v, 'f) PoseidonHashGadget \<times> 's \<Rightarrow> (('v, 'f) PoseidonHashGadget \<times> 's) call" where
  "gadget_hash cs hash_input expected_output g = bind_call (gadget_batch_absorb cs hash_input g)
    (gadget_constrained_squeeze cs expected_output)"

text \<open>A fresh hasher that absorbs a list of inputs and squeezes once, as the other gadgets use it.\<close>

definition hash_gadget ::
  "('s, 'v, 'f::field) cs_ops \<Rightarrow> 'f PoseidonSpongeParameters \<Rightarrow> ('v, 'f) lc list \<Rightarrow> 's \<Rightarrow> (('v, 'f) lc \<times> 's) call" where
  "hash_gadget cs p xs s = bind_call (gadget_batch_absorb cs xs (PoseidonHashGadget_new cs p, s))
    (\<lambda>g. bind_call (gadget_squeeze cs g) (\<lambda>(out, _, s). Returns (out, s)))"

subsection \<open>The gadget computes the hash\<close>

lemma scalar_exp_power: "scalar_exp x a = x ^ a"
proof (induction a rule: less_induct)
  case (less a)
  consider "a = 0" | "a = 1" | m where "a = 2 * m" "0 < m" | m where "a = 2 * m + 1" "0 < m"
    by (metis One_nat_def evenE oddE add_0 bot_nat_0.not_eq_extremum mult_0_right)
  then show ?case
  proof cases
    case (3 m)
    then show ?thesis
      using less [of m] by (subst scalar_exp.simps) (simp add: Let_def power_add [symmetric] mult_2 [symmetric])
  next
    case (4 m)
    then show ?thesis
      using less [of m] by (subst scalar_exp.simps) (simp add: Let_def power_add [symmetric] mult_2 [symmetric] power_Suc2 del: power_Suc)
  qed (simp_all add: scalar_exp.simps)
qed

lemma valid_round_constant:
  "valid_params p \<Longrightarrow> i < length (round_constants p) \<Longrightarrow> length (round_constants p ! i) = rate p + capacity p"
  by (simp add: valid_params_def list_all_length)

abbreviation state_vars :: "('v, 'f) lc list \<Rightarrow> 'v set" where
  "state_vars st \<equiv> \<Union>(lc_vars ` set st)"

lemma scope_through: "Y \<subseteq> B \<union> V \<Longrightarrow> A \<subseteq> Y \<union> B \<Longrightarrow> A \<subseteq> V \<union> B \<union> C"
  by blast

lemma state_vars_nth: "i < length st \<Longrightarrow> lc_vars (st ! i) \<subseteq> state_vars st"
  by (rule UN_upper) simp

lemma mds_row_eval:
  "lc_eval \<rho> (foldl (\<lambda>acc (a, b). lc_add acc (lc_scale a b)) acc (zip row st))
    = foldl (\<lambda>acc (a, b). acc + a * b) (lc_eval \<rho> acc) (zip row (map (lc_eval \<rho>) st))"
  by (induction row arbitrary: acc st) (simp_all add: zip_Cons1 split: list.split)

lemma mds_row_vars: "lc_vars (foldl (\<lambda>acc (a, b). lc_add acc (lc_scale a b)) acc (zip row st)) \<subseteq> lc_vars acc \<union> state_vars st"
proof (induction row arbitrary: acc st)
  case (Cons a row)
  show ?case
    using Cons.IH by (cases st) fastforce+
qed simp

context constraint_system
begin

lemma exp_each_gadget:
  "exp_each cs a xs s = (ys, s') \<Longrightarrow>
    length ys = length xs \<and> gad (state_vars xs) (state_vars ys) s s' (\<lambda>\<rho>. map (lc_eval \<rho>) ys = map (\<lambda>x. lc_eval \<rho> x ^ a) xs)"
proof (induction xs arbitrary: s ys)
  case (Cons x xs)
  then obtain y t zs where run: "exp_gadget cs x a s = (y, t)" "exp_each cs a xs t = (zs, s')" "ys = y # zs"
    by (auto split: prod.splits)
  have "gad (state_vars (x # xs)) (state_vars ys) s s' (\<lambda>\<rho>. map (lc_eval \<rho>) ys = map (\<lambda>x. lc_eval \<rho> x ^ a) (x # xs))"
    using exp_gadget_gadget [OF run(1)] Cons.IH [OF run(2), THEN conjunct2] by (rule gadget_chain) (auto simp: run(3))
  then show ?case
    using Cons.IH [OF run(2)] run(3) by simp
qed (auto simp: gadget_def)

lemma sbox_gadget:
  assumes "st \<noteq> []"
  shows "\<exists>st' s'. gadget_apply_sbox cs p f st s = Returns (st', s') \<and> length st' = length st
    \<and> gad (state_vars st) (state_vars st') s s' (\<lambda>\<rho>. apply_sbox p f (map (lc_eval \<rho>) st) = Returns (map (lc_eval \<rho>) st'))"
proof (cases f)
  case True
  obtain st' s' where run: "exp_each cs (alpha p) st s = (st', s')"
    by fastforce
  show ?thesis
    using exp_each_gadget [OF run] by (auto simp: True gadget_apply_sbox_def apply_sbox_def run scalar_exp_power comp_def elim!: gadget_weaken)
next
  case False
  obtain y s' where run: "exp_gadget cs (st ! 0) (alpha p) s = (y, s')"
    by fastforce
  have mem: "lc_vars (st ! 0) \<subseteq> state_vars st"
    using assms by (intro state_vars_nth) simp
  have new: "state_vars (st[0 := y]) \<subseteq> state_vars st \<union> lc_vars y"
    using set_update_subset_insert [of st 0 y] by auto
  have "gad (state_vars st) (state_vars (st[0 := y])) s s' (\<lambda>\<rho>. apply_sbox p f (map (lc_eval \<rho>) st) = Returns (map (lc_eval \<rho>) (st[0 := y])))"
    using assms False mem new
    by (intro gadget_weaken [OF exp_gadget_gadget [OF run]]) (auto simp: apply_sbox_def map_update scalar_exp_power)
  then show ?thesis
    using assms False by (simp add: gadget_apply_sbox_def run)
qed

lemma round_constants_eval:
  assumes "gadget_add_round_constants cs p r st = Returns st'" "sat s \<rho>"
  shows "add_round_constants p r (map (lc_eval \<rho>) st) = Returns (map (lc_eval \<rho>) st')"
proof -
  have "map (lc_eval \<rho>) (map2 (\<lambda>elem c. lc_add elem (lc_const cs c)) st rc) = map2 (+) (map (lc_eval \<rho>) st) rc" for rc
    by (induction st rc rule: list_induct2') (simp_all add: const_eval [OF assms(2)])
  then show ?thesis
    using assms(1) by (auto simp: gadget_add_round_constants_def add_round_constants_def get_round_constant_def drop_map split: if_splits)
qed

lemma round_constants_vars:
  assumes "gadget_add_round_constants cs p r st = Returns st'"
  shows "state_vars st' \<subseteq> insert (var_one cs) (state_vars st)"
  using assms
  by (auto simp: gadget_add_round_constants_def get_round_constant_def split: if_splits dest!: set_zip_leftD in_set_dropD)

lemma mds_eval:
  assumes "gadget_apply_mds p st = Returns st'" "length (mds_matrix p) = length st"
  shows "apply_mds p (map (lc_eval \<rho>) st) = map (lc_eval \<rho>) st' \<and> state_vars st' \<subseteq> state_vars st \<and> length st' = length st"
proof -
  have st': "st' = map (\<lambda>row. foldl (\<lambda>acc (a, b). lc_add acc (lc_scale a b)) [] (zip row st)) (mds_matrix p)"
    using assms by (simp add: gadget_apply_mds_def)
  show ?thesis
    using assms(2) mds_row_vars [of "[]" _ st] by (auto simp: st' apply_mds_def Let_def mds_row_eval comp_def)
qed

lemma round_gadget:
  assumes p: "valid_params p" "r < length (round_constants p)" and st: "length st = rate p + capacity p" "st \<noteq> []"
  shows "\<exists>st' s'. gadget_round cs p f r (st, s) = Returns (st', s') \<and> length st' = length st
    \<and> gad (state_vars st) (state_vars st') s s' (\<lambda>\<rho>. poseidon_round p f r (map (lc_eval \<rho>) st) = Returns (map (lc_eval \<rho>) st'))"
proof -
  obtain st1 where st1: "gadget_add_round_constants cs p r st = Returns st1"
    using p by (simp add: gadget_add_round_constants_def get_round_constant_def)
  then have len: "length st1 = length st"
    using p st valid_round_constant [OF p] by (auto simp: gadget_add_round_constants_def get_round_constant_def)
  with st obtain st2 s' where st2: "gadget_apply_sbox cs p f st1 s = Returns (st2, s')" "length st2 = length st"
    and box: "gad (state_vars st1) (state_vars st2) s s' (\<lambda>\<rho>. apply_sbox p f (map (lc_eval \<rho>) st1) = Returns (map (lc_eval \<rho>) st2))"
    using sbox_gadget [of st1 p f s] by fastforce
  have mds: "length (mds_matrix p) = length st2"
    using p st st2 by (simp add: valid_params_def)
  then obtain st3 where st3: "gadget_apply_mds p st2 = Returns st3"
    by (simp add: gadget_apply_mds_def)
  have sub: "state_vars st3 \<subseteq> state_vars st2" and eval: "\<And>\<rho>. apply_mds p (map (lc_eval \<rho>) st2) = map (lc_eval \<rho>) st3"
    by (simp_all only: mds_eval [OF st3 mds])
  have "gad (state_vars st) (state_vars st3) s s' (\<lambda>\<rho>. poseidon_round p f r (map (lc_eval \<rho>) st) = Returns (map (lc_eval \<rho>) st3))"
  proof (rule gadget_weaken [OF box])
    show "state_vars st1 \<subseteq> state_vars st \<union> {var_one cs, var_zero cs}" "state_vars st3 \<subseteq> state_vars st \<union> state_vars st2 \<union> {var_one cs, var_zero cs}"
      using round_constants_vars [OF st1] sub by (simp_all add: subset_iff) blast+
  qed (simp add: poseidon_round_def round_constants_eval [OF st1] eval)
  then show ?thesis
    using st1 st2 st3 mds_eval [OF st3 mds] by (auto simp: gadget_round_def)
qed

lemma rounds_gadget:
  assumes "valid_params p" "list_all (\<lambda>r. r < length (round_constants p)) rs" "length st = rate p + capacity p" "st \<noteq> []"
  shows "\<exists>st' s'. fold_call (gadget_round cs p f) rs (st, s) = Returns (st', s') \<and> length st' = length st
    \<and> gad (state_vars st) (state_vars st') s s' (\<lambda>\<rho>. fold_call (poseidon_round p f) rs (map (lc_eval \<rho>) st) = Returns (map (lc_eval \<rho>) st'))"
  using assms(2-)
proof (induction rs arbitrary: st s)
  case (Cons r rs)
  obtain st1 s1 where 1: "gadget_round cs p f r (st, s) = Returns (st1, s1)" "length st1 = length st"
    "gad (state_vars st) (state_vars st1) s s1 (\<lambda>\<rho>. poseidon_round p f r (map (lc_eval \<rho>) st) = Returns (map (lc_eval \<rho>) st1))"
    using round_gadget [OF assms(1), of r st f s] Cons.prems by auto
  moreover have "st1 \<noteq> []"
    using 1(2) Cons.prems(3) by auto
  ultimately obtain st2 s2 where 2: "fold_call (gadget_round cs p f) rs (st1, s1) = Returns (st2, s2)" "length st2 = length st1"
    "gad (state_vars st1) (state_vars st2) s1 s2 (\<lambda>\<rho>. fold_call (poseidon_round p f) rs (map (lc_eval \<rho>) st1) = Returns (map (lc_eval \<rho>) st2))"
    using Cons.IH [of st1 s1] Cons.prems by auto
  have "gad (state_vars st) (state_vars st2) s s2 (\<lambda>\<rho>. fold_call (poseidon_round p f) (r # rs) (map (lc_eval \<rho>) st) = Returns (map (lc_eval \<rho>) st2))"
    using 1(3) 2(3) by (rule gadget_chain) auto
  then show ?case
    using 1 2 by auto
qed (auto simp: gadget_def)

lemma permute_gadget:
  assumes p: "valid_params p" and st: "length st = rate p + capacity p" "st \<noteq> []"
  shows "\<exists>st' s'. gadget_permute cs p (st, s) = Returns (st', s') \<and> length st' = length st
    \<and> gad (state_vars st) (state_vars st') s s' (\<lambda>\<rho>. permute p (map (lc_eval \<rho>) st) = Returns (map (lc_eval \<rho>) st'))"
proof -
  let ?a = "[0..<full_rounds p div 2]" and ?b = "[full_rounds p div 2..<full_rounds p div 2 + parital_rounds p]"
  let ?c = "[full_rounds p div 2 + parital_rounds p..<parital_rounds p + full_rounds p]"
  have in_range: "list_all (\<lambda>r. r < length (round_constants p)) ?a" "list_all (\<lambda>r. r < length (round_constants p)) ?b"
    "list_all (\<lambda>r. r < length (round_constants p)) ?c"
    using p by (auto simp: valid_params_def list_all_iff)
  obtain st1 s1 where 1: "fold_call (gadget_round cs p True) ?a (st, s) = Returns (st1, s1)" "length st1 = length st"
    "gad (state_vars st) (state_vars st1) s s1 (\<lambda>\<rho>. fold_call (poseidon_round p True) ?a (map (lc_eval \<rho>) st) = Returns (map (lc_eval \<rho>) st1))"
    using rounds_gadget [OF p in_range(1) st] by blast
  have st1: "length st1 = rate p + capacity p" "st1 \<noteq> []"
    using 1(2) st by auto
  obtain st2 s2 where 2: "fold_call (gadget_round cs p False) ?b (st1, s1) = Returns (st2, s2)" "length st2 = length st1"
    "gad (state_vars st1) (state_vars st2) s1 s2 (\<lambda>\<rho>. fold_call (poseidon_round p False) ?b (map (lc_eval \<rho>) st1) = Returns (map (lc_eval \<rho>) st2))"
    using rounds_gadget [OF p in_range(2) st1] by blast
  have st2: "length st2 = rate p + capacity p" "st2 \<noteq> []"
    using 2(2) st1 by auto
  obtain st3 s3 where 3: "fold_call (gadget_round cs p True) ?c (st2, s2) = Returns (st3, s3)" "length st3 = length st2"
    "gad (state_vars st2) (state_vars st3) s2 s3 (\<lambda>\<rho>. fold_call (poseidon_round p True) ?c (map (lc_eval \<rho>) st2) = Returns (map (lc_eval \<rho>) st3))"
    using rounds_gadget [OF p in_range(3) st2] by blast
  have "gad (state_vars st) (state_vars st2) s s2 (\<lambda>\<rho>. bind_call (fold_call (poseidon_round p True) ?a (map (lc_eval \<rho>) st))
      (fold_call (poseidon_round p False) ?b) = Returns (map (lc_eval \<rho>) st2))"
    using 1(3) 2(3) by (rule gadget_chain) auto
  from this 3(3) have "gad (state_vars st) (state_vars st3) s s3 (\<lambda>\<rho>. permute p (map (lc_eval \<rho>) st) = Returns (map (lc_eval \<rho>) st3))"
    by (rule gadget_chain) (auto simp: permute_def Let_def elim!: bind_call_Returns)
  then show ?thesis
    using 1 2 3 by (auto simp: gadget_permute_def Let_def)
qed

end

text \<open>The hasher a gadget stands for under an assignment, and the gadgets that are still absorbing.\<close>

definition hasher_of :: "('v \<Rightarrow> 'f::field) \<Rightarrow> ('v, 'f) PoseidonHashGadget \<Rightarrow> 'f PoseidonHasher" where
  "hasher_of \<rho> g = \<lparr>hash_params = gadget_params g, hash_state = map (lc_eval \<rho>) (gadget_state g),
    next_index = gadget_next g, in_squeeze_state = gadget_squeezing g\<rparr>"

definition absorbing :: "'f PoseidonSpongeParameters \<Rightarrow> ('v, 'f) PoseidonHashGadget \<Rightarrow> bool" where
  "absorbing p g \<longleftrightarrow> gadget_params g = p \<and> valid_params p \<and> 0 < rate p \<and> length (gadget_state g) = rate p + capacity p
    \<and> gadget_next g \<le> rate p \<and> \<not> gadget_squeezing g"

lemma absorbing_new: "valid_params p \<Longrightarrow> 0 < rate p \<Longrightarrow> absorbing p (PoseidonHashGadget_new cs p)"
  by (simp add: absorbing_def PoseidonHashGadget_new_def)

context constraint_system
begin

lemma absorb_slot:
  assumes "length st = rate p + capacity p" "n < rate p" "gadget_params g = p" "\<not> gadget_squeezing g"
    and "gad V (state_vars st) s t (\<lambda>\<rho>. Q \<rho> (map (lc_eval \<rho>) st))" "lc_vars a \<subseteq> V"
  shows "gad V (state_vars (st[n + capacity p := lc_add (st ! (n + capacity p)) a])) s t
    (\<lambda>\<rho>. Q \<rho> (map (lc_eval \<rho>) st) \<and> map (lc_eval \<rho>) (st[n + capacity p := lc_add (st ! (n + capacity p)) a])
      = (map (lc_eval \<rho>) st)[n + capacity p := map (lc_eval \<rho>) st ! (n + capacity p) + lc_eval \<rho> a])"
proof -
  let ?k = "n + capacity p"
  let ?y = "lc_add (st ! ?k) a"
  have "lc_vars ?y \<subseteq> state_vars st \<union> V"
    using state_vars_nth [of ?k st] assms(1,2,6) by (simp add: le_supI1 le_supI2)
  moreover have "state_vars (st[?k := ?y]) \<subseteq> lc_vars ?y \<union> state_vars st"
    using UN_mono [OF set_update_subset_insert [of st ?k ?y], of lc_vars lc_vars] by simp
  ultimately have sub: "state_vars (st[?k := ?y]) \<subseteq> V \<union> state_vars st \<union> {var_one cs, var_zero cs}"
    by (rule scope_through)
  have eval: "map (lc_eval \<rho>) (st[?k := ?y]) = (map (lc_eval \<rho>) st)[?k := map (lc_eval \<rho>) st ! ?k + lc_eval \<rho> a]" for \<rho>
    using assms(1,2) by (simp add: map_update)
  show ?thesis
    by (rule gadget_weaken [OF assms(5) Un_upper1 sub]) (simp only: eval simp_thms)
qed

lemma absorbing_permute:
  assumes "absorbing p g"
  shows "\<exists>st t. gadget_permute cs p (gadget_state g, s) = Returns (st, t) \<and> length st = rate p + capacity p
    \<and> gad (state_vars (gadget_state g)) (state_vars st) s t
      (\<lambda>\<rho>. permute p (map (lc_eval \<rho>) (gadget_state g)) = Returns (map (lc_eval \<rho>) st))"
proof -
  have st: "valid_params p" "length (gadget_state g) = rate p + capacity p" "gadget_state g \<noteq> []"
    using assms by (auto simp: absorbing_def)
  show ?thesis
    by (rule permute_gadget [OF st, of s, unfolded st(2)])
qed

lemma absorb_gadget:
  assumes "absorbing p g"
  shows "\<exists>g' s'. gadget_absorb cs a (g, s) = Returns (g', s') \<and> absorbing p g'
    \<and> gad (state_vars (gadget_state g) \<union> lc_vars a) (state_vars (gadget_state g')) s s'
        (\<lambda>\<rho>. absorb (lc_eval \<rho> a) (hasher_of \<rho> g) = Returns (hasher_of \<rho> g'))"
proof (cases "gadget_next g = rate p")
  case True
  let ?V = "state_vars (gadget_state g) \<union> lc_vars a"
  obtain st t where st: "gadget_permute cs p (gadget_state g, s) = Returns (st, t)" "length st = rate p + capacity p"
    and perm: "gad (state_vars (gadget_state g)) (state_vars st) s t
      (\<lambda>\<rho>. permute p (map (lc_eval \<rho>) (gadget_state g)) = Returns (map (lc_eval \<rho>) st))"
    using absorbing_permute [OF assms] by blast
  let ?st = "st[0 + capacity p := lc_add (st ! (0 + capacity p)) a]"
  have "gad ?V (state_vars ?st) s t (\<lambda>\<rho>. permute p (map (lc_eval \<rho>) (gadget_state g)) = Returns (map (lc_eval \<rho>) st)
    \<and> map (lc_eval \<rho>) ?st = (map (lc_eval \<rho>) st)[0 + capacity p := map (lc_eval \<rho>) st ! (0 + capacity p) + lc_eval \<rho> a])"
    using assms st by (intro absorb_slot [where g = g]) (auto simp: absorbing_def intro!: gadget_weaken [OF perm])
  then have "gad ?V (state_vars ?st) s t (\<lambda>\<rho>. absorb (lc_eval \<rho> a) (hasher_of \<rho> g) = Returns (hasher_of \<rho> (g\<lparr>gadget_state := ?st, gadget_next := 1\<rparr>)))"
    using True assms st(2) by (elim gadget_weaken) (auto simp: absorb_def hasher_of_def absorbing_def Let_def)
  then show ?thesis
    using True assms st by (auto simp: gadget_absorb_def absorbing_def Let_def)
next
  case False
  let ?V = "state_vars (gadget_state g) \<union> lc_vars a" and ?n = "gadget_next g + capacity p"
  let ?st = "(gadget_state g)[?n := lc_add (gadget_state g ! ?n) a]"
  have "gad ?V (state_vars (gadget_state g)) s s (\<lambda>\<rho>. True)"
    by (auto simp: gadget_def)
  then have "gad ?V (state_vars ?st) s s (\<lambda>\<rho>. True
    \<and> map (lc_eval \<rho>) ?st = (map (lc_eval \<rho>) (gadget_state g))[?n := map (lc_eval \<rho>) (gadget_state g) ! ?n + lc_eval \<rho> a])"
    using assms False by (intro absorb_slot [where g = g]) (auto simp: absorbing_def)
  then have "gad ?V (state_vars ?st) s s (\<lambda>\<rho>. absorb (lc_eval \<rho> a) (hasher_of \<rho> g) = Returns (hasher_of \<rho> (g\<lparr>gadget_state := ?st, gadget_next := gadget_next g + 1\<rparr>)))"
    using False assms by (elim gadget_weaken) (auto simp: absorb_def hasher_of_def absorbing_def Let_def add.commute)
  then show ?thesis
    using False assms by (auto simp: gadget_absorb_def absorbing_def Let_def)
qed

lemma batch_absorb_gadget:
  assumes "absorbing p g"
  shows "\<exists>g' s'. gadget_batch_absorb cs xs (g, s) = Returns (g', s') \<and> absorbing p g'
    \<and> gad (state_vars (gadget_state g) \<union> state_vars xs) (state_vars (gadget_state g')) s s'
        (\<lambda>\<rho>. absorb_batch (map (lc_eval \<rho>) xs) (hasher_of \<rho> g) = Returns (hasher_of \<rho> g'))"
  using assms
proof (induction xs arbitrary: g s)
  case Nil
  then show ?case
    by (auto simp: gadget_batch_absorb_def absorb_batch_def gadget_def)
next
  case (Cons x xs)
  obtain g1 s1 where 1: "gadget_absorb cs x (g, s) = Returns (g1, s1)" "absorbing p g1"
    "gad (state_vars (gadget_state g) \<union> lc_vars x) (state_vars (gadget_state g1)) s s1
      (\<lambda>\<rho>. absorb (lc_eval \<rho> x) (hasher_of \<rho> g) = Returns (hasher_of \<rho> g1))"
    using absorb_gadget [OF Cons.prems] by blast
  obtain g2 s2 where 2: "gadget_batch_absorb cs xs (g1, s1) = Returns (g2, s2)" "absorbing p g2"
    "gad (state_vars (gadget_state g1) \<union> state_vars xs) (state_vars (gadget_state g2)) s1 s2
      (\<lambda>\<rho>. absorb_batch (map (lc_eval \<rho>) xs) (hasher_of \<rho> g1) = Returns (hasher_of \<rho> g2))"
    using Cons.IH [OF 1(2)] by blast
  have "gad (state_vars (gadget_state g) \<union> state_vars (x # xs)) (state_vars (gadget_state g2)) s s2
      (\<lambda>\<rho>. absorb_batch (map (lc_eval \<rho>) (x # xs)) (hasher_of \<rho> g) = Returns (hasher_of \<rho> g2))"
    using 1(3) 2(3) by (rule gadget_chain) (auto simp: absorb_batch_def)
  then show ?case
    using 1(1) 2 by (auto simp: gadget_batch_absorb_def)
qed

lemma first_squeeze_gadget:
  assumes "absorbing p g"
  shows "\<exists>out g' s'. gadget_squeeze cs (g, s) = Returns (out, g', s')
    \<and> gadget_squeezing g' \<and> gadget_next g' = 0 \<and> gadget_params g' = p \<and> length (gadget_state g') = rate p + capacity p
    \<and> out = gadget_state g' ! capacity p
    \<and> gad (state_vars (gadget_state g)) (lc_vars out) s s'
        (\<lambda>\<rho>. \<exists>h. squeeze_hasher (hasher_of \<rho> g) = Returns (lc_eval \<rho> out, h))"
proof -
  obtain st t where st: "gadget_permute cs p (gadget_state g, s) = Returns (st, t)" "length st = rate p + capacity p"
    and perm: "gad (state_vars (gadget_state g)) (state_vars st) s t
      (\<lambda>\<rho>. permute p (map (lc_eval \<rho>) (gadget_state g)) = Returns (map (lc_eval \<rho>) st))"
    using absorbing_permute [OF assms] by blast
  have "lc_vars (st ! capacity p) \<subseteq> state_vars st"
    using st(2) assms by (intro state_vars_nth) (simp add: absorbing_def)
  then have "gad (state_vars (gadget_state g)) (lc_vars (st ! capacity p)) s t
      (\<lambda>\<rho>. \<exists>h. squeeze_hasher (hasher_of \<rho> g) = Returns (lc_eval \<rho> (st ! capacity p), h))"
    using assms st(2) by (intro gadget_weaken [OF perm]) (auto simp: squeeze_hasher_def hasher_of_def absorbing_def Let_def)
  then show ?thesis
    using assms st by (auto simp: gadget_squeeze_def absorbing_def)
qed

lemma hash_gadget_gadget:
  assumes "valid_params p" "0 < rate p"
  shows "\<exists>out s'. hash_gadget cs p xs s = Returns (out, s')
    \<and> gad (state_vars xs) (lc_vars out) s s' (\<lambda>\<rho>. poseidon_hash p (map (lc_eval \<rho>) xs) = Returns (lc_eval \<rho> out))"
proof -
  let ?g = "PoseidonHashGadget_new cs p"
  obtain g1 s1 where 1: "gadget_batch_absorb cs xs (?g, s) = Returns (g1, s1)" "absorbing p g1"
    "gad (state_vars (gadget_state ?g) \<union> state_vars xs) (state_vars (gadget_state g1)) s s1
      (\<lambda>\<rho>. absorb_batch (map (lc_eval \<rho>) xs) (hasher_of \<rho> ?g) = Returns (hasher_of \<rho> g1))"
    using batch_absorb_gadget [OF absorbing_new [OF assms]] by blast
  obtain out g2 s2 where 2: "gadget_squeeze cs (g1, s1) = Returns (out, g2, s2)"
    "gad (state_vars (gadget_state g1)) (lc_vars out) s1 s2 (\<lambda>\<rho>. \<exists>h. squeeze_hasher (hasher_of \<rho> g1) = Returns (lc_eval \<rho> out, h))"
    using first_squeeze_gadget [OF 1(2)] by blast
  have new: "hasher_of \<rho> ?g = PoseidonHasher_new p" if "sat s2 \<rho>" for \<rho>
    by (simp add: hasher_of_def PoseidonHashGadget_new_def PoseidonHasher_new_def comp_def const_eval [OF that] map_replicate_trivial add.commute)
  have vars: "state_vars (gadget_state ?g) \<subseteq> {var_one cs}"
    by (auto simp: PoseidonHashGadget_new_def)
  have "gad (state_vars xs) (lc_vars out) s s2 (\<lambda>\<rho>. poseidon_hash p (map (lc_eval \<rho>) xs) = Returns (lc_eval \<rho> out))"
    using 1(3) 2(2) by (rule gadget_chain) (use vars in \<open>auto simp: poseidon_hash_def new\<close>)
  then show ?thesis
    using 1(1) 2(1) by (auto simp: hash_gadget_def)
qed

end

subsection \<open>Properties\<close>

text \<open>A small parameterization.\<close>

definition toy_params :: "rat PoseidonSpongeParameters" where
  "toy_params = \<lparr>round_constants = [[0, 1, 2], [1, 0, 1], [0, 0, 1]], mds_matrix = [[1, 1, 0], [0, 1, 1], [1, 0, 1]], alpha = 2,
    rate = 2, capacity = 1, full_rounds = 2, parital_rounds = 1\<rparr>"

lemma toy_params_valid [simp]: "valid_params toy_params" "rate toy_params = 2"
  by (simp_all add: toy_params_def valid_params_def)

text \<open>
  C28: with valid parameters the hash gadget never panics, an assignment that satisfies its
  constraints gives the expected output the value the hasher over shared scalars computes on
  the inputs, and the honest prover satisfies them when it does.\<close>

theorem hash_gadget_refines_hasher:
  assumes "constraint_system cs sat wires assigned" "valid_params p" "0 < rate p"
  shows "\<exists>g s'. gadget_hash cs xs expected (PoseidonHashGadget_new cs p, s) = Returns (g, s')
    \<and> (\<forall>\<rho>. sat s' \<rho> \<longrightarrow> sat s \<rho> \<and> poseidon_hash p (map (lc_eval \<rho>) xs) = Returns (lc_eval \<rho> expected))
    \<and> (honest sat wires assigned s \<and> state_vars (expected # xs) \<subseteq> wires s
        \<and> poseidon_hash p (map (lc_eval (assigned s)) xs) = Returns (lc_eval (assigned s) expected)
        \<longrightarrow> honest sat wires assigned s')"
proof -
  obtain out t where run: "hash_gadget cs p xs s = Returns (out, t)"
    and gad: "gadget sat wires assigned (state_vars xs) (lc_vars out) s t
      (\<lambda>\<rho>. poseidon_hash p (map (lc_eval \<rho>) xs) = Returns (lc_eval \<rho> out))"
    using constraint_system.hash_gadget_gadget [OF assms] by blast
  obtain g where code: "gadget_hash cs xs expected (PoseidonHashGadget_new cs p, s) = Returns (g, cs_constrain cs (lc_sub out expected) t)"
    using run by (auto simp: hash_gadget_def gadget_hash_def gadget_constrained_squeeze_def elim!: bind_call_Returns)
  have "honest sat wires assigned (cs_constrain cs (lc_sub out expected) t)"
    if hon: "honest sat wires assigned s" "state_vars (expected # xs) \<subseteq> wires s"
      "poseidon_hash p (map (lc_eval (assigned s)) xs) = Returns (lc_eval (assigned s) expected)"
  proof -
    have t: "honest sat wires assigned t" "lc_vars out \<subseteq> wires t" "grows sat wires assigned s t"
      using constraint_system.gadget_honest [OF assms(1) gad hon(1)] constraint_system.gadget_grows [OF assms(1) gad] hon(2) by auto
    have same: "lc_eval (assigned t) l = lc_eval (assigned s) l" "lc_vars l \<subseteq> wires t" if "l \<in> set (expected # xs)" for l
    proof -
      have "lc_vars l \<subseteq> wires s"
        using subset_trans [OF UN_upper [OF that] hon(2)] .
      then show "lc_eval (assigned t) l = lc_eval (assigned s) l" "lc_vars l \<subseteq> wires t"
        by (rule constraint_system.grows_value [OF assms(1) t(3)], rule constraint_system.grows_wires [OF assms(1) t(3)])
    qed
    have inputs: "map (lc_eval (assigned t)) xs = map (lc_eval (assigned s)) xs"
      using same by simp
    have "poseidon_hash p (map (lc_eval (assigned t)) xs) = Returns (lc_eval (assigned t) out)"
      by (rule constraint_system.gadget_sound [OF assms(1) gad constraint_system.honest_sat [OF assms(1) t(1)], THEN conjunct2])
    then have "lc_eval (assigned t) out = lc_eval (assigned t) expected"
      unfolding inputs hon(3) by (simp add: same(1))
    then show ?thesis
      using constraint_system.constrain_honest [OF assms(1) t(1), of "lc_sub out expected"] t(2) same(2) [of expected] by simp
  qed
  moreover have "sat s \<rho> \<and> poseidon_hash p (map (lc_eval \<rho>) xs) = Returns (lc_eval \<rho> expected)"
    if "sat (cs_constrain cs (lc_sub out expected) t) \<rho>" for \<rho>
    using constraint_system.constrain_sat [OF assms(1) that] constraint_system.gadget_sound [OF assms(1) gad, of \<rho>] by simp
  ultimately show ?thesis
    using code by blast
qed

theorem hash_gadget_refines_hasher_witness:
  "\<exists>g s'. gadget_hash r1cs_ops [lc_var 2] (lc_var 3) (PoseidonHashGadget_new r1cs_ops toy_params, committed [1, 1130]) = Returns (g, s')
    \<and> honest r1cs_sat r1cs_wires r1cs_assigned s'"
proof -
  let ?s = "committed [1, 1130 :: rat]"
  have "poseidon_hash toy_params [1] = Returns 1130"
    by code_simp
  moreover have "r1cs_assigned ?s 2 = 1" "r1cs_assigned ?s 3 = 1130"
    by (simp_all add: r1cs_assigned_def committed_def)
  ultimately show ?thesis
    using hash_gadget_refines_hasher [OF r1cs_contract toy_params_valid(1), of "[lc_var 2]" "lc_var 3" ?s] by auto
qed

text \<open>
  Once the sponge has been squeezed the gadget stops moving: a batch of squeezes is one
  element repeated, where the hasher over shared scalars moves on to the next element.\<close>

theorem batch_squeeze_repeats:
  assumes "constraint_system cs sat wires assigned" "absorbing p g"
  shows "\<exists>x g' s'. gadget_batch_squeeze cs n (g, s) = Returns (replicate n x, g', s')"
proof (cases n)
  case (Suc m)
  obtain x g' s' where first: "gadget_squeeze cs (g, s) = Returns (x, g', s')" "gadget_squeezing g'" "gadget_next g' = 0"
    "gadget_params g' = p" "length (gadget_state g') = rate p + capacity p" "x = gadget_state g' ! capacity p"
    using constraint_system.first_squeeze_gadget [OF assms] by blast
  have "0 < rate p"
    using assms(2) by (simp add: absorbing_def)
  then have again: "gadget_squeeze cs (g', s') = Returns (x, g', s')"
    using first(2-6) by (simp add: gadget_squeeze_def)
  have "gadget_batch_squeeze cs m (g', s') = Returns (replicate m x, g', s')"
    by (induction m) (simp_all add: again)
  then show ?thesis
    using first(1) by (simp add: Suc)
qed simp

theorem batch_squeeze_repeats_witness:
  "(\<exists>x g' s'. gadget_batch_squeeze r1cs_ops 2 (PoseidonHashGadget_new r1cs_ops toy_params, committed []) = Returns ([x, x], g', s'))
   \<and> (case squeeze_batch 2 (PoseidonHasher_new toy_params) of Returns ([x, y], _) \<Rightarrow> x \<noteq> y | _ \<Rightarrow> False)"
proof
  have "absorbing toy_params (PoseidonHashGadget_new r1cs_ops toy_params)"
    by (rule absorbing_new) simp_all
  from batch_squeeze_repeats [OF r1cs_contract this, of 2 "committed []"]
  show "\<exists>x g' s'. gadget_batch_squeeze r1cs_ops 2 (PoseidonHashGadget_new r1cs_ops toy_params, committed []) = Returns ([x, x], g', s')"
    by (simp add: numeral_2_eq_2)
  show "case squeeze_batch 2 (PoseidonHasher_new toy_params) of Returns ([x, y], _) \<Rightarrow> x \<noteq> y | _ \<Rightarrow> False"
    by code_simp
qed

end
