(* ===== verification/Circuit_Hashes.thy ===== *)
theory Circuit_Hashes
  imports Poseidon Circuit_Types
begin

section \<open>Commitments and Merkle openings in the circuit\<close>

text \<open>
  The gadgets of \<open>zk_gadgets/merkle.rs\<close> and \<open>zk_gadgets/commitments.rs\<close>, with the allocated
  wallet and note types of \<open>circuits/src/types\<close>. The sponge parameters
  \<open>PoseidonSpongeParameters::default()\<close> are the argument \<open>p\<close>.
\<close>

subsection \<open>Merkle openings\<close>

record 'v MerkleOpeningVar =
  elems :: "'v list"
  indices :: "'v list"

definition select_left_right ::
  "('s, 'v, 'f::field) cs_ops \<Rightarrow> ('v, 'f) lc \<Rightarrow> ('v, 'f) lc \<Rightarrow> ('v, 'f) lc \<Rightarrow> 's \<Rightarrow> (('v, 'f) lc \<times> ('v, 'f) lc) \<times> 's" where
  "select_left_right cs current_hash sister_node lr_select s =
    (case cs_product cs current_hash (lc_add (lc_neg lr_select) (lc_const cs 1)) s of (left_child_term1, s) \<Rightarrow>
     case cs_product cs sister_node lr_select s of (left_child_term2, s) \<Rightarrow>
     let left_child = lc_add (lc_var left_child_term1) (lc_var left_child_term2);
       right_child = lc_sub (lc_add current_hash sister_node) left_child
     in ((left_child, right_child), s))"

definition leaf_hash :: "('s, 'v, 'f::field) cs_ops \<Rightarrow> 'f PoseidonSpongeParameters \<Rightarrow> ('v, 'f) lc list \<Rightarrow> 's \<Rightarrow> (('v, 'f) lc \<times> 's) call" where
  "leaf_hash cs p values s = hash_gadget cs p values s"

definition hash_internal_nodes ::
  "('s, 'v, 'f::field) cs_ops \<Rightarrow> 'f PoseidonSpongeParameters \<Rightarrow> ('v, 'f) lc \<Rightarrow> ('v, 'f) lc \<Rightarrow> 's \<Rightarrow> (('v, 'f) lc \<times> 's) call" where
  "hash_internal_nodes cs p left right s = hash_gadget cs p [left, right] s"

definition merkle_level ::
  "('s, 'v, 'f::field) cs_ops \<Rightarrow> 'f PoseidonSpongeParameters \<Rightarrow> 'v \<times> 'v \<Rightarrow> ('v, 'f) lc \<times> 's \<Rightarrow> (('v, 'f) lc \<times> 's) call" where
  "merkle_level cs p = (\<lambda>(path_elem, lr_select) (current_hash, s).
    case select_left_right cs current_hash (lc_var path_elem) (lc_var lr_select) s of ((lhs, rhs), s) \<Rightarrow>
    hash_internal_nodes cs p lhs rhs s)"

definition compute_root_prehashed ::
  "('s, 'v, 'f::field) cs_ops \<Rightarrow> 'f PoseidonSpongeParameters \<Rightarrow> ('v, 'f) lc \<Rightarrow> 'v MerkleOpeningVar \<Rightarrow> 's \<Rightarrow> (('v, 'f) lc \<times> 's) call" where
  "compute_root_prehashed cs p leaf_node opening s =
    fold_call (merkle_level cs p) (zip (elems opening) (indices opening)) (leaf_node, s)"

definition gadget_compute_root ::
  "('s, 'v, 'f::field) cs_ops \<Rightarrow> 'f PoseidonSpongeParameters \<Rightarrow> ('v, 'f) lc list \<Rightarrow> 'v MerkleOpeningVar \<Rightarrow> 's \<Rightarrow> (('v, 'f) lc \<times> 's) call" where
  "gadget_compute_root cs p leaf_node opening s = bind_call (leaf_hash cs p leaf_node s)
    (\<lambda>(leaf_hash, s). compute_root_prehashed cs p leaf_hash opening s)"

definition compute_and_constrain_root ::
  "('s, 'v, 'f::field) cs_ops \<Rightarrow> 'f PoseidonSpongeParameters \<Rightarrow> ('v, 'f) lc list \<Rightarrow> 'v MerkleOpeningVar \<Rightarrow> ('v, 'f) lc \<Rightarrow> 's \<Rightarrow> 's call" where
  "compute_and_constrain_root cs p leaf_node opening expected_root s =
    bind_call (gadget_compute_root cs p leaf_node opening s)
      (\<lambda>(computed, s). Returns (cs_constrain cs (lc_sub expected_root computed) s))"

definition compute_and_constrain_root_prehashed ::
  "('s, 'v, 'f::field) cs_ops \<Rightarrow> 'f PoseidonSpongeParameters \<Rightarrow> ('v, 'f) lc \<Rightarrow> 'v MerkleOpeningVar \<Rightarrow> ('v, 'f) lc \<Rightarrow> 's \<Rightarrow> 's call" where
  "compute_and_constrain_root_prehashed cs p leaf_node opening expected_root s =
    bind_call (compute_root_prehashed cs p leaf_node opening s)
      (\<lambda>(computed, s). Returns (cs_constrain cs (lc_sub expected_root computed) s))"

subsection \<open>Allocated wallets and notes\<close>

record ('v, 'f) FixedPointVar =
  fp_repr :: "('v, 'f) lc"

record 'v BalanceVar =
  bv_mint :: 'v
  bv_amount :: 'v

record ('v, 'f) OrderVar =
  ov_quote_mint :: 'v
  ov_base_mint :: 'v
  ov_side :: 'v
  ov_price :: "('v, 'f) FixedPointVar"
  ov_amount :: 'v
  ov_timestamp :: 'v

record ('v, 'f) FeeVar =
  fv_settle_key :: 'v
  fv_gas_addr :: 'v
  fv_gas_token_amount :: 'v
  fv_percentage_fee :: "('v, 'f) FixedPointVar"

record 'v KeyChainVar =
  kv_pk_root :: 'v
  kv_pk_match :: 'v
  kv_pk_settle :: 'v
  kv_pk_view :: 'v

record ('v, 'f) WalletVar =
  wv_balances :: "'v BalanceVar list"
  wv_orders :: "('v, 'f) OrderVar list"
  wv_fees :: "('v, 'f) FeeVar list"
  wv_keys :: "'v KeyChainVar"
  wv_randomness :: 'v

record 'v NoteVar =
  nv_mint1 :: 'v
  nv_volume1 :: 'v
  nv_direction1 :: 'v
  nv_mint2 :: 'v
  nv_volume2 :: 'v
  nv_direction2 :: 'v
  nv_fee_mint :: 'v
  nv_fee_volume :: 'v
  nv_fee_direction :: 'v
  nv_type :: 'v
  nv_randomness :: 'v

definition BalanceVar_to_vec :: "'v BalanceVar \<Rightarrow> 'v list" where
  "BalanceVar_to_vec b = [bv_mint b, bv_amount b]"

definition OrderVar_to_vec :: "('v, 'f::field) OrderVar \<Rightarrow> ('v, 'f) lc list" where
  "OrderVar_to_vec ord = [lc_var (ov_quote_mint ord), lc_var (ov_base_mint ord), lc_var (ov_side ord), fp_repr (ov_price ord),
    lc_var (ov_amount ord), lc_var (ov_timestamp ord)]"

definition FeeVar_to_vec :: "('v, 'f::field) FeeVar \<Rightarrow> ('v, 'f) lc list" where
  "FeeVar_to_vec f = [lc_var (fv_settle_key f), lc_var (fv_gas_addr f), lc_var (fv_gas_token_amount f), fp_repr (fv_percentage_fee f)]"

subsection \<open>Commitments and nullifiers\<close>

definition absorb_balance_vars :: "'v BalanceVar \<Rightarrow> ('v, 'f::field) lc list" where
  "absorb_balance_vars b = [lc_var (bv_mint b), lc_var (bv_amount b)]"

definition absorb_order_vars :: "('v, 'f::field) OrderVar \<Rightarrow> ('v, 'f) lc list" where
  "absorb_order_vars ord = [lc_var (ov_quote_mint ord), lc_var (ov_base_mint ord), lc_var (ov_side ord), fp_repr (ov_price ord), lc_var (ov_amount ord)]"

definition absorb_fee_vars :: "('v, 'f::field) FeeVar \<Rightarrow> ('v, 'f) lc list" where
  "absorb_fee_vars f = [lc_var (fv_settle_key f), lc_var (fv_gas_addr f), lc_var (fv_gas_token_amount f), fp_repr (fv_percentage_fee f)]"

definition absorb_key_vars :: "'v KeyChainVar \<Rightarrow> ('v, 'f::field) lc list" where
  "absorb_key_vars k = [lc_var (kv_pk_root k), lc_var (kv_pk_match k), lc_var (kv_pk_settle k), lc_var (kv_pk_view k)]"

definition wallet_commit ::
  "('s, 'v, 'f::field) cs_ops \<Rightarrow> 'f PoseidonSpongeParameters \<Rightarrow> ('v, 'f) WalletVar \<Rightarrow> 's \<Rightarrow> (('v, 'f) lc \<times> 's) call" where
  "wallet_commit cs p w s =
    bind_call (fold_call (\<lambda>balance. gadget_batch_absorb cs (absorb_balance_vars balance)) (wv_balances w) (PoseidonHashGadget_new cs p, s)) (\<lambda>g.
    bind_call (fold_call (\<lambda>order. gadget_batch_absorb cs (absorb_order_vars order)) (wv_orders w) g) (\<lambda>g.
    bind_call (fold_call (\<lambda>fee. gadget_batch_absorb cs (absorb_fee_vars fee)) (wv_fees w) g) (\<lambda>g.
    bind_call (gadget_batch_absorb cs (absorb_key_vars (wv_keys w)) g) (\<lambda>g.
    bind_call (gadget_absorb cs (lc_var (wv_randomness w)) g) (\<lambda>g.
    bind_call (gadget_squeeze cs g) (\<lambda>(out, _, s). Returns (out, s)))))))"

definition gadget_note_commit ::
  "('s, 'v, 'f::field) cs_ops \<Rightarrow> 'f PoseidonSpongeParameters \<Rightarrow> 'v NoteVar \<Rightarrow> 'v \<Rightarrow> 's \<Rightarrow> (('v, 'f) lc \<times> 's) call" where
  "gadget_note_commit cs p note recipient_pub_key s = hash_gadget cs p
    (map lc_var [nv_mint1 note, nv_volume1 note, nv_direction1 note, nv_mint2 note, nv_volume2 note, nv_direction2 note,
      nv_fee_mint note, nv_fee_volume note, nv_fee_direction note, nv_type note, nv_randomness note, recipient_pub_key]) s"

definition spend_nullifier ::
  "('s, 'v, 'f::field) cs_ops \<Rightarrow> 'f PoseidonSpongeParameters \<Rightarrow> 'v \<Rightarrow> ('v, 'f) lc \<Rightarrow> 's \<Rightarrow> (('v, 'f) lc \<times> 's) call" where
  "spend_nullifier cs p wallet_randomness commitment s = hash_gadget cs p [commitment, lc_var wallet_randomness] s"

definition gadget_match_nullifier ::
  "('s, 'v, 'f::field) cs_ops \<Rightarrow> 'f PoseidonSpongeParameters \<Rightarrow> 'v \<Rightarrow> ('v, 'f) lc \<Rightarrow> 's \<Rightarrow> (('v, 'f) lc \<times> 's) call" where
  "gadget_match_nullifier cs p wallet_randomness commitment s =
    hash_gadget cs p [commitment, lc_add (lc_var wallet_randomness) (lc_const cs 1)] s"

definition note_redeem_nullifier ::
  "('s, 'v, 'f::field) cs_ops \<Rightarrow> 'f PoseidonSpongeParameters \<Rightarrow> 'v \<Rightarrow> ('v, 'f) lc \<Rightarrow> 's \<Rightarrow> (('v, 'f) lc \<times> 's) call" where
  "note_redeem_nullifier cs p pk_settle_receiver note_commitment s =
    hash_gadget cs p [note_commitment, lc_var pk_settle_receiver] s"

text \<open>The scalars \<open>commit_prover\<close> commits to for the variables of a wallet that enter its commitment.\<close>

definition balance_values :: "Balance \<Rightarrow> scalar list" where
  "balance_values b = [biguint_to_scalar (balance_mint b), scalar_of_u64 (balance_amount b)]"

definition order_values :: "Order \<Rightarrow> scalar list" where
  "order_values ord = [biguint_to_scalar (quote_mint ord), biguint_to_scalar (base_mint ord), scalar_of_u64 (side_u64 (side ord)),
    repr (price ord), scalar_of_u64 (amount ord)]"

definition fee_values :: "Fee \<Rightarrow> scalar list" where
  "fee_values f = [biguint_to_scalar (settle_key f), biguint_to_scalar (gas_addr f), scalar_of_u64 (gas_token_amount f), repr (percentage_fee f)]"

definition wallet_values :: "CircuitWallet \<Rightarrow> scalar list" where
  "wallet_values w = concat (map balance_values (circuit_balances w)) @ concat (map order_values (circuit_orders w))
    @ concat (map fee_values (circuit_fees w)) @ KeyChain_to_vec (circuit_keys w) @ [circuit_randomness w]"

subsection \<open>What the hash gadgets compute\<close>

lemma fold_call_append: "fold_call f (xs @ ys) z = bind_call (fold_call f xs z) (fold_call f ys)"
proof (induction xs arbitrary: z)
  case (Cons x xs)
  then show ?case by (cases "f x z") simp_all
qed simp

lemma fold_call_concat: "fold_call (\<lambda>x. fold_call f (g x)) xs z = fold_call f (concat (map g xs)) z"
proof (induction xs arbitrary: z)
  case (Cons x xs)
  then show ?case by (cases "fold_call f (g x) z") (simp_all add: fold_call_append)
qed simp

definition wallet_lcs :: "('v, 'f::field) WalletVar \<Rightarrow> ('v, 'f) lc list" where
  "wallet_lcs w = concat (map absorb_balance_vars (wv_balances w)) @ concat (map absorb_order_vars (wv_orders w))
    @ concat (map absorb_fee_vars (wv_fees w)) @ absorb_key_vars (wv_keys w) @ [lc_var (wv_randomness w)]"

lemma bind_call_assoc: "bind_call (bind_call c f) g = bind_call c (\<lambda>x. bind_call (f x) g)"
  by (cases c) simp_all

lemma bind_call_unit: "bind_call c (\<lambda>x. Returns x) = c"
  by (cases c) simp_all

lemma wallet_commit_hash: "wallet_commit cs p w s = hash_gadget cs p (wallet_lcs w) s"
  by (simp add: wallet_commit_def hash_gadget_def wallet_lcs_def gadget_batch_absorb_def fold_call_append fold_call_concat bind_call_assoc
      bind_call_unit)

text \<open>
  The root a leaf hashes to along an opening: at each level the node is the right child when
  its index is one and the left child when it is zero.
\<close>

fun path_root :: "'f::field PoseidonSpongeParameters \<Rightarrow> 'f \<Rightarrow> ('f \<times> 'f) list \<Rightarrow> 'f call" where
  "path_root p node [] = Returns node"
| "path_root p node ((sister, i) # rest) =
    bind_call (poseidon_hash p (if i = 0 then [node, sister] else [sister, node])) (\<lambda>parent. path_root p parent rest)"

text \<open>
  On valid parameters the hash returns for every input. \<open>hash_value\<close> is that value, and
  \<open>merkle_root\<close> what the Merkle gadget computes for arbitrary indices; on binary ones it is
  \<open>path_root\<close>.
\<close>

definition hash_value :: "'f::field PoseidonSpongeParameters \<Rightarrow> 'f list \<Rightarrow> 'f" where
  "hash_value p xs = (case poseidon_hash p xs of Returns x \<Rightarrow> x | _ \<Rightarrow> 0)"

fun merkle_root :: "'f::field PoseidonSpongeParameters \<Rightarrow> 'f \<Rightarrow> ('f \<times> 'f) list \<Rightarrow> 'f" where
  "merkle_root p node [] = node"
| "merkle_root p node ((sister, i) # rest) =
    merkle_root p (let l = node * (1 - i) + sister * i in hash_value p [l, node + sister - l]) rest"

lemma poseidon_hash_value:
  fixes p :: "'f::field PoseidonSpongeParameters"
  assumes "valid_params p" "0 < rate p"
  shows "poseidon_hash p xs = Returns (hash_value p xs)"
proof -
  let ?cs = "r1cs_ops :: ('f r1cs, nat, 'f) cs_ops" and ?s = "committed []"
  obtain out s' where
    "r1cs.gad (\<Union>(lc_vars ` set (map (lc_const ?cs) xs))) (lc_vars out) ?s s'
      (\<lambda>\<rho>. poseidon_hash p (map (lc_eval \<rho>) (map (lc_const ?cs) xs)) = Returns (lc_eval \<rho> out))"
    using r1cs.hash_gadget_gadget [OF assms, of "map (lc_const ?cs) xs" ?s] by blast
  note gad = this
  have scope: "\<Union>(lc_vars ` set (map (lc_const ?cs) xs)) \<subseteq> r1cs_wires ?s"
    by (auto simp: r1cs_ops_def)
  have sat: "r1cs_sat s' (r1cs_assigned s')"
    using r1cs.gadget_honest [OF gad committed_honest scope] r1cs.honest_sat by blast
  have "map (lc_eval (r1cs_assigned s')) (map (lc_const ?cs) xs) = xs"
    by (simp add: r1cs.const_eval [OF sat] cong: map_cong)
  then show ?thesis
    using r1cs.gadget_sound [OF gad sat] by (simp add: hash_value_def)
qed

lemma path_root_binary:
  assumes "valid_params p" "0 < rate p" "snd ` set path \<subseteq> {0, 1}"
  shows "path_root p node path = Returns (merkle_root p node path)"
  using assms(3)
proof (induction path arbitrary: node)
  case (Cons ei path)
  obtain e i where ei: "ei = (e, i)"
    by fastforce
  with Cons.prems have "i = 0 \<or> i = 1"
    by auto
  then show ?case
    using Cons by (auto simp: ei poseidon_hash_value [OF assms(1,2)] Let_def)
qed simp

context constraint_system
begin

lemma hash_gadget_value:
  assumes "valid_params p" "0 < rate p"
  obtains out s' where "hash_gadget cs p xs s = Returns (out, s')"
    "gad (\<Union>(lc_vars ` set xs)) (lc_vars out) s s' (\<lambda>\<rho>. lc_eval \<rho> out = hash_value p (map (lc_eval \<rho>) xs))"
  using hash_gadget_gadget [OF assms, of xs s] by (auto simp: poseidon_hash_value [OF assms] eq_commute [of "hash_value p _"])

lemma select_left_right_gadget:
  assumes "select_left_right cs a b i s = ((l, r), s')"
  shows "gad (lc_vars a \<union> lc_vars b \<union> lc_vars i) (lc_vars l \<union> lc_vars r) s s'
    (\<lambda>\<rho>. lc_eval \<rho> l = lc_eval \<rho> a * (1 - lc_eval \<rho> i) + lc_eval \<rho> b * lc_eval \<rho> i \<and> lc_eval \<rho> r = lc_eval \<rho> a + lc_eval \<rho> b - lc_eval \<rho> l)"
proof -
  obtain x t y where run: "cs_product cs a (lc_add (lc_neg i) (lc_const cs 1)) s = (x, t)" "cs_product cs b i t = (y, s')"
    and out: "l = lc_add (lc_var x) (lc_var y)" "r = lc_sub (lc_add a b) l"
    using assms by (auto simp: select_left_right_def Let_def split: prod.splits)
  show ?thesis
    using product_gadget [OF run(1)] product_gadget [OF run(2)] by (rule gadget_chain) (auto simp: out const_eval)
qed

lemma merkle_level_gadget:
  assumes "valid_params p" "0 < rate p"
  shows "\<exists>out s'. merkle_level cs p (e, i) (node, s) = Returns (out, s')
    \<and> gad (lc_vars node \<union> {e, i}) (lc_vars out) s s' (\<lambda>\<rho>. lc_eval \<rho> out = merkle_root p (lc_eval \<rho> node) [(\<rho> e, \<rho> i)])"
proof -
  obtain l r t where sel: "select_left_right cs node (lc_var e) (lc_var i) s = ((l, r), t)"
    by (metis surj_pair)
  obtain out s' where hash: "hash_gadget cs p [l, r] t = Returns (out, s')"
    "gad (\<Union>(lc_vars ` set [l, r])) (lc_vars out) t s' (\<lambda>\<rho>. lc_eval \<rho> out = hash_value p (map (lc_eval \<rho>) [l, r]))"
    by (rule hash_gadget_value [OF assms, of "[l, r]" t])
  have "gad (lc_vars node \<union> {e, i}) (lc_vars out) s s' (\<lambda>\<rho>. lc_eval \<rho> out = merkle_root p (lc_eval \<rho> node) [(\<rho> e, \<rho> i)])"
    using select_left_right_gadget [OF sel] hash(2) by (rule gadget_chain) (auto simp: Let_def)
  then show ?thesis
    using sel hash(1) by (simp add: merkle_level_def hash_internal_nodes_def)
qed

lemma path_gadget:
  assumes "valid_params p" "0 < rate p"
  shows "\<exists>out s'. fold_call (merkle_level cs p) path (node, s) = Returns (out, s')
    \<and> gad (lc_vars node \<union> fst ` set path \<union> snd ` set path) (lc_vars out) s s'
        (\<lambda>\<rho>. lc_eval \<rho> out = merkle_root p (lc_eval \<rho> node) (map (\<lambda>(e, i). (\<rho> e, \<rho> i)) path))"
proof (induction path arbitrary: node s)
  case (Cons ei path)
  obtain e i where ei: "ei = (e, i)"
    by fastforce
  obtain n t where 1: "merkle_level cs p (e, i) (node, s) = Returns (n, t)"
    "gad (lc_vars node \<union> {e, i}) (lc_vars n) s t (\<lambda>\<rho>. lc_eval \<rho> n = merkle_root p (lc_eval \<rho> node) [(\<rho> e, \<rho> i)])"
    using merkle_level_gadget [OF assms] by blast
  obtain out s' where 2: "fold_call (merkle_level cs p) path (n, t) = Returns (out, s')"
    "gad (lc_vars n \<union> fst ` set path \<union> snd ` set path) (lc_vars out) t s'
        (\<lambda>\<rho>. lc_eval \<rho> out = merkle_root p (lc_eval \<rho> n) (map (\<lambda>(e, i). (\<rho> e, \<rho> i)) path))"
    using Cons.IH by blast
  have "gad (lc_vars node \<union> fst ` set (ei # path) \<union> snd ` set (ei # path)) (lc_vars out) s s'
        (\<lambda>\<rho>. lc_eval \<rho> out = merkle_root p (lc_eval \<rho> node) (map (\<lambda>(e, i). (\<rho> e, \<rho> i)) (ei # path)))"
    using 1(2) 2(2) by (rule gadget_chain) (auto simp: ei)
  then show ?case
    using 1(1) 2(1) by (simp add: ei)
qed (auto simp: gadget_def)

lemma compute_root_gadget:
  assumes "valid_params p" "0 < rate p" "length (indices opening) = length (elems opening)"
  shows "\<exists>out s'. compute_root_prehashed cs p node opening s = Returns (out, s')
    \<and> gad (lc_vars node \<union> set (elems opening) \<union> set (indices opening)) (lc_vars out) s s'
        (\<lambda>\<rho>. lc_eval \<rho> out = merkle_root p (lc_eval \<rho> node) (zip (map \<rho> (elems opening)) (map \<rho> (indices opening))))"
proof -
  have path: "fst ` set (zip (elems opening) (indices opening)) = set (elems opening)"
    "snd ` set (zip (elems opening) (indices opening)) = set (indices opening)"
    "map (\<lambda>(e, i). (\<rho> e, \<rho> i)) (zip (elems opening) (indices opening)) = zip (map \<rho> (elems opening)) (map \<rho> (indices opening))" for \<rho> :: "'v \<Rightarrow> 'f"
    using assms(3) by (metis map_fst_zip set_map, metis map_snd_zip set_map, simp add: zip_map_map)
  show ?thesis
    using path_gadget [OF assms(1,2), of "zip (elems opening) (indices opening)" node s] unfolding path compute_root_prehashed_def .
qed

end

subsection \<open>The wallet's two hash inputs\<close>

text \<open>
  The field elements the native hasher absorbs, a 64-bit integer being absorbed as the field
  element of its value.
\<close>

fun felts_of :: "absorbed \<Rightarrow> scalar list" where
  "felts_of (Felts xs) = xs"
| "felts_of (U64s ws) = map unat ws"

definition native_values :: "sponge_env \<Rightarrow> CircuitWallet \<Rightarrow> scalar list" where
  "native_values env w = concat (map felts_of (wallet_preimage env w))"

lemma biguint_to_scalar_small: "a < field_modulus \<Longrightarrow> biguint_to_scalar a = a"
proof -
  assume a: "a < field_modulus"
  then have "a < 2 ^ 256"
    by (simp add: field_modulus_def)
  with a show ?thesis
    by (simp add: biguint_to_scalar_eq)
qed

lemma concat_map_eq_iff:
  assumes "\<And>x. x \<in> set xs \<Longrightarrow> length (f x) = length (g x)"
  shows "concat (map f xs) @ r = concat (map g xs) @ r' \<longleftrightarrow> (\<forall>x\<in>set xs. f x = g x) \<and> r = r'"
  using assms by (induction xs) auto

lemma concat_map_eq_iff_alone:
  "(\<And>x. x \<in> set xs \<Longrightarrow> length (f x) = length (g x)) \<Longrightarrow> concat (map f xs) = concat (map g xs) \<longleftrightarrow> (\<forall>x\<in>set xs. f x = g x)"
  using concat_map_eq_iff [of xs f g "[]" "[]"] by simp

lemma balance_values_native:
  "balance_mint b < field_modulus \<Longrightarrow> concat (map felts_of (absorb_balance b)) = balance_values b"
  by (simp add: absorb_balance_def balance_values_def scalar_of_u64_def biguint_to_scalar_small biguint_to_prime_field_small)

lemma order_values_native:
  "quote_mint ord < field_modulus \<Longrightarrow> base_mint ord < field_modulus \<Longrightarrow>
    concat (map felts_of (absorb_order env ord)) = order_values ord \<longleftrightarrow> unat (scalar_to_u64 env (repr (price ord))) = repr (price ord)"
  by (simp add: absorb_order_def order_values_def scalar_of_u64_def biguint_to_scalar_small biguint_to_prime_field_small)

lemma fee_values_native:
  "settle_key f < field_modulus \<Longrightarrow> gas_addr f < field_modulus \<Longrightarrow>
    concat (map felts_of (absorb_fee env f)) = fee_values f \<longleftrightarrow> unat (scalar_to_u64 env (repr (percentage_fee f))) = repr (percentage_fee f)"
  by (simp add: absorb_fee_def fee_values_def scalar_of_u64_def biguint_to_scalar_small biguint_to_prime_field_small)

lemma felts_lengths:
  "length (concat (map felts_of (absorb_balance b))) = length (balance_values b)"
  "length (concat (map felts_of (absorb_order env ord))) = length (order_values ord)"
  "length (concat (map felts_of (absorb_fee env f))) = length (fee_values f)"
  by (simp_all add: absorb_balance_def balance_values_def absorb_order_def order_values_def absorb_fee_def fee_values_def)

lemma felts_concat: "concat (map felts_of (concat (map g xs))) = concat (map (\<lambda>x. concat (map felts_of (g x))) xs)"
  by (induction xs) simp_all

lemma native_values_eq:
  assumes "small_mints w"
  shows "native_values env w = concat (map (\<lambda>b. concat (map felts_of (absorb_balance b))) (circuit_balances w))
    @ concat (map (\<lambda>ord. concat (map felts_of (absorb_order env ord))) (circuit_orders w))
    @ concat (map (\<lambda>f. concat (map felts_of (absorb_fee env f))) (circuit_fees w))
    @ KeyChain_to_vec (circuit_keys w) @ [circuit_randomness w]"
  using assms map_prime_field_canonical [of "KeyChain_to_vec (circuit_keys w)"]
  by (simp add: native_values_def wallet_preimage_def small_mints_def felts_concat)

text \<open>
  C29: the native wallet commitment and the circuit's hash the same field elements exactly when
  every order price and every fee percentage fits the 64 bits the native code hashes; and in
  every satisfying assignment in which the wallet's variables hold the committed values, the
  circuit's commitment is the Poseidon hash of those values.\<close>

theorem wallet_commitments_agree_iff:
  assumes "small_mints w"
    and "constraint_system cs sat wires assigned" "valid_params p" "0 < rate p"
  shows "(native_values env w = wallet_values w \<longleftrightarrow>
      (\<forall>ord\<in>set (circuit_orders w). unat (scalar_to_u64 env (repr (price ord))) = repr (price ord))
      \<and> (\<forall>f\<in>set (circuit_fees w). unat (scalar_to_u64 env (repr (percentage_fee f))) = repr (percentage_fee f)))
    \<and> (\<exists>out s'. wallet_commit cs p v s = Returns (out, s')
      \<and> (\<forall>\<rho>. sat s' \<rho> \<and> map (lc_eval \<rho>) (wallet_lcs v) = map of_nat (wallet_values w) \<longrightarrow>
          poseidon_hash p (map of_nat (wallet_values w)) = Returns (lc_eval \<rho> out)))"
proof
  show "native_values env w = wallet_values w \<longleftrightarrow>
      (\<forall>ord\<in>set (circuit_orders w). unat (scalar_to_u64 env (repr (price ord))) = repr (price ord))
      \<and> (\<forall>f\<in>set (circuit_fees w). unat (scalar_to_u64 env (repr (percentage_fee f))) = repr (percentage_fee f))"
    using assms(1)
    by (auto simp: native_values_eq [OF assms(1)] wallet_values_def concat_map_eq_iff concat_map_eq_iff_alone felts_lengths small_mints_def
        balance_values_native order_values_native fee_values_native)
  obtain out s' where "hash_gadget cs p (wallet_lcs v) s = Returns (out, s')"
    "gadget sat wires assigned (state_vars (wallet_lcs v)) (lc_vars out) s s' (\<lambda>\<rho>. lc_eval \<rho> out = hash_value p (map (lc_eval \<rho>) (wallet_lcs v)))"
    by (rule constraint_system.hash_gadget_value [OF assms(2-4), of "wallet_lcs v" s])
  then show "\<exists>out s'. wallet_commit cs p v s = Returns (out, s')
      \<and> (\<forall>\<rho>. sat s' \<rho> \<and> map (lc_eval \<rho>) (wallet_lcs v) = map of_nat (wallet_values w) \<longrightarrow>
          poseidon_hash p (map of_nat (wallet_values w)) = Returns (lc_eval \<rho> out))"
    unfolding wallet_commit_hash
    by (intro exI [of _ out] exI [of _ s']) (auto simp: poseidon_hash_value [OF assms(3,4)] dest: constraint_system.gadget_sound [OF assms(2)])
qed

theorem wallet_commitments_agree_iff_witness:
  "native_values low_env (example_wallet (FixedPoint 7)) = wallet_values (example_wallet (FixedPoint 7))
   \<and> native_values low_env (example_wallet (from_integer (2 ^ 32))) \<noteq> wallet_values (example_wallet (from_integer (2 ^ 32)))"
  using wallet_commitments_agree_iff [OF example_wallet_small r1cs_contract toy_params_valid(1), of low_env]
  by (simp add: example_wallet_def low_env_def Fee_default_def Order_default_def from_integer_def scalar_mul_def scalar_of_u64_def field_modulus_def)



end
