(* ===== verification/Circuit_Monad.thy ===== *)
theory Circuit_Monad
  imports Circuit_Hashes
begin

section \<open>Sequencing gadgets\<close>

text \<open>
  The circuits of \<open>circuits/src/zk_circuits\<close> are sequences of gadget calls and constraints on one
  constraint system. They are written with the state of the constraint system threaded through
  \<open>andthen\<close>; a gadget that may panic stops the circuit. \<open>decides\<close> is what a circuit proves: which
  relation on the values of its inputs holds exactly when a satisfying assignment exists.
\<close>

type_synonym ('s, 'a) circ = "'s \<Rightarrow> ('a \<times> 's) call"

definition yield :: "'a \<Rightarrow> ('s, 'a) circ" where
  "yield x s = Returns (x, s)"

definition andthen :: "('s, 'a) circ \<Rightarrow> ('a \<Rightarrow> ('s, 'b) circ) \<Rightarrow> ('s, 'b) circ" where
  "andthen m k s = bind_call (m s) (\<lambda>(x, s). k x s)"

definition total :: "('s \<Rightarrow> 'a \<times> 's) \<Rightarrow> ('s, 'a) circ" where
  "total g s = Returns (g s)"

definition effect :: "('s \<Rightarrow> 's call) \<Rightarrow> ('s, unit) circ" where
  "effect c s = bind_call (c s) (\<lambda>s. Returns ((), s))"

definition constrain :: "('s, 'v, 'f) cs_ops \<Rightarrow> ('v, 'f) lc \<Rightarrow> ('s, unit) circ" where
  "constrain cs l = effect (\<lambda>s. Returns (cs_constrain cs l s))"

fun for_each :: "('a \<Rightarrow> ('s, unit) circ) \<Rightarrow> 'a list \<Rightarrow> ('s, unit) circ" where
  "for_each f [] = yield ()"
| "for_each f (x # xs) = andthen (f x) (\<lambda>_. for_each f xs)"

text \<open>A sum of gadget outputs, accumulated in the order of a list.\<close>

fun sum_each :: "('a \<Rightarrow> ('s, ('v, 'f::field) lc) circ) \<Rightarrow> 'a list \<Rightarrow> ('v, 'f) lc \<Rightarrow> ('s, ('v, 'f) lc) circ" where
  "sum_each f [] acc = yield acc"
| "sum_each f (x # xs) acc = andthen (f x) (\<lambda>y. sum_each f xs (lc_add acc y))"

text \<open>A loop that carries a value from one turn to the next.\<close>

fun fold_each :: "('a \<Rightarrow> 'b \<Rightarrow> ('s, 'b) circ) \<Rightarrow> 'a list \<Rightarrow> 'b \<Rightarrow> ('s, 'b) circ" where
  "fold_each f [] b = yield b"
| "fold_each f (x # xs) b = andthen (f x b) (\<lambda>b. fold_each f xs b)"

text \<open>The ordered pairs of a list that a double loop over \<open>i < j\<close> visits, each first element with its partners.\<close>

fun with_later :: "'a list \<Rightarrow> ('a \<times> 'a list) list" where
  "with_later [] = []"
| "with_later (x # xs) = (x, xs) # with_later xs"

subsection \<open>What a circuit decides\<close>

text \<open>
  \<open>depends V R\<close>: \<open>R\<close> is determined by the values of the variables \<open>V\<close>.

  \<open>decides V P m R W Q\<close>: where the constraints so far imply \<open>P\<close>, the circuit \<open>m\<close> returns; every
  assignment that satisfies its constraints has \<open>R\<close> and gives the output the property \<open>Q\<close>; and
  every assignment to the variables so far that satisfies the constraints so far and has \<open>R\<close>
  extends to one that satisfies them all.
\<close>

definition depends :: "'v set \<Rightarrow> (('v \<Rightarrow> 'f) \<Rightarrow> 'b) \<Rightarrow> bool" where
  "depends V R \<longleftrightarrow> (\<forall>\<rho> \<rho>'. (\<forall>v\<in>V. \<rho> v = \<rho>' v) \<longrightarrow> R \<rho> = R \<rho>')"

definition decides ::
  "('s \<Rightarrow> ('v \<Rightarrow> 'f) \<Rightarrow> bool) \<Rightarrow> ('s \<Rightarrow> 'v set) \<Rightarrow> 'v set \<Rightarrow> (('v \<Rightarrow> 'f) \<Rightarrow> bool) \<Rightarrow> ('s, 'a) circ \<Rightarrow> (('v \<Rightarrow> 'f) \<Rightarrow> bool)
    \<Rightarrow> ('a \<Rightarrow> 'v set) \<Rightarrow> ('a \<Rightarrow> ('v \<Rightarrow> 'f) \<Rightarrow> bool) \<Rightarrow> bool" where
  "decides sat wires V P m R W Q \<longleftrightarrow> (\<forall>s. (\<forall>\<rho>. sat s \<rho> \<longrightarrow> P \<rho>) \<longrightarrow>
    (\<exists>x s'. m s = Returns (x, s') \<and> wires s \<subseteq> wires s' \<and> (\<forall>\<rho>. sat s' \<rho> \<longrightarrow> sat s \<rho> \<and> R \<rho> \<and> Q x \<rho>)
      \<and> (closed_state sat wires s \<longrightarrow> V \<subseteq> wires s \<longrightarrow> closed_state sat wires s' \<and> W x \<subseteq> wires s'
        \<and> (\<forall>\<rho>. sat s \<rho> \<longrightarrow> R \<rho> \<longrightarrow> (\<exists>\<rho>'. (\<forall>v\<in>wires s. \<rho>' v = \<rho> v) \<and> sat s' \<rho>')))))"

lemma dependsI:
  assumes "\<And>\<rho> \<rho>'. (\<And>v. v \<in> V \<Longrightarrow> \<rho> v = \<rho>' v) \<Longrightarrow> R \<rho> = R \<rho>'"
  shows "depends V R"
  unfolding depends_def
proof (intro allI impI)
  fix \<rho> \<rho>' :: "'a \<Rightarrow> 'b" assume "\<forall>v\<in>V. \<rho> v = \<rho>' v"
  then show "R \<rho> = R \<rho>'"
    by (intro assms) (rule bspec)
qed

lemma dependsD:
  assumes "depends V R" "\<And>v. v \<in> V \<Longrightarrow> \<rho> v = \<rho>' v"
  shows "R \<rho> = R \<rho>'"
  using assms(1) [unfolded depends_def, rule_format, of \<rho> \<rho>'] assms(2) by blast

lemma depends_eq: "depends V f \<Longrightarrow> \<forall>v\<in>V. \<rho> v = \<rho>' v \<Longrightarrow> f \<rho> = f \<rho>'"
  by (simp add: depends_def)

lemma dependsI2:
  assumes "\<And>\<rho> \<rho>'. \<forall>v\<in>V. \<rho> v = \<rho>' v \<Longrightarrow> f \<rho> = f \<rho>'"
  shows "depends V f"
  unfolding depends_def by (intro allI impI) (rule assms)

lemma depends_mono:
  assumes "depends V R" "V \<subseteq> V'"
  shows "depends V' R"
  by (rule dependsI, rule dependsD [OF assms(1)]) (use assms(2) in blast)

lemma depends_const [simp]: "depends V (\<lambda>\<rho>. c)"
  by (rule dependsI) (rule refl)

lemma depends_var [intro]: "v \<in> V \<Longrightarrow> depends V (\<lambda>\<rho>. \<rho> v)"
  by (rule dependsI)

lemma depends_lc:
  assumes "lc_vars l \<subseteq> V"
  shows "depends V (\<lambda>\<rho>. lc_eval \<rho> l)"
proof (rule dependsI)
  fix \<rho> \<rho>' :: "'a \<Rightarrow> 'b" assume agree: "\<And>v. v \<in> V \<Longrightarrow> \<rho> v = \<rho>' v"
  show "lc_eval \<rho> l = lc_eval \<rho>' l"
    by (rule lc_eval_cong, rule agree, rule subsetD [OF assms])
qed

lemma depends_comp:
  assumes "depends V f"
  shows "depends V (\<lambda>\<rho>. h (f \<rho>))"
  by (rule dependsI, rule arg_cong [where f = h], rule dependsD [OF assms])

lemma depends_comp2:
  assumes "depends V f" "depends V g"
  shows "depends V (\<lambda>\<rho>. h (f \<rho>) (g \<rho>))"
  by (rule dependsI, rule arg_cong2 [where f = h]) (erule dependsD [OF assms(1)], erule dependsD [OF assms(2)])

lemma depends_map:
  assumes "\<And>x. x \<in> set xs \<Longrightarrow> depends V (f x)"
  shows "depends V (\<lambda>\<rho>. map (\<lambda>x. f x \<rho>) xs)"
  by (rule dependsI, rule map_cong [OF refl], rule dependsD [OF assms])

lemma depends_conj:
  assumes "depends V R" "depends V S"
  shows "depends V (\<lambda>\<rho>. R \<rho> \<and> S \<rho>)"
proof (rule dependsI)
  fix \<rho> \<rho>' :: "'a \<Rightarrow> 'b" assume agree: "\<And>v. v \<in> V \<Longrightarrow> \<rho> v = \<rho>' v"
  show "(R \<rho> \<and> S \<rho>) = (R \<rho>' \<and> S \<rho>')"
    by (intro arg_cong2 [where f = "(\<and>)"] dependsD [OF assms(1)] dependsD [OF assms(2)] agree)
qed

lemma depends_ball:
  assumes "\<And>x. x \<in> A \<Longrightarrow> depends V (R x)"
  shows "depends V (\<lambda>\<rho>. \<forall>x\<in>A. R x \<rho>)"
proof (rule dependsI)
  fix \<rho> \<rho>' :: "'b \<Rightarrow> 'c" assume agree: "\<And>v. v \<in> V \<Longrightarrow> \<rho> v = \<rho>' v"
  have "R x \<rho> = R x \<rho>'" if "x \<in> A" for x
    by (rule dependsD [OF assms [OF that]]) (rule agree)
  then show "(\<forall>x\<in>A. R x \<rho>) = (\<forall>x\<in>A. R x \<rho>')"
    by (rule ball_cong [OF refl])
qed

lemma decidesI:
  assumes "\<And>s. (\<And>\<rho>. sat s \<rho> \<Longrightarrow> P \<rho>) \<Longrightarrow> \<exists>x s'. m s = Returns (x, s') \<and> wires s \<subseteq> wires s'
      \<and> (\<forall>\<rho>. sat s' \<rho> \<longrightarrow> sat s \<rho> \<and> R \<rho> \<and> Q x \<rho>)
      \<and> (closed_state sat wires s \<longrightarrow> V \<subseteq> wires s \<longrightarrow> closed_state sat wires s' \<and> W x \<subseteq> wires s'
        \<and> (\<forall>\<rho>. sat s \<rho> \<longrightarrow> R \<rho> \<longrightarrow> (\<exists>\<rho>'. (\<forall>v\<in>wires s. \<rho>' v = \<rho> v) \<and> sat s' \<rho>')))"
  shows "decides sat wires V P m R W Q"
  using assms by (simp add: decides_def)

lemma decidesE:
  assumes "decides sat wires V P m R W Q" "\<And>\<rho>. sat s \<rho> \<Longrightarrow> P \<rho>"
  obtains x s' where "m s = Returns (x, s')" "wires s \<subseteq> wires s'" "\<And>\<rho>. sat s' \<rho> \<Longrightarrow> sat s \<rho> \<and> R \<rho> \<and> Q x \<rho>"
    "closed_state sat wires s \<Longrightarrow> V \<subseteq> wires s \<Longrightarrow> closed_state sat wires s' \<and> W x \<subseteq> wires s'"
    "\<And>\<rho>. closed_state sat wires s \<Longrightarrow> V \<subseteq> wires s \<Longrightarrow> sat s \<rho> \<Longrightarrow> R \<rho> \<Longrightarrow> \<exists>\<rho>'. (\<forall>v\<in>wires s. \<rho>' v = \<rho> v) \<and> sat s' \<rho>'"
proof -
  let ?B = "\<lambda>x s'. m s = Returns (x, s') \<and> wires s \<subseteq> wires s' \<and> (\<forall>\<rho>. sat s' \<rho> \<longrightarrow> sat s \<rho> \<and> R \<rho> \<and> Q x \<rho>)
      \<and> (closed_state sat wires s \<longrightarrow> V \<subseteq> wires s \<longrightarrow> closed_state sat wires s' \<and> W x \<subseteq> wires s'
        \<and> (\<forall>\<rho>. sat s \<rho> \<longrightarrow> R \<rho> \<longrightarrow> (\<exists>\<rho>'. (\<forall>v\<in>wires s. \<rho>' v = \<rho> v) \<and> sat s' \<rho>')))"
  have "(\<forall>\<rho>. sat s \<rho> \<longrightarrow> P \<rho>) \<longrightarrow> (\<exists>x s'. ?B x s')"
    using assms(1) unfolding decides_def by (rule spec)
  moreover have "\<forall>\<rho>. sat s \<rho> \<longrightarrow> P \<rho>"
    using assms(2) by simp
  ultimately have "\<exists>x s'. ?B x s'"
    by (rule mp)
  then obtain x s' where "?B x s'"
    by (elim exE)
  then show ?thesis
    by (intro that [of x s']) simp_all
qed

context constraint_system
begin

abbreviation const_vars :: "'v set" where
  "const_vars \<equiv> {var_one cs, var_zero cs}"

abbreviation dec ::
  "'v set \<Rightarrow> (('v \<Rightarrow> 'f) \<Rightarrow> bool) \<Rightarrow> ('s, 'a) circ \<Rightarrow> (('v \<Rightarrow> 'f) \<Rightarrow> bool) \<Rightarrow> ('a \<Rightarrow> 'v set) \<Rightarrow> ('a \<Rightarrow> ('v \<Rightarrow> 'f) \<Rightarrow> bool) \<Rightarrow> bool" where
  "dec \<equiv> decides sat wires"

lemma dec_weaken:
  assumes "dec V P m R W Q" "V \<subseteq> V' \<union> const_vars" "\<And>x. W' x \<subseteq> V' \<union> W x \<union> const_vars"
    "\<And>\<rho>. P' \<rho> \<Longrightarrow> \<rho> (var_one cs) = 1 \<Longrightarrow> \<rho> (var_zero cs) = 0 \<Longrightarrow> P \<rho> \<and> R \<rho> = R' \<rho>"
    "\<And>x \<rho>. P' \<rho> \<Longrightarrow> \<rho> (var_one cs) = 1 \<Longrightarrow> \<rho> (var_zero cs) = 0 \<Longrightarrow> R \<rho> \<Longrightarrow> Q x \<rho> \<Longrightarrow> Q' x \<rho>"
  shows "dec V' P' m R' W' Q'"
proof (rule decidesI)
  fix s assume P': "\<And>\<rho>. sat s \<rho> \<Longrightarrow> P' \<rho>"
  then have P: "\<And>\<rho>. sat s \<rho> \<Longrightarrow> P \<rho> \<and> R \<rho> = R' \<rho>"
    using assms(4) sat_constants by blast
  obtain x s' where run: "m s = Returns (x, s')" "wires s \<subseteq> wires s'" "\<And>\<rho>. sat s' \<rho> \<Longrightarrow> sat s \<rho> \<and> R \<rho> \<and> Q x \<rho>"
    "closed s \<Longrightarrow> V \<subseteq> wires s \<Longrightarrow> closed s' \<and> W x \<subseteq> wires s'"
    "\<And>\<rho>. closed s \<Longrightarrow> V \<subseteq> wires s \<Longrightarrow> sat s \<rho> \<Longrightarrow> R \<rho> \<Longrightarrow> \<exists>\<rho>'. (\<forall>v\<in>wires s. \<rho>' v = \<rho> v) \<and> sat s' \<rho>'"
    using decidesE [OF assms(1), of s] P by blast
  have scope: "V \<subseteq> wires s" if "V' \<subseteq> wires s"
    using assms(2) that wires_constants [of s] by blast
  have "W' x \<subseteq> wires s'" if "V' \<subseteq> wires s" "W x \<subseteq> wires s'"
    using assms(3) [of x] that run(2) wires_constants [of s'] by blast
  moreover have "R' \<rho> \<and> Q' x \<rho>" if "sat s' \<rho>" for \<rho>
    using run(3) [OF that] P P' assms(5) sat_constants by blast
  ultimately show "\<exists>x s'. m s = Returns (x, s') \<and> wires s \<subseteq> wires s' \<and> (\<forall>\<rho>. sat s' \<rho> \<longrightarrow> sat s \<rho> \<and> R' \<rho> \<and> Q' x \<rho>)
      \<and> (closed s \<longrightarrow> V' \<subseteq> wires s \<longrightarrow> closed s' \<and> W' x \<subseteq> wires s'
        \<and> (\<forall>\<rho>. sat s \<rho> \<longrightarrow> R' \<rho> \<longrightarrow> (\<exists>\<rho>'. (\<forall>v\<in>wires s. \<rho>' v = \<rho> v) \<and> sat s' \<rho>')))"
    using run P scope by (intro exI [of _ x] exI [of _ s']) auto
qed

lemma dec_andthen:
  assumes "dec U P m R W Q" "U \<subseteq> V \<union> const_vars" "\<And>x. dec (V \<union> W x) (\<lambda>\<rho>. P \<rho> \<and> R \<rho> \<and> Q x \<rho>) (k x) S W' Q'"
    "\<And>\<rho>. P \<rho> \<Longrightarrow> \<rho> (var_one cs) = 1 \<Longrightarrow> \<rho> (var_zero cs) = 0 \<Longrightarrow> S \<rho> \<Longrightarrow> R \<rho>" "depends V S"
  shows "dec V P (andthen m k) S W' Q'"
proof (rule decidesI)
  fix s assume P: "\<And>\<rho>. sat s \<rho> \<Longrightarrow> P \<rho>"
  obtain x t where m: "m s = Returns (x, t)" "wires s \<subseteq> wires t" "\<And>\<rho>. sat t \<rho> \<Longrightarrow> sat s \<rho> \<and> R \<rho> \<and> Q x \<rho>"
    "closed s \<Longrightarrow> U \<subseteq> wires s \<Longrightarrow> closed t \<and> W x \<subseteq> wires t"
    "\<And>\<rho>. closed s \<Longrightarrow> U \<subseteq> wires s \<Longrightarrow> sat s \<rho> \<Longrightarrow> R \<rho> \<Longrightarrow> \<exists>\<rho>'. (\<forall>v\<in>wires s. \<rho>' v = \<rho> v) \<and> sat t \<rho>'"
    using decidesE [OF assms(1), of s] P by blast
  obtain y u where k: "k x t = Returns (y, u)" "wires t \<subseteq> wires u" "\<And>\<rho>. sat u \<rho> \<Longrightarrow> sat t \<rho> \<and> S \<rho> \<and> Q' y \<rho>"
    "closed t \<Longrightarrow> V \<union> W x \<subseteq> wires t \<Longrightarrow> closed u \<and> W' y \<subseteq> wires u"
    "\<And>\<rho>. closed t \<Longrightarrow> V \<union> W x \<subseteq> wires t \<Longrightarrow> sat t \<rho> \<Longrightarrow> S \<rho> \<Longrightarrow> \<exists>\<rho>'. (\<forall>v\<in>wires t. \<rho>' v = \<rho> v) \<and> sat u \<rho>'"
    using decidesE [OF assms(3) [of x], of t] m(3) P by blast
  have t: "closed t \<and> V \<union> W x \<subseteq> wires t" "U \<subseteq> wires s" if "closed s" "V \<subseteq> wires s"
    using m(2,4) assms(2) that wires_constants [of s] by blast+
  have "\<exists>\<rho>'. (\<forall>v\<in>wires s. \<rho>' v = \<rho> v) \<and> sat u \<rho>'" if h: "closed s" "V \<subseteq> wires s" "sat s \<rho>" "S \<rho>" for \<rho>
  proof -
    obtain \<rho>1 where 1: "\<forall>v\<in>wires s. \<rho>1 v = \<rho> v" "sat t \<rho>1"
      using m(5) [OF h(1) t(2) [OF h(1,2)] h(3)] assms(4) [OF P [OF h(3)] _ _ h(4)] sat_constants [OF h(3)] by blast
    have "S \<rho>1"
      using dependsD [OF assms(5), of \<rho>1 \<rho>] 1(1) h(2,4) by (meson subsetD)
    then obtain \<rho>2 where 2: "\<forall>v\<in>wires t. \<rho>2 v = \<rho>1 v" "sat u \<rho>2"
      using k(5) [OF _ _ 1(2)] t(1) [OF h(1,2)] by blast
    with 1(1) m(2) show ?thesis
      by (intro exI [of _ \<rho>2]) auto
  qed
  moreover have "andthen m k s = Returns (y, u)"
    by (simp add: andthen_def m(1) k(1))
  ultimately show "\<exists>y u. andthen m k s = Returns (y, u) \<and> wires s \<subseteq> wires u \<and> (\<forall>\<rho>. sat u \<rho> \<longrightarrow> sat s \<rho> \<and> S \<rho> \<and> Q' y \<rho>)
      \<and> (closed s \<longrightarrow> V \<subseteq> wires s \<longrightarrow> closed u \<and> W' y \<subseteq> wires u
        \<and> (\<forall>\<rho>. sat s \<rho> \<longrightarrow> S \<rho> \<longrightarrow> (\<exists>\<rho>'. (\<forall>v\<in>wires s. \<rho>' v = \<rho> v) \<and> sat u \<rho>')))"
    using m(2,3) k(2-4) t(1) by (intro exI [of _ y] exI [of _ u]) (auto 0 3)
qed

text \<open>The rules a circuit is walked with: one step, and its last step.\<close>

lemma dec_step:
  assumes "dec U P m R W Q" "depends V' S" "V' \<subseteq> V" "U \<subseteq> V \<union> const_vars"
    "\<And>\<rho>. P \<rho> \<Longrightarrow> \<rho> (var_one cs) = 1 \<Longrightarrow> \<rho> (var_zero cs) = 0 \<Longrightarrow> S \<rho> \<Longrightarrow> R \<rho>" "\<And>x. dec (V \<union> W x) (\<lambda>\<rho>. P \<rho> \<and> R \<rho> \<and> Q x \<rho>) (k x) S W' Q'"
  shows "dec V P (andthen m k) S W' Q'"
  using assms(1,4,6,5) depends_mono [OF assms(2,3)] by (rule dec_andthen)

lemma dec_last:
  assumes "dec U P m R W Q" "U \<subseteq> V \<union> const_vars"
    "\<And>\<rho>. P \<rho> \<Longrightarrow> \<rho> (var_one cs) = 1 \<Longrightarrow> \<rho> (var_zero cs) = 0 \<Longrightarrow> R \<rho> = S \<rho>"
  shows "dec V P m S (\<lambda>_. {}) (\<lambda>_ _. True)"
  using assms(1,2) by (rule dec_weaken) (simp_all add: assms(3))

lemma dec_yield:
  assumes "W x \<subseteq> V \<union> const_vars" "\<And>\<rho>. P \<rho> \<Longrightarrow> \<rho> (var_one cs) = 1 \<Longrightarrow> \<rho> (var_zero cs) = 0 \<Longrightarrow> S \<rho> \<and> Q x \<rho>"
  shows "dec V P (yield x) S W Q"
proof (rule decidesI)
  fix s assume "\<And>\<rho>. sat s \<rho> \<Longrightarrow> P \<rho>"
  then have "\<And>\<rho>. sat s \<rho> \<Longrightarrow> S \<rho> \<and> Q x \<rho>"
    using assms(2) sat_constants by blast
  moreover have "W x \<subseteq> wires s" if "V \<subseteq> wires s"
    using assms(1) that wires_constants [of s] by blast
  ultimately show "\<exists>y s'. yield x s = Returns (y, s') \<and> wires s \<subseteq> wires s' \<and> (\<forall>\<rho>. sat s' \<rho> \<longrightarrow> sat s \<rho> \<and> S \<rho> \<and> Q y \<rho>)
      \<and> (closed s \<longrightarrow> V \<subseteq> wires s \<longrightarrow> closed s' \<and> W y \<subseteq> wires s'
        \<and> (\<forall>\<rho>. sat s \<rho> \<longrightarrow> S \<rho> \<longrightarrow> (\<exists>\<rho>'. (\<forall>v\<in>wires s. \<rho>' v = \<rho> v) \<and> sat s' \<rho>')))"
    by (intro exI [of _ x] exI [of _ s]) (auto simp: yield_def)
qed

lemma dec_gadget:
  assumes "\<And>s. \<exists>x s'. m s = Returns (x, s') \<and> gad V (W x) s s' (Q x)"
  shows "dec V P m (\<lambda>_. True) W Q"
proof (rule decidesI)
  fix s
  obtain x s' where run: "m s = Returns (x, s')" "gad V (W x) s s' (Q x)"
    using assms by blast
  have "wires s \<subseteq> wires s'"
    using gadget_grows [OF run(2)] by (simp add: grows_def)
  then show "\<exists>x s'. m s = Returns (x, s') \<and> wires s \<subseteq> wires s' \<and> (\<forall>\<rho>. sat s' \<rho> \<longrightarrow> sat s \<rho> \<and> True \<and> Q x \<rho>)
      \<and> (closed s \<longrightarrow> V \<subseteq> wires s \<longrightarrow> closed s' \<and> W x \<subseteq> wires s'
        \<and> (\<forall>\<rho>. sat s \<rho> \<longrightarrow> True \<longrightarrow> (\<exists>\<rho>'. (\<forall>v\<in>wires s. \<rho>' v = \<rho> v) \<and> sat s' \<rho>')))"
    using run gadget_sound [OF run(2)] gadget_complete [OF run(2)] by (intro exI [of _ x] exI [of _ s']) (simp add: unconstrained_def)
qed

lemma dec_total: "(\<And>s x s'. g s = (x, s') \<Longrightarrow> gad V (W x) s s' (Q x)) \<Longrightarrow> dec V P (total g) (\<lambda>_. True) W Q"
  by (rule dec_gadget) (metis total_def surj_pair)

lemma dec_constrain: "lc_vars l \<subseteq> V \<union> const_vars \<Longrightarrow> dec V P (constrain cs l) (\<lambda>\<rho>. lc_eval \<rho> l = 0) (\<lambda>_. {}) (\<lambda>_ _. True)"
proof (rule decidesI)
  fix s assume scope: "lc_vars l \<subseteq> V \<union> const_vars"
  have "closed (cs_constrain cs l s)" if "closed s" "V \<subseteq> wires s"
    using constrain_closed [OF that(1)] scope that(2) wires_constants [of s] by blast
  then show "\<exists>x s'. constrain cs l s = Returns (x, s') \<and> wires s \<subseteq> wires s' \<and> (\<forall>\<rho>. sat s' \<rho> \<longrightarrow> sat s \<rho> \<and> lc_eval \<rho> l = 0 \<and> True)
      \<and> (closed s \<longrightarrow> V \<subseteq> wires s \<longrightarrow> closed s' \<and> {} \<subseteq> wires s'
        \<and> (\<forall>\<rho>. sat s \<rho> \<longrightarrow> lc_eval \<rho> l = 0 \<longrightarrow> (\<exists>\<rho>'. (\<forall>v\<in>wires s. \<rho>' v = \<rho> v) \<and> sat s' \<rho>')))"
    by (auto simp: constrain_def effect_def sat_constrain wires_constrain)
qed

lemma dec_for_each:
  assumes "\<And>x. x \<in> set xs \<Longrightarrow> dec V P (f x) (R x) (\<lambda>_. {}) (\<lambda>_ _. True)" "\<And>x. x \<in> set xs \<Longrightarrow> depends V (R x)"
  shows "dec V P (for_each f xs) (\<lambda>\<rho>. \<forall>x\<in>set xs. R x \<rho>) (\<lambda>_. {}) (\<lambda>_ _. True)"
  using assms
proof (induction xs arbitrary: P)
  case (Cons x xs)
  have rest: "dec V (\<lambda>\<rho>. P \<rho> \<and> R x \<rho>) (for_each f xs) (\<lambda>\<rho>. \<forall>x\<in>set xs. R x \<rho>) (\<lambda>_. {}) (\<lambda>_ _. True)"
  proof (rule Cons.IH)
    show "dec V (\<lambda>\<rho>. P \<rho> \<and> R x \<rho>) (f y) (R y) (\<lambda>_. {}) (\<lambda>_ _. True)" if "y \<in> set xs" for y
      using Cons.prems(1) [of y] that by (intro dec_weaken [where P = P and P' = "\<lambda>\<rho>. P \<rho> \<and> R x \<rho>"]) auto
  qed (use Cons.prems in simp)
  have "dec V P (andthen (f x) (\<lambda>_. for_each f xs)) (\<lambda>\<rho>. \<forall>x\<in>set (x # xs). R x \<rho>) (\<lambda>_. {}) (\<lambda>_ _. True)"
  proof (rule dec_andthen [where R = "R x" and W = "\<lambda>_. {}" and Q = "\<lambda>_ _. True"])
    show "dec (V \<union> {}) (\<lambda>\<rho>. P \<rho> \<and> R x \<rho> \<and> True) (for_each f xs) (\<lambda>\<rho>. \<forall>x\<in>set (x # xs). R x \<rho>) (\<lambda>_. {}) (\<lambda>_ _. True)"
      by (rule dec_weaken [OF rest]) auto
    show "depends V (\<lambda>\<rho>. \<forall>x\<in>set (x # xs). R x \<rho>)"
      using Cons.prems(2) by (rule depends_ball)
  qed (use Cons.prems in auto)
  then show ?case by simp
qed (simp add: dec_yield)

lemma dec_sum_each:
  assumes "\<And>x. x \<in> set xs \<Longrightarrow> dec V P (f x) (\<lambda>_. True) lc_vars (\<lambda>y \<rho>. lc_eval \<rho> y = g x \<rho>)" "lc_vars acc \<subseteq> V \<union> const_vars"
  shows "dec V P (sum_each f xs acc) (\<lambda>_. True) lc_vars (\<lambda>y \<rho>. lc_eval \<rho> y = lc_eval \<rho> acc + (\<Sum>x\<leftarrow>xs. g x \<rho>))"
  using assms
proof (induction xs arbitrary: acc P V)
  case (Cons x xs)
  have "dec V P (andthen (f x) (\<lambda>y. sum_each f xs (lc_add acc y))) (\<lambda>_. True) lc_vars
      (\<lambda>y \<rho>. lc_eval \<rho> y = lc_eval \<rho> acc + (\<Sum>x\<leftarrow>x # xs. g x \<rho>))"
  proof (rule dec_andthen [where U = V and R = "\<lambda>_. True" and W = lc_vars and Q = "\<lambda>y \<rho>. lc_eval \<rho> y = g x \<rho>"])
    fix y
    have "dec (V \<union> lc_vars y) (\<lambda>\<rho>. P \<rho> \<and> lc_eval \<rho> y = g x \<rho>) (sum_each f xs (lc_add acc y)) (\<lambda>_. True) lc_vars
        (\<lambda>z \<rho>. lc_eval \<rho> z = lc_eval \<rho> (lc_add acc y) + (\<Sum>x\<leftarrow>xs. g x \<rho>))"
      using Cons.prems by (intro Cons.IH dec_weaken [where V = V and V' = "V \<union> lc_vars y" and P = P]) auto
    then show "dec (V \<union> lc_vars y) (\<lambda>\<rho>. P \<rho> \<and> True \<and> lc_eval \<rho> y = g x \<rho>) (sum_each f xs (lc_add acc y)) (\<lambda>_. True) lc_vars
        (\<lambda>z \<rho>. lc_eval \<rho> z = lc_eval \<rho> acc + (\<Sum>x\<leftarrow>x # xs. g x \<rho>))"
      by (rule dec_weaken) (auto simp: add.assoc)
  qed (use Cons.prems in auto)
  then show ?case by simp
qed (auto intro!: dec_yield)

lemma dec_fold_each:
  assumes "\<And>x ys b. x \<in> set xs \<Longrightarrow> dec (V \<union> W b) (\<lambda>\<rho>. P \<rho> \<and> Q ys b \<rho>) (f x b) (R x) W (Q (ys @ [x]))" "\<And>x. x \<in> set xs \<Longrightarrow> depends V (R x)"
  shows "dec (V \<union> W b) (\<lambda>\<rho>. P \<rho> \<and> Q ys b \<rho>) (fold_each f xs b) (\<lambda>\<rho>. \<forall>x\<in>set xs. R x \<rho>) W (Q (ys @ xs))"
  using assms
proof (induction xs arbitrary: b ys)
  case (Cons x xs)
  have "dec (V \<union> W b) (\<lambda>\<rho>. P \<rho> \<and> Q ys b \<rho>) (andthen (f x b) (\<lambda>b. fold_each f xs b)) (\<lambda>\<rho>. \<forall>x\<in>set (x # xs). R x \<rho>) W (Q (ys @ x # xs))"
  proof (rule dec_andthen [OF Cons.prems(1)])
    fix c
    have "dec (V \<union> W c) (\<lambda>\<rho>. P \<rho> \<and> Q (ys @ [x]) c \<rho>) (fold_each f xs c) (\<lambda>\<rho>. \<forall>x\<in>set xs. R x \<rho>) W (Q ((ys @ [x]) @ xs))"
      using Cons.prems by (intro Cons.IH) auto
    then show "dec (V \<union> W b \<union> W c) (\<lambda>\<rho>. (P \<rho> \<and> Q ys b \<rho>) \<and> R x \<rho> \<and> Q (ys @ [x]) c \<rho>) (fold_each f xs c) (\<lambda>\<rho>. \<forall>x\<in>set (x # xs). R x \<rho>) W (Q (ys @ x # xs))"
      by (rule dec_weaken) auto
    show "depends (V \<union> W b) (\<lambda>\<rho>. \<forall>x\<in>set (x # xs). R x \<rho>)"
      using Cons.prems(2) by (intro depends_ball) (auto intro: depends_mono)
  qed auto
  then show ?case by simp
qed (auto intro!: dec_yield)

text \<open>
  What a circuit decides, read off its run: an assignment of the variables before the circuit
  extends to one that satisfies the circuit's constraints exactly when it has the relation.
\<close>

lemma dec_sound:
  assumes "dec V (\<lambda>_. True) m R W Q" "m s = Returns (x, s')" "sat s' \<rho>"
  shows "sat s \<rho> \<and> R \<rho> \<and> Q x \<rho>"
  using decidesE [OF assms(1), of s] assms(2,3) by auto

lemma dec_exact:
  assumes "dec V (\<lambda>_. True) m R W Q" "depends V R" "closed s" "V \<subseteq> wires s"
  shows "\<exists>x s'. m s = Returns (x, s') \<and> (\<forall>\<rho>. sat s \<rho> \<longrightarrow> ((\<exists>\<rho>'. (\<forall>v\<in>wires s. \<rho>' v = \<rho> v) \<and> sat s' \<rho>') \<longleftrightarrow> R \<rho>))"
proof -
  obtain x s' where run: "m s = Returns (x, s')" "\<And>\<rho>. sat s' \<rho> \<Longrightarrow> sat s \<rho> \<and> R \<rho> \<and> Q x \<rho>"
    "\<And>\<rho>. sat s \<rho> \<Longrightarrow> R \<rho> \<Longrightarrow> \<exists>\<rho>'. (\<forall>v\<in>wires s. \<rho>' v = \<rho> v) \<and> sat s' \<rho>'"
    using decidesE [OF assms(1), of s] assms(3,4) by metis
  have "R \<rho>" if "\<forall>v\<in>wires s. \<rho>' v = \<rho> v" "sat s' \<rho>'" for \<rho> \<rho>'
  proof -
    have "R \<rho>' = R \<rho>"
      by (rule dependsD [OF assms(2)], rule bspec [OF that(1)], rule subsetD [OF assms(4)])
    then show ?thesis
      using run(2) [OF that(2)] by simp
  qed
  with run(1,3) show ?thesis
    by (intro exI [of _ x] exI [of _ s']) blast
qed

end

end
