(* ===== verification/Circuit_Values.thy ===== *)
theory Circuit_Values
  imports Circuit_Monad
begin

section \<open>The values of allocated wallets, and gadgets as steps of a circuit\<close>

text \<open>
  What an assignment gives the variables of a wallet, an order, a fee or a note, the relations
  the circuits state over these values, and for every gadget the step rule that the circuits of
  \<open>circuits/src/zk_circuits\<close> are proved with.
\<close>

record 'f OrderValue =
  o_quote_mint :: 'f
  o_base_mint :: 'f
  o_side :: 'f
  o_price :: 'f
  o_amount :: 'f
  o_timestamp :: 'f

record 'f FeeValue =
  f_settle_key :: 'f
  f_gas_addr :: 'f
  f_gas_token_amount :: 'f
  f_percentage_fee :: 'f

record 'f WalletValue =
  w_balances :: "'f BalanceVar list"
  w_orders :: "'f OrderValue list"
  w_fees :: "'f FeeValue list"
  w_keys :: "'f KeyChainVar"
  w_randomness :: 'f

definition balance_at :: "('v \<Rightarrow> 'f) \<Rightarrow> 'v BalanceVar \<Rightarrow> 'f BalanceVar" where
  "balance_at \<rho> b = \<lparr>bv_mint = \<rho> (bv_mint b), bv_amount = \<rho> (bv_amount b)\<rparr>"

definition order_at :: "('v \<Rightarrow> 'f::field) \<Rightarrow> ('v, 'f) OrderVar \<Rightarrow> 'f OrderValue" where
  "order_at \<rho> ord = \<lparr>o_quote_mint = \<rho> (ov_quote_mint ord), o_base_mint = \<rho> (ov_base_mint ord), o_side = \<rho> (ov_side ord),
    o_price = lc_eval \<rho> (fp_repr (ov_price ord)), o_amount = \<rho> (ov_amount ord), o_timestamp = \<rho> (ov_timestamp ord)\<rparr>"

definition fee_at :: "('v \<Rightarrow> 'f::field) \<Rightarrow> ('v, 'f) FeeVar \<Rightarrow> 'f FeeValue" where
  "fee_at \<rho> f = \<lparr>f_settle_key = \<rho> (fv_settle_key f), f_gas_addr = \<rho> (fv_gas_addr f),
    f_gas_token_amount = \<rho> (fv_gas_token_amount f), f_percentage_fee = lc_eval \<rho> (fp_repr (fv_percentage_fee f))\<rparr>"

definition keys_at :: "('v \<Rightarrow> 'f) \<Rightarrow> 'v KeyChainVar \<Rightarrow> 'f KeyChainVar" where
  "keys_at \<rho> k = \<lparr>kv_pk_root = \<rho> (kv_pk_root k), kv_pk_match = \<rho> (kv_pk_match k), kv_pk_settle = \<rho> (kv_pk_settle k), kv_pk_view = \<rho> (kv_pk_view k)\<rparr>"

definition wallet_at :: "('v \<Rightarrow> 'f::field) \<Rightarrow> ('v, 'f) WalletVar \<Rightarrow> 'f WalletValue" where
  "wallet_at \<rho> w = \<lparr>w_balances = map (balance_at \<rho>) (wv_balances w), w_orders = map (order_at \<rho>) (wv_orders w),
    w_fees = map (fee_at \<rho>) (wv_fees w), w_keys = keys_at \<rho> (wv_keys w), w_randomness = \<rho> (wv_randomness w)\<rparr>"

definition note_at :: "('v \<Rightarrow> 'f) \<Rightarrow> 'v NoteVar \<Rightarrow> 'f NoteVar" where
  "note_at \<rho> n = \<lparr>nv_mint1 = \<rho> (nv_mint1 n), nv_volume1 = \<rho> (nv_volume1 n), nv_direction1 = \<rho> (nv_direction1 n),
    nv_mint2 = \<rho> (nv_mint2 n), nv_volume2 = \<rho> (nv_volume2 n), nv_direction2 = \<rho> (nv_direction2 n),
    nv_fee_mint = \<rho> (nv_fee_mint n), nv_fee_volume = \<rho> (nv_fee_volume n), nv_fee_direction = \<rho> (nv_fee_direction n),
    nv_type = \<rho> (nv_type n), nv_randomness = \<rho> (nv_randomness n)\<rparr>"

definition opening_at :: "('v \<Rightarrow> 'f) \<Rightarrow> 'v MerkleOpeningVar \<Rightarrow> 'f MerkleOpeningVar" where
  "opening_at \<rho> m = \<lparr>elems = map \<rho> (elems m), indices = map \<rho> (indices m)\<rparr>"

text \<open>The variables a value depends on.\<close>

definition balance_vars :: "'v BalanceVar \<Rightarrow> 'v set" where
  "balance_vars b = {bv_mint b, bv_amount b}"

definition order_vars :: "('v, 'f) OrderVar \<Rightarrow> 'v set" where
  "order_vars ord = {ov_quote_mint ord, ov_base_mint ord, ov_side ord, ov_amount ord, ov_timestamp ord} \<union> lc_vars (fp_repr (ov_price ord))"

definition fee_vars :: "('v, 'f) FeeVar \<Rightarrow> 'v set" where
  "fee_vars f = {fv_settle_key f, fv_gas_addr f, fv_gas_token_amount f} \<union> lc_vars (fp_repr (fv_percentage_fee f))"

definition key_vars :: "'v KeyChainVar \<Rightarrow> 'v set" where
  "key_vars k = {kv_pk_root k, kv_pk_match k, kv_pk_settle k, kv_pk_view k}"

definition wallet_vars :: "('v, 'f) WalletVar \<Rightarrow> 'v set" where
  "wallet_vars w = \<Union>(balance_vars ` set (wv_balances w)) \<union> \<Union>(order_vars ` set (wv_orders w)) \<union> \<Union>(fee_vars ` set (wv_fees w))
    \<union> key_vars (wv_keys w) \<union> {wv_randomness w}"

definition note_vars :: "'v NoteVar \<Rightarrow> 'v set" where
  "note_vars n = {nv_mint1 n, nv_volume1 n, nv_direction1 n, nv_mint2 n, nv_volume2 n, nv_direction2 n, nv_fee_mint n, nv_fee_volume n,
    nv_fee_direction n, nv_type n, nv_randomness n}"

definition opening_vars :: "'v MerkleOpeningVar \<Rightarrow> 'v set" where
  "opening_vars m = set (elems m) \<union> set (indices m)"

subsection \<open>Commitments of values\<close>

definition wallet_elements :: "'f WalletValue \<Rightarrow> 'f list" where
  "wallet_elements w = concat (map (\<lambda>b. [bv_mint b, bv_amount b]) (w_balances w))
    @ concat (map (\<lambda>ord. [o_quote_mint ord, o_base_mint ord, o_side ord, o_price ord, o_amount ord]) (w_orders w))
    @ concat (map (\<lambda>f. [f_settle_key f, f_gas_addr f, f_gas_token_amount f, f_percentage_fee f]) (w_fees w))
    @ [kv_pk_root (w_keys w), kv_pk_match (w_keys w), kv_pk_settle (w_keys w), kv_pk_view (w_keys w)] @ [w_randomness w]"

definition wallet_commitment :: "'f::field PoseidonSpongeParameters \<Rightarrow> 'f WalletValue \<Rightarrow> 'f" where
  "wallet_commitment p w = hash_value p (wallet_elements w)"

definition note_commitment :: "'f::field PoseidonSpongeParameters \<Rightarrow> 'f NoteVar \<Rightarrow> 'f \<Rightarrow> 'f" where
  "note_commitment p n pk = hash_value p [nv_mint1 n, nv_volume1 n, nv_direction1 n, nv_mint2 n, nv_volume2 n, nv_direction2 n,
    nv_fee_mint n, nv_fee_volume n, nv_fee_direction n, nv_type n, nv_randomness n, pk]"

definition opens_to :: "'f::field PoseidonSpongeParameters \<Rightarrow> 'f \<Rightarrow> 'f MerkleOpeningVar \<Rightarrow> 'f \<Rightarrow> bool" where
  "opens_to p leaf m rt \<longleftrightarrow> merkle_root p leaf (zip (elems m) (indices m)) = rt"

lemma wallet_elements_at: "map (lc_eval \<rho>) (wallet_lcs w) = wallet_elements (wallet_at \<rho> w)"
  by (simp add: wallet_lcs_def wallet_elements_def wallet_at_def map_concat comp_def absorb_balance_vars_def absorb_order_vars_def
      absorb_fee_vars_def absorb_key_vars_def balance_at_def order_at_def fee_at_def keys_at_def)

lemma wallet_lcs_vars: "state_vars (wallet_lcs w) \<subseteq> wallet_vars w"
  by (auto simp: wallet_lcs_def wallet_vars_def absorb_balance_vars_def absorb_order_vars_def absorb_fee_vars_def absorb_key_vars_def
      balance_vars_def order_vars_def fee_vars_def key_vars_def)

lemma at_simps [simp]:
  "bv_mint (balance_at \<rho> b) = \<rho> (bv_mint b)" "bv_amount (balance_at \<rho> b) = \<rho> (bv_amount b)"
  "o_quote_mint (order_at \<rho> ord) = \<rho> (ov_quote_mint ord)" "o_base_mint (order_at \<rho> ord) = \<rho> (ov_base_mint ord)"
  "o_side (order_at \<rho> ord) = \<rho> (ov_side ord)" "o_price (order_at \<rho> ord) = lc_eval \<rho> (fp_repr (ov_price ord))"
  "o_amount (order_at \<rho> ord) = \<rho> (ov_amount ord)" "o_timestamp (order_at \<rho> ord) = \<rho> (ov_timestamp ord)"
  "f_settle_key (fee_at \<rho> f) = \<rho> (fv_settle_key f)" "f_gas_addr (fee_at \<rho> f) = \<rho> (fv_gas_addr f)"
  "f_gas_token_amount (fee_at \<rho> f) = \<rho> (fv_gas_token_amount f)" "f_percentage_fee (fee_at \<rho> f) = lc_eval \<rho> (fp_repr (fv_percentage_fee f))"
  "kv_pk_root (keys_at \<rho> k) = \<rho> (kv_pk_root k)" "kv_pk_match (keys_at \<rho> k) = \<rho> (kv_pk_match k)"
  "kv_pk_settle (keys_at \<rho> k) = \<rho> (kv_pk_settle k)" "kv_pk_view (keys_at \<rho> k) = \<rho> (kv_pk_view k)"
  "w_balances (wallet_at \<rho> w) = map (balance_at \<rho>) (wv_balances w)" "w_orders (wallet_at \<rho> w) = map (order_at \<rho>) (wv_orders w)"
  "w_fees (wallet_at \<rho> w) = map (fee_at \<rho>) (wv_fees w)" "w_keys (wallet_at \<rho> w) = keys_at \<rho> (wv_keys w)"
  "w_randomness (wallet_at \<rho> w) = \<rho> (wv_randomness w)"
  "elems (opening_at \<rho> m) = map \<rho> (elems m)" "indices (opening_at \<rho> m) = map \<rho> (indices m)"
  by (simp_all add: balance_at_def order_at_def fee_at_def keys_at_def wallet_at_def opening_at_def)

lemma note_at_simps [simp]:
  "nv_mint1 (note_at \<rho> n) = \<rho> (nv_mint1 n)" "nv_volume1 (note_at \<rho> n) = \<rho> (nv_volume1 n)" "nv_direction1 (note_at \<rho> n) = \<rho> (nv_direction1 n)"
  "nv_mint2 (note_at \<rho> n) = \<rho> (nv_mint2 n)" "nv_volume2 (note_at \<rho> n) = \<rho> (nv_volume2 n)" "nv_direction2 (note_at \<rho> n) = \<rho> (nv_direction2 n)"
  "nv_fee_mint (note_at \<rho> n) = \<rho> (nv_fee_mint n)" "nv_fee_volume (note_at \<rho> n) = \<rho> (nv_fee_volume n)"
  "nv_fee_direction (note_at \<rho> n) = \<rho> (nv_fee_direction n)" "nv_type (note_at \<rho> n) = \<rho> (nv_type n)" "nv_randomness (note_at \<rho> n) = \<rho> (nv_randomness n)"
  by (simp_all add: note_at_def)

text \<open>Equality of values is equality of their vectors.\<close>

lemma vec_at:
  "map (lc_eval \<rho>) (map lc_var (BalanceVar_to_vec b)) = map (lc_eval \<rho>) (map lc_var (BalanceVar_to_vec c)) \<longleftrightarrow> balance_at \<rho> b = balance_at \<rho> c"
  "map (lc_eval \<rho>) (OrderVar_to_vec ord) = map (lc_eval \<rho>) (OrderVar_to_vec ord') \<longleftrightarrow> order_at \<rho> ord = order_at \<rho> ord'"
  "map (lc_eval \<rho>) (FeeVar_to_vec f) = map (lc_eval \<rho>) (FeeVar_to_vec g) \<longleftrightarrow> fee_at \<rho> f = fee_at \<rho> g"
  by (auto simp: BalanceVar_to_vec_def OrderVar_to_vec_def FeeVar_to_vec_def balance_at_def order_at_def fee_at_def)

lemma vec_vars:
  "state_vars (map lc_var (BalanceVar_to_vec b) :: ('v, 'f::field) lc list) = balance_vars b"
  "state_vars (OrderVar_to_vec ord) = order_vars ord" "state_vars (FeeVar_to_vec f) = fee_vars f"
  by (auto simp: BalanceVar_to_vec_def OrderVar_to_vec_def FeeVar_to_vec_def balance_vars_def order_vars_def fee_vars_def)

text \<open>
  The amount of a mint that a list of balances holds; the mints of a wallet are unique when no
  mint but zero occurs twice; an amount that is subtracted when the direction is one.
\<close>

definition held :: "'f::field BalanceVar list \<Rightarrow> 'f \<Rightarrow> 'f" where
  "held bs m = (\<Sum>b\<leftarrow>bs. of_bool (bv_mint b = m) * bv_amount b)"

definition unique_mints :: "'f::field BalanceVar list \<Rightarrow> bool" where
  "unique_mints bs \<longleftrightarrow> distinct (filter (\<lambda>m. m \<noteq> 0) (map bv_mint bs))"

definition signed_amount :: "'f::field \<Rightarrow> 'f \<Rightarrow> 'f" where
  "signed_amount d x = - x * d + x * (1 - d)"

lemma unique_mints_later:
  "unique_mints (map f bs) \<longleftrightarrow> (\<forall>(b, later)\<in>set (with_later bs). \<forall>c\<in>set later. bv_mint (f b) \<noteq> bv_mint (f c) \<or> bv_mint (f b) = 0)"
  by (induction bs) (auto simp: unique_mints_def)

lemma with_later_sub: "(b, later) \<in> set (with_later bs) \<Longrightarrow> b \<in> set bs \<and> set later \<subseteq> set bs"
  by (induction bs) auto

lemma held_unique:
  assumes "unique_mints bs" "b \<in> set bs" "bv_mint b \<noteq> 0"
  shows "held bs (bv_mint b) = bv_amount b"
  using assms
proof (induction bs)
  case (Cons c bs)
  have none: "held bs (bv_mint b) = 0" if "b = c"
  proof -
    have "bv_mint d \<noteq> bv_mint b" if "d \<in> set bs" for d
      using Cons.prems that \<open>b = c\<close> by (auto simp: unique_mints_def) (metis image_eqI)
    then have "map (\<lambda>d. of_bool (bv_mint d = bv_mint b) * bv_amount d) bs = map (\<lambda>_. 0) bs"
      by simp
    then show ?thesis
      unfolding held_def by (simp only: sum_list_0)
  qed
  show ?case
  proof (cases "b = c")
    case True
    then show ?thesis using none by (simp add: held_def)
  next
    case False
    then have "b \<in> set bs" "bv_mint c \<noteq> bv_mint b"
      using Cons.prems by (auto simp: unique_mints_def split: if_splits)
    then show ?thesis
      using Cons by (auto simp: held_def unique_mints_def split: if_splits)
  qed
qed simp

text \<open>Values only depend on their variables.\<close>

lemma depends_vector:
  assumes "state_vars xs \<subseteq> V"
  shows "depends V (\<lambda>\<rho>. map (lc_eval \<rho>) xs)"
proof (rule depends_map [where f = "\<lambda>l \<rho>. lc_eval \<rho> l", simplified])
  show "depends V (\<lambda>\<rho>. lc_eval \<rho> l)" if "l \<in> set xs" for l
    using assms that by (intro depends_lc) blast
qed

lemma depends_via:
  assumes "state_vars xs \<subseteq> V" "\<And>\<rho> \<rho>'. map (lc_eval \<rho>) xs = map (lc_eval \<rho>') xs \<Longrightarrow> f \<rho> = f \<rho>'"
  shows "depends V f"
  by (rule dependsI, rule assms(2), erule dependsD [OF depends_vector [OF assms(1)]])

lemma depends_balance_at: "balance_vars b \<subseteq> V \<Longrightarrow> depends V (\<lambda>\<rho>. balance_at \<rho> b :: 'f::field BalanceVar)"
  by (rule depends_via [of "map lc_var (BalanceVar_to_vec b)"]) (simp_all only: vec_vars, simp add: balance_at_def BalanceVar_to_vec_def)

lemma depends_order_at: "order_vars ord \<subseteq> V \<Longrightarrow> depends V (\<lambda>\<rho>. order_at \<rho> ord)"
  by (rule depends_via [of "OrderVar_to_vec ord"]) (simp_all only: vec_vars, simp add: order_at_def OrderVar_to_vec_def)

lemma depends_fee_at: "fee_vars f \<subseteq> V \<Longrightarrow> depends V (\<lambda>\<rho>. fee_at \<rho> f)"
  by (rule depends_via [of "FeeVar_to_vec f"]) (simp_all only: vec_vars, simp add: fee_at_def FeeVar_to_vec_def)

lemma depends_keys_at: "key_vars k \<subseteq> V \<Longrightarrow> depends V (\<lambda>\<rho>. keys_at \<rho> k :: 'f::field KeyChainVar)"
  by (rule depends_via [of "absorb_key_vars k"]) (simp_all add: absorb_key_vars_def key_vars_def keys_at_def)

lemma depends_note_at: "note_vars n \<subseteq> V \<Longrightarrow> depends V (\<lambda>\<rho>. note_at \<rho> n :: 'f::field NoteVar)"
  by (rule depends_via [of "map lc_var [nv_mint1 n, nv_volume1 n, nv_direction1 n, nv_mint2 n, nv_volume2 n, nv_direction2 n,
        nv_fee_mint n, nv_fee_volume n, nv_fee_direction n, nv_type n, nv_randomness n]"]) (simp_all add: note_vars_def note_at_def)

lemma depends_opening_at: "opening_vars m \<subseteq> V \<Longrightarrow> depends V (\<lambda>\<rho>. opening_at \<rho> m :: 'f::field MerkleOpeningVar)"
  by (rule depends_via [of "map lc_var (elems m @ indices m)"]) (auto simp: opening_vars_def opening_at_def)

lemma depends_wallet_at:
  assumes "wallet_vars w \<subseteq> V"
  shows "depends V (\<lambda>\<rho>. wallet_at \<rho> w)"
proof (rule dependsI)
  fix \<rho> \<rho>' :: "'a \<Rightarrow> 'b" assume agree: "\<And>v. v \<in> V \<Longrightarrow> \<rho> v = \<rho>' v"
  have "map (balance_at \<rho>) (wv_balances w) = map (balance_at \<rho>') (wv_balances w)"
    by (rule map_cong [OF refl], rule dependsD [OF depends_balance_at, where \<rho> = \<rho>])
      (use assms in \<open>auto simp: wallet_vars_def intro: agree\<close>)
  moreover have "map (order_at \<rho>) (wv_orders w) = map (order_at \<rho>') (wv_orders w)"
    by (rule map_cong [OF refl], rule dependsD [OF depends_order_at, where \<rho> = \<rho>])
      (use assms in \<open>auto simp: wallet_vars_def intro: agree\<close>)
  moreover have "map (fee_at \<rho>) (wv_fees w) = map (fee_at \<rho>') (wv_fees w)"
    by (rule map_cong [OF refl], rule dependsD [OF depends_fee_at, where \<rho> = \<rho>])
      (use assms in \<open>auto simp: wallet_vars_def intro: agree\<close>)
  moreover have "keys_at \<rho> (wv_keys w) = keys_at \<rho>' (wv_keys w)" "\<rho> (wv_randomness w) = \<rho>' (wv_randomness w)"
    using assms by (auto simp: wallet_vars_def intro!: agree dependsD [OF depends_keys_at])
  ultimately show "wallet_at \<rho> w = wallet_at \<rho>' w"
    by (simp add: wallet_at_def)
qed

subsection \<open>Gadgets as steps\<close>

context constraint_system
begin

lemma const_value: "\<rho> (var_one cs) = 1 \<Longrightarrow> lc_eval \<rho> (lc_const cs c) = c"
  by (simp add: lc_eval_def lc_const_def)

lemma dec_constrain_equal:
  "lc_vars a \<union> lc_vars b \<subseteq> V \<Longrightarrow> dec V P (constrain cs (lc_sub a b)) (\<lambda>\<rho>. lc_eval \<rho> a = lc_eval \<rho> b) (\<lambda>_. {}) (\<lambda>_ _. True)"
  by (rule dec_weaken [OF dec_constrain [of _ V]]) auto

lemma dec_product:
  "dec (lc_vars a \<union> lc_vars b) P (total (cs_product cs a b)) (\<lambda>_. True) (\<lambda>x. {x}) (\<lambda>x \<rho>. \<rho> x = lc_eval \<rho> a * lc_eval \<rho> b)"
  by (rule dec_total, rule product_gadget)

lemma dec_eq_zero:
  "dec (lc_vars x) P (total (eq_zero cs x)) (\<lambda>_. True) (\<lambda>x. {x}) (\<lambda>y \<rho>. \<rho> y = of_bool (lc_eval \<rho> x = 0))"
  by (rule dec_total, rule eq_zero_gadget)

lemma dec_eq:
  "dec (lc_vars a \<union> lc_vars b) P (total (eq_gadget cs a b)) (\<lambda>_. True) (\<lambda>x. {x}) (\<lambda>x \<rho>. \<rho> x = of_bool (lc_eval \<rho> a = lc_eval \<rho> b))"
  by (rule dec_total, rule eq_gadget_gadget)

lemma dec_not_equal:
  "dec (lc_vars a \<union> lc_vars b) P (total (not_equal cs a b)) (\<lambda>_. True) lc_vars (\<lambda>x \<rho>. lc_eval \<rho> x = of_bool (lc_eval \<rho> a \<noteq> lc_eval \<rho> b))"
  by (rule dec_total, rule not_equal_gadget)

lemma dec_or:
  "dec (lc_vars a \<union> lc_vars b) P (total (or_gate cs a b)) (\<lambda>_. True) lc_vars
    (\<lambda>x \<rho>. lc_eval \<rho> x = lc_eval \<rho> a + lc_eval \<rho> b - lc_eval \<rho> a * lc_eval \<rho> b)"
  by (rule dec_total, rule or_gate_gadget)

lemma dec_and:
  "dec (lc_vars a \<union> lc_vars b) P (total (and_gate cs a b)) (\<lambda>_. True) (\<lambda>x. {x}) (\<lambda>x \<rho>. \<rho> x = lc_eval \<rho> a * lc_eval \<rho> b)"
  by (rule dec_total, rule and_gate_gadget)

lemma dec_select:
  "dec (lc_vars a \<union> lc_vars b \<union> lc_vars c) P (total (select_gadget cs a b c)) (\<lambda>_. True) lc_vars
    (\<lambda>x \<rho>. lc_eval \<rho> x = lc_eval \<rho> a * lc_eval \<rho> c + lc_eval \<rho> b * (1 - lc_eval \<rho> c))"
  by (rule dec_total, rule select_gadget_gadget)

lemma dec_eq_vec:
  assumes "length a = length b" "\<And>n. 0 < n \<Longrightarrow> n \<le> length a \<Longrightarrow> (of_nat n :: 'f) \<noteq> 0"
  shows "dec (state_vars a \<union> state_vars b) P (eq_vec cs a b) (\<lambda>_. True) (\<lambda>x. {x})
    (\<lambda>x \<rho>. \<rho> x = of_bool (map (lc_eval \<rho>) a = map (lc_eval \<rho>) b))"
proof (rule dec_gadget)
  fix s
  obtain out s' where run: "eq_vec cs a b s = Returns (out, s')"
    using assms(1) by (cases "not_equal_values cs (zip a b) s") (simp add: eq_vec_def, metis surj_pair)
  show "\<exists>x s'. eq_vec cs a b s = Returns (x, s') \<and>
      gad (state_vars a \<union> state_vars b) {x} s s' (\<lambda>\<rho>. \<rho> x = of_bool (map (lc_eval \<rho>) a = map (lc_eval \<rho>) b))"
    using run eq_vec_gadget [OF run assms(2)] by (simp add: image_Un)
qed

lemma dec_range:
  assumes "0 < D" "D \<le> POSITIVE_SCALAR_MAX_BITS"
  shows "dec (lc_vars x) P (effect (constrain_greater_than_zero D canon cs x)) (\<lambda>_. True) (\<lambda>_. {}) (\<lambda>_ _. True)"
proof (rule decidesI)
  fix s
  obtain r t where dec: "bit_decompose_reconstruct D canon cs x s = Returns (r, t)"
    using assms(2) by (cases "allocate_all cs (take D (scalar_to_bits_le canon (cs_eval cs x s))) s") (simp add: bit_decompose_reconstruct_def)
  let ?s = "cs_constrain cs (lc_sub r x) t"
  have run: "constrain_greater_than_zero D canon cs x s = Returns ?s"
    by (simp add: constrain_greater_than_zero_def dec)
  note gad = decompose_gadget [OF dec]
  have grow: "wires s \<subseteq> wires t"
    using gadget_grows [OF gad] by (simp add: grows_def)
  have "closed ?s" if "closed s" "lc_vars x \<subseteq> wires s"
    using gadget_complete [OF gad that(1)] that(2) grow by (intro constrain_closed) auto
  moreover have "\<exists>\<rho>'. (\<forall>v\<in>wires s. \<rho>' v = \<rho> v) \<and> sat ?s \<rho>'" if "closed s" "lc_vars x \<subseteq> wires s" "sat s \<rho>" for \<rho>
    using constrain_greater_than_zero_vacuous [OF run assms(1) that(1,2)] that(3) by (simp add: unconstrained_def)
  moreover have "sat s \<rho>" if "sat ?s \<rho>" for \<rho>
    using gadget_sound [OF gad] constrain_sat [OF that] by blast
  ultimately show "\<exists>y s'. effect (constrain_greater_than_zero D canon cs x) s = Returns (y, s') \<and> wires s \<subseteq> wires s'
      \<and> (\<forall>\<rho>. sat s' \<rho> \<longrightarrow> sat s \<rho> \<and> True \<and> True)
      \<and> (closed s \<longrightarrow> lc_vars x \<subseteq> wires s \<longrightarrow> closed s' \<and> {} \<subseteq> wires s'
        \<and> (\<forall>\<rho>. sat s \<rho> \<longrightarrow> True \<longrightarrow> (\<exists>\<rho>'. (\<forall>v\<in>wires s. \<rho>' v = \<rho> v) \<and> sat s' \<rho>')))"
    using grow run by (intro exI [of _ "()"] exI [of _ ?s]) (simp add: effect_def wires_constrain)
qed

lemma constrain_geq_range: "constrain_greater_than_eq D canon cs a b = constrain_greater_than_zero D canon cs (lc_sub a b)"
  by (rule ext) (simp add: constrain_greater_than_eq_def)

lemma dec_hash:
  assumes "valid_params p" "0 < rate p"
  shows "dec (state_vars xs) P (hash_gadget cs p xs) (\<lambda>_. True) lc_vars (\<lambda>x \<rho>. lc_eval \<rho> x = hash_value p (map (lc_eval \<rho>) xs))"
proof (rule dec_gadget)
  show "\<exists>x s'. hash_gadget cs p xs s = Returns (x, s') \<and> gad (state_vars xs) (lc_vars x) s s' (\<lambda>\<rho>. lc_eval \<rho> x = hash_value p (map (lc_eval \<rho>) xs))" for s
    by (rule hash_gadget_value [OF assms, of xs s]) (intro exI conjI)
qed

lemma dec_wallet_commit:
  assumes "valid_params p" "0 < rate p"
  shows "dec (wallet_vars w) P (wallet_commit cs p w) (\<lambda>_. True) lc_vars (\<lambda>x \<rho>. lc_eval \<rho> x = wallet_commitment p (wallet_at \<rho> w))"
proof -
  have "wallet_commit cs p w = hash_gadget cs p (wallet_lcs w)"
    by (rule ext) (rule wallet_commit_hash)
  then show ?thesis
    using wallet_lcs_vars [of w]
    by (simp only:) (rule dec_weaken [OF dec_hash [OF assms]], auto simp: wallet_commitment_def wallet_elements_at)
qed

lemma dec_note_commit:
  assumes "valid_params p" "0 < rate p"
  shows "dec (note_vars n \<union> {pk}) P (gadget_note_commit cs p n pk) (\<lambda>_. True) lc_vars
    (\<lambda>x \<rho>. lc_eval \<rho> x = note_commitment p (note_at \<rho> n) (\<rho> pk))"
proof -
  let ?xs = "map lc_var [nv_mint1 n, nv_volume1 n, nv_direction1 n, nv_mint2 n, nv_volume2 n, nv_direction2 n,
      nv_fee_mint n, nv_fee_volume n, nv_fee_direction n, nv_type n, nv_randomness n, pk]"
  have "gadget_note_commit cs p n pk = hash_gadget cs p ?xs"
    by (rule ext) (simp add: gadget_note_commit_def)
  then show ?thesis
    by (simp only:) (rule dec_weaken [OF dec_hash [OF assms]], auto simp: note_commitment_def note_vars_def)
qed

lemma dec_spend_nullifier:
  assumes "valid_params p" "0 < rate p"
  shows "dec (lc_vars c \<union> {r}) P (spend_nullifier cs p r c) (\<lambda>_. True) lc_vars (\<lambda>x \<rho>. lc_eval \<rho> x = hash_value p [lc_eval \<rho> c, \<rho> r])"
proof -
  have "spend_nullifier cs p r c = hash_gadget cs p [c, lc_var r]"
    by (rule ext) (simp add: spend_nullifier_def)
  then show ?thesis
    by (simp only:) (rule dec_weaken [OF dec_hash [OF assms]], auto)
qed

lemma dec_match_nullifier:
  assumes "valid_params p" "0 < rate p"
  shows "dec (lc_vars c \<union> {r}) P (gadget_match_nullifier cs p r c) (\<lambda>_. True) lc_vars (\<lambda>x \<rho>. lc_eval \<rho> x = hash_value p [lc_eval \<rho> c, \<rho> r + 1])"
proof -
  have "gadget_match_nullifier cs p r c = hash_gadget cs p [c, lc_add (lc_var r) (lc_const cs 1)]"
    by (rule ext) (simp add: gadget_match_nullifier_def)
  then show ?thesis
    by (simp only:) (rule dec_weaken [OF dec_hash [OF assms]], auto simp: const_value)
qed

lemma dec_note_redeem_nullifier:
  assumes "valid_params p" "0 < rate p"
  shows "dec (lc_vars c \<union> {pk}) P (note_redeem_nullifier cs p pk c) (\<lambda>_. True) lc_vars (\<lambda>x \<rho>. lc_eval \<rho> x = hash_value p [lc_eval \<rho> c, \<rho> pk])"
proof -
  have "note_redeem_nullifier cs p pk c = hash_gadget cs p [c, lc_var pk]"
    by (rule ext) (simp add: note_redeem_nullifier_def)
  then show ?thesis
    by (simp only:) (rule dec_weaken [OF dec_hash [OF assms]], auto)
qed

lemma dec_opening:
  assumes "valid_params p" "0 < rate p" "length (indices m) = length (elems m)"
  shows "dec (lc_vars leaf \<union> opening_vars m \<union> lc_vars rt) P (effect (compute_and_constrain_root_prehashed cs p leaf m rt))
    (\<lambda>\<rho>. opens_to p (lc_eval \<rho> leaf) (opening_at \<rho> m) (lc_eval \<rho> rt)) (\<lambda>_. {}) (\<lambda>_ _. True)"
proof -
  have "effect (compute_and_constrain_root_prehashed cs p leaf m rt) =
      andthen (compute_root_prehashed cs p leaf m) (\<lambda>computed. constrain cs (lc_sub rt computed))"
    by (rule ext) (simp add: effect_def andthen_def constrain_def compute_and_constrain_root_prehashed_def bind_call_assoc split_def)
  moreover have "dec (lc_vars leaf \<union> opening_vars m \<union> lc_vars rt) P
      (andthen (compute_root_prehashed cs p leaf m) (\<lambda>computed. constrain cs (lc_sub rt computed)))
      (\<lambda>\<rho>. opens_to p (lc_eval \<rho> leaf) (opening_at \<rho> m) (lc_eval \<rho> rt)) (\<lambda>_. {}) (\<lambda>_ _. True)"
  proof (rule dec_andthen [OF dec_gadget])
    show "\<exists>x s'. compute_root_prehashed cs p leaf m s = Returns (x, s') \<and> gad (lc_vars leaf \<union> set (elems m) \<union> set (indices m)) (lc_vars x) s s'
        (\<lambda>\<rho>. lc_eval \<rho> x = merkle_root p (lc_eval \<rho> leaf) (zip (map \<rho> (elems m)) (map \<rho> (indices m))))" for s
      by (rule compute_root_gadget [OF assms])
    show "dec (lc_vars leaf \<union> opening_vars m \<union> lc_vars rt \<union> lc_vars x)
        (\<lambda>\<rho>. P \<rho> \<and> True \<and> lc_eval \<rho> x = merkle_root p (lc_eval \<rho> leaf) (zip (map \<rho> (elems m)) (map \<rho> (indices m)))) (constrain cs (lc_sub rt x))
        (\<lambda>\<rho>. opens_to p (lc_eval \<rho> leaf) (opening_at \<rho> m) (lc_eval \<rho> rt)) (\<lambda>_. {}) (\<lambda>_ _. True)" for x
      by (rule dec_weaken [OF dec_constrain [of _ "lc_vars rt \<union> lc_vars x"]]) (auto simp: opens_to_def)
    show "depends (lc_vars leaf \<union> opening_vars m \<union> lc_vars rt) (\<lambda>\<rho>. opens_to p (lc_eval \<rho> leaf) (opening_at \<rho> m) (lc_eval \<rho> rt))"
      by (rule depends_comp2 [where h = "\<lambda>(x, y) z. opens_to p x y z" and f = "\<lambda>\<rho>. (lc_eval \<rho> leaf, opening_at \<rho> m)", simplified])
        (auto intro!: depends_comp2 [where h = Pair] depends_lc depends_opening_at)
  qed (auto simp: opening_vars_def)
  ultimately show ?thesis
    by (simp only:)
qed

end

lemma map_eq_zip: "length a = length b \<Longrightarrow> map f a = map f b \<longleftrightarrow> (\<forall>xy\<in>set (zip a b). case xy of (x, y) \<Rightarrow> f x = f y)"
  by (induction a b rule: list_induct2) auto

lemma for_each_constrain:
  "for_each (\<lambda>(x, y). constrain cs (lc_sub x y)) ps s = Returns ((), fold (\<lambda>(x, y). cs_constrain cs (lc_sub x y)) ps s)"
  by (induction ps arbitrary: s) (auto simp: yield_def andthen_def constrain_def effect_def)

lemma constrain_eq_vec_each:
  "length a = length b \<Longrightarrow> effect (constrain_eq_vec cs a b) = for_each (\<lambda>(x, y). constrain cs (lc_sub x y)) (zip a b)"
  by (rule ext) (simp add: effect_def constrain_eq_vec_def for_each_constrain)

context constraint_system
begin

lemma dec_constrain_eq_vec:
  assumes "length a = length b" "state_vars a \<union> state_vars b \<subseteq> V"
  shows "dec V P (effect (constrain_eq_vec cs a b)) (\<lambda>\<rho>. map (lc_eval \<rho>) a = map (lc_eval \<rho>) b) (\<lambda>_. {}) (\<lambda>_ _. True)"
proof -
  have scope: "lc_vars x \<subseteq> V \<and> lc_vars y \<subseteq> V" if "(x, y) \<in> set (zip a b)" for x y
    using set_zip_leftD [OF that] set_zip_rightD [OF that] assms(2) by auto
  have "dec V P (for_each (\<lambda>(x, y). constrain cs (lc_sub x y)) (zip a b))
      (\<lambda>\<rho>. \<forall>xy\<in>set (zip a b). case xy of (x, y) \<Rightarrow> lc_eval \<rho> x = lc_eval \<rho> y) (\<lambda>_. {}) (\<lambda>_ _. True)"
    by (rule dec_for_each) (auto intro!: dec_constrain_equal depends_comp2 [where h = "(=)"] depends_lc dest!: scope)
  then show ?thesis
    unfolding constrain_eq_vec_each [OF assms(1)] map_eq_zip [OF assms(1)] .
qed

end

text \<open>A fresh hasher whose output on the inputs is constrained to an expected value.\<close>

definition hash_constrain ::
  "('s, 'v, 'f::field) cs_ops \<Rightarrow> 'f PoseidonSpongeParameters \<Rightarrow> ('v, 'f) lc list \<Rightarrow> ('v, 'f) lc \<Rightarrow> ('s, unit) circ" where
  "hash_constrain cs p xs expected = effect (\<lambda>s. bind_call (gadget_hash cs xs expected (PoseidonHashGadget_new cs p, s)) (\<lambda>(_, s). Returns s))"

context constraint_system
begin

lemma dec_hash_constrain:
  assumes "valid_params p" "0 < rate p"
  shows "dec (state_vars xs \<union> lc_vars expected) P (hash_constrain cs p xs expected)
    (\<lambda>\<rho>. hash_value p (map (lc_eval \<rho>) xs) = lc_eval \<rho> expected) (\<lambda>_. {}) (\<lambda>_ _. True)"
proof -
  have "hash_constrain cs p xs expected = andthen (hash_gadget cs p xs) (\<lambda>out. constrain cs (lc_sub out expected))"
    by (rule ext) (simp add: hash_constrain_def hash_gadget_def gadget_hash_def gadget_constrained_squeeze_def effect_def andthen_def constrain_def
        bind_call_assoc split_def)
  moreover have "dec (state_vars xs \<union> lc_vars expected) P (andthen (hash_gadget cs p xs) (\<lambda>out. constrain cs (lc_sub out expected)))
      (\<lambda>\<rho>. hash_value p (map (lc_eval \<rho>) xs) = lc_eval \<rho> expected) (\<lambda>_. {}) (\<lambda>_ _. True)"
  proof (rule dec_andthen [OF dec_hash [OF assms]])
    show "dec (state_vars xs \<union> lc_vars expected \<union> lc_vars x) (\<lambda>\<rho>. P \<rho> \<and> True \<and> lc_eval \<rho> x = hash_value p (map (lc_eval \<rho>) xs))
        (constrain cs (lc_sub x expected)) (\<lambda>\<rho>. hash_value p (map (lc_eval \<rho>) xs) = lc_eval \<rho> expected) (\<lambda>_. {}) (\<lambda>_ _. True)" for x
      by (rule dec_weaken [OF dec_constrain [of _ "lc_vars x \<union> lc_vars expected"]]) auto
    show "depends (state_vars xs \<union> lc_vars expected) (\<lambda>\<rho>. hash_value p (map (lc_eval \<rho>) xs) = lc_eval \<rho> expected)"
      by (intro depends_comp2 [where h = "\<lambda>xs y. hash_value p xs = y"] depends_vector depends_lc) auto
  qed auto
  ultimately show ?thesis
    by (simp only:)
qed

end

end
