(* ===== verification/Valid_Commitments.thy ===== *)
theory Valid_Commitments
  imports Circuit_Values
begin

section \<open>VALID COMMITMENTS\<close>

text \<open>
  The circuit of \<open>zk_circuits/valid_commitments.rs\<close>, proved for every order before it is matched:
  the prover knows a wallet in the state tree that holds the order, a balance to trade, and a fee
  with a balance to pay it.
\<close>

record ('w, 'ord, 'fee, 'v) ValidCommitmentsWitnessVar =
  vc_wallet :: 'w
  vc_order :: 'ord
  vc_balance :: "'v BalanceVar"
  vc_fee_balance :: "'v BalanceVar"
  vc_fee :: 'fee
  vc_wallet_opening :: "'v MerkleOpeningVar"
  vc_randomness_hash :: 'v
  vc_sk_match :: 'v

record 'v ValidCommitmentsStatementVar =
  vcs_nullifier :: 'v
  vcs_merkle_root :: 'v
  vcs_pk_settle :: 'v

type_synonym ('v, 'f) commitments_witness_var = "(('v, 'f) WalletVar, ('v, 'f) OrderVar, ('v, 'f) FeeVar, 'v) ValidCommitmentsWitnessVar"
type_synonym 'f commitments_witness_value = "('f WalletValue, 'f OrderValue, 'f FeeValue, 'f) ValidCommitmentsWitnessVar"

definition verify_wallet_contains_balance ::
  "('s, 'v, 'f::field) cs_ops \<Rightarrow> 'v BalanceVar \<Rightarrow> ('v, 'f) WalletVar \<Rightarrow> ('s, unit) circ" where
  "verify_wallet_contains_balance cs balance wallet =
    andthen (sum_each (\<lambda>wallet_balance.
        andthen (eq_vec cs (map lc_var (BalanceVar_to_vec balance)) (map lc_var (BalanceVar_to_vec wallet_balance))) (\<lambda>x. yield (lc_var x)))
      (wv_balances wallet) (lc_var (var_zero cs))) (\<lambda>balances_equal_sum.
    constrain cs (lc_sub balances_equal_sum (lc_one cs)))"

definition verify_wallet_contains_order ::
  "('s, 'v, 'f::field) cs_ops \<Rightarrow> ('v, 'f) OrderVar \<Rightarrow> ('v, 'f) WalletVar \<Rightarrow> ('s, unit) circ" where
  "verify_wallet_contains_order cs order wallet =
    andthen (sum_each (\<lambda>wallet_order.
        andthen (eq_vec cs (OrderVar_to_vec order) (OrderVar_to_vec wallet_order)) (\<lambda>x. yield (lc_var x)))
      (wv_orders wallet) (lc_var (var_zero cs))) (\<lambda>orders_equal_sum.
    constrain cs (lc_sub orders_equal_sum (lc_one cs)))"

definition verify_wallet_contains_fee ::
  "('s, 'v, 'f::field) cs_ops \<Rightarrow> ('v, 'f) FeeVar \<Rightarrow> ('v, 'f) WalletVar \<Rightarrow> ('s, unit) circ" where
  "verify_wallet_contains_fee cs fee wallet =
    andthen (sum_each (\<lambda>wallet_fee.
        andthen (eq_vec cs (FeeVar_to_vec fee) (FeeVar_to_vec wallet_fee)) (\<lambda>x. yield (lc_var x)))
      (wv_fees wallet) (lc_var (var_zero cs))) (\<lambda>fees_equal_sum.
    constrain cs (lc_sub fees_equal_sum (lc_one cs)))"

definition valid_commitments ::
  "('f \<Rightarrow> nat) \<Rightarrow> ('s, 'v, 'f::field) cs_ops \<Rightarrow> 'f PoseidonSpongeParameters \<Rightarrow> ('v, 'f) commitments_witness_var
    \<Rightarrow> 'v ValidCommitmentsStatementVar \<Rightarrow> ('s, unit) circ" where
  "valid_commitments canon cs p witness statement = (let wallet = vc_wallet witness in
    andthen (wallet_commit cs p wallet) (\<lambda>wallet_commitment.
    andthen (effect (compute_and_constrain_root_prehashed cs p wallet_commitment (vc_wallet_opening witness) (lc_var (vcs_merkle_root statement)))) (\<lambda>_.
    andthen (constrain cs (lc_sub (lc_var (vcs_pk_settle statement)) (lc_var (kv_pk_settle (wv_keys wallet))))) (\<lambda>_.
    andthen (gadget_match_nullifier cs p (wv_randomness wallet) wallet_commitment) (\<lambda>match_nullifier_res.
    andthen (constrain cs (lc_sub match_nullifier_res (lc_var (vcs_nullifier statement)))) (\<lambda>_.
    andthen (verify_wallet_contains_balance cs (vc_balance witness) wallet) (\<lambda>_.
    andthen (verify_wallet_contains_balance cs (vc_fee_balance witness) wallet) (\<lambda>_.
    andthen (verify_wallet_contains_order cs (vc_order witness) wallet) (\<lambda>_.
    andthen (verify_wallet_contains_fee cs (vc_fee witness) wallet) (\<lambda>_.
    andthen (total (select_gadget cs (lc_var (ov_base_mint (vc_order witness))) (lc_var (ov_quote_mint (vc_order witness)))
      (lc_var (ov_side (vc_order witness))))) (\<lambda>mint_sold.
    andthen (constrain cs (lc_sub (lc_var (bv_mint (vc_balance witness))) mint_sold)) (\<lambda>_.
    andthen (constrain cs (lc_sub (lc_var (fv_gas_addr (vc_fee witness))) (lc_var (bv_mint (vc_fee_balance witness))))) (\<lambda>_.
    andthen (effect (constrain_greater_than_eq 64 canon cs (lc_var (bv_amount (vc_fee_balance witness)))
      (lc_var (fv_gas_token_amount (vc_fee witness))))) (\<lambda>_.
    andthen (hash_constrain cs p [lc_var (wv_randomness wallet)] (lc_var (vc_randomness_hash witness))) (\<lambda>_.
    hash_constrain cs p [lc_var (vc_sk_match witness)] (lc_var (kv_pk_match (wv_keys wallet))))))))))))))))))"

subsection \<open>The relation it proves\<close>

definition commitments_witness_at :: "('v \<Rightarrow> 'f::field) \<Rightarrow> ('v, 'f) commitments_witness_var \<Rightarrow> 'f commitments_witness_value" where
  "commitments_witness_at \<rho> w = \<lparr>vc_wallet = wallet_at \<rho> (vc_wallet w), vc_order = order_at \<rho> (vc_order w), vc_balance = balance_at \<rho> (vc_balance w),
    vc_fee_balance = balance_at \<rho> (vc_fee_balance w), vc_fee = fee_at \<rho> (vc_fee w), vc_wallet_opening = opening_at \<rho> (vc_wallet_opening w),
    vc_randomness_hash = \<rho> (vc_randomness_hash w), vc_sk_match = \<rho> (vc_sk_match w)\<rparr>"

definition commitments_statement_at :: "('v \<Rightarrow> 'f) \<Rightarrow> 'v ValidCommitmentsStatementVar \<Rightarrow> 'f ValidCommitmentsStatementVar" where
  "commitments_statement_at \<rho> st =
    \<lparr>vcs_nullifier = \<rho> (vcs_nullifier st), vcs_merkle_root = \<rho> (vcs_merkle_root st), vcs_pk_settle = \<rho> (vcs_pk_settle st)\<rparr>"

definition commitments_vars :: "('v, 'f) commitments_witness_var \<Rightarrow> 'v ValidCommitmentsStatementVar \<Rightarrow> 'v set" where
  "commitments_vars w st = wallet_vars (vc_wallet w) \<union> order_vars (vc_order w) \<union> balance_vars (vc_balance w) \<union> balance_vars (vc_fee_balance w)
    \<union> fee_vars (vc_fee w) \<union> opening_vars (vc_wallet_opening w)
    \<union> {vc_randomness_hash w, vc_sk_match w, vcs_nullifier st, vcs_merkle_root st, vcs_pk_settle st}"

text \<open>
  An item is a member of a list when it occurs once; the circuit counts the occurrences in the
  field.
\<close>

definition listed_once :: "'a \<Rightarrow> 'a list \<Rightarrow> 'f::field itself \<Rightarrow> bool" where
  "listed_once x xs _ \<longleftrightarrow> (of_nat (count_list xs x) :: 'f) = 1"

definition valid_commitments_relation ::
  "'f::field PoseidonSpongeParameters \<Rightarrow> 'f commitments_witness_value \<Rightarrow> 'f ValidCommitmentsStatementVar \<Rightarrow> bool" where
  "valid_commitments_relation p w st \<longleftrightarrow> (let wallet = vc_wallet w; c = wallet_commitment p wallet; ord = vc_order w in
    opens_to p c (vc_wallet_opening w) (vcs_merkle_root st)
    \<and> vcs_pk_settle st = kv_pk_settle (w_keys wallet)
    \<and> vcs_nullifier st = hash_value p [c, w_randomness wallet + 1]
    \<and> listed_once (vc_balance w) (w_balances wallet) TYPE('f) \<and> listed_once (vc_fee_balance w) (w_balances wallet) TYPE('f)
    \<and> listed_once ord (w_orders wallet) TYPE('f) \<and> listed_once (vc_fee w) (w_fees wallet) TYPE('f)
    \<and> bv_mint (vc_balance w) = o_base_mint ord * o_side ord + o_quote_mint ord * (1 - o_side ord)
    \<and> f_gas_addr (vc_fee w) = bv_mint (vc_fee_balance w)
    \<and> hash_value p [w_randomness wallet] = vc_randomness_hash w
    \<and> hash_value p [vc_sk_match w] = kv_pk_match (w_keys wallet))"

lemma sum_of_bool_count: "(\<Sum>y\<leftarrow>ys. of_bool (x = f y)) = (of_nat (count_list (map f ys) x) :: 'f::field)"
  by (induction ys) (auto simp: add.commute)

lemma listed_once_member: "listed_once x xs TYPE('f::field) \<Longrightarrow> x \<in> set xs"
  by (cases "x \<in> set xs") (auto simp: listed_once_def)

lemma commitments_scope:
  "wallet_vars (vc_wallet w) \<subseteq> commitments_vars w st" "order_vars (vc_order w) \<subseteq> commitments_vars w st"
  "balance_vars (vc_balance w) \<subseteq> commitments_vars w st" "balance_vars (vc_fee_balance w) \<subseteq> commitments_vars w st"
  "fee_vars (vc_fee w) \<subseteq> commitments_vars w st" "opening_vars (vc_wallet_opening w) \<subseteq> commitments_vars w st"
  unfolding commitments_vars_def by blast+

lemma commitments_variables:
  "v \<in> {vc_randomness_hash w, vc_sk_match w, vcs_nullifier st, vcs_merkle_root st, vcs_pk_settle st, wv_randomness (vc_wallet w),
    kv_pk_settle (wv_keys (vc_wallet w)), kv_pk_match (wv_keys (vc_wallet w)), ov_base_mint (vc_order w), ov_quote_mint (vc_order w), ov_side (vc_order w),
    bv_mint (vc_balance w), bv_mint (vc_fee_balance w), bv_amount (vc_fee_balance w), fv_gas_addr (vc_fee w), fv_gas_token_amount (vc_fee w)}
   \<Longrightarrow> v \<in> commitments_vars w st"
  by (auto simp: commitments_vars_def wallet_vars_def key_vars_def order_vars_def balance_vars_def fee_vars_def)

lemma depends_commitments:
  fixes w :: "('v, 'f::field) commitments_witness_var"
  shows "depends (commitments_vars w st) (\<lambda>\<rho>. valid_commitments_relation p (commitments_witness_at \<rho> w) (commitments_statement_at \<rho> st))"
proof (rule dependsI2)
  fix \<rho> \<rho>' :: "'v \<Rightarrow> 'f" assume agree: "\<forall>v\<in>commitments_vars w st. \<rho> v = \<rho>' v"
  note same = depends_eq [OF _ agree]
  have "wallet_at \<rho> (vc_wallet w) = wallet_at \<rho>' (vc_wallet w)" "order_at \<rho> (vc_order w) = order_at \<rho>' (vc_order w)"
    "balance_at \<rho> (vc_balance w) = balance_at \<rho>' (vc_balance w)" "balance_at \<rho> (vc_fee_balance w) = balance_at \<rho>' (vc_fee_balance w)"
    "fee_at \<rho> (vc_fee w) = fee_at \<rho>' (vc_fee w)" "opening_at \<rho> (vc_wallet_opening w) = opening_at \<rho>' (vc_wallet_opening w)"
    by (rule same [OF depends_wallet_at] same [OF depends_order_at] same [OF depends_balance_at] same [OF depends_fee_at] same [OF depends_opening_at],
        rule commitments_scope)+
  moreover have "\<rho> (vc_randomness_hash w) = \<rho>' (vc_randomness_hash w)" "\<rho> (vc_sk_match w) = \<rho>' (vc_sk_match w)"
    "\<rho> (vcs_nullifier st) = \<rho>' (vcs_nullifier st)" "\<rho> (vcs_merkle_root st) = \<rho>' (vcs_merkle_root st)" "\<rho> (vcs_pk_settle st) = \<rho>' (vcs_pk_settle st)"
    by (rule bspec [OF agree], rule commitments_variables, simp)+
  ultimately show "valid_commitments_relation p (commitments_witness_at \<rho> w) (commitments_statement_at \<rho> st) =
      valid_commitments_relation p (commitments_witness_at \<rho>' w) (commitments_statement_at \<rho>' st)"
    by (simp only: commitments_witness_at_def commitments_statement_at_def)
qed

lemma commitments_simps:
  fixes w :: "('v, 'f::field) commitments_witness_var"
  shows "valid_commitments_relation p (commitments_witness_at \<rho> w) (commitments_statement_at \<rho> st) \<longleftrightarrow>
    (let c = wallet_commitment p (wallet_at \<rho> (vc_wallet w)); ord = vc_order w; wallet = vc_wallet w in
    opens_to p c (opening_at \<rho> (vc_wallet_opening w)) (\<rho> (vcs_merkle_root st))
    \<and> \<rho> (vcs_pk_settle st) = \<rho> (kv_pk_settle (wv_keys wallet))
    \<and> \<rho> (vcs_nullifier st) = hash_value p [c, \<rho> (wv_randomness wallet) + 1]
    \<and> listed_once (balance_at \<rho> (vc_balance w)) (w_balances (wallet_at \<rho> wallet)) TYPE('f)
    \<and> listed_once (balance_at \<rho> (vc_fee_balance w)) (w_balances (wallet_at \<rho> wallet)) TYPE('f)
    \<and> listed_once (order_at \<rho> ord) (w_orders (wallet_at \<rho> wallet)) TYPE('f) \<and> listed_once (fee_at \<rho> (vc_fee w)) (w_fees (wallet_at \<rho> wallet)) TYPE('f)
    \<and> \<rho> (bv_mint (vc_balance w)) = \<rho> (ov_base_mint ord) * \<rho> (ov_side ord) + \<rho> (ov_quote_mint ord) * (1 - \<rho> (ov_side ord))
    \<and> \<rho> (fv_gas_addr (vc_fee w)) = \<rho> (bv_mint (vc_fee_balance w))
    \<and> hash_value p [\<rho> (wv_randomness wallet)] = \<rho> (vc_randomness_hash w)
    \<and> hash_value p [\<rho> (vc_sk_match w)] = \<rho> (kv_pk_match (wv_keys wallet)))"
  by (simp add: valid_commitments_relation_def commitments_witness_at_def commitments_statement_at_def Let_def)

context constraint_system
begin

lemma dec_listed:
  assumes "\<And>y P. y \<in> set ys \<Longrightarrow> dec (U \<union> X y) P (f y) (\<lambda>_. True) (\<lambda>x. {x}) (\<lambda>x \<rho>. \<rho> x = of_bool (c \<rho> = g \<rho> y))"
    "\<And>y. y \<in> set ys \<Longrightarrow> X y \<subseteq> V" "U \<subseteq> V" "depends V c" "\<And>y. y \<in> set ys \<Longrightarrow> depends V (\<lambda>\<rho>. g \<rho> y)"
  shows "dec V P (andthen (sum_each (\<lambda>y. andthen (f y) (\<lambda>x. yield (lc_var x))) ys (lc_var (var_zero cs)))
      (\<lambda>total. constrain cs (lc_sub total (lc_one cs))))
    (\<lambda>\<rho>. listed_once (c \<rho>) (map (g \<rho>) ys) TYPE('f)) (\<lambda>_. {}) (\<lambda>_ _. True)"
proof (rule dec_andthen [OF dec_sum_each [where V = V and g = "\<lambda>y \<rho>. of_bool (c \<rho> = g \<rho> y)"]])
  show "dec V P (andthen (f y) (\<lambda>x. yield (lc_var x))) (\<lambda>_. True) lc_vars (\<lambda>x \<rho>. lc_eval \<rho> x = of_bool (c \<rho> = g \<rho> y))"
    if "y \<in> set ys" for y
    using assms(2) [OF that] assms(3) by (intro dec_andthen [OF assms(1) [OF that]] dec_yield) auto
  show "dec (V \<union> lc_vars x) (\<lambda>\<rho>. P \<rho> \<and> True \<and> lc_eval \<rho> x = lc_eval \<rho> (lc_var (var_zero cs)) + (\<Sum>y\<leftarrow>ys. of_bool (c \<rho> = g \<rho> y)))
      (constrain cs (lc_sub x (lc_one cs))) (\<lambda>\<rho>. listed_once (c \<rho>) (map (g \<rho>) ys) TYPE('f)) (\<lambda>_. {}) (\<lambda>_ _. True)" for x
    by (rule dec_weaken [OF dec_constrain [of _ "lc_vars x"]]) (auto simp: listed_once_def sum_of_bool_count)
  show "depends V (\<lambda>\<rho>. listed_once (c \<rho>) (map (g \<rho>) ys) TYPE('f))"
    by (intro depends_comp2 [where h = "\<lambda>x xs. listed_once x xs TYPE('f)"] assms(4) depends_map [where f = "\<lambda>y \<rho>. g \<rho> y"] assms(5))
qed auto

lemma dec_contains_balance:
  assumes "balance_vars b \<union> wallet_vars w \<subseteq> V" "\<And>n. 0 < n \<Longrightarrow> n \<le> 6 \<Longrightarrow> (of_nat n :: 'f) \<noteq> 0"
  shows "dec V P (verify_wallet_contains_balance cs b w) (\<lambda>\<rho>. listed_once (balance_at \<rho> b) (w_balances (wallet_at \<rho> w)) TYPE('f)) (\<lambda>_. {}) (\<lambda>_ _. True)"
  unfolding verify_wallet_contains_balance_def at_simps
proof (rule dec_listed [where U = "balance_vars b" and X = balance_vars])
  show "dec (balance_vars b \<union> balance_vars c) P (eq_vec cs (map lc_var (BalanceVar_to_vec b)) (map lc_var (BalanceVar_to_vec c))) (\<lambda>_. True)
      (\<lambda>x. {x}) (\<lambda>x \<rho>. \<rho> x = of_bool (balance_at \<rho> b = balance_at \<rho> c))" for c P
    by (rule dec_weaken [OF dec_eq_vec]) (use assms(2) in \<open>auto simp: BalanceVar_to_vec_def balance_vars_def balance_at_def\<close>)
qed (use assms(1) in \<open>auto simp: wallet_vars_def intro!: depends_balance_at\<close>)

lemma dec_contains_order:
  assumes "order_vars ord \<union> wallet_vars w \<subseteq> V" "\<And>n. 0 < n \<Longrightarrow> n \<le> 6 \<Longrightarrow> (of_nat n :: 'f) \<noteq> 0"
  shows "dec V P (verify_wallet_contains_order cs ord w) (\<lambda>\<rho>. listed_once (order_at \<rho> ord) (w_orders (wallet_at \<rho> w)) TYPE('f)) (\<lambda>_. {}) (\<lambda>_ _. True)"
  unfolding verify_wallet_contains_order_def at_simps
proof (rule dec_listed [where U = "order_vars ord" and X = order_vars])
  show "dec (order_vars ord \<union> order_vars c) P (eq_vec cs (OrderVar_to_vec ord) (OrderVar_to_vec c)) (\<lambda>_. True)
      (\<lambda>x. {x}) (\<lambda>x \<rho>. \<rho> x = of_bool (order_at \<rho> ord = order_at \<rho> c))" for c P
    by (rule dec_weaken [OF dec_eq_vec]) (use assms(2) in \<open>auto simp: OrderVar_to_vec_def order_vars_def order_at_def\<close>)
qed (use assms(1) in \<open>auto simp: wallet_vars_def intro!: depends_order_at\<close>)

lemma dec_contains_fee:
  assumes "fee_vars fee \<union> wallet_vars w \<subseteq> V" "\<And>n. 0 < n \<Longrightarrow> n \<le> 6 \<Longrightarrow> (of_nat n :: 'f) \<noteq> 0"
  shows "dec V P (verify_wallet_contains_fee cs fee w) (\<lambda>\<rho>. listed_once (fee_at \<rho> fee) (w_fees (wallet_at \<rho> w)) TYPE('f)) (\<lambda>_. {}) (\<lambda>_ _. True)"
  unfolding verify_wallet_contains_fee_def at_simps
proof (rule dec_listed [where U = "fee_vars fee" and X = fee_vars])
  show "dec (fee_vars fee \<union> fee_vars c) P (eq_vec cs (FeeVar_to_vec fee) (FeeVar_to_vec c)) (\<lambda>_. True)
      (\<lambda>x. {x}) (\<lambda>x \<rho>. \<rho> x = of_bool (fee_at \<rho> fee = fee_at \<rho> c))" for c P
    by (rule dec_weaken [OF dec_eq_vec]) (use assms(2) in \<open>auto simp: FeeVar_to_vec_def fee_vars_def fee_at_def\<close>)
qed (use assms(1) in \<open>auto simp: wallet_vars_def intro!: depends_fee_at\<close>)

lemma dec_valid_commitments:
  assumes "valid_params p" "0 < rate p" "\<And>n. 0 < n \<Longrightarrow> n \<le> 6 \<Longrightarrow> (of_nat n :: 'f) \<noteq> 0"
    "length (indices (vc_wallet_opening w)) = length (elems (vc_wallet_opening w))"
  shows "dec (commitments_vars w st) P (valid_commitments canon cs p w st)
    (\<lambda>\<rho>. valid_commitments_relation p (commitments_witness_at \<rho> w) (commitments_statement_at \<rho> st)) (\<lambda>_. {}) (\<lambda>_ _. True)"
proof -
  define V where "V = commitments_vars w st"
  note step = dec_step [OF _ depends_commitments [of w st p, folded V_def]]
  note scopes = commitments_scope [of w st, folded V_def]
  note scope = subsetD [OF commitments_scope(1) [of w st, folded V_def]] subsetD [OF commitments_scope(6) [of w st, folded V_def]]
  note vars = commitments_variables [of _ w st, folded V_def, simplified]
  have "dec V P (valid_commitments canon cs p w st)
    (\<lambda>\<rho>. valid_commitments_relation p (commitments_witness_at \<rho> w) (commitments_statement_at \<rho> st)) (\<lambda>_. {}) (\<lambda>_ _. True)"
    unfolding valid_commitments_def Let_def
    apply (rule step [OF dec_wallet_commit [OF assms(1,2)]])
       apply (auto dest: scope)[3]
    apply (rule step [OF dec_opening [OF assms(1,2,4)]])
       apply (auto dest: scope simp: vars commitments_simps Let_def)[3]
    apply (rule step [OF dec_constrain [of _ V]])
        apply (auto simp: vars commitments_simps Let_def)[4]
    apply (rule step [OF dec_match_nullifier [OF assms(1,2)]])
       apply (auto simp: vars)[3]
    apply (rule step [OF dec_constrain [of _ "V \<union> lc_vars _"]])
        apply (auto simp: vars commitments_simps Let_def)[4]
    apply (rule step [OF dec_contains_balance [OF _ assms(3), of _ _ V]])
        apply (auto simp: scopes commitments_simps Let_def)[6]
    apply (rule step [OF dec_contains_balance [OF _ assms(3), of _ _ V]])
        apply (auto simp: scopes commitments_simps Let_def)[6]
    apply (rule step [OF dec_contains_order [OF _ assms(3), of _ _ V]])
        apply (auto simp: scopes commitments_simps Let_def)[6]
    apply (rule step [OF dec_contains_fee [OF _ assms(3), of _ _ V]])
        apply (auto simp: scopes commitments_simps Let_def)[6]
    apply (rule step [OF dec_select])
       apply (auto simp: vars)[3]
    apply (rule step [OF dec_constrain [of _ "V \<union> lc_vars _"]])
        apply (auto simp: vars commitments_simps Let_def)[4]
    apply (rule step [OF dec_constrain [of _ V]])
        apply (auto simp: vars commitments_simps Let_def)[4]
    apply (simp only: constrain_geq_range)
    apply (rule step [OF dec_range])
         apply (auto simp: vars POSITIVE_SCALAR_MAX_BITS_def)[5]
    apply (rule step [OF dec_hash_constrain [OF assms(1,2)]])
       apply (auto simp: vars commitments_simps Let_def)[3]
    apply (rule dec_last [OF dec_hash_constrain [OF assms(1,2)]])
     apply (auto simp: vars commitments_simps Let_def)[2]
  done
  then show ?thesis
    by (simp only: V_def)
qed

end

subsection \<open>What a proof of VALID COMMITMENTS shows\<close>

text \<open>
  An example: a wallet with one balance, one order and one fee of 1000 that its balance of 10
  does not cover. Variable 1 is the constant zero.
\<close>

definition one_order_wallet :: "(nat, rat) WalletVar" where
  "one_order_wallet = \<lparr>wv_balances = [\<lparr>bv_mint = 2, bv_amount = 3\<rparr>],
    wv_orders = [\<lparr>ov_quote_mint = 2, ov_base_mint = 4, ov_side = 1, ov_price = \<lparr>fp_repr = lc_var 5\<rparr>, ov_amount = 6, ov_timestamp = 7\<rparr>],
    wv_fees = [\<lparr>fv_settle_key = 8, fv_gas_addr = 2, fv_gas_token_amount = 9, fv_percentage_fee = \<lparr>fp_repr = lc_var 10\<rparr>\<rparr>],
    wv_keys = \<lparr>kv_pk_root = 11, kv_pk_match = 12, kv_pk_settle = 13, kv_pk_view = 14\<rparr>, wv_randomness = 15\<rparr>"

definition one_order_witness :: "(nat, rat) commitments_witness_var" where
  "one_order_witness = \<lparr>vc_wallet = one_order_wallet, vc_order = hd (wv_orders one_order_wallet), vc_balance = hd (wv_balances one_order_wallet),
    vc_fee_balance = hd (wv_balances one_order_wallet), vc_fee = hd (wv_fees one_order_wallet),
    vc_wallet_opening = \<lparr>elems = [4], indices = [1]\<rparr>, vc_randomness_hash = 16, vc_sk_match = 17\<rparr>"

definition one_order_statement :: "nat ValidCommitmentsStatementVar" where
  "one_order_statement = \<lparr>vcs_nullifier = 18, vcs_merkle_root = 19, vcs_pk_settle = 13\<rparr>"

definition one_order_values :: "rat list" where
  "one_order_values = (let p = toy_params; h = hash_value p [77];
    c = hash_value p [5, 10, 5, 6, 0, 7, 8, 20, 5, 1000, 3, 30, h, 31, 32, 40]
    in [5, 10, 6, 7, 8, 1, 20, 1000, 3, 30, h, 31, 32, 40, hash_value p [40], 77, hash_value p [c, 41], hash_value p [c, 6]])"

lemma one_order_assigned:
  "r1cs_sat (committed one_order_values) (r1cs_assigned (committed one_order_values))"
  "valid_commitments_relation toy_params (commitments_witness_at (r1cs_assigned (committed one_order_values)) one_order_witness)
    (commitments_statement_at (r1cs_assigned (committed one_order_values)) one_order_statement)"
  using r1cs.honest_sat [OF committed_honest]
  by (auto simp: valid_commitments_relation_def commitments_witness_at_def commitments_statement_at_def one_order_witness_def one_order_statement_def
      one_order_wallet_def one_order_values_def Let_def r1cs_assigned_def committed_def balance_at_def order_at_def fee_at_def keys_at_def wallet_at_def
      opening_at_def wallet_commitment_def wallet_elements_def opens_to_def listed_once_def)

text \<open>
  C24: the circuit proves exactly that the wallet opens to the Merkle root, that the nullifier, the
  settle key and the randomness hash are the wallet's, that the order, both balances and the fee
  are each listed once in the wallet, that the balance has the mint the order sells and the fee
  balance the mint of the fee, and that the prover knows the secret match key. That the fee
  balance covers the fee is not among it: the comparison constrains nothing.\<close>

theorem valid_commitments_exact:
  fixes cs :: "('s, 'v, 'f::field) cs_ops"
  assumes "constraint_system cs sat wires assigned" "valid_params p" "0 < rate p" "\<And>n. 0 < n \<Longrightarrow> n \<le> 6 \<Longrightarrow> (of_nat n :: 'f) \<noteq> 0"
    and "length (indices (vc_wallet_opening w)) = length (elems (vc_wallet_opening w))"
    and "closed_state sat wires s" "commitments_vars w st \<subseteq> wires s"
  shows "\<exists>s'. valid_commitments canon cs p w st s = Returns ((), s')
    \<and> (\<forall>\<rho>. sat s \<rho> \<longrightarrow> ((\<exists>\<rho>'. (\<forall>v\<in>wires s. \<rho>' v = \<rho> v) \<and> sat s' \<rho>')
        \<longleftrightarrow> valid_commitments_relation p (commitments_witness_at \<rho> w) (commitments_statement_at \<rho> st)))"
  using constraint_system.dec_exact [OF assms(1) constraint_system.dec_valid_commitments [OF assms(1-5), of st] depends_commitments assms(6,7)] by simp

theorem valid_commitments_exact_witness:
  "\<exists>s' \<rho>. valid_commitments (\<lambda>x. nat \<lfloor>x\<rfloor>) r1cs_ops toy_params one_order_witness one_order_statement (committed one_order_values) = Returns ((), s')
    \<and> r1cs_sat s' \<rho> \<and> \<rho> (bv_amount (vc_fee_balance one_order_witness)) = 10 \<and> \<rho> (fv_gas_token_amount (vc_fee one_order_witness)) = 1000"
proof -
  let ?s = "committed one_order_values" and ?w = one_order_witness and ?st = one_order_statement
  have scope: "commitments_vars ?w ?st \<subseteq> r1cs_wires ?s"
    by (auto simp: commitments_vars_def wallet_vars_def balance_vars_def order_vars_def fee_vars_def key_vars_def opening_vars_def one_order_witness_def
        one_order_statement_def one_order_wallet_def one_order_values_def Let_def)
  obtain s' where run: "valid_commitments (\<lambda>x. nat \<lfloor>x\<rfloor>) r1cs_ops toy_params ?w ?st ?s = Returns ((), s')"
    and exact: "\<And>\<rho>. r1cs_sat ?s \<rho> \<Longrightarrow> (\<exists>\<rho>'. (\<forall>v\<in>r1cs_wires ?s. \<rho>' v = \<rho> v) \<and> r1cs_sat s' \<rho>')
        \<longleftrightarrow> valid_commitments_relation toy_params (commitments_witness_at \<rho> ?w) (commitments_statement_at \<rho> ?st)"
    using valid_commitments_exact [OF r1cs_contract toy_params_valid(1) _ _ _ committed_closed scope, of "\<lambda>x. nat \<lfloor>x\<rfloor>"]
    by (auto simp: one_order_witness_def)
  obtain \<rho> where \<rho>: "\<forall>v\<in>r1cs_wires ?s. \<rho> v = r1cs_assigned ?s v" "r1cs_sat s' \<rho>"
    using exact [OF one_order_assigned(1)] one_order_assigned(2) by blast
  have "\<rho> 3 = 10" "\<rho> 9 = 1000"
    using bspec [OF \<rho>(1), of 3] bspec [OF \<rho>(1), of 9] by (simp_all add: one_order_values_def Let_def r1cs_assigned_def committed_def r1cs_wires_def)
  with run \<rho>(2) show ?thesis
    by (intro exI [of _ s'] exI [of _ \<rho>]) (simp add: one_order_witness_def one_order_wallet_def)
qed

end
