(* ===== verification/Valid_Settle.thy ===== *)
theory Valid_Settle
  imports Circuit_Values
begin

section \<open>VALID SETTLE\<close>

text \<open>
  The circuit of \<open>zk_circuits/valid_settle.rs\<close>: the prover applies a note in the state tree to a
  wallet in the state tree and commits to the updated wallet. The ciphertexts of the updated
  wallet and the note commitment of the witness are allocated and not constrained.
\<close>

record 'v ElGamalCiphertextVar =
  ev_partial_shared_secret :: 'v
  ev_encrypted_message :: 'v

record ('w, 'v) ValidSettleWitnessVar =
  vs_pre_wallet :: 'w
  vs_pre_wallet_opening :: "'v MerkleOpeningVar"
  vs_post_wallet :: 'w
  vs_note :: "'v NoteVar"
  vs_note_commitment :: 'v
  vs_note_opening :: "'v MerkleOpeningVar"
  vs_sk_settle :: 'v

record 'v ValidSettleStatementVar =
  vss_post_wallet_commit :: 'v
  vss_post_wallet_ciphertext :: "'v ElGamalCiphertextVar list"
  vss_wallet_spend_nullifier :: 'v
  vss_wallet_match_nullifier :: 'v
  vss_note_redeem_nullifier :: 'v
  vss_merkle_root :: 'v
  vss_type :: 'v

type_synonym ('v, 'f) settle_witness_var = "(('v, 'f) WalletVar, 'v) ValidSettleWitnessVar"
type_synonym 'f settle_witness_value = "('f WalletValue, 'f) ValidSettleWitnessVar"

definition validate_state_primitives ::
  "('s, 'v, 'f::field) cs_ops \<Rightarrow> 'f PoseidonSpongeParameters \<Rightarrow> ('v, 'f) settle_witness_var \<Rightarrow> 'v ValidSettleStatementVar \<Rightarrow> ('s, unit) circ" where
  "validate_state_primitives cs p witness statement = (let pre_wallet = vs_pre_wallet witness in
    andthen (wallet_commit cs p pre_wallet) (\<lambda>pre_wallet_commit_res.
    andthen (effect (compute_and_constrain_root_prehashed cs p pre_wallet_commit_res (vs_pre_wallet_opening witness) (lc_var (vss_merkle_root statement)))) (\<lambda>_.
    andthen (gadget_note_commit cs p (vs_note witness) (kv_pk_settle (wv_keys pre_wallet))) (\<lambda>note_commitment_res.
    andthen (effect (compute_and_constrain_root_prehashed cs p note_commitment_res (vs_note_opening witness) (lc_var (vss_merkle_root statement)))) (\<lambda>_.
    andthen (wallet_commit cs p (vs_post_wallet witness)) (\<lambda>post_wallet_commit_res.
    andthen (constrain cs (lc_sub (lc_var (vss_post_wallet_commit statement)) post_wallet_commit_res)) (\<lambda>_.
    andthen (spend_nullifier cs p (wv_randomness pre_wallet) pre_wallet_commit_res) (\<lambda>pre_wallet_spend_nullifier.
    andthen (constrain cs (lc_sub (lc_var (vss_wallet_spend_nullifier statement)) pre_wallet_spend_nullifier)) (\<lambda>_.
    andthen (gadget_match_nullifier cs p (wv_randomness pre_wallet) pre_wallet_commit_res) (\<lambda>pre_wallet_match_nullifier.
    andthen (constrain cs (lc_sub (lc_var (vss_wallet_match_nullifier statement)) pre_wallet_match_nullifier)) (\<lambda>_.
    andthen (note_redeem_nullifier cs p (kv_pk_settle (wv_keys pre_wallet)) note_commitment_res) (\<lambda>note_redeem_nullifier_res.
    constrain cs (lc_sub (lc_var (vss_note_redeem_nullifier statement)) note_redeem_nullifier_res)))))))))))))"

definition validate_balance_mints_unique :: "('s, 'v, 'f::field) cs_ops \<Rightarrow> 'v BalanceVar list \<Rightarrow> ('s, unit) circ" where
  "validate_balance_mints_unique cs balances =
    for_each (\<lambda>(balance_i, later).
      andthen (total (eq_zero cs (lc_var (bv_mint balance_i)))) (\<lambda>balance_mint_i_eq_zero.
      for_each (\<lambda>balance_j.
        andthen (total (not_equal cs (lc_var (bv_mint balance_i)) (lc_var (bv_mint balance_j)))) (\<lambda>ne.
        andthen (total (or_gate cs ne (lc_var balance_mint_i_eq_zero))) (\<lambda>ne_or_mint_zero.
        constrain cs (lc_sub (lc_one cs) ne_or_mint_zero)))) later)) (with_later balances)"

definition masked :: "('s, 'v, 'f::field) cs_ops \<Rightarrow> ('v, 'f) lc \<Rightarrow> ('v, 'f) lc \<Rightarrow> ('v, 'f) lc \<Rightarrow> ('s, ('v, 'f) lc) circ" where
  "masked cs a b term = andthen (total (eq_gadget cs a b)) (\<lambda>equal.
    andthen (total (cs_product cs (lc_var equal) term)) (\<lambda>x. yield (lc_var x)))"

definition validate_balance_updates ::
  "('s, 'v, 'f::field) cs_ops \<Rightarrow> 'v BalanceVar list \<Rightarrow> 'v BalanceVar list \<Rightarrow> 'v NoteVar \<Rightarrow> ('s, unit) circ" where
  "validate_balance_updates cs old_balances new_balances note =
    andthen (total (select_gadget cs (lc_neg (lc_var (nv_volume1 note))) (lc_var (nv_volume1 note)) (lc_var (nv_direction1 note)))) (\<lambda>note_term1.
    andthen (total (select_gadget cs (lc_neg (lc_var (nv_volume2 note))) (lc_var (nv_volume2 note)) (lc_var (nv_direction2 note)))) (\<lambda>note_term2.
    andthen (total (select_gadget cs (lc_neg (lc_var (nv_fee_volume note))) (lc_var (nv_fee_volume note)) (lc_var (nv_fee_direction note)))) (\<lambda>note_term3.
    for_each (\<lambda>new_balance. let mint = lc_var (bv_mint new_balance) in
      andthen (sum_each (\<lambda>old_balance. masked cs (lc_var (bv_mint old_balance)) mint (lc_var (bv_amount old_balance))) old_balances (lc_var (var_zero cs))) (\<lambda>expected_bal.
      andthen (masked cs mint (lc_var (nv_mint1 note)) note_term1) (\<lambda>note_term1_masked.
      andthen (masked cs mint (lc_var (nv_mint2 note)) note_term2) (\<lambda>note_term2_masked.
      andthen (masked cs mint (lc_var (nv_fee_mint note)) note_term3) (\<lambda>note_term3_masked.
      constrain cs (lc_sub (lc_var (bv_amount new_balance))
        (lc_add (lc_add (lc_add expected_bal note_term1_masked) note_term2_masked) note_term3_masked))))))) new_balances)))"

definition validate_new_balances ::
  "('s, 'v, 'f::field) cs_ops \<Rightarrow> ('v, 'f) settle_witness_var \<Rightarrow> ('s, unit) circ" where
  "validate_new_balances cs witness =
    andthen (validate_balance_mints_unique cs (wv_balances (vs_post_wallet witness))) (\<lambda>_.
    validate_balance_updates cs (wv_balances (vs_pre_wallet witness)) (wv_balances (vs_post_wallet witness)) (vs_note witness))"

definition validate_orders_equal_except_amount ::
  "('s, 'v, 'f::field) cs_ops \<Rightarrow> ('v, 'f) OrderVar \<Rightarrow> ('v, 'f) OrderVar \<Rightarrow> ('s, unit) circ" where
  "validate_orders_equal_except_amount cs o1 o2 = effect (constrain_eq_vec cs
    [lc_var (ov_base_mint o1), lc_var (ov_quote_mint o1), lc_var (ov_side o1), fp_repr (ov_price o1), lc_var (ov_timestamp o1)]
    [lc_var (ov_base_mint o2), lc_var (ov_quote_mint o2), lc_var (ov_side o2), fp_repr (ov_price o2), lc_var (ov_timestamp o2)])"

definition validate_order_updates ::
  "('s, 'v, 'f::field) cs_ops \<Rightarrow> ('v, 'f) OrderVar list \<Rightarrow> ('v, 'f) OrderVar list \<Rightarrow> 'v NoteVar \<Rightarrow> ('s, unit) circ" where
  "validate_order_updates cs old_orders new_orders note =
    andthen (total (select_gadget cs (lc_var (nv_volume1 note)) (lc_var (var_zero cs)) (lc_var (nv_type note)))) (\<lambda>note_term.
    for_each (\<lambda>(old_order, new_order).
      andthen (validate_orders_equal_except_amount cs old_order new_order) (\<lambda>_.
      andthen (eq_vec cs [lc_var (nv_mint1 note), lc_var (nv_mint2 note)] [lc_var (ov_base_mint old_order), lc_var (ov_quote_mint old_order)]) (\<lambda>mint_pair_equal.
      andthen (total (cs_product cs (lc_var mint_pair_equal) note_term)) (\<lambda>masked_note_term.
      constrain cs (lc_sub (lc_sub (lc_var (ov_amount old_order)) (lc_var masked_note_term)) (lc_var (ov_amount new_order)))))))
      (zip old_orders new_orders))"

definition valid_settle ::
  "('s, 'v, 'f::field) cs_ops \<Rightarrow> 'f PoseidonSpongeParameters \<Rightarrow> ('v, 'f) settle_witness_var \<Rightarrow> 'v ValidSettleStatementVar \<Rightarrow> ('s, unit) circ" where
  "valid_settle cs p witness statement = (let pre = vs_pre_wallet witness; post = vs_post_wallet witness in
    andthen (validate_state_primitives cs p witness statement) (\<lambda>_.
    andthen (constrain cs (lc_sub (lc_var (kv_pk_root (wv_keys pre))) (lc_var (kv_pk_root (wv_keys post))))) (\<lambda>_.
    andthen (constrain cs (lc_sub (lc_var (kv_pk_match (wv_keys pre))) (lc_var (kv_pk_match (wv_keys post))))) (\<lambda>_.
    andthen (constrain cs (lc_sub (lc_var (kv_pk_settle (wv_keys pre))) (lc_var (kv_pk_settle (wv_keys post))))) (\<lambda>_.
    andthen (constrain cs (lc_sub (lc_var (kv_pk_view (wv_keys pre))) (lc_var (kv_pk_view (wv_keys post))))) (\<lambda>_.
    andthen (hash_constrain cs p [lc_var (vs_sk_settle witness)] (lc_var (kv_pk_settle (wv_keys pre)))) (\<lambda>_.
    andthen (constrain cs (lc_sub (lc_add (lc_var (wv_randomness pre)) (lc_scale 2 (lc_one cs))) (lc_var (wv_randomness post)))) (\<lambda>_.
    andthen (constrain cs (lc_sub (lc_var (vss_type statement)) (lc_var (nv_type (vs_note witness))))) (\<lambda>_.
    andthen (validate_new_balances cs witness) (\<lambda>_.
    validate_order_updates cs (wv_orders pre) (wv_orders post) (vs_note witness)))))))))))"

subsection \<open>The relation it proves\<close>

text \<open>What a note adds to the amount of a mint, and what it takes off an order's amount.\<close>

definition note_credit :: "'f::field NoteVar \<Rightarrow> 'f \<Rightarrow> 'f" where
  "note_credit n m = of_bool (m = nv_mint1 n) * signed_amount (nv_direction1 n) (nv_volume1 n)
    + of_bool (m = nv_mint2 n) * signed_amount (nv_direction2 n) (nv_volume2 n)
    + of_bool (m = nv_fee_mint n) * signed_amount (nv_fee_direction n) (nv_fee_volume n)"

definition note_fills :: "'f::field NoteVar \<Rightarrow> 'f OrderValue \<Rightarrow> 'f" where
  "note_fills n ord = of_bool (nv_mint1 n = o_base_mint ord \<and> nv_mint2 n = o_quote_mint ord) * (nv_volume1 n * nv_type n)"

definition settle_witness_at :: "('v \<Rightarrow> 'f::field) \<Rightarrow> ('v, 'f) settle_witness_var \<Rightarrow> 'f settle_witness_value" where
  "settle_witness_at \<rho> w = \<lparr>vs_pre_wallet = wallet_at \<rho> (vs_pre_wallet w), vs_pre_wallet_opening = opening_at \<rho> (vs_pre_wallet_opening w),
    vs_post_wallet = wallet_at \<rho> (vs_post_wallet w), vs_note = note_at \<rho> (vs_note w), vs_note_commitment = \<rho> (vs_note_commitment w),
    vs_note_opening = opening_at \<rho> (vs_note_opening w), vs_sk_settle = \<rho> (vs_sk_settle w)\<rparr>"

definition settle_statement_at :: "('v \<Rightarrow> 'f) \<Rightarrow> 'v ValidSettleStatementVar \<Rightarrow> 'f ValidSettleStatementVar" where
  "settle_statement_at \<rho> st = \<lparr>vss_post_wallet_commit = \<rho> (vss_post_wallet_commit st), vss_post_wallet_ciphertext = [],
    vss_wallet_spend_nullifier = \<rho> (vss_wallet_spend_nullifier st), vss_wallet_match_nullifier = \<rho> (vss_wallet_match_nullifier st),
    vss_note_redeem_nullifier = \<rho> (vss_note_redeem_nullifier st), vss_merkle_root = \<rho> (vss_merkle_root st), vss_type = \<rho> (vss_type st)\<rparr>"

definition settle_vars :: "('v, 'f) settle_witness_var \<Rightarrow> 'v ValidSettleStatementVar \<Rightarrow> 'v set" where
  "settle_vars w st = wallet_vars (vs_pre_wallet w) \<union> opening_vars (vs_pre_wallet_opening w) \<union> wallet_vars (vs_post_wallet w) \<union> note_vars (vs_note w)
    \<union> opening_vars (vs_note_opening w) \<union> {vs_note_commitment w, vs_sk_settle w, vss_post_wallet_commit st, vss_wallet_spend_nullifier st,
      vss_wallet_match_nullifier st, vss_note_redeem_nullifier st, vss_merkle_root st, vss_type st}"

definition settle_primitives ::
  "'f::field PoseidonSpongeParameters \<Rightarrow> 'f settle_witness_value \<Rightarrow> 'f ValidSettleStatementVar \<Rightarrow> bool" where
  "settle_primitives p w st \<longleftrightarrow> (let pre = vs_pre_wallet w; c = wallet_commitment p pre; pk = kv_pk_settle (w_keys pre); n = note_commitment p (vs_note w) pk in
    opens_to p c (vs_pre_wallet_opening w) (vss_merkle_root st) \<and> opens_to p n (vs_note_opening w) (vss_merkle_root st)
    \<and> vss_post_wallet_commit st = wallet_commitment p (vs_post_wallet w)
    \<and> vss_wallet_spend_nullifier st = hash_value p [c, w_randomness pre]
    \<and> vss_wallet_match_nullifier st = hash_value p [c, w_randomness pre + 1]
    \<and> vss_note_redeem_nullifier st = hash_value p [n, pk])"

definition balances_settled :: "'f::field BalanceVar list \<Rightarrow> 'f BalanceVar list \<Rightarrow> 'f NoteVar \<Rightarrow> bool" where
  "balances_settled old new n \<longleftrightarrow> (\<forall>b\<in>set new. bv_amount b = held old (bv_mint b) + note_credit n (bv_mint b))"

definition orders_settled :: "'f::field OrderValue list \<Rightarrow> 'f OrderValue list \<Rightarrow> 'f NoteVar \<Rightarrow> bool" where
  "orders_settled old new n \<longleftrightarrow> (\<forall>(ord, ord')\<in>set (zip old new). ord' = ord\<lparr>o_amount := o_amount ord - note_fills n ord\<rparr>)"

definition valid_settle_relation ::
  "'f::field PoseidonSpongeParameters \<Rightarrow> 'f settle_witness_value \<Rightarrow> 'f ValidSettleStatementVar \<Rightarrow> bool" where
  "valid_settle_relation p w st \<longleftrightarrow> (let pre = vs_pre_wallet w; post = vs_post_wallet w; note = vs_note w in
    settle_primitives p w st
    \<and> w_keys post = w_keys pre \<and> hash_value p [vs_sk_settle w] = kv_pk_settle (w_keys pre)
    \<and> w_randomness post = w_randomness pre + 2 \<and> vss_type st = nv_type note
    \<and> unique_mints (w_balances post) \<and> balances_settled (w_balances pre) (w_balances post) note
    \<and> orders_settled (w_orders pre) (w_orders post) note)"

lemma settle_scope:
  "wallet_vars (vs_pre_wallet w) \<subseteq> settle_vars w st" "wallet_vars (vs_post_wallet w) \<subseteq> settle_vars w st" "note_vars (vs_note w) \<subseteq> settle_vars w st"
  "opening_vars (vs_pre_wallet_opening w) \<subseteq> settle_vars w st" "opening_vars (vs_note_opening w) \<subseteq> settle_vars w st"
  unfolding settle_vars_def by blast+

lemma settle_variables:
  "v \<in> {vs_note_commitment w, vs_sk_settle w, vss_post_wallet_commit st, vss_wallet_spend_nullifier st, vss_wallet_match_nullifier st,
    vss_note_redeem_nullifier st, vss_merkle_root st, vss_type st, wv_randomness (vs_pre_wallet w), wv_randomness (vs_post_wallet w),
    kv_pk_root (wv_keys (vs_pre_wallet w)), kv_pk_match (wv_keys (vs_pre_wallet w)), kv_pk_settle (wv_keys (vs_pre_wallet w)), kv_pk_view (wv_keys (vs_pre_wallet w)),
    kv_pk_root (wv_keys (vs_post_wallet w)), kv_pk_match (wv_keys (vs_post_wallet w)), kv_pk_settle (wv_keys (vs_post_wallet w)), kv_pk_view (wv_keys (vs_post_wallet w)),
    nv_type (vs_note w)} \<Longrightarrow> v \<in> settle_vars w st"
  by (auto simp: settle_vars_def wallet_vars_def key_vars_def note_vars_def)

lemma depends_settle:
  fixes w :: "('v, 'f::field) settle_witness_var"
  shows "depends (settle_vars w st) (\<lambda>\<rho>. (settle_witness_at \<rho> w, settle_statement_at \<rho> st))"
proof (rule dependsI2)
  fix \<rho> \<rho>' :: "'v \<Rightarrow> 'f" assume agree: "\<forall>v\<in>settle_vars w st. \<rho> v = \<rho>' v"
  note same = depends_eq [OF _ agree]
  have "wallet_at \<rho> (vs_pre_wallet w) = wallet_at \<rho>' (vs_pre_wallet w)" "wallet_at \<rho> (vs_post_wallet w) = wallet_at \<rho>' (vs_post_wallet w)"
    "note_at \<rho> (vs_note w) = note_at \<rho>' (vs_note w)" "opening_at \<rho> (vs_pre_wallet_opening w) = opening_at \<rho>' (vs_pre_wallet_opening w)"
    "opening_at \<rho> (vs_note_opening w) = opening_at \<rho>' (vs_note_opening w)"
    by (rule same [OF depends_wallet_at] same [OF depends_note_at] same [OF depends_opening_at], rule settle_scope)+
  moreover have "\<rho> (vs_note_commitment w) = \<rho>' (vs_note_commitment w)" "\<rho> (vs_sk_settle w) = \<rho>' (vs_sk_settle w)"
    "\<rho> (vss_post_wallet_commit st) = \<rho>' (vss_post_wallet_commit st)" "\<rho> (vss_wallet_spend_nullifier st) = \<rho>' (vss_wallet_spend_nullifier st)"
    "\<rho> (vss_wallet_match_nullifier st) = \<rho>' (vss_wallet_match_nullifier st)" "\<rho> (vss_note_redeem_nullifier st) = \<rho>' (vss_note_redeem_nullifier st)"
    "\<rho> (vss_merkle_root st) = \<rho>' (vss_merkle_root st)" "\<rho> (vss_type st) = \<rho>' (vss_type st)"
    by (rule bspec [OF agree], rule settle_variables, simp)+
  ultimately show "(settle_witness_at \<rho> w, settle_statement_at \<rho> st) = (settle_witness_at \<rho>' w, settle_statement_at \<rho>' st)"
    by (simp only: settle_witness_at_def settle_statement_at_def)
qed

lemmas depends_settle_relation = depends_comp [OF depends_settle, where h = "\<lambda>(w, st). valid_settle_relation p w st" for p, unfolded prod.case]

lemma settle_at_simps [simp]:
  "vs_pre_wallet (settle_witness_at \<rho> w) = wallet_at \<rho> (vs_pre_wallet w)" "vs_post_wallet (settle_witness_at \<rho> w) = wallet_at \<rho> (vs_post_wallet w)"
  "vs_note (settle_witness_at \<rho> w) = note_at \<rho> (vs_note w)" "vs_sk_settle (settle_witness_at \<rho> w) = \<rho> (vs_sk_settle w)"
  "vs_pre_wallet_opening (settle_witness_at \<rho> w) = opening_at \<rho> (vs_pre_wallet_opening w)"
  "vs_note_opening (settle_witness_at \<rho> w) = opening_at \<rho> (vs_note_opening w)"
  "vss_post_wallet_commit (settle_statement_at \<rho> st) = \<rho> (vss_post_wallet_commit st)"
  "vss_wallet_spend_nullifier (settle_statement_at \<rho> st) = \<rho> (vss_wallet_spend_nullifier st)"
  "vss_wallet_match_nullifier (settle_statement_at \<rho> st) = \<rho> (vss_wallet_match_nullifier st)"
  "vss_note_redeem_nullifier (settle_statement_at \<rho> st) = \<rho> (vss_note_redeem_nullifier st)"
  "vss_merkle_root (settle_statement_at \<rho> st) = \<rho> (vss_merkle_root st)" "vss_type (settle_statement_at \<rho> st) = \<rho> (vss_type st)"
  by (simp_all add: settle_witness_at_def settle_statement_at_def)

context constraint_system
begin

lemma dec_masked:
  "dec (lc_vars a \<union> lc_vars b \<union> lc_vars x) P (masked cs a b x) (\<lambda>_. True) lc_vars
    (\<lambda>y \<rho>. lc_eval \<rho> y = of_bool (lc_eval \<rho> a = lc_eval \<rho> b) * lc_eval \<rho> x)"
  unfolding masked_def
  by (rule dec_andthen [OF dec_eq], blast, rule dec_andthen [OF dec_product]) (auto intro!: dec_yield)

lemma dec_mints_unique:
  assumes "\<And>b. b \<in> set bs \<Longrightarrow> balance_vars b \<subseteq> V"
  shows "dec V P (validate_balance_mints_unique cs bs) (\<lambda>\<rho>. unique_mints (map (balance_at \<rho>) bs)) (\<lambda>_. {}) (\<lambda>_ _. True)"
  unfolding validate_balance_mints_unique_def unique_mints_later
proof (rule dec_for_each)
  fix x assume x: "x \<in> set (with_later bs)"
  obtain b later where bl: "x = (b, later)"
    by fastforce
  have sub: "b \<in> set bs" "set later \<subseteq> set bs"
    using with_later_sub [of b later bs] x bl by auto
  have mint: "bv_mint c \<in> V" if "c \<in> set bs" for c
    using assms [OF that] by (simp add: balance_vars_def)
  let ?R = "\<lambda>c \<rho>. bv_mint (balance_at \<rho> b) \<noteq> bv_mint (balance_at \<rho> c) \<or> bv_mint (balance_at \<rho> b) = (0 :: 'f)"
  have dep: "depends V (?R c)" if "c \<in> set later" for c
    unfolding at_simps by (rule depends_comp2 [where h = "\<lambda>x y. x \<noteq> y \<or> x = 0"]) (use mint sub that in auto)
  then show dep_all: "depends V (\<lambda>\<rho> :: 'v \<Rightarrow> 'f. case x of (b, later) \<Rightarrow> \<forall>c\<in>set later. bv_mint (balance_at \<rho> b) \<noteq> bv_mint (balance_at \<rho> c) \<or> bv_mint (balance_at \<rho> b) = 0)"
    unfolding bl prod.case by (rule depends_ball)
  have inner: "dec (V \<union> {z}) (\<lambda>\<rho>. P \<rho> \<and> True \<and> \<rho> z = of_bool (lc_eval \<rho> (lc_var (bv_mint b)) = 0))
      (andthen (total (not_equal cs (lc_var (bv_mint b)) (lc_var (bv_mint c)))) (\<lambda>ne. andthen (total (or_gate cs ne (lc_var z))) (\<lambda>ne_or. constrain cs (lc_sub (lc_one cs) ne_or))))
      (?R c) (\<lambda>_. {}) (\<lambda>_ _. True)" if "c \<in> set later" for c z
    apply (rule dec_step [OF dec_not_equal dep [OF that]])
       apply (use mint sub that in auto)[3]
    apply (rule dec_step [OF dec_or dep [OF that]])
       apply auto[3]
    apply (rule dec_last [OF dec_constrain [of _ "lc_vars _"]])
      apply auto
    done
  show "dec V P (case x of (b, later) \<Rightarrow> andthen (total (eq_zero cs (lc_var (bv_mint b)))) (\<lambda>z. for_each (\<lambda>c.
      andthen (total (not_equal cs (lc_var (bv_mint b)) (lc_var (bv_mint c)))) (\<lambda>ne. andthen (total (or_gate cs ne (lc_var z))) (\<lambda>ne_or. constrain cs (lc_sub (lc_one cs) ne_or)))) later))
      (\<lambda>\<rho>. case x of (b, later) \<Rightarrow> \<forall>c\<in>set later. bv_mint (balance_at \<rho> b) \<noteq> bv_mint (balance_at \<rho> c) \<or> bv_mint (balance_at \<rho> b) = 0) (\<lambda>_. {}) (\<lambda>_ _. True)"
    unfolding bl prod.case
  proof (rule dec_andthen [OF dec_eq_zero])
    show "dec (V \<union> {z}) (\<lambda>\<rho>. P \<rho> \<and> True \<and> \<rho> z = of_bool (lc_eval \<rho> (lc_var (bv_mint b)) = 0)) (for_each (\<lambda>c.
        andthen (total (not_equal cs (lc_var (bv_mint b)) (lc_var (bv_mint c)))) (\<lambda>ne. andthen (total (or_gate cs ne (lc_var z))) (\<lambda>ne_or. constrain cs (lc_sub (lc_one cs) ne_or)))) later)
        (\<lambda>\<rho>. \<forall>c\<in>set later. ?R c \<rho>) (\<lambda>_. {}) (\<lambda>_ _. True)" for z
      by (rule dec_for_each, rule inner, assumption, rule depends_mono [OF dep], assumption, blast)
  qed (use dep_all mint sub in \<open>auto simp: bl\<close>)
qed

lemma dec_balance_updates:
  assumes "\<And>b. b \<in> set old \<union> set new \<Longrightarrow> balance_vars b \<subseteq> V" "note_vars n \<subseteq> V"
  shows "dec V P (validate_balance_updates cs old new n)
    (\<lambda>\<rho>. balances_settled (map (balance_at \<rho>) old) (map (balance_at \<rho>) new) (note_at \<rho> n)) (\<lambda>_. {}) (\<lambda>_ _. True)"
proof -
  let ?R = "\<lambda>b (\<rho> :: 'v \<Rightarrow> 'f). \<rho> (bv_amount b) = held (map (balance_at \<rho>) old) (\<rho> (bv_mint b)) + note_credit (note_at \<rho> n) (\<rho> (bv_mint b))"
  have vars: "bv_mint b \<in> V" "bv_amount b \<in> V" if "b \<in> set old \<union> set new" for b
    using assms(1) [OF that] by (auto simp: balance_vars_def)
  have note_in: "v \<in> V" if "v \<in> note_vars n" for v
    using that assms(2) by blast
  have dep_old: "depends V (\<lambda>\<rho> :: 'v \<Rightarrow> 'f. map (balance_at \<rho>) old)"
    by (rule depends_map [where f = "\<lambda>b \<rho>. balance_at \<rho> b"]) (use assms(1) in \<open>auto intro!: depends_balance_at\<close>)
  have dep: "depends V (?R b)" if "b \<in> set new" for b
  proof (rule dependsI2)
    fix \<rho> \<rho>' :: "'v \<Rightarrow> 'f" assume agree: "\<forall>v\<in>V. \<rho> v = \<rho>' v"
    have "\<rho> (bv_amount b) = \<rho>' (bv_amount b)" "\<rho> (bv_mint b) = \<rho>' (bv_mint b)"
      using vars [of b] that by (auto intro!: bspec [OF agree])
    then show "?R b \<rho> = ?R b \<rho>'"
      by (simp only: depends_eq [OF depends_note_at [OF assms(2)] agree] depends_eq [OF dep_old agree])
  qed
  have dep_all: "depends V (\<lambda>\<rho>. \<forall>b\<in>set new. ?R b \<rho>)"
    using dep by (rule depends_ball)
  have rel: "balances_settled (map (balance_at \<rho>) old) (map (balance_at \<rho>) new) (note_at \<rho> n) = (\<forall>b\<in>set new. ?R b \<rho>)" for \<rho>
    by (simp add: balances_settled_def)
  have old_sum: "dec (V \<union> U) P (sum_each (\<lambda>c. masked cs (lc_var (bv_mint c)) (lc_var (bv_mint b)) (lc_var (bv_amount c))) old (lc_var (var_zero cs)))
      (\<lambda>_. True) lc_vars (\<lambda>y \<rho>. lc_eval \<rho> y = \<rho> (var_zero cs) + held (map (balance_at \<rho>) old) (\<rho> (bv_mint b)))" if "b \<in> set new" for b U P
    by (rule dec_weaken [OF dec_sum_each [where V = V and g = "\<lambda>c \<rho>. of_bool (\<rho> (bv_mint c) = \<rho> (bv_mint b)) * \<rho> (bv_amount c)"]])
      (use vars that in \<open>auto intro!: dec_weaken [OF dec_masked] simp: held_def comp_def\<close>)
  have body: "dec (V \<union> lc_vars t1 \<union> lc_vars t2 \<union> lc_vars t3)
      (\<lambda>\<rho>. P \<rho> \<and> lc_eval \<rho> t1 = signed_amount (\<rho> (nv_direction1 n)) (\<rho> (nv_volume1 n)) \<and> lc_eval \<rho> t2 = signed_amount (\<rho> (nv_direction2 n)) (\<rho> (nv_volume2 n))
        \<and> lc_eval \<rho> t3 = signed_amount (\<rho> (nv_fee_direction n)) (\<rho> (nv_fee_volume n)))
      (let mint = lc_var (bv_mint b) in
        andthen (sum_each (\<lambda>c. masked cs (lc_var (bv_mint c)) mint (lc_var (bv_amount c))) old (lc_var (var_zero cs))) (\<lambda>expected_bal.
        andthen (masked cs mint (lc_var (nv_mint1 n)) t1) (\<lambda>m1. andthen (masked cs mint (lc_var (nv_mint2 n)) t2) (\<lambda>m2.
        andthen (masked cs mint (lc_var (nv_fee_mint n)) t3) (\<lambda>m3.
        constrain cs (lc_sub (lc_var (bv_amount b)) (lc_add (lc_add (lc_add expected_bal m1) m2) m3)))))))
      (?R b) (\<lambda>_. {}) (\<lambda>_ _. True)" if "b \<in> set new" for b t1 t2 t3
    unfolding Let_def
    apply (rule dec_step [OF old_sum [OF that, of "{}"] dep [OF that]])
       apply auto[3]
    apply (rule dec_step [OF dec_masked dep [OF that]])
       apply (use vars that note_in in \<open>auto simp: note_vars_def\<close>)[3]
    apply (rule dec_step [OF dec_masked dep [OF that]])
       apply (use vars that note_in in \<open>auto simp: note_vars_def\<close>)[3]
    apply (rule dec_step [OF dec_masked dep [OF that]])
       apply (use vars that note_in in \<open>auto simp: note_vars_def\<close>)[3]
    apply (rule dec_last [OF dec_constrain [of _ "V \<union> lc_vars _ \<union> lc_vars _ \<union> lc_vars _ \<union> lc_vars _"]])
      apply (use vars that in \<open>auto simp: note_credit_def\<close>)
    done
  show ?thesis
    unfolding rel validate_balance_updates_def
    apply (rule dec_step [OF dec_select dep_all])
       apply (use note_in in \<open>auto simp: note_vars_def\<close>)[3]
    apply (rule dec_step [OF dec_select dep_all])
       apply (use note_in in \<open>auto simp: note_vars_def\<close>)[3]
    apply (rule dec_step [OF dec_select dep_all])
       apply (use note_in in \<open>auto simp: note_vars_def\<close>)[3]
    apply (rule dec_for_each)
     apply (rule dec_weaken [OF body], assumption)
        apply (auto simp: signed_amount_def)[4]
    apply (rule depends_mono [OF dep], assumption, blast)
    done
qed

lemma dec_order_updates:
  assumes "\<And>ord. ord \<in> set old \<union> set new \<Longrightarrow> order_vars ord \<subseteq> V" "note_vars n \<subseteq> V" "\<And>n. 0 < n \<Longrightarrow> n \<le> 6 \<Longrightarrow> (of_nat n :: 'f) \<noteq> 0"
  shows "dec V P (validate_order_updates cs old new n)
    (\<lambda>\<rho>. orders_settled (map (order_at \<rho>) old) (map (order_at \<rho>) new) (note_at \<rho> n)) (\<lambda>_. {}) (\<lambda>_ _. True)"
proof -
  let ?R = "\<lambda>x (\<rho> :: 'v \<Rightarrow> 'f). case x of (ord, ord') \<Rightarrow> order_at \<rho> ord' = (order_at \<rho> ord)\<lparr>o_amount := o_amount (order_at \<rho> ord) - note_fills (note_at \<rho> n) (order_at \<rho> ord)\<rparr>"
  have note_in: "v \<in> V" if "v \<in> note_vars n" for v
    using that assms(2) by blast
  have scope: "order_vars ord \<subseteq> V \<and> order_vars ord' \<subseteq> V" if "(ord, ord') \<in> set (zip old new)" for ord ord'
    using set_zip_leftD [OF that] set_zip_rightD [OF that] assms(1) by auto
  have dep: "depends V (?R x)" if "x \<in> set (zip old new)" for x
  proof (rule dependsI2)
    fix \<rho> \<rho>' :: "'v \<Rightarrow> 'f" assume agree: "\<forall>v\<in>V. \<rho> v = \<rho>' v"
    have "order_at \<rho> (fst x) = order_at \<rho>' (fst x)" "order_at \<rho> (snd x) = order_at \<rho>' (snd x)"
      using scope [of "fst x" "snd x"] that by (auto intro!: depends_eq [OF depends_order_at agree])
    then show "?R x \<rho> = ?R x \<rho>'"
      by (simp only: split_def depends_eq [OF depends_note_at [OF assms(2)] agree])
  qed
  have dep_all: "depends V (\<lambda>\<rho>. \<forall>x\<in>set (zip old new). ?R x \<rho>)"
    using dep by (rule depends_ball)
  have rel: "orders_settled (map (order_at \<rho>) old) (map (order_at \<rho>) new) (note_at \<rho> n) = (\<forall>x\<in>set (zip old new). ?R x \<rho>)" for \<rho>
    by (auto simp: orders_settled_def zip_map_map)
  have body: "dec (V \<union> lc_vars t) (\<lambda>\<rho>. P \<rho> \<and> lc_eval \<rho> t = \<rho> (nv_volume1 n) * \<rho> (nv_type n))
      (andthen (validate_orders_equal_except_amount cs ord ord') (\<lambda>_.
        andthen (eq_vec cs [lc_var (nv_mint1 n), lc_var (nv_mint2 n)] [lc_var (ov_base_mint ord), lc_var (ov_quote_mint ord)]) (\<lambda>mint_pair_equal.
        andthen (total (cs_product cs (lc_var mint_pair_equal) t)) (\<lambda>masked_note_term.
        constrain cs (lc_sub (lc_sub (lc_var (ov_amount ord)) (lc_var masked_note_term)) (lc_var (ov_amount ord')))))))
      (?R (ord, ord')) (\<lambda>_. {}) (\<lambda>_ _. True)" if "(ord, ord') \<in> set (zip old new)" for ord ord' t
    unfolding validate_orders_equal_except_amount_def
    apply (rule dec_step [OF dec_constrain_eq_vec [of _ _ V] dep [OF that]])
         apply (use scope [OF that] in \<open>auto simp: order_vars_def order_at_def\<close>)[5]
    apply (rule dec_step [OF dec_eq_vec dep [OF that]])
         apply (use assms(3) scope [OF that] note_in in \<open>auto simp: order_vars_def note_vars_def\<close>)[5]
    apply (rule dec_step [OF dec_product dep [OF that]])
       apply auto[3]
    apply (rule dec_last [OF dec_constrain [of _ "V \<union> {_}"]])
      apply (use scope [OF that] in \<open>auto simp: order_vars_def order_at_def note_fills_def\<close>)
    done
  show ?thesis
    unfolding rel validate_order_updates_def
    apply (rule dec_step [OF dec_select dep_all])
       apply (use note_in in \<open>auto simp: note_vars_def\<close>)[3]
    apply (rule dec_for_each)
     apply (clarsimp simp only: split_paired_all prod.case)
     apply (rule dec_weaken [OF body], assumption)
        apply auto[4]
    apply (rule depends_mono [OF dep], assumption, blast)
    done
qed

lemma dec_state_primitives:
  assumes "valid_params p" "0 < rate p"
    "length (indices (vs_pre_wallet_opening w)) = length (elems (vs_pre_wallet_opening w))" "length (indices (vs_note_opening w)) = length (elems (vs_note_opening w))"
  shows "dec (settle_vars w st) P (validate_state_primitives cs p w st)
    (\<lambda>\<rho>. settle_primitives p (settle_witness_at \<rho> w) (settle_statement_at \<rho> st)) (\<lambda>_. {}) (\<lambda>_ _. True)"
proof -
  define V where "V = settle_vars w st"
  note step = dec_step [OF _ depends_comp [OF depends_settle [of w st, folded V_def], of "\<lambda>(x, y). settle_primitives p x y", unfolded prod.case]]
  note scope = settle_scope [of w st, folded V_def, THEN subsetD]
  note vars = settle_variables [of _ w st, folded V_def, simplified]
  have "dec V P (validate_state_primitives cs p w st)
    (\<lambda>\<rho>. settle_primitives p (settle_witness_at \<rho> w) (settle_statement_at \<rho> st)) (\<lambda>_. {}) (\<lambda>_ _. True)"
    unfolding validate_state_primitives_def Let_def
    apply (rule step [OF dec_wallet_commit [OF assms(1,2)]])
       apply (auto dest: scope)[3]
    apply (rule step [OF dec_opening [OF assms(1,2,3)]])
       apply (auto dest: scope simp: vars settle_primitives_def Let_def)[3]
    apply (rule step [OF dec_note_commit [OF assms(1,2)]])
       apply (auto dest: scope simp: vars)[3]
    apply (rule step [OF dec_opening [OF assms(1,2,4)]])
       apply (auto dest: scope simp: vars settle_primitives_def Let_def)[3]
    apply (rule step [OF dec_wallet_commit [OF assms(1,2)]])
       apply (auto dest: scope)[3]
    apply (rule step [OF dec_constrain [of _ "V \<union> lc_vars _"]])
        apply (auto simp: vars settle_primitives_def Let_def)[4]
    apply (rule step [OF dec_spend_nullifier [OF assms(1,2)]])
       apply (auto simp: vars)[3]
    apply (rule step [OF dec_constrain [of _ "V \<union> lc_vars _"]])
        apply (auto simp: vars settle_primitives_def Let_def)[4]
    apply (rule step [OF dec_match_nullifier [OF assms(1,2)]])
       apply (auto simp: vars)[3]
    apply (rule step [OF dec_constrain [of _ "V \<union> lc_vars _"]])
        apply (auto simp: vars settle_primitives_def Let_def)[4]
    apply (rule step [OF dec_note_redeem_nullifier [OF assms(1,2)]])
       apply (auto simp: vars)[3]
    apply (rule dec_last [OF dec_constrain [of _ "V \<union> lc_vars _"]])
       apply (auto simp: vars settle_primitives_def Let_def)
    done
  then show ?thesis
    by (simp only: V_def)
qed

lemma dec_new_balances:
  "dec (settle_vars w st) P (validate_new_balances cs w)
    (\<lambda>\<rho>. unique_mints (w_balances (wallet_at \<rho> (vs_post_wallet w)))
      \<and> balances_settled (w_balances (wallet_at \<rho> (vs_pre_wallet w))) (w_balances (wallet_at \<rho> (vs_post_wallet w))) (note_at \<rho> (vs_note w))) (\<lambda>_. {}) (\<lambda>_ _. True)"
proof -
  have sub: "balance_vars b \<subseteq> settle_vars w st" if "b \<in> set (wv_balances (vs_pre_wallet w)) \<union> set (wv_balances (vs_post_wallet w))" for b
    using that unfolding settle_vars_def wallet_vars_def by blast
  show ?thesis
    unfolding validate_new_balances_def
    apply (rule dec_step [OF dec_mints_unique [OF sub] depends_comp [OF depends_settle [of w st], of "\<lambda>(x, y). unique_mints (w_balances (vs_post_wallet x))
        \<and> balances_settled (w_balances (vs_pre_wallet x)) (w_balances (vs_post_wallet x)) (vs_note x)", unfolded prod.case settle_at_simps]])
        apply (auto simp: wallet_at_def)[4]
    apply (rule dec_last [OF dec_balance_updates [OF sub]])
       apply (auto simp: wallet_at_def settle_scope)
    done
qed

lemma dec_valid_settle:
  assumes "valid_params p" "0 < rate p" "\<And>n. 0 < n \<Longrightarrow> n \<le> 6 \<Longrightarrow> (of_nat n :: 'f) \<noteq> 0"
    "length (indices (vs_pre_wallet_opening w)) = length (elems (vs_pre_wallet_opening w))" "length (indices (vs_note_opening w)) = length (elems (vs_note_opening w))"
  shows "dec (settle_vars w st) P (valid_settle cs p w st)
    (\<lambda>\<rho>. valid_settle_relation p (settle_witness_at \<rho> w) (settle_statement_at \<rho> st)) (\<lambda>_. {}) (\<lambda>_ _. True)"
proof -
  define V where "V = settle_vars w st"
  note step = dec_step [OF _ depends_comp [OF depends_settle [of w st, folded V_def], of "\<lambda>(x, y). valid_settle_relation p x y", unfolded prod.case]]
  note vars = settle_variables [of _ w st, folded V_def, simplified]
  note simps = valid_settle_relation_def Let_def wallet_at_def keys_at_def
  note note_in = settle_scope(3) [of w st, folded V_def]
  have orders: "order_vars ord \<subseteq> V" if "ord \<in> set (wv_orders (vs_pre_wallet w)) \<union> set (wv_orders (vs_post_wallet w))" for ord
    using that unfolding V_def settle_vars_def wallet_vars_def by blast
  have "dec V P (valid_settle cs p w st)
    (\<lambda>\<rho>. valid_settle_relation p (settle_witness_at \<rho> w) (settle_statement_at \<rho> st)) (\<lambda>_. {}) (\<lambda>_ _. True)"
    unfolding valid_settle_def Let_def
    apply (rule step [OF dec_state_primitives [OF assms(1,2,4,5), of st, folded V_def]])
       apply (auto simp: simps)[3]
    apply (rule step [OF dec_constrain [of _ V]], (auto simp: vars simps)[4])+
    apply (rule step [OF dec_hash_constrain [OF assms(1,2)]])
       apply (auto simp: vars simps)[3]
    apply (rule step [OF dec_constrain [of _ "V \<union> {var_one cs}"]], (auto simp: vars simps)[4])
    apply (rule step [OF dec_constrain [of _ V]], (auto simp: vars simps)[4])
    apply (rule step [OF dec_new_balances [of w st, folded V_def]])
       apply (auto simp: simps)[3]
    apply (rule dec_last [OF dec_order_updates [OF orders _ assms(3)]])
    apply (auto simp: simps note_in)
    done
  then show ?thesis
    by (simp only: V_def)
qed

end

subsection \<open>What a proof of VALID SETTLE shows\<close>

text \<open>
  An example: a wallet of 10 of mint 5 and 100 of mint 6 with an order for 20 of mint 5, and the
  note of a match that bought 3 for 21. The wallet and the note are the two leaves of the tree.
\<close>

definition settling_wallet :: "nat \<Rightarrow> nat \<Rightarrow> nat \<Rightarrow> nat \<Rightarrow> (nat, rat) WalletVar" where
  "settling_wallet base quote remaining r = \<lparr>wv_balances = [\<lparr>bv_mint = 2, bv_amount = base\<rparr>, \<lparr>bv_mint = 3, bv_amount = quote\<rparr>],
    wv_orders = [\<lparr>ov_quote_mint = 3, ov_base_mint = 2, ov_side = 1, ov_price = \<lparr>fp_repr = lc_var 4\<rparr>, ov_amount = remaining, ov_timestamp = 1\<rparr>],
    wv_fees = [], wv_keys = \<lparr>kv_pk_root = 5, kv_pk_match = 5, kv_pk_settle = 6, kv_pk_view = 5\<rparr>, wv_randomness = r\<rparr>"

definition settling_witness :: "(nat, rat) settle_witness_var" where
  "settling_witness = \<lparr>vs_pre_wallet = settling_wallet 8 9 10 11, vs_pre_wallet_opening = \<lparr>elems = [20], indices = [1]\<rparr>,
    vs_post_wallet = settling_wallet 12 13 14 15,
    vs_note = \<lparr>nv_mint1 = 2, nv_volume1 = 16, nv_direction1 = 1, nv_mint2 = 3, nv_volume2 = 17, nv_direction2 = 0,
      nv_fee_mint = 3, nv_fee_volume = 1, nv_fee_direction = 0, nv_type = 0, nv_randomness = 18\<rparr>,
    vs_note_commitment = 1, vs_note_opening = \<lparr>elems = [19], indices = [0]\<rparr>, vs_sk_settle = 7\<rparr>"

definition settling_statement :: "nat ValidSettleStatementVar" where
  "settling_statement = \<lparr>vss_post_wallet_commit = 22, vss_post_wallet_ciphertext = [], vss_wallet_spend_nullifier = 23,
    vss_wallet_match_nullifier = 24, vss_note_redeem_nullifier = 25, vss_merkle_root = 21, vss_type = 0\<rparr>"

definition settling_values :: "rat list" where
  "settling_values = (let p = toy_params; pk = hash_value p [77];
    c = hash_value p [5, 10, 6, 100, 6, 5, 0, 7, 20, 30, 30, pk, 30, 40];
    n = hash_value p [5, 3, 0, 6, 21, 1, 6, 0, 1, 1, 50, pk]
    in [5, 6, 7, 30, pk, 77, 10, 100, 20, 40, 13, 79, 17, 42, 3, 21, 50, c, n, hash_value p [c, n],
      hash_value p [5, 13, 6, 79, 6, 5, 0, 7, 17, 30, 30, pk, 30, 42], hash_value p [c, 40], hash_value p [c, 41], hash_value p [n, pk]])"

lemma settling_assigned:
  "r1cs_sat (committed settling_values) (r1cs_assigned (committed settling_values))"
  "valid_settle_relation toy_params (settle_witness_at (r1cs_assigned (committed settling_values)) settling_witness)
    (settle_statement_at (r1cs_assigned (committed settling_values)) settling_statement)"
  using r1cs.honest_sat [OF committed_honest]
  by (auto simp: valid_settle_relation_def settle_primitives_def settling_witness_def settling_statement_def
      settling_wallet_def settling_values_def Let_def r1cs_assigned_def committed_def balance_at_def order_at_def keys_at_def wallet_at_def note_at_def
      opening_at_def wallet_commitment_def wallet_elements_def note_commitment_def opens_to_def unique_mints_def balances_settled_def orders_settled_def
      held_def note_credit_def note_fills_def signed_amount_def)

lemma settling_scope: "settle_vars settling_witness settling_statement \<subseteq> r1cs_wires (committed settling_values)"
  by (auto simp: settle_vars_def wallet_vars_def balance_vars_def order_vars_def fee_vars_def key_vars_def note_vars_def opening_vars_def
      settling_witness_def settling_statement_def settling_wallet_def settling_values_def Let_def)

lemma settling_run:
  obtains s' \<rho> where "valid_settle r1cs_ops toy_params settling_witness settling_statement (committed settling_values) = Returns ((), s')" "r1cs_sat s' \<rho>"
    "\<forall>v\<in>r1cs_wires (committed settling_values). \<rho> v = r1cs_assigned (committed settling_values) v"
proof -
  have "r1cs.dec (settle_vars settling_witness settling_statement) (\<lambda>_. True) (valid_settle r1cs_ops toy_params settling_witness settling_statement)
      (\<lambda>\<rho>. valid_settle_relation toy_params (settle_witness_at \<rho> settling_witness) (settle_statement_at \<rho> settling_statement)) (\<lambda>_. {}) (\<lambda>_ _. True)"
    by (rule r1cs.dec_valid_settle) (auto simp: toy_params_valid settling_witness_def)
  from r1cs.dec_exact [OF this depends_settle_relation committed_closed settling_scope] settling_assigned show ?thesis
    by (metis (lifting) that unit.exhaust)
qed

lemma settle_conserves:
  assumes "valid_settle_relation p w st" "b \<in> set (w_balances (vs_post_wallet w))" "bv_mint b \<noteq> 0"
  shows "held (w_balances (vs_post_wallet w)) (bv_mint b) = held (w_balances (vs_pre_wallet w)) (bv_mint b) + note_credit (vs_note w) (bv_mint b)"
proof -
  have "unique_mints (w_balances (vs_post_wallet w))" "balances_settled (w_balances (vs_pre_wallet w)) (w_balances (vs_post_wallet w)) (vs_note w)"
    using assms(1) by (simp_all add: valid_settle_relation_def Let_def)
  then show ?thesis
    using held_unique [OF _ assms(2,3)] assms(2) by (simp add: balances_settled_def)
qed

text \<open>
  C23: the circuit proves exactly that the wallet and the note open to the Merkle root, that the
  new commitment and the three nullifiers are computed from them, that the keys are kept and the
  prover knows the secret settle key, that the randomness grows by two, that the type is the
  note's, that the nonzero mints of the new wallet are distinct, that every balance of it is what
  the old wallet held of its mint plus what the note credits, and that every order is the old one
  less what the note fills of it. The new wallet's fees and its ciphertexts are not among it.\<close>

theorem valid_settle_exact:
  fixes cs :: "('s, 'v, 'f::field) cs_ops"
  assumes "constraint_system cs sat wires assigned" "valid_params p" "0 < rate p" "\<And>n. 0 < n \<Longrightarrow> n \<le> 6 \<Longrightarrow> (of_nat n :: 'f) \<noteq> 0"
    and "length (indices (vs_pre_wallet_opening w)) = length (elems (vs_pre_wallet_opening w))"
    and "length (indices (vs_note_opening w)) = length (elems (vs_note_opening w))"
    and "closed_state sat wires s" "settle_vars w st \<subseteq> wires s"
  shows "\<exists>s'. valid_settle cs p w st s = Returns ((), s')
    \<and> (\<forall>\<rho>. sat s \<rho> \<longrightarrow> ((\<exists>\<rho>'. (\<forall>v\<in>wires s. \<rho>' v = \<rho> v) \<and> sat s' \<rho>')
        \<longleftrightarrow> valid_settle_relation p (settle_witness_at \<rho> w) (settle_statement_at \<rho> st)))"
  using constraint_system.dec_exact [OF assms(1) constraint_system.dec_valid_settle [OF assms(1-6), of st] depends_settle_relation assms(7,8)] by simp

theorem valid_settle_exact_witness:
  "\<exists>s' \<rho>. valid_settle r1cs_ops toy_params settling_witness settling_statement (committed settling_values) = Returns ((), s')
    \<and> r1cs_sat s' \<rho> \<and> (\<forall>v\<in>r1cs_wires (committed settling_values). \<rho> v = r1cs_assigned (committed settling_values) v)"
proof -
  let ?s = "committed settling_values" and ?w = settling_witness and ?st = settling_statement
  obtain s' where run: "valid_settle r1cs_ops toy_params ?w ?st ?s = Returns ((), s')"
    and exact: "\<And>\<rho>. r1cs_sat ?s \<rho> \<Longrightarrow> (\<exists>\<rho>'. (\<forall>v\<in>r1cs_wires ?s. \<rho>' v = \<rho> v) \<and> r1cs_sat s' \<rho>')
        \<longleftrightarrow> valid_settle_relation toy_params (settle_witness_at \<rho> ?w) (settle_statement_at \<rho> ?st)"
    using valid_settle_exact [OF r1cs_contract toy_params_valid(1) _ _ _ _ committed_closed settling_scope]
    by (auto simp: settling_witness_def)
  then show ?thesis
    using exact [OF settling_assigned(1)] settling_assigned(2) by blast
qed

text \<open>
  Once the constraints of the circuit hold, the wallet holds of every nonzero mint of its new
  balances what it held before plus what the note credits: the balance updates neither create nor
  lose anything else of a mint that stays in the wallet.\<close>

theorem valid_settle_conserves:
  fixes cs :: "('s, 'v, 'f::field) cs_ops"
  assumes "constraint_system cs sat wires assigned" "valid_params p" "0 < rate p" "\<And>n. 0 < n \<Longrightarrow> n \<le> 6 \<Longrightarrow> (of_nat n :: 'f) \<noteq> 0"
    and "length (indices (vs_pre_wallet_opening w)) = length (elems (vs_pre_wallet_opening w))"
    and "length (indices (vs_note_opening w)) = length (elems (vs_note_opening w))"
    and "valid_settle cs p w st s = Returns ((), s')" "sat s' \<rho>"
    and "b \<in> set (wv_balances (vs_post_wallet w))" "\<rho> (bv_mint b) \<noteq> 0"
  shows "held (map (balance_at \<rho>) (wv_balances (vs_post_wallet w))) (\<rho> (bv_mint b))
    = held (map (balance_at \<rho>) (wv_balances (vs_pre_wallet w))) (\<rho> (bv_mint b)) + note_credit (note_at \<rho> (vs_note w)) (\<rho> (bv_mint b))"
proof -
  have "valid_settle_relation p (settle_witness_at \<rho> w) (settle_statement_at \<rho> st)"
    using constraint_system.dec_sound [OF assms(1) constraint_system.dec_valid_settle [OF assms(1-6)]] assms(7,8) by blast
  from settle_conserves [OF this, of "balance_at \<rho> b"] assms(9,10) show ?thesis
    by (simp add: wallet_at_def)
qed

theorem valid_settle_conserves_witness:
  "\<exists>s' \<rho>. valid_settle r1cs_ops toy_params settling_witness settling_statement (committed settling_values) = Returns ((), s') \<and> r1cs_sat s' \<rho>
    \<and> held (map (balance_at \<rho>) (wv_balances (vs_post_wallet settling_witness))) 5
      = held (map (balance_at \<rho>) (wv_balances (vs_pre_wallet settling_witness))) 5 + note_credit (note_at \<rho> (vs_note settling_witness)) 5"
proof -
  obtain s' \<rho> where run: "valid_settle r1cs_ops toy_params settling_witness settling_statement (committed settling_values) = Returns ((), s')" "r1cs_sat s' \<rho>"
    and \<rho>: "\<forall>v\<in>r1cs_wires (committed settling_values). \<rho> v = r1cs_assigned (committed settling_values) v"
    by (rule settling_run)
  have mint: "\<rho> 2 = 5"
    using bspec [OF \<rho>, of 2] by (simp add: settling_values_def Let_def r1cs_assigned_def committed_def r1cs_wires_def)
  show ?thesis
    using valid_settle_conserves [OF r1cs_contract toy_params_valid(1) _ _ _ _ run, of "\<lparr>bv_mint = 2, bv_amount = 12\<rparr>"] run
    by (intro exI [of _ s'] exI [of _ \<rho>] conjI) (simp_all add: mint, simp_all add: mint settling_witness_def settling_wallet_def)
qed

end
