(* ===== verification/Valid_Wallet_Update.thy ===== *)
theory Valid_Wallet_Update
  imports Circuit_Values
begin

section \<open>VALID WALLET UPDATE\<close>

text \<open>
  The circuit of \<open>zk_circuits/valid_wallet_update.rs\<close>: the prover replaces a wallet in the state
  tree by one with other orders, a deposit or withdrawal and a transfer to a note. The arrays of
  the two wallets have the same sizes, so the loop over the orders walks the pairs of both.
\<close>

record ('w, 'v) ValidWalletUpdateWitnessVar =
  wu_wallet1 :: 'w
  wu_wallet2 :: 'w
  wu_wallet1_opening :: "'v MerkleOpeningVar"
  wu_internal_transfer :: "'v \<times> 'v"

record 'v ValidWalletUpdateStatement =
  wus_timestamp :: 'v
  wus_pk_root :: 'v
  wus_new_wallet_commitment :: 'v
  wus_wallet_spend_nullifier :: 'v
  wus_wallet_match_nullifier :: 'v
  wus_merkle_root :: 'v
  wus_external_transfer :: "'v \<times> 'v \<times> 'v"

type_synonym ('v, 'f) update_witness_var = "(('v, 'f) WalletVar, 'v) ValidWalletUpdateWitnessVar"
type_synonym 'f update_witness_value = "('f WalletValue, 'f) ValidWalletUpdateWitnessVar"

definition constrain_keys_equal ::
  "('s, 'v, 'f::field) cs_ops \<Rightarrow> ('v, 'f) WalletVar \<Rightarrow> ('v, 'f) WalletVar \<Rightarrow> ('s, unit) circ" where
  "constrain_keys_equal cs wallet1 wallet2 =
    andthen (constrain cs (lc_sub (lc_var (kv_pk_root (wv_keys wallet1))) (lc_var (kv_pk_root (wv_keys wallet2))))) (\<lambda>_.
    andthen (constrain cs (lc_sub (lc_var (kv_pk_match (wv_keys wallet1))) (lc_var (kv_pk_match (wv_keys wallet2))))) (\<lambda>_.
    andthen (constrain cs (lc_sub (lc_var (kv_pk_settle (wv_keys wallet1))) (lc_var (kv_pk_settle (wv_keys wallet2))))) (\<lambda>_.
    constrain cs (lc_sub (lc_var (kv_pk_view (wv_keys wallet1))) (lc_var (kv_pk_view (wv_keys wallet2)))))))"

definition constrain_unique_balance_mints :: "('s, 'v, 'f::field) cs_ops \<Rightarrow> 'v BalanceVar list \<Rightarrow> ('s, unit) circ" where
  "constrain_unique_balance_mints cs balances = for_each (\<lambda>(balance_i, later). for_each (\<lambda>balance_j.
      andthen (total (not_equal cs (lc_var (bv_mint balance_i)) (lc_var (bv_mint balance_j)))) (\<lambda>ij_unique.
      andthen (total (cs_product cs (lc_var (bv_mint balance_i)) (lc_sub (lc_one cs) ij_unique))) (\<lambda>constraint_poly.
      constrain cs (lc_var constraint_poly)))) later) (with_later balances)"

text \<open>
  The loop over the new balances carries the two sums of mint comparisons: how many of the new
  balances have the mint of the external and of the internal transfer.
\<close>

definition masked_difference ::
  "('s, 'v, 'f::field) cs_ops \<Rightarrow> 'v \<Rightarrow> 'v \<Rightarrow> ('v, 'f) lc \<Rightarrow> ('s, 'v \<times> 'v) circ" where
  "masked_difference cs mint mint' term =
    andthen (total (eq_zero cs (lc_sub (lc_var mint) (lc_var mint')))) (\<lambda>equal.
    andthen (total (cs_product cs (lc_var equal) term)) (\<lambda>x. yield (equal, x)))"

definition validate_new_balance ::
  "('f::field \<Rightarrow> nat) \<Rightarrow> ('s, 'v, 'f) cs_ops \<Rightarrow> 'v BalanceVar list \<Rightarrow> 'v \<times> 'v \<Rightarrow> 'v \<Rightarrow> ('v, 'f) lc \<Rightarrow> 'v BalanceVar
    \<Rightarrow> ('v, 'f) lc \<times> ('v, 'f) lc \<Rightarrow> ('s, ('v, 'f) lc \<times> ('v, 'f) lc) circ" where
  "validate_new_balance canon cs old_balances internal_transfer external_mint external_transfer_term new_balance present =
    andthen (sum_each (\<lambda>old_balance.
        andthen (masked_difference cs (bv_mint new_balance) (bv_mint old_balance) (lc_var (bv_amount old_balance))) (\<lambda>(_, masked_amount).
        yield (lc_var masked_amount))) old_balances (lc_var (var_zero cs))) (\<lambda>expected_amount.
    andthen (masked_difference cs (bv_mint new_balance) external_mint external_transfer_term) (\<lambda>(equals_external_transfer_mint, external_term).
    andthen (masked_difference cs (bv_mint new_balance) (fst internal_transfer) (lc_var (snd internal_transfer))) (\<lambda>(equals_internal_transfer_mint, internal_term).
    andthen (constrain cs (lc_sub (lc_var (bv_amount new_balance))
      (lc_sub (lc_add expected_amount (lc_var external_term)) (lc_var internal_term)))) (\<lambda>_.
    andthen (effect (constrain_greater_than_zero 64 canon cs (lc_var (bv_amount new_balance)))) (\<lambda>_.
    yield (lc_add (fst present) (lc_var equals_external_transfer_mint), lc_add (snd present) (lc_var equals_internal_transfer_mint)))))))"

definition validate_transfers ::
  "('f::field \<Rightarrow> nat) \<Rightarrow> ('s, 'v, 'f) cs_ops \<Rightarrow> 'v BalanceVar list \<Rightarrow> 'v BalanceVar list \<Rightarrow> 'v \<times> 'v \<Rightarrow> 'v \<times> 'v \<times> 'v \<Rightarrow> ('s, unit) circ" where
  "validate_transfers canon cs new_balances old_balances internal_transfer external_transfer =
    (case external_transfer of (external_mint, external_amount, external_direction) \<Rightarrow>
    andthen (constrain_unique_balance_mints cs new_balances) (\<lambda>_.
    andthen (total (select_gadget cs (lc_neg (lc_var external_amount)) (lc_var external_amount) (lc_var external_direction))) (\<lambda>external_transfer_term.
    andthen (fold_each (validate_new_balance canon cs old_balances internal_transfer external_mint external_transfer_term) new_balances
      (lc_var (var_zero cs), lc_var (var_zero cs))) (\<lambda>(external_transfer_mint_present, internal_transfer_mint_present).
    andthen (total (eq_zero cs (lc_var (fst internal_transfer)))) (\<lambda>internal_transfer_equals_zero.
    andthen (total (or_gate cs (lc_var internal_transfer_equals_zero) internal_transfer_mint_present)) (\<lambda>internal_zero_or_valid_balance.
    andthen (constrain cs (lc_sub (lc_one cs) internal_zero_or_valid_balance)) (\<lambda>_.
    andthen (total (eq_gadget cs (lc_var external_direction) (lc_var (var_zero cs)))) (\<lambda>external_transfer_is_deposit.
    andthen (total (or_gate cs (lc_var external_transfer_is_deposit) external_transfer_mint_present)) (\<lambda>external_deposit_or_valid_balance.
    constrain cs (lc_sub (lc_one cs) external_deposit_or_valid_balance))))))))))"

definition orders_equal_except_timestamp ::
  "('s, 'v, 'f::field) cs_ops \<Rightarrow> ('v, 'f) OrderVar \<Rightarrow> ('v, 'f) OrderVar \<Rightarrow> ('s, 'v) circ" where
  "orders_equal_except_timestamp cs order1 order2 = eq_vec cs
    [lc_var (ov_quote_mint order1), lc_var (ov_base_mint order1), lc_var (ov_side order1), lc_var (ov_amount order1), fp_repr (ov_price order1)]
    [lc_var (ov_quote_mint order2), lc_var (ov_base_mint order2), lc_var (ov_side order2), lc_var (ov_amount order2), fp_repr (ov_price order2)]"

definition order_is_zero :: "('s, 'v, 'f::field) cs_ops \<Rightarrow> ('v, 'f) OrderVar \<Rightarrow> ('s, 'v) circ" where
  "order_is_zero cs order = (let zero = var_zero cs in orders_equal_except_timestamp cs order
    \<lparr>ov_quote_mint = zero, ov_base_mint = zero, ov_side = zero, ov_price = \<lparr>fp_repr = lc_var zero\<rparr>, ov_amount = zero, ov_timestamp = zero\<rparr>)"

definition constrain_unique_order_pairs :: "('s, 'v, 'f::field) cs_ops \<Rightarrow> ('v, 'f) OrderVar list \<Rightarrow> ('s, unit) circ" where
  "constrain_unique_order_pairs cs orders = for_each (\<lambda>(order_i, later).
    andthen (order_is_zero cs order_i) (\<lambda>order_zero. for_each (\<lambda>order_j.
      andthen (eq_vec cs [lc_var (ov_quote_mint order_i), lc_var (ov_base_mint order_i)] [lc_var (ov_quote_mint order_j), lc_var (ov_base_mint order_j)]) (\<lambda>mints_equal.
      andthen (total (cs_product cs (lc_var mints_equal) (lc_sub (lc_one cs) (lc_var order_zero)))) (\<lambda>constraint_poly.
      constrain cs (lc_var constraint_poly)))) later)) (with_later orders)"

definition constrain_updated_order_timestamps ::
  "('s, 'v, 'f::field) cs_ops \<Rightarrow> ('v, 'f) OrderVar list \<Rightarrow> ('v, 'f) OrderVar list \<Rightarrow> 'v \<Rightarrow> ('s, unit) circ" where
  "constrain_updated_order_timestamps cs new_orders old_orders new_timestamp = for_each (\<lambda>(order, old_order).
    andthen (orders_equal_except_timestamp cs order old_order) (\<lambda>equals_old_order.
    andthen (total (eq_gadget cs (lc_var (ov_timestamp order)) (lc_var (ov_timestamp old_order)))) (\<lambda>timestamp_not_updated.
    andthen (total (eq_gadget cs (lc_var (ov_timestamp order)) (lc_var new_timestamp))) (\<lambda>timestamp_updated.
    andthen (total (and_gate cs (lc_var equals_old_order) (lc_var timestamp_not_updated))) (\<lambda>equal_and_not_updated.
    andthen (total (and_gate cs (lc_sub (lc_one cs) (lc_var equals_old_order)) (lc_var timestamp_updated))) (\<lambda>not_equal_and_updated.
    andthen (total (or_gate cs (lc_var not_equal_and_updated) (lc_var equal_and_not_updated))) (\<lambda>constraint.
    constrain cs (lc_sub (lc_one cs) constraint)))))))) (zip new_orders old_orders)"

definition validate_wallet_orders ::
  "('s, 'v, 'f::field) cs_ops \<Rightarrow> ('v, 'f) OrderVar list \<Rightarrow> ('v, 'f) OrderVar list \<Rightarrow> 'v \<Rightarrow> ('s, unit) circ" where
  "validate_wallet_orders cs new_orders old_orders new_timestamp =
    andthen (constrain_unique_order_pairs cs new_orders) (\<lambda>_.
    constrain_updated_order_timestamps cs new_orders old_orders new_timestamp)"

definition valid_wallet_update ::
  "('f::field \<Rightarrow> nat) \<Rightarrow> ('s, 'v, 'f) cs_ops \<Rightarrow> 'f PoseidonSpongeParameters \<Rightarrow> ('v, 'f) update_witness_var
    \<Rightarrow> 'v \<Rightarrow> 'v \<Rightarrow> 'v \<Rightarrow> 'v \<Rightarrow> 'v \<Rightarrow> 'v \<Rightarrow> 'v \<times> 'v \<times> 'v \<Rightarrow> ('s, unit) circ" where
  "valid_wallet_update canon cs p witness new_time root_key merkle_rt match_null spend_null new_wallet_commit external_transfer =
    (let wallet1 = wu_wallet1 witness; wallet2 = wu_wallet2 witness; direction = snd (snd external_transfer) in
    andthen (wallet_commit cs p wallet2) (\<lambda>new_wallet_commit_res.
    andthen (constrain cs (lc_sub (lc_var new_wallet_commit) new_wallet_commit_res)) (\<lambda>_.
    andthen (wallet_commit cs p wallet1) (\<lambda>old_wallet_commit.
    andthen (effect (compute_and_constrain_root_prehashed cs p old_wallet_commit (wu_wallet1_opening witness) (lc_var merkle_rt))) (\<lambda>_.
    andthen (spend_nullifier cs p (wv_randomness wallet1) old_wallet_commit) (\<lambda>spend_nullifier_res.
    andthen (gadget_match_nullifier cs p (wv_randomness wallet1) old_wallet_commit) (\<lambda>match_nullifier_res.
    andthen (constrain cs (lc_sub (lc_var spend_null) spend_nullifier_res)) (\<lambda>_.
    andthen (constrain cs (lc_sub (lc_var match_null) match_nullifier_res)) (\<lambda>_.
    andthen (constrain cs (lc_sub (lc_var root_key) (lc_var (kv_pk_root (wv_keys wallet1))))) (\<lambda>_.
    andthen (constrain_keys_equal cs wallet1 wallet2) (\<lambda>_.
    andthen (constrain cs (lc_sub (lc_add (lc_var (wv_randomness wallet1)) (lc_const cs 2)) (lc_var (wv_randomness wallet2)))) (\<lambda>_.
    andthen (total (cs_product cs (lc_var direction) (lc_sub (lc_one cs) (lc_var direction)))) (\<lambda>external_transfer_binary.
    andthen (constrain cs (lc_var external_transfer_binary)) (\<lambda>_.
    andthen (validate_transfers canon cs (wv_balances wallet2) (wv_balances wallet1) (wu_internal_transfer witness) external_transfer) (\<lambda>_.
    validate_wallet_orders cs (wv_orders wallet2) (wv_orders wallet1) new_time)))))))))))))))"

subsection \<open>The relation it proves\<close>

text \<open>
  What the transfers add to the amount of a mint; how often a mint occurs; orders equal up to their
  timestamp; pairs listed once unless their order is zero; timestamps kept or set to the new one.
\<close>

definition transfer_credit :: "'f::field \<times> 'f \<Rightarrow> 'f \<times> 'f \<times> 'f \<Rightarrow> 'f \<Rightarrow> 'f" where
  "transfer_credit internal external m = (case external of (mint, volume, direction) \<Rightarrow>
    of_bool (m = mint) * signed_amount direction volume - of_bool (m = fst internal) * snd internal)"

definition mint_count :: "'f BalanceVar list \<Rightarrow> 'f \<Rightarrow> nat" where
  "mint_count bs m = length (filter (\<lambda>b. bv_mint b = m) bs)"

definition transfers_applied :: "'f::field BalanceVar list \<Rightarrow> 'f BalanceVar list \<Rightarrow> 'f \<times> 'f \<Rightarrow> 'f \<times> 'f \<times> 'f \<Rightarrow> bool" where
  "transfers_applied old new internal external \<longleftrightarrow>
    unique_mints new \<and> (\<forall>b\<in>set new. bv_amount b = held old (bv_mint b) + transfer_credit internal external (bv_mint b))
    \<and> (fst internal = 0 \<or> of_nat (mint_count new (fst internal)) = (1 :: 'f))
    \<and> (snd (snd external) = 0 \<or> of_nat (mint_count new (fst external)) = (1 :: 'f))"

definition zero_order :: "'f::field OrderValue" where
  "zero_order = \<lparr>o_quote_mint = 0, o_base_mint = 0, o_side = 0, o_price = 0, o_amount = 0, o_timestamp = 0\<rparr>"

definition same_terms :: "'f OrderValue \<Rightarrow> 'f OrderValue \<Rightarrow> bool" where
  "same_terms ord ord' \<longleftrightarrow> ord\<lparr>o_timestamp := o_timestamp ord'\<rparr> = ord'"

definition unique_pairs :: "'f::field OrderValue list \<Rightarrow> bool" where
  "unique_pairs ords \<longleftrightarrow> (\<forall>(ord, later)\<in>set (with_later ords). same_terms ord zero_order
    \<or> (\<forall>ord'\<in>set later. (o_quote_mint ord, o_base_mint ord) \<noteq> (o_quote_mint ord', o_base_mint ord')))"

definition orders_stamped :: "'f OrderValue list \<Rightarrow> 'f OrderValue list \<Rightarrow> 'f \<Rightarrow> bool" where
  "orders_stamped old new now \<longleftrightarrow> (\<forall>(ord, ord')\<in>set (zip new old). o_timestamp ord = (if same_terms ord ord' then o_timestamp ord' else now))"

definition update_witness_at :: "('v \<Rightarrow> 'f::field) \<Rightarrow> ('v, 'f) update_witness_var \<Rightarrow> 'f update_witness_value" where
  "update_witness_at \<rho> w = \<lparr>wu_wallet1 = wallet_at \<rho> (wu_wallet1 w), wu_wallet2 = wallet_at \<rho> (wu_wallet2 w),
    wu_wallet1_opening = opening_at \<rho> (wu_wallet1_opening w), wu_internal_transfer = map_prod \<rho> \<rho> (wu_internal_transfer w)\<rparr>"

definition update_statement_at :: "('v \<Rightarrow> 'f) \<Rightarrow> 'v ValidWalletUpdateStatement \<Rightarrow> 'f ValidWalletUpdateStatement" where
  "update_statement_at \<rho> st = \<lparr>wus_timestamp = \<rho> (wus_timestamp st), wus_pk_root = \<rho> (wus_pk_root st),
    wus_new_wallet_commitment = \<rho> (wus_new_wallet_commitment st), wus_wallet_spend_nullifier = \<rho> (wus_wallet_spend_nullifier st),
    wus_wallet_match_nullifier = \<rho> (wus_wallet_match_nullifier st), wus_merkle_root = \<rho> (wus_merkle_root st),
    wus_external_transfer = map_prod \<rho> (map_prod \<rho> \<rho>) (wus_external_transfer st)\<rparr>"

definition update_vars :: "('v, 'f) update_witness_var \<Rightarrow> 'v ValidWalletUpdateStatement \<Rightarrow> 'v set" where
  "update_vars w st = wallet_vars (wu_wallet1 w) \<union> wallet_vars (wu_wallet2 w) \<union> opening_vars (wu_wallet1_opening w)
    \<union> {fst (wu_internal_transfer w), snd (wu_internal_transfer w), wus_timestamp st, wus_pk_root st, wus_new_wallet_commitment st,
      wus_wallet_spend_nullifier st, wus_wallet_match_nullifier st, wus_merkle_root st, fst (wus_external_transfer st),
      fst (snd (wus_external_transfer st)), snd (snd (wus_external_transfer st))}"

definition valid_wallet_update_relation ::
  "'f::field PoseidonSpongeParameters \<Rightarrow> 'f update_witness_value \<Rightarrow> 'f ValidWalletUpdateStatement \<Rightarrow> bool" where
  "valid_wallet_update_relation p w st \<longleftrightarrow> (let old = wu_wallet1 w; new = wu_wallet2 w; c = wallet_commitment p old; direction = snd (snd (wus_external_transfer st)) in
    wus_new_wallet_commitment st = wallet_commitment p new \<and> opens_to p c (wu_wallet1_opening w) (wus_merkle_root st)
    \<and> wus_wallet_spend_nullifier st = hash_value p [c, w_randomness old]
    \<and> wus_wallet_match_nullifier st = hash_value p [c, w_randomness old + 1]
    \<and> wus_pk_root st = kv_pk_root (w_keys old) \<and> w_keys new = w_keys old \<and> w_randomness new = w_randomness old + 2
    \<and> (direction = 0 \<or> direction = 1)
    \<and> transfers_applied (w_balances old) (w_balances new) (wu_internal_transfer w) (wus_external_transfer st)
    \<and> unique_pairs (w_orders new) \<and> orders_stamped (w_orders old) (w_orders new) (wus_timestamp st))"

lemma update_scope:
  "wallet_vars (wu_wallet1 w) \<subseteq> update_vars w st" "wallet_vars (wu_wallet2 w) \<subseteq> update_vars w st" "opening_vars (wu_wallet1_opening w) \<subseteq> update_vars w st"
  unfolding update_vars_def by blast+

lemma update_variables:
  "v \<in> {fst (wu_internal_transfer w), snd (wu_internal_transfer w), wus_timestamp st, wus_pk_root st, wus_new_wallet_commitment st,
      wus_wallet_spend_nullifier st, wus_wallet_match_nullifier st, wus_merkle_root st, fst (wus_external_transfer st),
      fst (snd (wus_external_transfer st)), snd (snd (wus_external_transfer st)), wv_randomness (wu_wallet1 w), wv_randomness (wu_wallet2 w),
      kv_pk_root (wv_keys (wu_wallet1 w)), kv_pk_match (wv_keys (wu_wallet1 w)), kv_pk_settle (wv_keys (wu_wallet1 w)), kv_pk_view (wv_keys (wu_wallet1 w)),
      kv_pk_root (wv_keys (wu_wallet2 w)), kv_pk_match (wv_keys (wu_wallet2 w)), kv_pk_settle (wv_keys (wu_wallet2 w)), kv_pk_view (wv_keys (wu_wallet2 w))}
    \<Longrightarrow> v \<in> update_vars w st"
  by (auto simp: update_vars_def wallet_vars_def key_vars_def)

lemma depends_update:
  fixes w :: "('v, 'f::field) update_witness_var"
  shows "depends (update_vars w st) (\<lambda>\<rho>. (update_witness_at \<rho> w, update_statement_at \<rho> st))"
proof (rule dependsI2)
  fix \<rho> \<rho>' :: "'v \<Rightarrow> 'f" assume agree: "\<forall>v\<in>update_vars w st. \<rho> v = \<rho>' v"
  note same = depends_eq [OF _ agree]
  have "wallet_at \<rho> (wu_wallet1 w) = wallet_at \<rho>' (wu_wallet1 w)" "wallet_at \<rho> (wu_wallet2 w) = wallet_at \<rho>' (wu_wallet2 w)"
    "opening_at \<rho> (wu_wallet1_opening w) = opening_at \<rho>' (wu_wallet1_opening w)"
    by (rule same [OF depends_wallet_at] same [OF depends_opening_at], rule update_scope)+
  moreover have "\<rho> (wus_timestamp st) = \<rho>' (wus_timestamp st)" "\<rho> (wus_pk_root st) = \<rho>' (wus_pk_root st)"
    "\<rho> (wus_new_wallet_commitment st) = \<rho>' (wus_new_wallet_commitment st)" "\<rho> (wus_wallet_spend_nullifier st) = \<rho>' (wus_wallet_spend_nullifier st)"
    "\<rho> (wus_wallet_match_nullifier st) = \<rho>' (wus_wallet_match_nullifier st)" "\<rho> (wus_merkle_root st) = \<rho>' (wus_merkle_root st)"
    by (rule bspec [OF agree], rule update_variables, simp)+
  moreover have "map_prod \<rho> \<rho> (wu_internal_transfer w) = map_prod \<rho>' \<rho>' (wu_internal_transfer w)"
    "map_prod \<rho> (map_prod \<rho> \<rho>) (wus_external_transfer st) = map_prod \<rho>' (map_prod \<rho>' \<rho>') (wus_external_transfer st)"
    unfolding map_prod_def split_def by (intro arg_cong2 [where f = Pair] bspec [OF agree] update_variables; simp)+
  ultimately show "(update_witness_at \<rho> w, update_statement_at \<rho> st) = (update_witness_at \<rho>' w, update_statement_at \<rho>' st)"
    by (simp only: update_witness_at_def update_statement_at_def)
qed

lemmas depends_update_relation = depends_comp [OF depends_update, where h = "\<lambda>(w, st). valid_wallet_update_relation p w st" for p, unfolded prod.case]

lemma update_at_simps [simp]:
  "wu_wallet1 (update_witness_at \<rho> w) = wallet_at \<rho> (wu_wallet1 w)" "wu_wallet2 (update_witness_at \<rho> w) = wallet_at \<rho> (wu_wallet2 w)"
  "wu_wallet1_opening (update_witness_at \<rho> w) = opening_at \<rho> (wu_wallet1_opening w)"
  "wu_internal_transfer (update_witness_at \<rho> w) = map_prod \<rho> \<rho> (wu_internal_transfer w)"
  "wus_timestamp (update_statement_at \<rho> st) = \<rho> (wus_timestamp st)" "wus_pk_root (update_statement_at \<rho> st) = \<rho> (wus_pk_root st)"
  "wus_new_wallet_commitment (update_statement_at \<rho> st) = \<rho> (wus_new_wallet_commitment st)"
  "wus_wallet_spend_nullifier (update_statement_at \<rho> st) = \<rho> (wus_wallet_spend_nullifier st)"
  "wus_wallet_match_nullifier (update_statement_at \<rho> st) = \<rho> (wus_wallet_match_nullifier st)"
  "wus_merkle_root (update_statement_at \<rho> st) = \<rho> (wus_merkle_root st)"
  "wus_external_transfer (update_statement_at \<rho> st) = map_prod \<rho> (map_prod \<rho> \<rho>) (wus_external_transfer st)"
  by (simp_all add: update_witness_at_def update_statement_at_def)

lemma mint_count_simps [simp]:
  "mint_count [] m = 0" "mint_count (bs @ [b]) m = mint_count bs m + of_bool (bv_mint b = m)"
  by (simp_all add: mint_count_def)

lemma or_holds: "of_bool c + x - of_bool c * x = (1 :: 'f::field) \<longleftrightarrow> c \<or> x = 1"
  by (cases c) auto

lemma same_terms_at:
  "same_terms (order_at \<rho> ord) (order_at \<rho> ord') \<longleftrightarrow> \<rho> (ov_quote_mint ord) = \<rho> (ov_quote_mint ord') \<and> \<rho> (ov_base_mint ord) = \<rho> (ov_base_mint ord')
    \<and> \<rho> (ov_side ord) = \<rho> (ov_side ord') \<and> \<rho> (ov_amount ord) = \<rho> (ov_amount ord') \<and> lc_eval \<rho> (fp_repr (ov_price ord)) = lc_eval \<rho> (fp_repr (ov_price ord'))"
  by (auto simp: same_terms_def order_at_def)

context constraint_system
begin

lemma dec_masked_difference:
  "dec ({m, m'} \<union> lc_vars x) P (masked_difference cs m m' x) (\<lambda>_. True) (\<lambda>(e, y). {e, y})
    (\<lambda>(e, y) \<rho>. \<rho> e = of_bool (\<rho> m = \<rho> m') \<and> \<rho> y = of_bool (\<rho> m = \<rho> m') * lc_eval \<rho> x)"
  unfolding masked_difference_def
  by (rule dec_andthen [OF dec_eq_zero], force, rule dec_andthen [OF dec_product]) (auto intro!: dec_yield)

lemma dec_unique_balance_mints:
  assumes "\<And>b. b \<in> set bs \<Longrightarrow> balance_vars b \<subseteq> V"
  shows "dec V P (constrain_unique_balance_mints cs bs) (\<lambda>\<rho>. unique_mints (map (balance_at \<rho>) bs)) (\<lambda>_. {}) (\<lambda>_ _. True)"
  unfolding constrain_unique_balance_mints_def unique_mints_later
proof (rule dec_for_each)
  fix x assume x: "x \<in> set (with_later bs)"
  obtain b later where bl: "x = (b, later)"
    by fastforce
  have sub: "b \<in> set bs" "set later \<subseteq> set bs"
    using with_later_sub [of b later bs] x bl by auto
  have mint: "bv_mint c \<in> V" if "c \<in> set bs" for c
    using assms [OF that] by (simp add: balance_vars_def)
  let ?R = "\<lambda>c \<rho>. bv_mint (balance_at \<rho> b) \<noteq> bv_mint (balance_at \<rho> c) \<or> bv_mint (balance_at \<rho> b) = (0 :: 'f)"
  have dep: "depends V (?R c)" if "c \<in> set later" for c
    unfolding at_simps by (rule depends_comp2 [where h = "\<lambda>x y. x \<noteq> y \<or> x = 0"]) (use mint sub that in auto)
  then show "depends V (\<lambda>\<rho> :: 'v \<Rightarrow> 'f. case x of (b, later) \<Rightarrow> \<forall>c\<in>set later. bv_mint (balance_at \<rho> b) \<noteq> bv_mint (balance_at \<rho> c) \<or> bv_mint (balance_at \<rho> b) = 0)"
    unfolding bl prod.case by (rule depends_ball)
  show "dec V P (case x of (b, later) \<Rightarrow> for_each (\<lambda>c. andthen (total (not_equal cs (lc_var (bv_mint b)) (lc_var (bv_mint c)))) (\<lambda>ij.
      andthen (total (cs_product cs (lc_var (bv_mint b)) (lc_sub (lc_one cs) ij))) (\<lambda>poly. constrain cs (lc_var poly)))) later)
      (\<lambda>\<rho>. case x of (b, later) \<Rightarrow> \<forall>c\<in>set later. bv_mint (balance_at \<rho> b) \<noteq> bv_mint (balance_at \<rho> c) \<or> bv_mint (balance_at \<rho> b) = 0) (\<lambda>_. {}) (\<lambda>_ _. True)"
    unfolding bl prod.case
  proof (rule dec_for_each)
    fix c assume c: "c \<in> set later"
    show "dec V P (andthen (total (not_equal cs (lc_var (bv_mint b)) (lc_var (bv_mint c)))) (\<lambda>ij.
        andthen (total (cs_product cs (lc_var (bv_mint b)) (lc_sub (lc_one cs) ij))) (\<lambda>poly. constrain cs (lc_var poly)))) (?R c) (\<lambda>_. {}) (\<lambda>_ _. True)"
      apply (rule dec_step [OF dec_not_equal dep [OF c]])
         apply (use mint sub c in auto)[3]
      apply (rule dec_step [OF dec_product dep [OF c]])
         apply (use mint sub in auto)[3]
      apply (rule dec_last [OF dec_constrain [of _ "{_}"]])
        apply auto
      done
  qed (rule dep)
qed

lemma dec_new_balance:
  assumes b: "balance_vars b \<subseteq> V" and old: "\<And>c. c \<in> set old \<Longrightarrow> balance_vars c \<subseteq> V"
    and vars: "{fst internal, snd internal, mint} \<union> lc_vars term \<subseteq> V" and dep: "depends V R"
    and R: "\<And>\<rho>. P \<rho> \<Longrightarrow> R \<rho> = (\<rho> (bv_amount b) = held (map (balance_at \<rho>) old) (\<rho> (bv_mint b))
      + (of_bool (\<rho> (bv_mint b) = \<rho> mint) * lc_eval \<rho> term - of_bool (\<rho> (bv_mint b) = \<rho> (fst internal)) * \<rho> (snd internal)))"
  shows "dec (V \<union> (lc_vars (fst present) \<union> lc_vars (snd present)))
    (\<lambda>\<rho>. P \<rho> \<and> lc_eval \<rho> (fst present) = of_nat (mint_count (map (balance_at \<rho>) ys) (\<rho> mint))
      \<and> lc_eval \<rho> (snd present) = of_nat (mint_count (map (balance_at \<rho>) ys) (\<rho> (fst internal))))
    (validate_new_balance canon cs old internal mint term b present) R (\<lambda>present. lc_vars (fst present) \<union> lc_vars (snd present))
    (\<lambda>present \<rho>. lc_eval \<rho> (fst present) = of_nat (mint_count (map (balance_at \<rho>) (ys @ [b])) (\<rho> mint))
      \<and> lc_eval \<rho> (snd present) = of_nat (mint_count (map (balance_at \<rho>) (ys @ [b])) (\<rho> (fst internal))))"
proof -
  have amounts: "bv_mint c \<in> V" "bv_amount c \<in> V" if "c = b \<or> c \<in> set old" for c
    using that b old by (auto simp: balance_vars_def)
  have old_sum: "dec (V \<union> U) P (sum_each (\<lambda>c. andthen (masked_difference cs (bv_mint b) (bv_mint c) (lc_var (bv_amount c))) (\<lambda>(_, x). yield (lc_var x))) old (lc_var (var_zero cs)))
      (\<lambda>_. True) lc_vars (\<lambda>y \<rho>. lc_eval \<rho> y = \<rho> (var_zero cs) + held (map (balance_at \<rho>) old) (\<rho> (bv_mint b)))" for U P
  proof -
    have "dec V P (andthen (masked_difference cs (bv_mint b) (bv_mint c) (lc_var (bv_amount c))) (\<lambda>(_, x). yield (lc_var x))) (\<lambda>_. True) lc_vars
        (\<lambda>y \<rho>. lc_eval \<rho> y = of_bool (\<rho> (bv_mint c) = \<rho> (bv_mint b)) * \<rho> (bv_amount c))" if "c \<in> set old" for c
      by (rule dec_andthen [OF dec_masked_difference]) (use that amounts in \<open>auto intro!: dec_yield\<close>)
    then have "dec V P (sum_each (\<lambda>c. andthen (masked_difference cs (bv_mint b) (bv_mint c) (lc_var (bv_amount c))) (\<lambda>(_, x). yield (lc_var x))) old (lc_var (var_zero cs)))
        (\<lambda>_. True) lc_vars (\<lambda>y \<rho>. lc_eval \<rho> y = lc_eval \<rho> (lc_var (var_zero cs)) + (\<Sum>c\<leftarrow>old. of_bool (\<rho> (bv_mint c) = \<rho> (bv_mint b)) * \<rho> (bv_amount c)))"
      by (rule dec_sum_each) auto
    then show ?thesis
      by (rule dec_weaken) (auto simp: held_def comp_def)
  qed
  show ?thesis
    unfolding validate_new_balance_def
    apply (rule dec_step [OF old_sum [of "{}"] dep])
       apply auto[3]
    apply (rule dec_step [OF dec_masked_difference dep])
       apply (use vars amounts in auto)[3]
    apply (simp only: split_paired_all prod.case)
    apply (rule dec_step [OF dec_masked_difference dep])
       apply (use vars amounts in auto)[3]
    apply (simp only: split_paired_all prod.case)
    apply (rule dec_step [OF dec_constrain [of _ "V \<union> lc_vars _ \<union> {_, _} \<union> {_, _}"] dep])
        apply (use amounts in \<open>auto simp: R\<close>)[4]
    apply (rule dec_step [OF dec_range dep])
         apply (use amounts in \<open>auto simp: POSITIVE_SCALAR_MAX_BITS_def\<close>)[5]
    apply (rule dec_yield)
     apply (use amounts in \<open>auto simp: R\<close>)
    done
qed

lemma dec_transfers:
  assumes "\<And>b. b \<in> set old \<union> set new \<Longrightarrow> balance_vars b \<subseteq> V" "{fst internal, snd internal, fst external, fst (snd external), snd (snd external)} \<subseteq> V"
  shows "dec V P (validate_transfers canon cs new old internal external)
    (\<lambda>\<rho>. transfers_applied (map (balance_at \<rho>) old) (map (balance_at \<rho>) new) (map_prod \<rho> \<rho> internal) (map_prod \<rho> (map_prod \<rho> \<rho>) external)) (\<lambda>_. {}) (\<lambda>_ _. True)"
proof -
  obtain mint volume direction where ext: "external = (mint, volume, direction)"
    by (cases external)
  let ?R = "\<lambda>b (\<rho> :: 'v \<Rightarrow> 'f). \<rho> (bv_amount b) = held (map (balance_at \<rho>) old) (\<rho> (bv_mint b))
    + transfer_credit (map_prod \<rho> \<rho> internal) (map_prod \<rho> (map_prod \<rho> \<rho>) external) (\<rho> (bv_mint b))"
  let ?T = "\<lambda>\<rho> :: 'v \<Rightarrow> 'f. transfers_applied (map (balance_at \<rho>) old) (map (balance_at \<rho>) new) (map_prod \<rho> \<rho> internal) (map_prod \<rho> (map_prod \<rho> \<rho>) external)"
  have vars: "bv_mint b \<in> V" "bv_amount b \<in> V" if "b \<in> set old \<union> set new" for b
    using assms(1) [OF that] by (auto simp: balance_vars_def)
  have dep_bal: "depends V (\<lambda>\<rho> :: 'v \<Rightarrow> 'f. map (balance_at \<rho>) bs)" if "set bs \<subseteq> set old \<union> set new" for bs
    by (rule depends_map [where f = "\<lambda>b \<rho>. balance_at \<rho> b"]) (use assms(1) that in \<open>auto intro!: depends_balance_at\<close>)
  have same_args: "map_prod \<rho> \<rho> internal = map_prod \<rho>' \<rho>' internal \<and> map_prod \<rho> (map_prod \<rho> \<rho>) external = map_prod \<rho>' (map_prod \<rho>' \<rho>') external"
    if "\<forall>v\<in>V. \<rho> v = \<rho>' v" for \<rho> \<rho>' :: "'v \<Rightarrow> 'f"
    unfolding map_prod_def split_def by (intro conjI arg_cong2 [where f = Pair] bspec [OF that] subsetD [OF assms(2)]; simp)
  have dep: "depends V (?R b)" if "b \<in> set new" for b
  proof (rule dependsI2)
    fix \<rho> \<rho>' :: "'v \<Rightarrow> 'f" assume agree: "\<forall>v\<in>V. \<rho> v = \<rho>' v"
    have "\<rho> (bv_amount b) = \<rho>' (bv_amount b)" "\<rho> (bv_mint b) = \<rho>' (bv_mint b)"
      using vars [of b] that by (auto intro!: bspec [OF agree])
    then show "?R b \<rho> = ?R b \<rho>'"
      by (simp only: depends_eq [OF dep_bal agree, OF Un_upper1] same_args [OF agree])
  qed
  have dep_all: "depends V ?T"
    by (rule dependsI2) (simp only: depends_eq [OF dep_bal _, OF Un_upper1] depends_eq [OF dep_bal _, OF Un_upper2] same_args)
  have loop: "dec (V \<union> lc_vars t) P (fold_each (validate_new_balance canon cs old internal mint t) new (lc_var (var_zero cs), lc_var (var_zero cs)))
      (\<lambda>\<rho>. \<forall>b\<in>set new. ?R b \<rho>) (\<lambda>present. lc_vars (fst present) \<union> lc_vars (snd present))
      (\<lambda>present \<rho>. lc_eval \<rho> (fst present) = of_nat (mint_count (map (balance_at \<rho>) new) (\<rho> mint))
        \<and> lc_eval \<rho> (snd present) = of_nat (mint_count (map (balance_at \<rho>) new) (\<rho> (fst internal))))"
    if "\<And>\<rho>. P \<rho> \<Longrightarrow> lc_eval \<rho> t = signed_amount (\<rho> direction) (\<rho> volume)" for t P
  proof -
    let ?P = "\<lambda>\<rho>. lc_eval \<rho> t = signed_amount (\<rho> direction) (\<rho> volume) \<and> \<rho> (var_zero cs) = 0"
    let ?W = "\<lambda>present :: ('v, 'f) lc \<times> ('v, 'f) lc. lc_vars (fst present) \<union> lc_vars (snd present)"
    let ?Q = "\<lambda>ys present \<rho>. lc_eval \<rho> (fst present) = of_nat (mint_count (map (balance_at \<rho>) ys) (\<rho> mint))
        \<and> lc_eval \<rho> (snd present) = of_nat (mint_count (map (balance_at \<rho>) ys) (\<rho> (fst internal)))"
    have "dec (V \<union> lc_vars t \<union> ?W (lc_var (var_zero cs), lc_var (var_zero cs))) (\<lambda>\<rho>. ?P \<rho> \<and> ?Q [] (lc_var (var_zero cs), lc_var (var_zero cs)) \<rho>)
        (fold_each (validate_new_balance canon cs old internal mint t) new (lc_var (var_zero cs), lc_var (var_zero cs)))
        (\<lambda>\<rho>. \<forall>b\<in>set new. ?R b \<rho>) ?W (?Q ([] @ new))"
    proof (rule dec_fold_each)
      fix b ys present assume b: "b \<in> set new"
      show dep': "depends (V \<union> lc_vars t) (?R b)"
        by (rule depends_mono [OF dep [OF b]]) blast
      show "dec (V \<union> lc_vars t \<union> ?W present) (\<lambda>\<rho>. ?P \<rho> \<and> ?Q ys present \<rho>) (validate_new_balance canon cs old internal mint t b present) (?R b) ?W (?Q (ys @ [b]))"
        by (rule dec_new_balance [OF _ _ _ dep']) (use assms b in \<open>auto simp: ext transfer_credit_def\<close>)
    qed
    then show ?thesis
      by (rule dec_weaken) (auto simp: that)
  qed
  show ?thesis
    unfolding validate_transfers_def ext prod.case
    apply (rule dec_step [OF dec_unique_balance_mints [where V = V] dep_all [unfolded ext]])
        apply (use assms(1) in \<open>auto simp: transfers_applied_def\<close>)[4]
    apply (rule dec_step [OF dec_select dep_all [unfolded ext]])
       apply (use assms(2) ext in auto)[3]
    apply (rule dec_step [OF loop [unfolded ext] dep_all [unfolded ext]])
        apply (auto simp: signed_amount_def transfers_applied_def)[4]
    apply (simp only: split_paired_all prod.case fst_conv snd_conv)
    apply (rule dec_step [OF dec_eq_zero dep_all [unfolded ext]])
       apply (use assms(2) in auto)[3]
    apply (rule dec_step [OF dec_or dep_all [unfolded ext]])
       apply auto[3]
    apply (rule dec_step [OF dec_constrain [of _ "lc_vars _"] dep_all [unfolded ext]])
        apply (auto simp: transfers_applied_def)[4]
    apply (rule dec_step [OF dec_eq dep_all [unfolded ext]])
       apply (use assms(2) ext in auto)[3]
    apply (rule dec_step [OF dec_or dep_all [unfolded ext]])
       apply auto[3]
    apply (rule dec_last [OF dec_constrain [of _ "lc_vars _"]])
      apply (auto simp: transfers_applied_def or_holds)
    done
qed

lemma dec_equal_except_timestamp:
  assumes "\<And>n. 0 < n \<Longrightarrow> n \<le> 6 \<Longrightarrow> (of_nat n :: 'f) \<noteq> 0"
  shows "dec (order_vars ord \<union> order_vars ord') P (orders_equal_except_timestamp cs ord ord') (\<lambda>_. True) (\<lambda>x. {x})
    (\<lambda>x \<rho>. \<rho> x = of_bool (same_terms (order_at \<rho> ord) (order_at \<rho> ord')))"
  unfolding orders_equal_except_timestamp_def same_terms_at
  by (rule dec_weaken [OF dec_eq_vec]) (use assms in \<open>auto simp: order_vars_def\<close>)

lemma dec_order_is_zero:
  assumes "\<And>n. 0 < n \<Longrightarrow> n \<le> 6 \<Longrightarrow> (of_nat n :: 'f) \<noteq> 0"
  shows "dec (order_vars ord) P (order_is_zero cs ord) (\<lambda>_. True) (\<lambda>x. {x}) (\<lambda>x \<rho>. \<rho> x = of_bool (same_terms (order_at \<rho> ord) zero_order))"
  unfolding order_is_zero_def Let_def
  by (rule dec_weaken [OF dec_equal_except_timestamp [OF assms]]) (auto simp: order_vars_def same_terms_def zero_order_def order_at_def)

lemma dec_unique_order_pairs:
  assumes "\<And>ord. ord \<in> set ords \<Longrightarrow> order_vars ord \<subseteq> V" "\<And>n. 0 < n \<Longrightarrow> n \<le> 6 \<Longrightarrow> (of_nat n :: 'f) \<noteq> 0"
  shows "dec V P (constrain_unique_order_pairs cs ords) (\<lambda>\<rho>. unique_pairs (map (order_at \<rho>) ords)) (\<lambda>_. {}) (\<lambda>_ _. True)"
proof -
  let ?R = "\<lambda>ord ord' (\<rho> :: 'v \<Rightarrow> 'f). same_terms (order_at \<rho> ord) zero_order
    \<or> (o_quote_mint (order_at \<rho> ord), o_base_mint (order_at \<rho> ord)) \<noteq> (o_quote_mint (order_at \<rho> ord'), o_base_mint (order_at \<rho> ord'))"
  have rel: "unique_pairs (map (order_at \<rho>) ords) = (\<forall>x\<in>set (with_later ords). case x of (ord, later) \<Rightarrow> \<forall>ord'\<in>set later. ?R ord ord' \<rho>)" for \<rho>
    by (induction ords) (auto simp: unique_pairs_def)
  have sub: "order_vars ord \<subseteq> V" "order_vars ord' \<subseteq> V" if "(ord, later) \<in> set (with_later ords)" "ord' \<in> set later" for ord later ord'
    using with_later_sub [OF that(1)] that(2) assms(1) by auto
  have dep: "depends V (?R ord ord')" if "(ord, later) \<in> set (with_later ords)" "ord' \<in> set later" for ord later ord'
    by (rule depends_comp2 [OF depends_order_at depends_order_at, where h = "\<lambda>x y. same_terms x zero_order \<or> (o_quote_mint x, o_base_mint x) \<noteq> (o_quote_mint y, o_base_mint y)"])
      (use sub that in blast)+
  have dep_all: "depends V (\<lambda>\<rho>. \<forall>ord'\<in>set later. ?R ord ord' \<rho>)" if "(ord, later) \<in> set (with_later ords)" for ord later
    using dep that by (intro depends_ball)
  have body: "dec (V \<union> {z}) (\<lambda>\<rho>. P \<rho> \<and> True \<and> \<rho> z = of_bool (same_terms (order_at \<rho> ord) zero_order))
      (andthen (eq_vec cs [lc_var (ov_quote_mint ord), lc_var (ov_base_mint ord)] [lc_var (ov_quote_mint ord'), lc_var (ov_base_mint ord')]) (\<lambda>mints_equal.
      andthen (total (cs_product cs (lc_var mints_equal) (lc_sub (lc_one cs) (lc_var z)))) (\<lambda>poly. constrain cs (lc_var poly))))
      (?R ord ord') (\<lambda>_. {}) (\<lambda>_ _. True)" if "(ord, later) \<in> set (with_later ords)" "ord' \<in> set later" for ord later ord' z
    apply (rule dec_step [OF dec_eq_vec dep [OF that]])
         apply (use assms(2) sub [OF that] in \<open>auto simp: order_vars_def\<close>)[5]
    apply (rule dec_step [OF dec_product dep [OF that]])
       apply auto[3]
    apply (rule dec_last [OF dec_constrain [of _ "{_}"]])
      apply auto
    done
  show ?thesis
    unfolding rel constrain_unique_order_pairs_def
  proof (rule dec_for_each)
    fix x assume "x \<in> set (with_later ords)"
    then obtain ord later where x: "x = (ord, later)" "(ord, later) \<in> set (with_later ords)"
      by (metis surj_pair)
    have scope: "order_vars ord \<subseteq> V"
      using with_later_sub [OF x(2)] by (intro assms(1)) simp
    show "depends V (\<lambda>\<rho>. case x of (ord, later) \<Rightarrow> \<forall>ord'\<in>set later. ?R ord ord' \<rho>)"
      unfolding x(1) prod.case by (rule dep_all [OF x(2)])
    show "dec V P (case x of (ord, later) \<Rightarrow> andthen (order_is_zero cs ord) (\<lambda>z. for_each (\<lambda>ord'.
        andthen (eq_vec cs [lc_var (ov_quote_mint ord), lc_var (ov_base_mint ord)] [lc_var (ov_quote_mint ord'), lc_var (ov_base_mint ord')]) (\<lambda>mints_equal.
        andthen (total (cs_product cs (lc_var mints_equal) (lc_sub (lc_one cs) (lc_var z)))) (\<lambda>poly. constrain cs (lc_var poly)))) later))
        (\<lambda>\<rho>. case x of (ord, later) \<Rightarrow> \<forall>ord'\<in>set later. ?R ord ord' \<rho>) (\<lambda>_. {}) (\<lambda>_ _. True)"
      unfolding x(1) prod.case
      apply (rule dec_step [OF dec_order_is_zero [OF assms(2)] dep_all [OF x(2)]])
           apply (use scope in auto)[5]
      apply (rule dec_for_each)
       apply (rule body [OF x(2)], assumption)
      apply (rule depends_mono [OF dep [OF x(2)]], assumption, blast)
      done
  qed
qed

lemma dec_order_timestamps:
  assumes "\<And>ord. ord \<in> set old \<union> set new \<Longrightarrow> order_vars ord \<subseteq> V" "now \<in> V" "\<And>n. 0 < n \<Longrightarrow> n \<le> 6 \<Longrightarrow> (of_nat n :: 'f) \<noteq> 0"
  shows "dec V P (constrain_updated_order_timestamps cs new old now)
    (\<lambda>\<rho>. orders_stamped (map (order_at \<rho>) old) (map (order_at \<rho>) new) (\<rho> now)) (\<lambda>_. {}) (\<lambda>_ _. True)"
proof -
  let ?stamped = "\<lambda>x y t. o_timestamp x = (if same_terms x y then o_timestamp y else t)"
  let ?R = "\<lambda>x (\<rho> :: 'v \<Rightarrow> 'f). ?stamped (order_at \<rho> (fst x)) (order_at \<rho> (snd x)) (\<rho> now)"
  have rel: "orders_stamped (map (order_at \<rho>) old) (map (order_at \<rho>) new) (\<rho> now) = (\<forall>x\<in>set (zip new old). ?R x \<rho>)" for \<rho>
    by (auto simp: orders_stamped_def zip_map_map)
  have scope: "order_vars (fst x) \<subseteq> V" "order_vars (snd x) \<subseteq> V" if "x \<in> set (zip new old)" for x
    using that set_zip_leftD [of "fst x" "snd x" new old] set_zip_rightD [of "fst x" "snd x" new old] assms(1) by auto
  have dep: "depends V (?R x)" if "x \<in> set (zip new old)" for x
  proof (rule dependsI2)
    fix \<rho> \<rho>' :: "'v \<Rightarrow> 'f" assume agree: "\<forall>v\<in>V. \<rho> v = \<rho>' v"
    show "?R x \<rho> = ?R x \<rho>'"
      by (simp only: depends_eq [OF depends_order_at [OF scope(1) [OF that]] agree] depends_eq [OF depends_order_at [OF scope(2) [OF that]] agree]
          bspec [OF agree assms(2)])
  qed
  have body: "dec V P (andthen (orders_equal_except_timestamp cs ord ord') (\<lambda>equals_old.
      andthen (total (eq_gadget cs (lc_var (ov_timestamp ord)) (lc_var (ov_timestamp ord')))) (\<lambda>not_updated.
      andthen (total (eq_gadget cs (lc_var (ov_timestamp ord)) (lc_var now))) (\<lambda>updated.
      andthen (total (and_gate cs (lc_var equals_old) (lc_var not_updated))) (\<lambda>a.
      andthen (total (and_gate cs (lc_sub (lc_one cs) (lc_var equals_old)) (lc_var updated))) (\<lambda>b.
      andthen (total (or_gate cs (lc_var b) (lc_var a))) (\<lambda>constraint. constrain cs (lc_sub (lc_one cs) constraint)))))))) (?R (ord, ord')) (\<lambda>_. {}) (\<lambda>_ _. True)"
    if "(ord, ord') \<in> set (zip new old)" for ord ord'
    apply (rule dec_step [OF dec_equal_except_timestamp [OF assms(3)] dep [OF that]])
         apply (use scope [OF that] in auto)[5]
    apply (rule dec_step [OF dec_eq dep [OF that]])
       apply (use scope [OF that] in \<open>auto simp: order_vars_def\<close>)[3]
    apply (rule dec_step [OF dec_eq dep [OF that]])
       apply (use scope [OF that] assms(2) in \<open>auto simp: order_vars_def\<close>)[3]
    apply (rule dec_step [OF dec_and dep [OF that]])
       apply auto[3]
    apply (rule dec_step [OF dec_and dep [OF that]])
       apply auto[3]
    apply (rule dec_step [OF dec_or dep [OF that]])
       apply auto[3]
    apply (rule dec_last [OF dec_constrain [of _ "lc_vars _"]])
      apply auto
    done
  show ?thesis
    unfolding rel constrain_updated_order_timestamps_def
    apply (rule dec_for_each)
     apply (simp only: split_paired_all prod.case)
     apply (erule body)
    apply (erule dep)
    done
qed

lemma dec_wallet_orders:
  assumes "\<And>ord. ord \<in> set old \<union> set new \<Longrightarrow> order_vars ord \<subseteq> V" "now \<in> V" "\<And>n. 0 < n \<Longrightarrow> n \<le> 6 \<Longrightarrow> (of_nat n :: 'f) \<noteq> 0"
  shows "dec V P (validate_wallet_orders cs new old now)
    (\<lambda>\<rho>. unique_pairs (map (order_at \<rho>) new) \<and> orders_stamped (map (order_at \<rho>) old) (map (order_at \<rho>) new) (\<rho> now)) (\<lambda>_. {}) (\<lambda>_ _. True)"
proof -
  have dep: "depends V (\<lambda>\<rho> :: 'v \<Rightarrow> 'f. map (order_at \<rho>) ords)" if "set ords \<subseteq> set old \<union> set new" for ords
    by (rule depends_map [where f = "\<lambda>ord \<rho>. order_at \<rho> ord"]) (use assms(1) that in \<open>auto intro!: depends_order_at\<close>)
  have dep_all: "depends V (\<lambda>\<rho> :: 'v \<Rightarrow> 'f. unique_pairs (map (order_at \<rho>) new) \<and> orders_stamped (map (order_at \<rho>) old) (map (order_at \<rho>) new) (\<rho> now))"
  proof (rule dependsI2)
    fix \<rho> \<rho>' :: "'v \<Rightarrow> 'f" assume agree: "\<forall>v\<in>V. \<rho> v = \<rho>' v"
    show "(unique_pairs (map (order_at \<rho>) new) \<and> orders_stamped (map (order_at \<rho>) old) (map (order_at \<rho>) new) (\<rho> now))
        = (unique_pairs (map (order_at \<rho>') new) \<and> orders_stamped (map (order_at \<rho>') old) (map (order_at \<rho>') new) (\<rho>' now))"
      by (simp only: depends_eq [OF dep agree, OF Un_upper1] depends_eq [OF dep agree, OF Un_upper2] bspec [OF agree assms(2)])
  qed
  show ?thesis
    unfolding validate_wallet_orders_def
    apply (rule dec_step [OF dec_unique_order_pairs [where V = V, OF _ assms(3)] dep_all])
          apply (use assms(1) in auto)[6]
    apply (rule dec_last [OF dec_order_timestamps [OF assms]])
        apply auto
    done
qed

lemma dec_keys_equal:
  assumes "key_vars (wv_keys w) \<subseteq> V" "key_vars (wv_keys w') \<subseteq> V"
  shows "dec V P (constrain_keys_equal cs w w') (\<lambda>\<rho>. keys_at \<rho> (wv_keys w) = keys_at \<rho> (wv_keys w')) (\<lambda>_. {}) (\<lambda>_ _. True)"
proof -
  have dep: "depends V (\<lambda>\<rho> :: 'v \<Rightarrow> 'f. keys_at \<rho> (wv_keys w) = keys_at \<rho> (wv_keys w'))"
    by (rule depends_comp2 [OF depends_keys_at [OF assms(1)] depends_keys_at [OF assms(2)], where h = "(=)"])
  show ?thesis
    unfolding constrain_keys_equal_def
    apply (rule dec_step [OF dec_constrain_equal [where V = V] dep], (use assms in \<open>auto simp: key_vars_def keys_at_def\<close>)[4])+
    apply (rule dec_last [OF dec_constrain_equal [where V = V]])
      apply (use assms in \<open>auto simp: key_vars_def keys_at_def\<close>)
    done
qed

lemma dec_valid_wallet_update:
  assumes "valid_params p" "0 < rate p" "\<And>n. 0 < n \<Longrightarrow> n \<le> 6 \<Longrightarrow> (of_nat n :: 'f) \<noteq> 0"
    "length (indices (wu_wallet1_opening w)) = length (elems (wu_wallet1_opening w))"
  shows "dec (update_vars w st) P (valid_wallet_update canon cs p w (wus_timestamp st) (wus_pk_root st) (wus_merkle_root st)
      (wus_wallet_match_nullifier st) (wus_wallet_spend_nullifier st) (wus_new_wallet_commitment st) (wus_external_transfer st))
    (\<lambda>\<rho>. valid_wallet_update_relation p (update_witness_at \<rho> w) (update_statement_at \<rho> st)) (\<lambda>_. {}) (\<lambda>_ _. True)"
proof -
  define V where "V = update_vars w st"
  note step = dec_step [OF _ depends_update_relation [of w st p, folded V_def]]
  note scope = update_scope [of w st, folded V_def, THEN subsetD]
  note vars = update_variables [of _ w st, folded V_def, simplified]
  note simps = valid_wallet_update_relation_def Let_def
  have orders: "order_vars ord \<subseteq> V" if "ord \<in> set (wv_orders (wu_wallet1 w)) \<union> set (wv_orders (wu_wallet2 w))" for ord
    using that unfolding V_def update_vars_def wallet_vars_def by blast
  have balances: "balance_vars b \<subseteq> V" if "b \<in> set (wv_balances (wu_wallet1 w)) \<union> set (wv_balances (wu_wallet2 w))" for b
    using that unfolding V_def update_vars_def wallet_vars_def by blast
  have "dec V P (valid_wallet_update canon cs p w (wus_timestamp st) (wus_pk_root st) (wus_merkle_root st)
      (wus_wallet_match_nullifier st) (wus_wallet_spend_nullifier st) (wus_new_wallet_commitment st) (wus_external_transfer st))
    (\<lambda>\<rho>. valid_wallet_update_relation p (update_witness_at \<rho> w) (update_statement_at \<rho> st)) (\<lambda>_. {}) (\<lambda>_ _. True)"
    unfolding valid_wallet_update_def Let_def
    apply (rule step [OF dec_wallet_commit [OF assms(1,2)]])
       apply (auto dest: scope)[3]
    apply (rule step [OF dec_constrain [of _ "V \<union> lc_vars _"]])
        apply (auto simp: vars simps)[4]
    apply (rule step [OF dec_wallet_commit [OF assms(1,2)]])
       apply (auto dest: scope)[3]
    apply (rule step [OF dec_opening [OF assms(1,2,4)]])
       apply (auto dest: scope simp: vars simps)[3]
    apply (rule step [OF dec_spend_nullifier [OF assms(1,2)]])
       apply (auto simp: vars)[3]
    apply (rule step [OF dec_match_nullifier [OF assms(1,2)]])
       apply (auto simp: vars)[3]
    apply (rule step [OF dec_constrain [of _ "V \<union> lc_vars _"]])
        apply (auto simp: vars simps)[4]
    apply (rule step [OF dec_constrain [of _ "V \<union> lc_vars _"]])
        apply (auto simp: vars simps)[4]
    apply (rule step [OF dec_constrain [of _ "V"]])
        apply (auto simp: vars simps)[4]
    apply (rule step [OF dec_keys_equal [where V = V]])
        apply (auto simp: vars simps key_vars_def)[5]
    apply (rule step [OF dec_constrain [of _ "V"]])
        apply (auto simp: vars simps const_value)[4]
    apply (rule step [OF dec_product])
       apply (auto simp: vars)[3]
    apply (rule step [OF dec_constrain [of _ "{_}"]])
        apply (auto simp: simps)[4]
    apply (rule step [OF dec_transfers [OF balances]])
         apply (auto simp: vars simps)[5]
    apply (rule dec_last [OF dec_wallet_orders [OF orders _ assms(3)]])
        apply (auto simp: vars simps const_value keys_at_def)
    done
  then show ?thesis
    by (simp only: V_def)
qed

end

subsection \<open>What a proof of VALID WALLET UPDATE shows\<close>

text \<open>
  An example: a wallet that holds 10 of mint 5 and one order withdraws 1000 of it, and places its
  order anew at time 9. Its new balance is 990 below zero.
\<close>

definition withdrawing_wallet :: "nat \<Rightarrow> nat \<Rightarrow> nat \<Rightarrow> nat \<Rightarrow> (nat, rat) WalletVar" where
  "withdrawing_wallet b x t r = \<lparr>wv_balances = [\<lparr>bv_mint = 2, bv_amount = b\<rparr>],
    wv_orders = [\<lparr>ov_quote_mint = 2, ov_base_mint = 3, ov_side = 1, ov_price = \<lparr>fp_repr = lc_var 4\<rparr>, ov_amount = x, ov_timestamp = t\<rparr>],
    wv_fees = [], wv_keys = \<lparr>kv_pk_root = 5, kv_pk_match = 6, kv_pk_settle = 6, kv_pk_view = 6\<rparr>, wv_randomness = r\<rparr>"

definition withdrawing_witness :: "(nat, rat) update_witness_var" where
  "withdrawing_witness = \<lparr>wu_wallet1 = withdrawing_wallet 7 8 9 10, wu_wallet2 = withdrawing_wallet 11 12 13 14,
    wu_wallet1_opening = \<lparr>elems = [3], indices = [1]\<rparr>, wu_internal_transfer = (1, 1)\<rparr>"

definition withdrawing_statement :: "nat ValidWalletUpdateStatement" where
  "withdrawing_statement = \<lparr>wus_timestamp = 13, wus_pk_root = 5, wus_new_wallet_commitment = 16, wus_wallet_spend_nullifier = 17,
    wus_wallet_match_nullifier = 18, wus_merkle_root = 19, wus_external_transfer = (2, 15, 0)\<rparr>"

definition withdrawing_values :: "rat list" where
  "withdrawing_values = (let p = toy_params; c = hash_value p [5, 10, 5, 6, 0, 7, 20, 30, 31, 31, 31, 40] in
    [5, 6, 7, 30, 31, 10, 20, 8, 40, -990, 21, 9, 42, 1000, hash_value p [5, -990, 5, 6, 0, 7, 21, 30, 31, 31, 31, 42],
      hash_value p [c, 40], hash_value p [c, 41], hash_value p [c, 6]])"

lemma withdrawing_assigned:
  "r1cs_sat (committed withdrawing_values) (r1cs_assigned (committed withdrawing_values))"
  "valid_wallet_update_relation toy_params (update_witness_at (r1cs_assigned (committed withdrawing_values)) withdrawing_witness)
    (update_statement_at (r1cs_assigned (committed withdrawing_values)) withdrawing_statement)"
  using r1cs.honest_sat [OF committed_honest]
  by (auto simp: valid_wallet_update_relation_def withdrawing_witness_def withdrawing_statement_def withdrawing_wallet_def withdrawing_values_def Let_def
      r1cs_assigned_def committed_def balance_at_def order_at_def keys_at_def wallet_at_def opening_at_def wallet_commitment_def wallet_elements_def
      opens_to_def unique_mints_def transfers_applied_def transfer_credit_def signed_amount_def held_def mint_count_def unique_pairs_def orders_stamped_def same_terms_def)

text \<open>
  C21: the circuit proves exactly that the old wallet opens to the Merkle root and the new commitment,
  the nullifiers and the root key are computed from the wallets, that the keys are kept and the
  randomness grows by two, that every new balance is what the old wallet held of its mint plus a
  deposit or less a withdrawal, less the internal transfer, that the mint of a withdrawal or an
  internal transfer is listed once, that pairs of orders are unique, and that exactly the changed
  orders have the new timestamp. That balances stay positive is not among it: a withdrawal may
  exceed the balance.\<close>

theorem valid_wallet_update_exact:
  fixes cs :: "('s, 'v, 'f::field) cs_ops"
  assumes "constraint_system cs sat wires assigned" "valid_params p" "0 < rate p" "\<And>n. 0 < n \<Longrightarrow> n \<le> 6 \<Longrightarrow> (of_nat n :: 'f) \<noteq> 0"
    and "length (indices (wu_wallet1_opening w)) = length (elems (wu_wallet1_opening w))"
    and "closed_state sat wires s" "update_vars w st \<subseteq> wires s"
  shows "\<exists>s'. valid_wallet_update canon cs p w (wus_timestamp st) (wus_pk_root st) (wus_merkle_root st) (wus_wallet_match_nullifier st)
      (wus_wallet_spend_nullifier st) (wus_new_wallet_commitment st) (wus_external_transfer st) s = Returns ((), s')
    \<and> (\<forall>\<rho>. sat s \<rho> \<longrightarrow> ((\<exists>\<rho>'. (\<forall>v\<in>wires s. \<rho>' v = \<rho> v) \<and> sat s' \<rho>')
        \<longleftrightarrow> valid_wallet_update_relation p (update_witness_at \<rho> w) (update_statement_at \<rho> st)))"
  using constraint_system.dec_exact [OF assms(1) constraint_system.dec_valid_wallet_update [OF assms(1-5), of st] depends_update_relation assms(6,7)] by simp

theorem valid_wallet_update_exact_witness:
  "\<exists>s' \<rho>. valid_wallet_update (\<lambda>x. nat \<lfloor>x\<rfloor>) r1cs_ops toy_params withdrawing_witness 13 5 19 18 17 16 (2, 15, 0) (committed withdrawing_values) = Returns ((), s')
    \<and> r1cs_sat s' \<rho> \<and> \<rho> (bv_amount (hd (wv_balances (wu_wallet1 withdrawing_witness)))) = 10
    \<and> \<rho> (bv_amount (hd (wv_balances (wu_wallet2 withdrawing_witness)))) = -990"
proof -
  let ?s = "committed withdrawing_values" and ?w = withdrawing_witness and ?st = withdrawing_statement
  have scope: "update_vars ?w ?st \<subseteq> r1cs_wires ?s"
    by (auto simp: update_vars_def wallet_vars_def balance_vars_def order_vars_def fee_vars_def key_vars_def opening_vars_def
        withdrawing_witness_def withdrawing_statement_def withdrawing_wallet_def withdrawing_values_def Let_def)
  obtain s' where run: "valid_wallet_update (\<lambda>x. nat \<lfloor>x\<rfloor>) r1cs_ops toy_params ?w 13 5 19 18 17 16 (2, 15, 0) ?s = Returns ((), s')"
    and exact: "\<And>\<rho>. r1cs_sat ?s \<rho> \<Longrightarrow> (\<exists>\<rho>'. (\<forall>v\<in>r1cs_wires ?s. \<rho>' v = \<rho> v) \<and> r1cs_sat s' \<rho>')
        \<longleftrightarrow> valid_wallet_update_relation toy_params (update_witness_at \<rho> ?w) (update_statement_at \<rho> ?st)"
    using valid_wallet_update_exact [OF r1cs_contract toy_params_valid(1) _ _ _ committed_closed scope, of "\<lambda>x. nat \<lfloor>x\<rfloor>"]
    by (auto simp: withdrawing_witness_def withdrawing_statement_def)
  obtain \<rho> where \<rho>: "\<forall>v\<in>r1cs_wires ?s. \<rho> v = r1cs_assigned ?s v" "r1cs_sat s' \<rho>"
    using exact [OF withdrawing_assigned(1)] withdrawing_assigned(2) by blast
  have "\<rho> 7 = 10" "\<rho> 11 = -990"
    using bspec [OF \<rho>(1), of 7] bspec [OF \<rho>(1), of 11] by (simp_all add: withdrawing_values_def Let_def r1cs_assigned_def committed_def r1cs_wires_def)
  with run \<rho>(2) show ?thesis
    by (intro exI [of _ s'] exI [of _ \<rho>]) (simp add: withdrawing_witness_def withdrawing_wallet_def)
qed

end
