(* ===== verification/Valid_Wallet_Create.thy ===== *)
theory Valid_Wallet_Create
  imports Valid_Wallet_Update
begin

section \<open>VALID WALLET CREATE\<close>

text \<open>
  The circuit of \<open>zk_circuits/valid_wallet_create.rs\<close>: a new wallet has no balances and no orders,
  which its commitment represents by zeros. The sizes of the arrays are arguments.
\<close>

record ('fee, 'v) ValidWalletCreateVar =
  wc_fees :: "'fee list"
  wc_keys :: "'v KeyChainVar"
  wc_wallet_randomness :: 'v

definition BALANCE_ZEROS :: nat where
  "BALANCE_ZEROS = 2"

definition ORDER_ZEROS :: nat where
  "ORDER_ZEROS = 5"

definition check_commitment ::
  "('s, 'v, 'f::field) cs_ops \<Rightarrow> nat \<Rightarrow> nat \<Rightarrow> 'f PoseidonSpongeParameters \<Rightarrow> 'v \<Rightarrow> (('v, 'f) FeeVar, 'v) ValidWalletCreateVar \<Rightarrow> ('s, unit) circ" where
  "check_commitment cs max_balances max_orders p expected_commit witness = effect (\<lambda>s.
    bind_call (gadget_batch_absorb cs (replicate (max_balances * BALANCE_ZEROS + max_orders * ORDER_ZEROS) (lc_const cs 0)) (PoseidonHashGadget_new cs p, s)) (\<lambda>g.
    bind_call (fold_call (\<lambda>fee. gadget_batch_absorb cs [lc_var (fv_settle_key fee), lc_var (fv_gas_addr fee), lc_var (fv_gas_token_amount fee),
      fp_repr (fv_percentage_fee fee)]) (wc_fees witness) g) (\<lambda>g.
    bind_call (gadget_batch_absorb cs (map lc_var [kv_pk_root (wc_keys witness), kv_pk_match (wc_keys witness), kv_pk_settle (wc_keys witness),
      kv_pk_view (wc_keys witness)]) g) (\<lambda>g.
    bind_call (gadget_absorb cs (lc_var (wc_wallet_randomness witness)) g) (\<lambda>g.
    bind_call (gadget_constrained_squeeze cs (lc_var expected_commit) g) (\<lambda>(_, s). Returns s))))))"

definition valid_wallet_create ::
  "('s, 'v, 'f::field) cs_ops \<Rightarrow> nat \<Rightarrow> nat \<Rightarrow> 'f PoseidonSpongeParameters \<Rightarrow> 'v \<Rightarrow> (('v, 'f) FeeVar, 'v) ValidWalletCreateVar \<Rightarrow> ('s, unit) circ" where
  "valid_wallet_create cs max_balances max_orders p expected_commit witness =
    andthen (check_commitment cs max_balances max_orders p expected_commit witness) yield"

subsection \<open>The relation it proves\<close>

definition empty_wallet :: "nat \<Rightarrow> nat \<Rightarrow> ('f::field FeeValue, 'f) ValidWalletCreateVar \<Rightarrow> 'f WalletValue" where
  "empty_wallet max_balances max_orders w = \<lparr>w_balances = replicate max_balances \<lparr>bv_mint = 0, bv_amount = 0\<rparr>, w_orders = replicate max_orders zero_order,
    w_fees = wc_fees w, w_keys = wc_keys w, w_randomness = wc_wallet_randomness w\<rparr>"

definition create_witness_at :: "('v \<Rightarrow> 'f::field) \<Rightarrow> (('v, 'f) FeeVar, 'v) ValidWalletCreateVar \<Rightarrow> ('f FeeValue, 'f) ValidWalletCreateVar" where
  "create_witness_at \<rho> w = \<lparr>wc_fees = map (fee_at \<rho>) (wc_fees w), wc_keys = keys_at \<rho> (wc_keys w), wc_wallet_randomness = \<rho> (wc_wallet_randomness w)\<rparr>"

definition create_vars :: "(('v, 'f) FeeVar, 'v) ValidWalletCreateVar \<Rightarrow> 'v \<Rightarrow> 'v set" where
  "create_vars w c = \<Union>(fee_vars ` set (wc_fees w)) \<union> key_vars (wc_keys w) \<union> {wc_wallet_randomness w, c}"

definition create_lcs :: "('s, 'v, 'f::field) cs_ops \<Rightarrow> nat \<Rightarrow> nat \<Rightarrow> (('v, 'f) FeeVar, 'v) ValidWalletCreateVar \<Rightarrow> ('v, 'f) lc list" where
  "create_lcs cs max_balances max_orders w = replicate (max_balances * BALANCE_ZEROS + max_orders * ORDER_ZEROS) (lc_const cs 0)
    @ concat (map absorb_fee_vars (wc_fees w)) @ absorb_key_vars (wc_keys w) @ [lc_var (wc_wallet_randomness w)]"

lemma check_commitment_hash:
  "check_commitment cs mb mo p c w = hash_constrain cs p (create_lcs cs mb mo w) (lc_var c)"
  by (rule ext) (simp add: check_commitment_def hash_constrain_def gadget_hash_def create_lcs_def gadget_batch_absorb_def fold_call_append fold_call_concat
      bind_call_assoc bind_call_unit absorb_fee_vars_def [abs_def] absorb_key_vars_def effect_def)

lemma empty_elements: "concat (replicate n (replicate k x)) = replicate (n * k) x"
  by (induction n) (simp_all add: replicate_add)

lemma empty_wallet_elements:
  assumes "\<rho> (var_one cs) = 1"
  shows "map (lc_eval \<rho>) (create_lcs cs mb mo w) = wallet_elements (empty_wallet mb mo (create_witness_at \<rho> w))"
proof -
  have "[0 :: 'a, 0] = replicate 2 0" "[0 :: 'a, 0, 0, 0, 0] = replicate 5 0"
    by (simp_all add: numeral_eq_Suc)
  moreover have "lc_eval \<rho> (lc_const cs 0) = 0"
    using assms by (simp add: lc_eval_def lc_const_def)
  ultimately show ?thesis
    by (simp add: create_lcs_def wallet_elements_def empty_wallet_def create_witness_at_def zero_order_def BALANCE_ZEROS_def ORDER_ZEROS_def
        empty_elements replicate_add map_concat comp_def absorb_fee_vars_def absorb_key_vars_def fee_at_def keys_at_def)
qed

lemma create_lcs_vars: "state_vars (create_lcs cs mb mo w) \<subseteq> create_vars w c \<union> {var_one cs}"
  by (auto simp: create_lcs_def create_vars_def absorb_fee_vars_def absorb_key_vars_def fee_vars_def key_vars_def)

lemma depends_create:
  fixes w :: "(('v, 'f::field) FeeVar, 'v) ValidWalletCreateVar"
  shows "depends (create_vars w c) (\<lambda>\<rho>. (create_witness_at \<rho> w, \<rho> c))"
proof (rule dependsI2)
  fix \<rho> \<rho>' :: "'v \<Rightarrow> 'f" assume agree: "\<forall>v\<in>create_vars w c. \<rho> v = \<rho>' v"
  have fees: "depends (create_vars w c) (\<lambda>\<rho>. map (fee_at \<rho>) (wc_fees w))"
    by (rule depends_map [where f = "\<lambda>f \<rho>. fee_at \<rho> f"], rule depends_fee_at) (auto simp: create_vars_def)
  have keys: "depends (create_vars w c) (\<lambda>\<rho> :: 'v \<Rightarrow> 'f. keys_at \<rho> (wc_keys w))"
    by (rule depends_keys_at) (auto simp: create_vars_def)
  have "\<rho> (wc_wallet_randomness w) = \<rho>' (wc_wallet_randomness w)" "\<rho> c = \<rho>' c"
    by (rule bspec [OF agree], simp add: create_vars_def)+
  then show "(create_witness_at \<rho> w, \<rho> c) = (create_witness_at \<rho>' w, \<rho>' c)"
    by (simp only: create_witness_at_def depends_eq [OF fees agree] depends_eq [OF keys agree])
qed

lemmas depends_create_relation = depends_comp [OF depends_create, where h = "\<lambda>(w, c). c = wallet_commitment p (empty_wallet mb mo w)" for p mb mo, unfolded prod.case]

context constraint_system
begin

lemma dec_valid_wallet_create:
  assumes "valid_params p" "0 < rate p"
  shows "dec (create_vars w c) P (valid_wallet_create cs mb mo p c w)
    (\<lambda>\<rho>. \<rho> c = wallet_commitment p (empty_wallet mb mo (create_witness_at \<rho> w))) (\<lambda>_. {}) (\<lambda>_ _. True)"
proof -
  have vars: "state_vars (create_lcs cs mb mo w) \<union> lc_vars (lc_var c :: ('v, 'f) lc) \<subseteq> create_vars w c \<union> const_vars"
    using create_lcs_vars [of cs mb mo w c] by (auto simp: create_vars_def)
  show ?thesis
    unfolding valid_wallet_create_def check_commitment_hash
    by (rule dec_step [OF dec_hash_constrain [OF assms] depends_create_relation subset_refl vars])
      (auto intro!: dec_yield simp: empty_wallet_elements wallet_commitment_def)
qed

end

subsection \<open>What a proof of VALID WALLET CREATE shows\<close>

text \<open>An example: a wallet with room for two balances and one order, and one fee.\<close>

definition new_wallet_witness :: "((nat, rat) FeeVar, nat) ValidWalletCreateVar" where
  "new_wallet_witness = \<lparr>wc_fees = [\<lparr>fv_settle_key = 2, fv_gas_addr = 3, fv_gas_token_amount = 4, fv_percentage_fee = \<lparr>fp_repr = lc_var 5\<rparr>\<rparr>],
    wc_keys = \<lparr>kv_pk_root = 6, kv_pk_match = 7, kv_pk_settle = 8, kv_pk_view = 9\<rparr>, wc_wallet_randomness = 10\<rparr>"

definition new_wallet_values :: "rat list" where
  "new_wallet_values = [20, 5, 1, 3, 30, 31, 32, 33, 40, hash_value toy_params [0, 0, 0, 0, 0, 0, 0, 0, 0, 20, 5, 1, 3, 30, 31, 32, 33, 40]]"

text \<open>
  C25: the circuit proves exactly that the commitment of the statement is the one that VALID WALLET
  UPDATE, VALID COMMITMENTS and VALID SETTLE compute for a wallet without balances and orders with
  the witness's fees, keys and randomness.\<close>

theorem valid_wallet_create_exact:
  fixes cs :: "('s, 'v, 'f::field) cs_ops"
  assumes "constraint_system cs sat wires assigned" "valid_params p" "0 < rate p"
    and "closed_state sat wires s" "create_vars w c \<subseteq> wires s"
  shows "\<exists>s'. valid_wallet_create cs max_balances max_orders p c w s = Returns ((), s')
    \<and> (\<forall>\<rho>. sat s \<rho> \<longrightarrow> ((\<exists>\<rho>'. (\<forall>v\<in>wires s. \<rho>' v = \<rho> v) \<and> sat s' \<rho>')
        \<longleftrightarrow> \<rho> c = wallet_commitment p (empty_wallet max_balances max_orders (create_witness_at \<rho> w))))"
  using constraint_system.dec_exact [OF assms(1) constraint_system.dec_valid_wallet_create [OF assms(1-3)] depends_create_relation assms(4,5)] by simp

theorem valid_wallet_create_exact_witness:
  "\<exists>s' \<rho>. valid_wallet_create r1cs_ops 2 1 toy_params 11 new_wallet_witness (committed new_wallet_values) = Returns ((), s') \<and> r1cs_sat s' \<rho>"
proof -
  let ?s = "committed new_wallet_values"
  have scope: "create_vars new_wallet_witness 11 \<subseteq> r1cs_wires ?s"
    by (auto simp: create_vars_def fee_vars_def key_vars_def new_wallet_witness_def new_wallet_values_def)
  have rel: "r1cs_assigned ?s 11 = wallet_commitment toy_params (empty_wallet 2 1 (create_witness_at (r1cs_assigned ?s) new_wallet_witness))"
    by (simp add: wallet_commitment_def empty_wallet_def create_witness_at_def new_wallet_witness_def new_wallet_values_def wallet_elements_def zero_order_def
        fee_at_def keys_at_def r1cs_assigned_def committed_def numeral_eq_Suc)
  obtain s' where "valid_wallet_create r1cs_ops 2 1 toy_params 11 new_wallet_witness ?s = Returns ((), s')"
    and "\<And>\<rho>. r1cs_sat ?s \<rho> \<Longrightarrow> (\<exists>\<rho>'. (\<forall>v\<in>r1cs_wires ?s. \<rho>' v = \<rho> v) \<and> r1cs_sat s' \<rho>')
        \<longleftrightarrow> \<rho> 11 = wallet_commitment toy_params (empty_wallet 2 1 (create_witness_at \<rho> new_wallet_witness))"
    using valid_wallet_create_exact [OF r1cs_contract toy_params_valid(1) _ committed_closed scope, of 2 1] by auto
  then show ?thesis
    using rel r1cs.honest_sat [OF committed_honest] by blast
qed

end
