(* ===== verification/Circuit_Choice.thy ===== *)
theory Circuit_Choice
  imports Circuit_Values
begin

section \<open>Gadgets whose output is a choice of the prover\<close>

text \<open>
  Some gadgets leave the prover a choice: a quotient whose remainder is not bounded, the bits of
  a decomposition that are not constrained to be bits. \<open>denotes V P m W val A\<close> is the exact
  meaning of such a gadget or circuit where the constraints so far imply \<open>P\<close>: it returns; in every satisfying assignment the value \<open>val\<close> of its
  output is in \<open>A\<close>; and every assignment to the variables so far that satisfies the constraints
  so far extends, for each value in \<open>A\<close>, to a satisfying one that gives the output this value.
\<close>

definition denotes ::
  "('s \<Rightarrow> ('v \<Rightarrow> 'f) \<Rightarrow> bool) \<Rightarrow> ('s \<Rightarrow> 'v set) \<Rightarrow> 'v set \<Rightarrow> (('v \<Rightarrow> 'f) \<Rightarrow> bool) \<Rightarrow> ('s, 'a) circ \<Rightarrow> ('a \<Rightarrow> 'v set)
    \<Rightarrow> ('a \<Rightarrow> ('v \<Rightarrow> 'f) \<Rightarrow> 'b) \<Rightarrow> (('v \<Rightarrow> 'f) \<Rightarrow> 'b set) \<Rightarrow> bool" where
  "denotes sat wires V P m W val A \<longleftrightarrow> (\<forall>s. (\<forall>\<rho>. sat s \<rho> \<longrightarrow> P \<rho>) \<longrightarrow> (\<exists>x s'. m s = Returns (x, s') \<and> wires s \<subseteq> wires s'
      \<and> (\<forall>\<rho>. sat s' \<rho> \<longrightarrow> sat s \<rho> \<and> val x \<rho> \<in> A \<rho>)
      \<and> (closed_state sat wires s \<longrightarrow> V \<subseteq> wires s \<longrightarrow> closed_state sat wires s' \<and> W x \<subseteq> wires s'
        \<and> (\<forall>\<rho>. sat s \<rho> \<longrightarrow> (\<forall>y\<in>A \<rho>. \<exists>\<rho>'. (\<forall>v\<in>wires s. \<rho>' v = \<rho> v) \<and> sat s' \<rho>' \<and> val x \<rho>' = y)))))"

lemma denotesI:
  assumes "\<And>s. (\<And>\<rho>. sat s \<rho> \<Longrightarrow> P \<rho>) \<Longrightarrow> \<exists>x s'. m s = Returns (x, s') \<and> wires s \<subseteq> wires s' \<and> (\<forall>\<rho>. sat s' \<rho> \<longrightarrow> sat s \<rho> \<and> val x \<rho> \<in> A \<rho>)
      \<and> (closed_state sat wires s \<longrightarrow> V \<subseteq> wires s \<longrightarrow> closed_state sat wires s' \<and> W x \<subseteq> wires s'
        \<and> (\<forall>\<rho>. sat s \<rho> \<longrightarrow> (\<forall>y\<in>A \<rho>. \<exists>\<rho>'. (\<forall>v\<in>wires s. \<rho>' v = \<rho> v) \<and> sat s' \<rho>' \<and> val x \<rho>' = y)))"
  shows "denotes sat wires V P m W val A"
  using assms by (simp add: denotes_def)

lemma denotesE:
  assumes "denotes sat wires V P m W val A" "\<And>\<rho>. sat s \<rho> \<Longrightarrow> P \<rho>"
  obtains x s' where "m s = Returns (x, s')" "wires s \<subseteq> wires s'" "\<And>\<rho>. sat s' \<rho> \<Longrightarrow> sat s \<rho> \<and> val x \<rho> \<in> A \<rho>"
    "closed_state sat wires s \<Longrightarrow> V \<subseteq> wires s \<Longrightarrow> closed_state sat wires s' \<and> W x \<subseteq> wires s'"
    "\<And>\<rho> y. closed_state sat wires s \<Longrightarrow> V \<subseteq> wires s \<Longrightarrow> sat s \<rho> \<Longrightarrow> y \<in> A \<rho> \<Longrightarrow>
      \<exists>\<rho>'. (\<forall>v\<in>wires s. \<rho>' v = \<rho> v) \<and> sat s' \<rho>' \<and> val x \<rho>' = y"
proof -
  let ?B = "\<lambda>x s'. m s = Returns (x, s') \<and> wires s \<subseteq> wires s' \<and> (\<forall>\<rho>. sat s' \<rho> \<longrightarrow> sat s \<rho> \<and> val x \<rho> \<in> A \<rho>)
      \<and> (closed_state sat wires s \<longrightarrow> V \<subseteq> wires s \<longrightarrow> closed_state sat wires s' \<and> W x \<subseteq> wires s'
        \<and> (\<forall>\<rho>. sat s \<rho> \<longrightarrow> (\<forall>y\<in>A \<rho>. \<exists>\<rho>'. (\<forall>v\<in>wires s. \<rho>' v = \<rho> v) \<and> sat s' \<rho>' \<and> val x \<rho>' = y)))"
  have "(\<forall>\<rho>. sat s \<rho> \<longrightarrow> P \<rho>) \<longrightarrow> (\<exists>x s'. ?B x s')"
    using assms(1) unfolding denotes_def by (rule spec)
  moreover have "\<forall>\<rho>. sat s \<rho> \<longrightarrow> P \<rho>"
    using assms(2) by simp
  ultimately have "\<exists>x s'. ?B x s'"
    by (rule mp)
  then obtain x s' where "?B x s'"
    by (elim exE)
  then show ?thesis
    by (intro that [of x s']) simp_all
qed

context constraint_system
begin

abbreviation den ::
  "'v set \<Rightarrow> (('v \<Rightarrow> 'f) \<Rightarrow> bool) \<Rightarrow> ('s, 'a) circ \<Rightarrow> ('a \<Rightarrow> 'v set) \<Rightarrow> ('a \<Rightarrow> ('v \<Rightarrow> 'f) \<Rightarrow> 'b) \<Rightarrow> (('v \<Rightarrow> 'f) \<Rightarrow> 'b set) \<Rightarrow> bool" where
  "den \<equiv> denotes sat wires"

text \<open>Sequencing: the later circuit sees the earlier one's output through its value.\<close>

lemma den_bind:
  assumes "den U P m W val A" "U \<subseteq> V \<union> const_vars"
    "\<And>s x s' \<rho>. (\<And>\<rho>. sat s \<rho> \<Longrightarrow> P \<rho>) \<Longrightarrow> m s = Returns (x, s') \<Longrightarrow> sat s' \<rho> \<Longrightarrow> Q x \<rho>"
    "\<And>x. den (V \<union> W x) (\<lambda>\<rho>. P \<rho> \<and> val x \<rho> \<in> A \<rho> \<and> Q x \<rho>) (k x) W' val' (\<lambda>\<rho>. B (val x \<rho>) \<rho>)" "\<And>y. depends V (B y)"
    "\<And>\<rho>. P \<rho> \<Longrightarrow> \<rho> (var_one cs) = 1 \<Longrightarrow> \<rho> (var_zero cs) = 0 \<Longrightarrow> (\<Union>y\<in>A \<rho>. B y \<rho>) = C \<rho>"
  shows "den V P (andthen m k) W' val' C"
proof (rule denotesI)
  fix s assume P: "\<And>\<rho>. sat s \<rho> \<Longrightarrow> P \<rho>"
  obtain x t where m: "m s = Returns (x, t)" "wires s \<subseteq> wires t" "\<And>\<rho>. sat t \<rho> \<Longrightarrow> sat s \<rho> \<and> val x \<rho> \<in> A \<rho>"
    "closed s \<Longrightarrow> U \<subseteq> wires s \<Longrightarrow> closed t \<and> W x \<subseteq> wires t"
    "\<And>\<rho> y. closed s \<Longrightarrow> U \<subseteq> wires s \<Longrightarrow> sat s \<rho> \<Longrightarrow> y \<in> A \<rho> \<Longrightarrow> \<exists>\<rho>'. (\<forall>v\<in>wires s. \<rho>' v = \<rho> v) \<and> sat t \<rho>' \<and> val x \<rho>' = y"
    by (rule denotesE [OF assms(1), of s, OF P]) metis+
  have Pt: "P \<rho> \<and> val x \<rho> \<in> A \<rho> \<and> Q x \<rho>" if "sat t \<rho>" for \<rho>
    using m(3) [OF that] P assms(3) [OF P m(1) that] by blast
  obtain z u where k: "k x t = Returns (z, u)" "wires t \<subseteq> wires u" "\<And>\<rho>. sat u \<rho> \<Longrightarrow> sat t \<rho> \<and> val' z \<rho> \<in> B (val x \<rho>) \<rho>"
    "closed t \<Longrightarrow> V \<union> W x \<subseteq> wires t \<Longrightarrow> closed u \<and> W' z \<subseteq> wires u"
    "\<And>\<rho> y. closed t \<Longrightarrow> V \<union> W x \<subseteq> wires t \<Longrightarrow> sat t \<rho> \<Longrightarrow> y \<in> B (val x \<rho>) \<rho> \<Longrightarrow>
      \<exists>\<rho>'. (\<forall>v\<in>wires t. \<rho>' v = \<rho> v) \<and> sat u \<rho>' \<and> val' z \<rho>' = y"
    by (rule denotesE [OF assms(4) [of x], of t, OF Pt]) metis+
  have C: "C \<rho> = (\<Union>y\<in>A \<rho>. B y \<rho>)" if "sat s \<rho>" for \<rho>
    using assms(6) [of \<rho>, OF P [OF that]] sat_constants [OF that] by simp
  have t: "closed t \<and> V \<union> W x \<subseteq> wires t" "U \<subseteq> wires s" if "closed s" "V \<subseteq> wires s"
    using m(2,4) assms(2) that wires_constants [of s] by blast+
  have "\<exists>\<rho>'. (\<forall>v\<in>wires s. \<rho>' v = \<rho> v) \<and> sat u \<rho>' \<and> val' z \<rho>' = c"
    if h: "closed s" "V \<subseteq> wires s" "sat s \<rho>" and c: "c \<in> C \<rho>" for \<rho> c
  proof -
    obtain y where y: "y \<in> A \<rho>" "c \<in> B y \<rho>"
      using c C [OF h(3)] by blast
    obtain \<rho>1 where 1: "\<forall>v\<in>wires s. \<rho>1 v = \<rho> v" "sat t \<rho>1" "val x \<rho>1 = y"
      using m(5) [OF h(1) t(2) [OF h(1,2)] h(3) y(1)] by blast
    have "B y \<rho>1 = B y \<rho>"
      by (rule dependsD [OF assms(5)]) (use 1(1) h(2) in blast)
    then obtain \<rho>2 where 2: "\<forall>v\<in>wires t. \<rho>2 v = \<rho>1 v" "sat u \<rho>2" "val' z \<rho>2 = c"
      using k(5) [OF _ _ 1(2), of c] t(1) [OF h(1,2)] y(2) 1(3) by auto
    have "\<forall>v\<in>wires s. \<rho>2 v = \<rho> v"
      using 1(1) 2(1) m(2) by (metis subsetD)
    with 2 show ?thesis
      by (intro exI [of _ \<rho>2]) simp
  qed
  moreover have "andthen m k s = Returns (z, u)"
    by (simp add: andthen_def m(1) k(1))
  moreover have "sat s \<rho> \<and> val' z \<rho> \<in> C \<rho>" if "sat u \<rho>" for \<rho>
    using k(3) [OF that] m(3) [of \<rho>] C [of \<rho>] by blast
  ultimately show "\<exists>z u. andthen m k s = Returns (z, u) \<and> wires s \<subseteq> wires u \<and> (\<forall>\<rho>. sat u \<rho> \<longrightarrow> sat s \<rho> \<and> val' z \<rho> \<in> C \<rho>)
      \<and> (closed s \<longrightarrow> V \<subseteq> wires s \<longrightarrow> closed u \<and> W' z \<subseteq> wires u
        \<and> (\<forall>\<rho>. sat s \<rho> \<longrightarrow> (\<forall>y\<in>C \<rho>. \<exists>\<rho>'. (\<forall>v\<in>wires s. \<rho>' v = \<rho> v) \<and> sat u \<rho>' \<and> val' z \<rho>' = y)))"
    using m(2) k(2,4) t(1) by (intro exI [of _ z] exI [of _ u]) (auto 0 3)
qed

lemma den_weaken:
  assumes "den U P m W val A" "U \<subseteq> V \<union> const_vars" "\<And>x. W' x \<subseteq> V \<union> W x \<union> const_vars" "\<And>x \<rho>. val' x \<rho> = f (val x \<rho>)"
    "\<And>\<rho>. P' \<rho> \<Longrightarrow> \<rho> (var_one cs) = 1 \<Longrightarrow> \<rho> (var_zero cs) = 0 \<Longrightarrow> P \<rho> \<and> f ` A \<rho> = A' \<rho>"
  shows "den V P' m W' val' A'"
proof (rule denotesI)
  fix s assume P': "\<And>\<rho>. sat s \<rho> \<Longrightarrow> P' \<rho>"
  have A': "P \<rho> \<and> A' \<rho> = f ` A \<rho>" if "sat s \<rho>" for \<rho>
    using assms(5) [of \<rho>, OF P' [OF that]] sat_constants [OF that] by simp
  then have P: "P \<rho>" if "sat s \<rho>" for \<rho>
    using that by blast
  obtain x t where m: "m s = Returns (x, t)" "wires s \<subseteq> wires t" "\<And>\<rho>. sat t \<rho> \<Longrightarrow> sat s \<rho> \<and> val x \<rho> \<in> A \<rho>"
    "closed s \<Longrightarrow> U \<subseteq> wires s \<Longrightarrow> closed t \<and> W x \<subseteq> wires t"
    "\<And>\<rho> y. closed s \<Longrightarrow> U \<subseteq> wires s \<Longrightarrow> sat s \<rho> \<Longrightarrow> y \<in> A \<rho> \<Longrightarrow> \<exists>\<rho>'. (\<forall>v\<in>wires s. \<rho>' v = \<rho> v) \<and> sat t \<rho>' \<and> val x \<rho>' = y"
    by (rule denotesE [OF assms(1), of s, OF P]) metis+
  have scope: "U \<subseteq> wires s" if "V \<subseteq> wires s"
    using assms(2) that wires_constants [of s] by blast
  have "W' x \<subseteq> wires t" if "V \<subseteq> wires s" "W x \<subseteq> wires t"
    using assms(3) [of x] that m(2) wires_constants [of t] by blast
  moreover have "\<exists>\<rho>'. (\<forall>v\<in>wires s. \<rho>' v = \<rho> v) \<and> sat t \<rho>' \<and> val' x \<rho>' = z" if "closed s" "V \<subseteq> wires s" "sat s \<rho>" "z \<in> A' \<rho>" for \<rho> z
  proof -
    have "z \<in> f ` A \<rho>"
      using that(4) A' [OF that(3)] by simp
    then show ?thesis
      using m(5) [OF that(1) scope [OF that(2)] that(3)] unfolding assms(4) by blast
  qed
  moreover have "sat s \<rho> \<and> val' x \<rho> \<in> A' \<rho>" if "sat t \<rho>" for \<rho>
    using m(3) [OF that] A' assms(4) by auto
  ultimately show "\<exists>x s'. m s = Returns (x, s') \<and> wires s \<subseteq> wires s' \<and> (\<forall>\<rho>. sat s' \<rho> \<longrightarrow> sat s \<rho> \<and> val' x \<rho> \<in> A' \<rho>)
      \<and> (closed s \<longrightarrow> V \<subseteq> wires s \<longrightarrow> closed s' \<and> W' x \<subseteq> wires s'
        \<and> (\<forall>\<rho>. sat s \<rho> \<longrightarrow> (\<forall>y\<in>A' \<rho>. \<exists>\<rho>'. (\<forall>v\<in>wires s. \<rho>' v = \<rho> v) \<and> sat s' \<rho>' \<and> val' x \<rho>' = y)))"
    using m(1,2,4) scope by (intro exI [of _ x] exI [of _ t]) (auto 0 3)
qed

text \<open>A gadget with a determined output, and a circuit read as a relation.\<close>

lemma den_of_dec:
  assumes "dec U P m R W Q" "\<And>x \<rho>. P \<rho> \<Longrightarrow> Q x \<rho> \<Longrightarrow> val x \<rho> = g \<rho>" "depends U g"
  shows "den U P m W val (\<lambda>\<rho>. {y. R \<rho> \<and> y = g \<rho>})"
proof (rule denotesI)
  fix s assume P: "\<And>\<rho>. sat s \<rho> \<Longrightarrow> P \<rho>"
  obtain x t where m: "m s = Returns (x, t)" "wires s \<subseteq> wires t" "\<And>\<rho>. sat t \<rho> \<Longrightarrow> sat s \<rho> \<and> R \<rho> \<and> Q x \<rho>"
    "closed s \<Longrightarrow> U \<subseteq> wires s \<Longrightarrow> closed t \<and> W x \<subseteq> wires t"
    "\<And>\<rho>. closed s \<Longrightarrow> U \<subseteq> wires s \<Longrightarrow> sat s \<rho> \<Longrightarrow> R \<rho> \<Longrightarrow> \<exists>\<rho>'. (\<forall>v\<in>wires s. \<rho>' v = \<rho> v) \<and> sat t \<rho>'"
    by (rule decidesE [OF assms(1), of s, OF P]) metis+
  have val: "val x \<rho> = g \<rho>" if "sat t \<rho>" for \<rho>
    using m(3) [OF that] P assms(2) by blast
  have "\<exists>\<rho>'. (\<forall>v\<in>wires s. \<rho>' v = \<rho> v) \<and> sat t \<rho>' \<and> val x \<rho>' = g \<rho>" if h: "closed s" "U \<subseteq> wires s" "sat s \<rho>" "R \<rho>" for \<rho>
  proof -
    obtain \<rho>' where \<rho>': "\<forall>v\<in>wires s. \<rho>' v = \<rho> v" "sat t \<rho>'"
      using m(5) [OF h] by blast
    have "g \<rho>' = g \<rho>"
      by (rule dependsD [OF assms(3)]) (use \<rho>'(1) h(2) in blast)
    then show ?thesis
      using \<rho>' val by (intro exI [of _ \<rho>']) simp
  qed
  then show "\<exists>x s'. m s = Returns (x, s') \<and> wires s \<subseteq> wires s' \<and> (\<forall>\<rho>. sat s' \<rho> \<longrightarrow> sat s \<rho> \<and> val x \<rho> \<in> {y. R \<rho> \<and> y = g \<rho>})
      \<and> (closed s \<longrightarrow> U \<subseteq> wires s \<longrightarrow> closed s' \<and> W x \<subseteq> wires s'
        \<and> (\<forall>\<rho>. sat s \<rho> \<longrightarrow> (\<forall>y\<in>{y. R \<rho> \<and> y = g \<rho>}. \<exists>\<rho>'. (\<forall>v\<in>wires s. \<rho>' v = \<rho> v) \<and> sat s' \<rho>' \<and> val x \<rho>' = y)))"
    using m(1-4) val by (intro exI [of _ x] exI [of _ t]) (auto 0 3)
qed

lemma den_total:
  assumes "\<And>s x s'. g s = (x, s') \<Longrightarrow> gad U (W x) s s' (\<lambda>\<rho>. val x \<rho> = h \<rho>)" "depends U h"
  shows "den U P (total g) W val (\<lambda>\<rho>. {h \<rho>})"
proof -
  have "dec U P (total g) (\<lambda>_. True) W (\<lambda>x \<rho>. val x \<rho> = h \<rho>)"
    by (rule dec_total) (rule assms(1))
  from den_of_dec [OF this _ assms(2), where val = val] show ?thesis
    by simp
qed

lemma dec_of_den:
  assumes "den U P m W val A"
  shows "dec U P m (\<lambda>\<rho>. A \<rho> \<noteq> {}) W (\<lambda>x \<rho>. val x \<rho> \<in> A \<rho>)"
proof (rule decidesI)
  fix s assume P: "\<And>\<rho>. sat s \<rho> \<Longrightarrow> P \<rho>"
  obtain x t where m: "m s = Returns (x, t)" "wires s \<subseteq> wires t" "\<And>\<rho>. sat t \<rho> \<Longrightarrow> sat s \<rho> \<and> val x \<rho> \<in> A \<rho>"
    "closed s \<Longrightarrow> U \<subseteq> wires s \<Longrightarrow> closed t \<and> W x \<subseteq> wires t"
    "\<And>\<rho> y. closed s \<Longrightarrow> U \<subseteq> wires s \<Longrightarrow> sat s \<rho> \<Longrightarrow> y \<in> A \<rho> \<Longrightarrow> \<exists>\<rho>'. (\<forall>v\<in>wires s. \<rho>' v = \<rho> v) \<and> sat t \<rho>' \<and> val x \<rho>' = y"
    by (rule denotesE [OF assms(1), of s, OF P]) metis+
  have "\<exists>\<rho>'. (\<forall>v\<in>wires s. \<rho>' v = \<rho> v) \<and> sat t \<rho>'" if "closed s" "U \<subseteq> wires s" "sat s \<rho>" "A \<rho> \<noteq> {}" for \<rho>
    using m(5) [OF that(1-3)] that(4) by blast
  moreover have "sat s \<rho> \<and> A \<rho> \<noteq> {} \<and> val x \<rho> \<in> A \<rho>" if "sat t \<rho>" for \<rho>
    using m(3) [OF that] by blast
  ultimately show "\<exists>x s'. m s = Returns (x, s') \<and> wires s \<subseteq> wires s' \<and> (\<forall>\<rho>. sat s' \<rho> \<longrightarrow> sat s \<rho> \<and> A \<rho> \<noteq> {} \<and> val x \<rho> \<in> A \<rho>)
      \<and> (closed s \<longrightarrow> U \<subseteq> wires s \<longrightarrow> closed s' \<and> W x \<subseteq> wires s'
        \<and> (\<forall>\<rho>. sat s \<rho> \<longrightarrow> A \<rho> \<noteq> {} \<longrightarrow> (\<exists>\<rho>'. (\<forall>v\<in>wires s. \<rho>' v = \<rho> v) \<and> sat s' \<rho>')))"
    using m(1,2,4) by (intro exI [of _ x] exI [of _ t]) (auto 0 3)
qed

text \<open>A step whose output is determined: what is known of it is kept as a premise of the rest.\<close>

lemma den_known:
  assumes "dec U P m (\<lambda>_. True) W Q" "U \<subseteq> V \<union> const_vars" "\<And>x. den (V \<union> W x) (\<lambda>\<rho>. P \<rho> \<and> Q x \<rho>) (k x) W' val' C" "depends V C"
  shows "den V P (andthen m k) W' val' C"
proof (rule den_bind [where Q = Q and B = "\<lambda>_. C"])
  show "den U P m W (\<lambda>_ _. ()) (\<lambda>\<rho>. {y. True \<and> y = ()})"
    by (rule den_of_dec [OF assms(1)]) simp_all
  show "Q x \<rho>" if "\<And>\<rho>. sat s \<rho> \<Longrightarrow> P \<rho>" "m s = Returns (x, s')" "sat s' \<rho>" for s x s' \<rho>
    using decidesE [OF assms(1), of s, OF that(1)] that(2,3) by auto
  show "den (V \<union> W x) (\<lambda>\<rho>. P \<rho> \<and> () \<in> {y. True \<and> y = ()} \<and> Q x \<rho>) (k x) W' val' C" for x
    using assms(3) [of x] by simp
qed (use assms in auto)

lemma den_choice:
  assumes "den U P m W val A" "U \<subseteq> V \<union> const_vars"
    "\<And>x. den (V \<union> W x) (\<lambda>\<rho>. P \<rho> \<and> val x \<rho> \<in> A \<rho>) (k x) W' val' (\<lambda>\<rho>. B (val x \<rho>) \<rho>)" "\<And>y. depends V (B y)"
    "\<And>\<rho>. P \<rho> \<Longrightarrow> \<rho> (var_one cs) = 1 \<Longrightarrow> \<rho> (var_zero cs) = 0 \<Longrightarrow> (\<Union>y\<in>A \<rho>. B y \<rho>) = C \<rho>"
  shows "den V P (andthen m k) W' val' C"
  by (rule den_bind [OF assms(1,2), where Q = "\<lambda>_ _. True"]) (use assms(3-5) in simp_all)

lemma den_yield:
  assumes "W x \<subseteq> V \<union> const_vars"
  shows "den V P (yield x) W val (\<lambda>\<rho>. {val x \<rho>})"
proof (rule denotesI)
  fix s
  have "W x \<subseteq> wires s" if "V \<subseteq> wires s"
    using assms that wires_constants [of s] by blast
  then show "\<exists>y s'. yield x s = Returns (y, s') \<and> wires s \<subseteq> wires s' \<and> (\<forall>\<rho>. sat s' \<rho> \<longrightarrow> sat s \<rho> \<and> val y \<rho> \<in> {val x \<rho>})
      \<and> (closed s \<longrightarrow> V \<subseteq> wires s \<longrightarrow> closed s' \<and> W y \<subseteq> wires s'
        \<and> (\<forall>\<rho>. sat s \<rho> \<longrightarrow> (\<forall>z\<in>{val x \<rho>}. \<exists>\<rho>'. (\<forall>v\<in>wires s. \<rho>' v = \<rho> v) \<and> sat s' \<rho>' \<and> val y \<rho>' = z)))"
    by (intro exI [of _ x] exI [of _ s]) (auto simp: yield_def)
qed

lemma den_return:
  assumes "W x \<subseteq> V \<union> const_vars" "\<And>\<rho>. P \<rho> \<Longrightarrow> \<rho> (var_one cs) = 1 \<Longrightarrow> \<rho> (var_zero cs) = 0 \<Longrightarrow> {val x \<rho>} = C \<rho>"
  shows "den V P (yield x) W val C"
  by (rule den_weaken [OF den_yield [where W = W and x = x and V = V and P = P and val = val, OF assms(1)], where f = id]) (use assms(2) in auto)

text \<open>A circuit that goes on after a choice holds where some choice makes the rest hold.\<close>

lemma dec_choose:
  assumes "den U P m W val A" "U \<subseteq> V \<union> const_vars"
    "\<And>x. dec (V \<union> W x) (\<lambda>\<rho>. P \<rho> \<and> val x \<rho> \<in> A \<rho>) (k x) (\<lambda>\<rho>. B (val x \<rho>) \<rho>) (\<lambda>_. {}) (\<lambda>_ _. True)" "\<And>y. depends V (B y)"
    "\<And>\<rho>. P \<rho> \<Longrightarrow> \<rho> (var_one cs) = 1 \<Longrightarrow> \<rho> (var_zero cs) = 0 \<Longrightarrow> (\<exists>y\<in>A \<rho>. B y \<rho>) = R \<rho>"
  shows "dec V P (andthen m k) R (\<lambda>_. {}) (\<lambda>_ _. True)"
proof -
  have "den V P (andthen m k) (\<lambda>_. {}) (\<lambda>_ _. ()) (\<lambda>\<rho>. {u. R \<rho>})"
  proof (rule den_choice [OF assms(1,2), where B = "\<lambda>y \<rho>. {u. B y \<rho>}"])
    show "den (V \<union> W x) (\<lambda>\<rho>. P \<rho> \<and> val x \<rho> \<in> A \<rho>) (k x) (\<lambda>_. {}) (\<lambda>_ _. ()) (\<lambda>\<rho>. {u. B (val x \<rho>) \<rho>})" for x
      using den_of_dec [OF assms(3) [of x], where val = "\<lambda>_ _. ()" and g = "\<lambda>_. ()"] by simp
    show "depends V (\<lambda>\<rho>. {u. B y \<rho>})" for y
      by (rule depends_comp [OF assms(4), where h = "\<lambda>b. {u. b}"])
    show "(\<Union>y\<in>A \<rho>. {u. B y \<rho>}) = {u. R \<rho>}" if "P \<rho>" "\<rho> (var_one cs) = 1" "\<rho> (var_zero cs) = 0" for \<rho>
      using assms(5) [OF that] by auto
  qed
  from dec_of_den [OF this] show ?thesis
    by (rule dec_weaken) auto
qed

subsection \<open>Bits that need not be bits\<close>

lemma den_to_bits:
  assumes "D \<le> 256"
  shows "den (lc_vars a) P (to_bits D canon cs a) set (\<lambda>bits \<rho>. map \<rho> bits) (\<lambda>\<rho>. {bs. length bs = D \<and> bits_value bs = lc_eval \<rho> a})"
proof (rule denotesI)
  fix s
  obtain bits s' where run: "to_bits D canon cs a s = Returns (bits, s')"
    using assms by (cases "allocate_all cs (take D (scalar_to_bits_le canon (cs_eval cs a s))) s") (simp add: to_bits_def)
  obtain r t where t: "allocate_all cs (take D (scalar_to_bits_le canon (cs_eval cs a s))) s = (bits, t)"
    "s' = cs_constrain cs (lc_sub r a) t" "\<And>\<rho>. lc_eval \<rho> r = bits_value (map \<rho> bits)" "lc_vars r = set bits" "length bits = D"
    using run by (rule to_bits_run) metis
  note fresh = allocate_all_fresh [OF t(1)] and gad = allocate_all_gadget [OF t(1)]
  have w: "wires s \<subseteq> wires t" "distinct bits" "set bits \<inter> wires s = {}"
    using gadget_grows [OF gad] fresh by (auto simp: grows_def)
  have closed: "closed s' \<and> set bits \<subseteq> wires s'" if "closed s" "lc_vars a \<subseteq> wires s"
  proof -
    have "closed t" "set bits \<subseteq> wires t"
      using gadget_complete [OF gad that(1)] by auto
    moreover from this have "lc_vars (lc_sub r a) \<subseteq> wires t"
      unfolding lc_vars_simps t(4) using order_trans [OF that(2) w(1)] by simp
    ultimately show ?thesis
      by (simp add: t(2) wires_constrain constrain_closed)
  qed
  have "\<exists>\<rho>'. (\<forall>v\<in>wires s. \<rho>' v = \<rho> v) \<and> sat s' \<rho>' \<and> map \<rho>' bits = bs"
    if h: "closed s" "lc_vars a \<subseteq> wires s" "sat s \<rho>" and bs: "length bs = D" "bits_value bs = lc_eval \<rho> a" for \<rho> bs
  proof -
    let ?\<rho> = "\<lambda>v. case map_of (zip bits bs) v of Some b \<Rightarrow> b | None \<Rightarrow> \<rho> v"
    have keep: "\<forall>v\<in>wires s. ?\<rho> v = \<rho> v"
    proof
      fix v assume "v \<in> wires s"
      then have "v \<notin> set bits"
        using w(3) by blast
      then have "map_of (zip bits bs) v = None"
        using t(5) bs(1) by simp
      then show "?\<rho> v = \<rho> v" by simp
    qed
    have "map ?\<rho> bits = bs"
      using w(2) t(5) bs(1) by (intro nth_equalityI) (simp_all add: map_of_zip_nth)
    moreover have "lc_eval ?\<rho> a = lc_eval \<rho> a"
      using keep h(2) by (intro lc_eval_cong) blast
    moreover have "sat t ?\<rho>"
      using closed_transfer [OF h(1,3) keep] fresh by simp
    ultimately have "sat s' ?\<rho>"
      unfolding t(2) sat_constrain lc_eval_sub t(3) using bs(2) by simp
    with keep \<open>map ?\<rho> bits = bs\<close> show ?thesis
      by (intro exI [of _ ?\<rho>] conjI)
  qed
  then show "\<exists>x s'. to_bits D canon cs a s = Returns (x, s') \<and> wires s \<subseteq> wires s'
      \<and> (\<forall>\<rho>. sat s' \<rho> \<longrightarrow> sat s \<rho> \<and> map \<rho> x \<in> {bs. length bs = D \<and> bits_value bs = lc_eval \<rho> a})
      \<and> (closed s \<longrightarrow> lc_vars a \<subseteq> wires s \<longrightarrow> closed s' \<and> set x \<subseteq> wires s'
        \<and> (\<forall>\<rho>. sat s \<rho> \<longrightarrow> (\<forall>y\<in>{bs. length bs = D \<and> bits_value bs = lc_eval \<rho> a}. \<exists>\<rho>'. (\<forall>v\<in>wires s. \<rho>' v = \<rho> v) \<and> sat s' \<rho>' \<and> map \<rho>' x = y)))"
    using run w(1) closed to_bits_sat [OF run] t(2,5) by (intro exI [of _ bits] exI [of _ s']) (auto simp: wires_constrain)
qed

end

text \<open>
  What the private exponentiation gadgets compute from the values of the bits, whatever these
  are.
\<close>

fun private_power :: "'f::field \<Rightarrow> 'f list \<Rightarrow> 'f" where
  "private_power x [] = 1"
| "private_power x (b # bs) = (let z = of_bool (sum_list (b # bs) = 0); d = private_power x bs * private_power x bs
     in 1 * z + (x * d * b + d * (1 - b)) * (1 - z))"

text \<open>The possible results of a private exponentiation.\<close>

definition powers :: "nat \<Rightarrow> 'f::field \<Rightarrow> 'f \<Rightarrow> 'f set" where
  "powers N x e = private_power x ` {bs. length bs = N \<and> bits_value bs = e}"

context constraint_system
begin

lemma private_power_step:
  assumes "all_bits_zero cs (b # bs) s = (z, s1)"
    and "gad V (lc_vars r) s1 s2 (\<lambda>\<rho>. lc_eval \<rho> r = private_power (X \<rho>) (map \<rho> bs))"
    and "cs_product cs r r s2 = (d, s3)"
    and "gad (V \<union> {d}) (lc_vars p) s3 s4 (\<lambda>\<rho>. lc_eval \<rho> p = X \<rho> * \<rho> d)"
    and "select_gadget cs p (lc_var d) (lc_var b) s4 = (o1, s5)"
    and "select_gadget cs (lc_one cs) o1 (lc_var z) s5 = (out, s')"
  shows "gad (V \<union> set (b # bs)) (lc_vars out) s s' (\<lambda>\<rho>. lc_eval \<rho> out = private_power (X \<rho>) (map \<rho> (b # bs)))"
proof -
  let ?V = "V \<union> set (b # bs)"
  define P where "P \<rho> = private_power (X \<rho>) (map \<rho> bs)" for \<rho>
  define Z where "Z \<rho> \<longleftrightarrow> \<rho> z = of_bool (sum_list (map \<rho> (b # bs)) = 0)" for \<rho> :: "'v \<Rightarrow> 'f"
  have "gad (set (b # bs)) {z} s s1 Z"
    using all_bits_zero_gadget [OF assms(1)] by (simp only: Z_def [abs_def])
  moreover have "gad V (lc_vars r) s1 s2 (\<lambda>\<rho>. lc_eval \<rho> r = P \<rho>)"
    using assms(2) by (simp add: P_def)
  ultimately have "gad ?V ({z} \<union> lc_vars r) s s2 (\<lambda>\<rho>. Z \<rho> \<and> lc_eval \<rho> r = P \<rho>)"
    by (rule gadget_chain) auto
  from this product_gadget [OF assms(3)] have "gad ?V {z, d} s s3 (\<lambda>\<rho>. Z \<rho> \<and> \<rho> d = P \<rho> * P \<rho>)"
    by (rule gadget_chain) auto
  from this assms(4) have "gad ?V ({z, d} \<union> lc_vars p) s s4 (\<lambda>\<rho>. Z \<rho> \<and> \<rho> d = P \<rho> * P \<rho> \<and> lc_eval \<rho> p = X \<rho> * \<rho> d)"
    by (rule gadget_chain) auto
  from this select_gadget_gadget [OF assms(5)]
  have "gad ?V ({z} \<union> lc_vars o1) s s5 (\<lambda>\<rho>. Z \<rho> \<and> lc_eval \<rho> o1 = X \<rho> * (P \<rho> * P \<rho>) * \<rho> b + P \<rho> * P \<rho> * (1 - \<rho> b))"
    by (rule gadget_chain) auto
  from this select_gadget_gadget [OF assms(6)] show ?thesis
    by (rule gadget_chain) (auto simp: Z_def P_def Let_def one_eval)
qed

lemma exp_private_impl_power:
  assumes "exp_private_impl cs x bits s = (out, s')"
  shows "gad (lc_vars x \<union> set bits) (lc_vars out) s s' (\<lambda>\<rho>. lc_eval \<rho> out = private_power (lc_eval \<rho> x) (map \<rho> bits))"
  using assms
proof (induction bits arbitrary: s out s')
  case Nil
  then show ?case
    using wires_constants [of s] by (auto simp: gadget_def const_eval)
next
  case (Cons b bs)
  obtain z s1 r s2 d s3 p s4 o1 s5 where run: "all_bits_zero cs (b # bs) s = (z, s1)" "exp_private_impl cs x bs s1 = (r, s2)"
    "cs_product cs r r s2 = (d, s3)" "cs_product cs x (lc_var d) s3 = (p, s4)"
    "select_gadget cs (lc_var p) (lc_var d) (lc_var b) s4 = (o1, s5)"
    "select_gadget cs (lc_one cs) o1 (lc_var z) s5 = (out, s')"
    using Cons.prems(1) by (auto split: prod.splits)
  have "gad (lc_vars x \<union> set bs \<union> {d}) (lc_vars (lc_var p)) s3 s4 (\<lambda>\<rho>. lc_eval \<rho> (lc_var p) = lc_eval \<rho> x * \<rho> d)"
    by (rule gadget_weaken [OF product_gadget [OF run(4)]]) auto
  from private_power_step [OF run(1) Cons.IH [OF run(2)] run(3) this run(5,6)] show ?case
    by (rule gadget_weaken) auto
qed

lemma exp_private_fixed_base_impl_power:
  assumes "exp_private_fixed_base_impl cs x bits s = (out, s')"
  shows "gad (set bits) (lc_vars out) s s' (\<lambda>\<rho>. lc_eval \<rho> out = private_power x (map \<rho> bits))"
  using assms
proof (induction bits arbitrary: s out s')
  case Nil
  then show ?case
    using wires_constants [of s] by (auto simp: gadget_def const_eval)
next
  case (Cons b bs)
  obtain z s1 r s2 d s3 o1 s5 where run: "all_bits_zero cs (b # bs) s = (z, s1)" "exp_private_fixed_base_impl cs x bs s1 = (r, s2)"
    "cs_product cs r r s2 = (d, s3)" "select_gadget cs (lc_scale x (lc_var d)) (lc_var d) (lc_var b) s3 = (o1, s5)"
    "select_gadget cs (lc_one cs) o1 (lc_var z) s5 = (out, s')"
    using Cons.prems(1) by (auto split: prod.splits)
  have "gad (set bs \<union> {d}) (lc_vars (lc_scale x (lc_var d))) s3 s3 (\<lambda>\<rho>. lc_eval \<rho> (lc_scale x (lc_var d)) = x * \<rho> d)"
    by (auto simp: gadget_def)
  from private_power_step [OF run(1) Cons.IH [OF run(2)] run(3) this run(4,5)] show ?case
    by (rule gadget_weaken) auto
qed

lemma den_exp_private:
  assumes "N \<le> 256"
  shows "den (lc_vars x \<union> lc_vars e) P (exp_private N canon cs x e) lc_vars (\<lambda>out \<rho>. lc_eval \<rho> out) (\<lambda>\<rho>. powers N (lc_eval \<rho> x) (lc_eval \<rho> e))"
proof -
  have "exp_private N canon cs x e = andthen (to_bits N canon cs e) (\<lambda>bits. total (exp_private_impl cs x bits))"
    by (rule ext) (simp add: exp_private_def andthen_def total_def)
  moreover have "den (lc_vars x \<union> lc_vars e) P (andthen (to_bits N canon cs e) (\<lambda>bits. total (exp_private_impl cs x bits))) lc_vars
      (\<lambda>out \<rho>. lc_eval \<rho> out) (\<lambda>\<rho>. powers N (lc_eval \<rho> x) (lc_eval \<rho> e))"
  proof (rule den_choice [OF den_to_bits [OF assms], where B = "\<lambda>bs \<rho>. {private_power (lc_eval \<rho> x) bs}"])
    fix bits
    have "den (lc_vars x \<union> set bits) (\<lambda>_. True) (total (exp_private_impl cs x bits)) lc_vars (\<lambda>out \<rho>. lc_eval \<rho> out) (\<lambda>\<rho>. {private_power (lc_eval \<rho> x) (map \<rho> bits)})"
      by (rule den_total, rule exp_private_impl_power) (auto intro!: depends_comp2 [where h = private_power] depends_lc depends_map [where f = "\<lambda>v \<rho>. \<rho> v"] depends_var)
    then show "den (lc_vars x \<union> lc_vars e \<union> set bits) (\<lambda>\<rho>. P \<rho> \<and> map \<rho> bits \<in> {bs. length bs = N \<and> bits_value bs = lc_eval \<rho> e}) (total (exp_private_impl cs x bits)) lc_vars (\<lambda>out \<rho>. lc_eval \<rho> out)
        (\<lambda>\<rho>. {private_power (lc_eval \<rho> x) (map \<rho> bits)})"
      by (rule den_weaken [where f = id]) auto
    show "depends (lc_vars x \<union> lc_vars e) (\<lambda>\<rho>. {private_power (lc_eval \<rho> x) bs})" for bs
      by (rule depends_comp [where h = "\<lambda>y. {private_power y bs}"], rule depends_lc) simp
  qed (auto simp: powers_def)
  ultimately show ?thesis
    by (simp only:)
qed

lemma den_exp_private_fixed_base:
  assumes "N \<le> 256"
  shows "den (lc_vars e) P (exp_private_fixed_base N canon cs x e) lc_vars (\<lambda>out \<rho>. lc_eval \<rho> out) (\<lambda>\<rho>. powers N x (lc_eval \<rho> e))"
proof -
  have "exp_private_fixed_base N canon cs x e = andthen (to_bits N canon cs e) (\<lambda>bits. total (exp_private_fixed_base_impl cs x bits))"
    by (rule ext) (simp add: exp_private_fixed_base_def andthen_def total_def)
  moreover have "den (lc_vars e) P (andthen (to_bits N canon cs e) (\<lambda>bits. total (exp_private_fixed_base_impl cs x bits))) lc_vars
      (\<lambda>out \<rho>. lc_eval \<rho> out) (\<lambda>\<rho>. powers N x (lc_eval \<rho> e))"
  proof (rule den_choice [OF den_to_bits [OF assms], where B = "\<lambda>bs \<rho>. {private_power x bs}"])
    fix bits
    have "den (set bits) (\<lambda>_. True) (total (exp_private_fixed_base_impl cs x bits)) lc_vars (\<lambda>out \<rho>. lc_eval \<rho> out) (\<lambda>\<rho>. {private_power x (map \<rho> bits)})"
      by (rule den_total, rule exp_private_fixed_base_impl_power) (auto intro!: depends_comp [where h = "private_power x"] depends_map [where f = "\<lambda>v \<rho>. \<rho> v"] depends_var)
    then show "den (lc_vars e \<union> set bits) (\<lambda>\<rho>. P \<rho> \<and> map \<rho> bits \<in> {bs. length bs = N \<and> bits_value bs = lc_eval \<rho> e}) (total (exp_private_fixed_base_impl cs x bits)) lc_vars (\<lambda>out \<rho>. lc_eval \<rho> out)
        (\<lambda>\<rho>. {private_power x (map \<rho> bits)})"
      by (rule den_weaken [where f = id]) auto
  qed (auto simp: powers_def)
  ultimately show ?thesis
    by (simp only:)
qed

subsection \<open>Quotients that need not be quotients\<close>

lemma constrain_less_than_parts:
  assumes "constrain_less_than D canon cs a b s = Returns s'"
  shows "sat s' \<rho> \<Longrightarrow> sat s \<rho>" "wires s \<subseteq> wires s'" "closed s \<Longrightarrow> lc_vars a \<union> lc_vars b \<subseteq> wires s \<Longrightarrow> closed s'"
proof -
  let ?c = "\<lambda>out. lc_sub (lc_one cs) (lc_sub (lc_one cs) (lc_var out))"
  obtain out u where run: "greater_than_zero D canon cs (lc_sub a b) s = Returns (out, u)" "s' = cs_constrain cs (?c out) u"
    using assms by (auto simp: constrain_less_than_def less_than_def greater_than_eq_def elim!: bind_call_Returns)
  note gad = greater_than_zero_gadget [OF run(1)]
  show "sat s' \<rho> \<Longrightarrow> sat s \<rho>"
    using gadget_sound [OF gad] by (simp add: run(2) sat_constrain)
  show "wires s \<subseteq> wires s'"
    using gadget_grows [OF gad] by (simp add: grows_def run(2) wires_constrain)
  show "closed s'" if "closed s" "lc_vars a \<union> lc_vars b \<subseteq> wires s"
    using gadget_complete [OF gad that(1)] that(2) wires_constants [of u]
    by (simp add: run(2) constrain_closed)
qed

lemma den_quotient:
  assumes "0 < D" "D \<le> POSITIVE_SCALAR_MAX_BITS"
  shows "den (lc_vars a \<union> lc_vars b) P (div_rem D canon cs a b) (\<lambda>(q, r). {q}) (\<lambda>(q, r) \<rho>. \<rho> q) (\<lambda>_. UNIV)"
proof (rule denotesI)
  fix s
  obtain q r s' where run: "div_rem D canon cs a b s = Returns ((q, r), s')"
    using div_rem_returns [OF assms(2), of canon cs a b s] by blast
  have parts: "sat s' \<rho> \<longrightarrow> sat s \<rho>" "wires s \<subseteq> wires s'" "closed s \<and> lc_vars a \<union> lc_vars b \<subseteq> wires s \<longrightarrow> closed s' \<and> q \<in> wires s'" for \<rho>
    using run
  proof (atomize (full), rule div_rem_run)
    fix s1 s2 bq s3 x x'
    let ?c = "lc_sub (lc_sub a (lc_var bq)) (lc_var r)"
    assume run: "cs_allocate cs x s = (q, s1)" "cs_allocate cs x' s1 = (r, s2)" "cs_product cs b (lc_var q) s2 = (bq, s3)"
      "constrain_less_than D canon cs (lc_var r) b (cs_constrain cs ?c s3) = Returns s'"
    have w: "wires s1 = insert q (wires s)" "wires s2 = insert r (wires s1)" "insert bq (wires s2) \<subseteq> wires s3" "wires s3 \<subseteq> wires s'"
      using wires_allocate [OF run(1)] wires_allocate [OF run(2)] product_wires [OF run(3)] constrain_less_than_parts(2) [OF run(4)]
      by (auto simp: wires_constrain)
    have "sat s \<rho>" if "sat s' \<rho>"
    proof -
      have "sat s3 \<rho>"
        using constrain_less_than_parts(1) [OF run(4) that] by (simp add: sat_constrain)
      then show ?thesis
        using product_sat [OF run(3)] by (simp add: sat_allocate [OF run(1)] sat_allocate [OF run(2)])
    qed
    moreover have "closed s'" if h: "closed s" "lc_vars a \<union> lc_vars b \<subseteq> wires s"
    proof -
      have "closed s2"
        using allocate_closed [OF run(2)] allocate_closed [OF run(1) h(1)] by blast
      then have "closed s3"
        using product_closed [OF run(3)] h(2) w(1,2) by auto
      then have "closed (cs_constrain cs ?c s3)"
        using h(2) w by (intro constrain_closed) auto
      then show ?thesis
        using constrain_less_than_parts(3) [OF run(4)] h(2) w by (auto simp: wires_constrain)
    qed
    ultimately show "(sat s' \<rho> \<longrightarrow> sat s \<rho>) \<and> wires s \<subseteq> wires s' \<and> (closed s \<and> lc_vars a \<union> lc_vars b \<subseteq> wires s \<longrightarrow> closed s' \<and> q \<in> wires s')"
      using w by blast
  qed
  have "\<exists>\<rho>'. (\<forall>v\<in>wires s. \<rho>' v = \<rho> v) \<and> sat s' \<rho>' \<and> \<rho>' q = y" if "closed s" "lc_vars a \<union> lc_vars b \<subseteq> wires s" "sat s \<rho>" for \<rho> y
    using div_rem_forged [OF run assms(1) that(1,3,2)] .
  then show "\<exists>x s'. div_rem D canon cs a b s = Returns (x, s') \<and> wires s \<subseteq> wires s'
      \<and> (\<forall>\<rho>. sat s' \<rho> \<longrightarrow> sat s \<rho> \<and> (case x of (q, r) \<Rightarrow> \<lambda>\<rho>. \<rho> q) \<rho> \<in> UNIV)
      \<and> (closed s \<longrightarrow> lc_vars a \<union> lc_vars b \<subseteq> wires s \<longrightarrow> closed s' \<and> (case x of (q, r) \<Rightarrow> {q}) \<subseteq> wires s'
        \<and> (\<forall>\<rho>. sat s \<rho> \<longrightarrow> (\<forall>y\<in>UNIV. \<exists>\<rho>'. (\<forall>v\<in>wires s. \<rho>' v = \<rho> v) \<and> sat s' \<rho>' \<and> (case x of (q, r) \<Rightarrow> \<lambda>\<rho>. \<rho> q) \<rho>' = y)))"
    using run parts by (intro exI [of _ "(q, r)"] exI [of _ s']) auto
qed

end

end
