(* ===== verification/Valid_Match.thy ===== *)
theory Valid_Match
  imports Circuit_Values
begin

section \<open>Fixed point gadgets and VALID MATCH MPC\<close>

text \<open>
  Arithmetic on the fixed point variables of \<open>zk_gadgets/fixed_point.rs\<close>, and the matching engine
  check that the verifier of \<open>zk_circuits/valid_match_mpc.rs\<close> applies to two orders, two balances
  and a match.
\<close>

subsection \<open>Fixed point variables\<close>

definition two_to_m :: "'f::field" where
  "two_to_m = 2 ^ DEFAULT_PRECISION"

definition fpv_floor ::
  "('f::field \<Rightarrow> nat) \<Rightarrow> ('s, 'v, 'f) cs_ops \<Rightarrow> ('v, 'f) FixedPointVar \<Rightarrow> ('s, 'v) circ" where
  "fpv_floor canon cs x = andthen (div_rem DEFAULT_PRECISION canon cs (fp_repr x) (lc_scale two_to_m (lc_one cs))) (\<lambda>(q, _). yield q)"

definition constraint_equal ::
  "('s, 'v, 'f::field) cs_ops \<Rightarrow> ('v, 'f) FixedPointVar \<Rightarrow> ('v, 'f) FixedPointVar \<Rightarrow> ('s, unit) circ" where
  "constraint_equal cs x rhs = constrain cs (lc_sub (fp_repr x) (fp_repr rhs))"

definition fpv_equal ::
  "('s, 'v, 'f::field) cs_ops \<Rightarrow> ('v, 'f) FixedPointVar \<Rightarrow> ('v, 'f) FixedPointVar \<Rightarrow> ('s, 'v) circ" where
  "fpv_equal cs x rhs = total (eq_gadget cs (fp_repr x) (fp_repr rhs))"

definition shift_integer :: "'v \<Rightarrow> ('v, 'f::field) FixedPointVar" where
  "shift_integer val = \<lparr>fp_repr = lc_scale two_to_m (lc_var val)\<rparr>"

definition constraint_equal_integer ::
  "('s, 'v, 'f::field) cs_ops \<Rightarrow> ('v, 'f) FixedPointVar \<Rightarrow> 'v \<Rightarrow> ('s, unit) circ" where
  "constraint_equal_integer cs x rhs = constraint_equal cs x (shift_integer rhs)"

definition equal_integer ::
  "('s, 'v, 'f::field) cs_ops \<Rightarrow> ('v, 'f) FixedPointVar \<Rightarrow> 'v \<Rightarrow> ('s, 'v) circ" where
  "equal_integer cs x rhs = fpv_equal cs x (shift_integer rhs)"

definition mul_fixed_point ::
  "('s, 'v, 'f::field) cs_ops \<Rightarrow> ('v, 'f) FixedPointVar \<Rightarrow> ('v, 'f) FixedPointVar \<Rightarrow> ('s, ('v, 'f) FixedPointVar) circ" where
  "mul_fixed_point cs x rhs = andthen (total (cs_product cs (fp_repr x) (fp_repr rhs))) (\<lambda>direct_mul.
    yield \<lparr>fp_repr = lc_scale (inverse two_to_m) (lc_var direct_mul)\<rparr>)"

definition mul_integer ::
  "('s, 'v, 'f::field) cs_ops \<Rightarrow> ('v, 'f) FixedPointVar \<Rightarrow> ('v, 'f) lc \<Rightarrow> ('s, ('v, 'f) FixedPointVar) circ" where
  "mul_integer cs x rhs = andthen (total (cs_product cs (fp_repr x) rhs)) (\<lambda>direct_mul. yield \<lparr>fp_repr = lc_var direct_mul\<rparr>)"

definition fpv_add :: "('v, 'f::field) FixedPointVar \<Rightarrow> ('v, 'f) FixedPointVar \<Rightarrow> ('v, 'f) FixedPointVar" where
  "fpv_add x rhs = \<lparr>fp_repr = lc_add (fp_repr x) (fp_repr rhs)\<rparr>"

definition fpv_add_integer :: "('v, 'f::field) FixedPointVar \<Rightarrow> 'v \<Rightarrow> ('v, 'f) FixedPointVar" where
  "fpv_add_integer x rhs = \<lparr>fp_repr = lc_add (fp_repr x) (lc_scale two_to_m (lc_var rhs))\<rparr>"

definition fpv_neg :: "('v, 'f::field) FixedPointVar \<Rightarrow> ('v, 'f) FixedPointVar" where
  "fpv_neg x = \<lparr>fp_repr = lc_scale (- 1) (fp_repr x)\<rparr>"

definition fpv_sub :: "('v, 'f::field) FixedPointVar \<Rightarrow> ('v, 'f) FixedPointVar \<Rightarrow> ('v, 'f) FixedPointVar" where
  "fpv_sub x rhs = \<lparr>fp_repr = lc_sub (fp_repr x) (fp_repr rhs)\<rparr>"

definition integer_sub_fpv :: "'v \<Rightarrow> ('v, 'f::field) FixedPointVar \<Rightarrow> ('v, 'f) FixedPointVar" where
  "integer_sub_fpv x rhs = fpv_add_integer (fpv_neg rhs) x"

definition fpv_sub_integer :: "('v, 'f::field) FixedPointVar \<Rightarrow> 'v \<Rightarrow> ('v, 'f) FixedPointVar" where
  "fpv_sub_integer x rhs = \<lparr>fp_repr = lc_sub (fp_repr x) (lc_scale two_to_m (lc_var rhs))\<rparr>"

text \<open>The number a fixed point variable stands for.\<close>

definition fpv_value :: "('v \<Rightarrow> 'f::field) \<Rightarrow> ('v, 'f) FixedPointVar \<Rightarrow> 'f" where
  "fpv_value \<rho> x = lc_eval \<rho> (fp_repr x) / two_to_m"

subsection \<open>The matching engine check\<close>

record ('p, 'v) MatchResultVar =
  mr_quote_mint :: 'v
  mr_base_mint :: 'v
  mr_quote_amount :: 'v
  mr_base_amount :: 'v
  mr_direction :: 'v
  mr_execution_price :: 'p
  mr_max_minus_min_amount :: 'v
  mr_min_amount_order_index :: 'v

type_synonym ('v, 'f) match_var = "(('v, 'f) FixedPointVar, 'v) MatchResultVar"

definition matching_engine_check_single_prover ::
  "('f::field \<Rightarrow> nat) \<Rightarrow> ('s, 'v, 'f) cs_ops \<Rightarrow> ('v, 'f) OrderVar \<Rightarrow> ('v, 'f) OrderVar \<Rightarrow> 'v BalanceVar \<Rightarrow> 'v BalanceVar \<Rightarrow> ('v, 'f) match_var \<Rightarrow> ('s, unit) circ" where
  "matching_engine_check_single_prover canon cs order1 order2 balance1 balance2 matches =
    andthen (constrain cs (lc_sub (lc_var (ov_quote_mint order1)) (lc_var (mr_quote_mint matches)))) (\<lambda>_.
    andthen (constrain cs (lc_sub (lc_var (ov_base_mint order1)) (lc_var (mr_base_mint matches)))) (\<lambda>_.
    andthen (constrain cs (lc_sub (lc_var (ov_quote_mint order2)) (lc_var (mr_quote_mint matches)))) (\<lambda>_.
    andthen (constrain cs (lc_sub (lc_var (ov_base_mint order2)) (lc_var (mr_base_mint matches)))) (\<lambda>_.
    andthen (constrain cs (lc_sub (lc_var (mr_direction matches)) (lc_var (ov_side order1)))) (\<lambda>_.
    andthen (constrain cs (lc_sub (lc_add (lc_var (ov_side order1)) (lc_var (ov_side order2))) (lc_const cs 1))) (\<lambda>_.
    andthen (select_vector cs [fp_repr (ov_price order2), fp_repr (ov_price order1)] [fp_repr (ov_price order1), fp_repr (ov_price order2)] (lc_var (mr_direction matches))) (\<lambda>prices.
    andthen (effect (constrain_greater_than_eq 64 canon cs (prices ! 0) (prices ! 1))) (\<lambda>_.
    andthen (mul_integer cs (mr_execution_price matches) (lc_scale 2 (lc_one cs))) (\<lambda>double_execution_price.
    andthen (constraint_equal cs double_execution_price (fpv_add (ov_price order1) (ov_price order2))) (\<lambda>_.
    andthen (total (cs_product cs (lc_var (mr_min_amount_order_index matches)) (lc_sub (lc_const cs 1) (lc_var (mr_min_amount_order_index matches))))) (\<lambda>mul_out.
    andthen (constrain cs (lc_var mul_out)) (\<lambda>_.
    andthen (total (select_gadget cs (lc_sub (lc_var (ov_amount order1)) (lc_var (ov_amount order2))) (lc_sub (lc_var (ov_amount order2)) (lc_var (ov_amount order1)))
      (lc_var (mr_min_amount_order_index matches)))) (\<lambda>max_minus_min_expected.
    andthen (constrain cs (lc_sub max_minus_min_expected (lc_var (mr_max_minus_min_amount matches)))) (\<lambda>_.
    andthen (effect (constrain_greater_than_zero 32 canon cs (lc_var (mr_max_minus_min_amount matches)))) (\<lambda>_.
    andthen (constrain cs (lc_sub (lc_scale 2 (lc_var (mr_base_amount matches)))
      (lc_sub (lc_add (lc_var (ov_amount order1)) (lc_var (ov_amount order2))) (lc_var (mr_max_minus_min_amount matches))))) (\<lambda>_.
    andthen (mul_integer cs (mr_execution_price matches) (lc_var (mr_base_amount matches))) (\<lambda>expected_quote_amount.
    andthen (constraint_equal_integer cs expected_quote_amount (mr_quote_amount matches)) (\<lambda>_.
    andthen (select_vector cs (map lc_var [mr_base_mint matches, mr_base_amount matches, mr_quote_mint matches, mr_quote_amount matches])
      (map lc_var [mr_quote_mint matches, mr_quote_amount matches, mr_base_mint matches, mr_base_amount matches]) (lc_var (mr_direction matches))) (\<lambda>selected_values.
    andthen (constrain cs (lc_sub (selected_values ! 0) (lc_var (bv_mint balance1)))) (\<lambda>_.
    andthen (constrain cs (lc_sub (selected_values ! 2) (lc_var (bv_mint balance2)))) (\<lambda>_.
    andthen (effect (constrain_greater_than_eq 64 canon cs (lc_var (bv_amount balance1)) (selected_values ! 1))) (\<lambda>_.
    effect (constrain_greater_than_eq 64 canon cs (lc_var (bv_amount balance2)) (selected_values ! 3))))))))))))))))))))))))"

subsection \<open>The relation it proves\<close>

definition match_at :: "('v \<Rightarrow> 'f::field) \<Rightarrow> ('v, 'f) match_var \<Rightarrow> ('f, 'f) MatchResultVar" where
  "match_at \<rho> m = \<lparr>mr_quote_mint = \<rho> (mr_quote_mint m), mr_base_mint = \<rho> (mr_base_mint m), mr_quote_amount = \<rho> (mr_quote_amount m),
    mr_base_amount = \<rho> (mr_base_amount m), mr_direction = \<rho> (mr_direction m), mr_execution_price = lc_eval \<rho> (fp_repr (mr_execution_price m)),
    mr_max_minus_min_amount = \<rho> (mr_max_minus_min_amount m), mr_min_amount_order_index = \<rho> (mr_min_amount_order_index m)\<rparr>"

definition match_vars :: "('v, 'f) match_var \<Rightarrow> 'v set" where
  "match_vars m = {mr_quote_mint m, mr_base_mint m, mr_quote_amount m, mr_base_amount m, mr_direction m, mr_max_minus_min_amount m, mr_min_amount_order_index m}
    \<union> lc_vars (fp_repr (mr_execution_price m))"

definition valid_match_relation ::
  "'f::field OrderValue \<Rightarrow> 'f OrderValue \<Rightarrow> 'f BalanceVar \<Rightarrow> 'f BalanceVar \<Rightarrow> ('f, 'f) MatchResultVar \<Rightarrow> bool" where
  "valid_match_relation o1 o2 b1 b2 m \<longleftrightarrow> (let d = mr_direction m in
    o_quote_mint o1 = mr_quote_mint m \<and> o_base_mint o1 = mr_base_mint m \<and> o_quote_mint o2 = mr_quote_mint m \<and> o_base_mint o2 = mr_base_mint m
    \<and> d = o_side o1 \<and> o_side o1 + o_side o2 = 1
    \<and> mr_execution_price m * 2 = o_price o1 + o_price o2
    \<and> (mr_min_amount_order_index m = 0 \<and> mr_base_amount m = o_amount o1 \<and> mr_max_minus_min_amount m = o_amount o2 - o_amount o1
      \<or> mr_min_amount_order_index m = 1 \<and> mr_base_amount m = o_amount o2 \<and> mr_max_minus_min_amount m = o_amount o1 - o_amount o2)
    \<and> mr_execution_price m * mr_base_amount m = two_to_m * mr_quote_amount m
    \<and> bv_mint b1 = mr_base_mint m * d + mr_quote_mint m * (1 - d) \<and> bv_mint b2 = mr_quote_mint m * d + mr_base_mint m * (1 - d))"

definition matching_vars :: "('v, 'f) OrderVar \<Rightarrow> ('v, 'f) OrderVar \<Rightarrow> 'v BalanceVar \<Rightarrow> 'v BalanceVar \<Rightarrow> ('v, 'f) match_var \<Rightarrow> 'v set" where
  "matching_vars o1 o2 b1 b2 m = order_vars o1 \<union> order_vars o2 \<union> balance_vars b1 \<union> balance_vars b2 \<union> match_vars m"

lemma matching_scope:
  "order_vars o1 \<subseteq> matching_vars o1 o2 b1 b2 m" "order_vars o2 \<subseteq> matching_vars o1 o2 b1 b2 m" "balance_vars b1 \<subseteq> matching_vars o1 o2 b1 b2 m"
  "balance_vars b2 \<subseteq> matching_vars o1 o2 b1 b2 m" "match_vars m \<subseteq> matching_vars o1 o2 b1 b2 m"
  unfolding matching_vars_def by blast+

lemma match_at_simps [simp]:
  "mr_quote_mint (match_at \<rho> m) = \<rho> (mr_quote_mint m)" "mr_base_mint (match_at \<rho> m) = \<rho> (mr_base_mint m)" "mr_quote_amount (match_at \<rho> m) = \<rho> (mr_quote_amount m)"
  "mr_base_amount (match_at \<rho> m) = \<rho> (mr_base_amount m)" "mr_direction (match_at \<rho> m) = \<rho> (mr_direction m)"
  "mr_execution_price (match_at \<rho> m) = lc_eval \<rho> (fp_repr (mr_execution_price m))"
  "mr_max_minus_min_amount (match_at \<rho> m) = \<rho> (mr_max_minus_min_amount m)" "mr_min_amount_order_index (match_at \<rho> m) = \<rho> (mr_min_amount_order_index m)"
  by (simp_all add: match_at_def)

lemma depends_match_at:
  assumes "match_vars m \<subseteq> V"
  shows "depends V (\<lambda>\<rho>. match_at \<rho> m)"
  by (rule depends_via [of "map lc_var [mr_quote_mint m, mr_base_mint m, mr_quote_amount m, mr_base_amount m, mr_direction m, mr_max_minus_min_amount m,
        mr_min_amount_order_index m] @ [fp_repr (mr_execution_price m)]"]) (use assms in \<open>auto simp: match_vars_def match_at_def\<close>)

lemma depends_valid_match:
  fixes m :: "('v, 'f::field) match_var"
  shows "depends (matching_vars o1 o2 b1 b2 m) (\<lambda>\<rho>. valid_match_relation (order_at \<rho> o1) (order_at \<rho> o2) (balance_at \<rho> b1) (balance_at \<rho> b2) (match_at \<rho> m))"
proof (rule dependsI2)
  fix \<rho> \<rho>' :: "'v \<Rightarrow> 'f" assume agree: "\<forall>v\<in>matching_vars o1 o2 b1 b2 m. \<rho> v = \<rho>' v"
  have "order_at \<rho> o1 = order_at \<rho>' o1" "order_at \<rho> o2 = order_at \<rho>' o2" "balance_at \<rho> b1 = balance_at \<rho>' b1" "balance_at \<rho> b2 = balance_at \<rho>' b2"
    "match_at \<rho> m = match_at \<rho>' m"
    by (rule depends_eq [OF depends_order_at agree] depends_eq [OF depends_balance_at agree] depends_eq [OF depends_match_at agree], rule matching_scope)+
  then show "valid_match_relation (order_at \<rho> o1) (order_at \<rho> o2) (balance_at \<rho> b1) (balance_at \<rho> b2) (match_at \<rho> m)
      = valid_match_relation (order_at \<rho>' o1) (order_at \<rho>' o2) (balance_at \<rho>' b1) (balance_at \<rho>' b2) (match_at \<rho>' m)"
    by (simp only:)
qed

lemma minimum_selected:
  assumes "(2 :: 'f::field) \<noteq> 0" "idx * (1 - idx) = 0" "(a - b) * idx + (b - a) * (1 - idx) = d" "2 * x = a + b - (d :: 'f)"
  shows "idx = 0 \<and> x = a \<and> d = b - a \<or> idx = 1 \<and> x = b \<and> d = a - b"
proof -
  have "idx = 0 \<or> idx = 1"
    using assms(2) by auto
  then show ?thesis
  proof
    assume "idx = 0"
    then show ?thesis using assms by (auto simp: algebra_simps)
  next
    assume "idx = 1"
    then show ?thesis using assms by (auto simp: algebra_simps)
  qed
qed

lemma select_each_length: "select_each cs c ps s = (outs, s') \<Longrightarrow> length outs = length ps"
  by (induction ps arbitrary: s outs s') (auto split: prod.splits)

lemma fixed_point_values:
  assumes "(two_to_m :: 'f::field) \<noteq> 0"
  shows "fpv_value \<rho> (fpv_add x y) = fpv_value \<rho> x + fpv_value \<rho> y" "fpv_value \<rho> (fpv_sub x y) = fpv_value \<rho> x - fpv_value \<rho> y"
    "fpv_value \<rho> (fpv_neg x) = - fpv_value \<rho> x" "fpv_value \<rho> (fpv_add_integer x v) = fpv_value \<rho> x + (\<rho> v :: 'f)"
    "fpv_value \<rho> (fpv_sub_integer x v) = fpv_value \<rho> x - \<rho> v" "fpv_value \<rho> (integer_sub_fpv v x) = \<rho> v - fpv_value \<rho> x"
  using assms by (simp_all add: fpv_value_def fpv_add_def fpv_sub_def fpv_neg_def fpv_add_integer_def fpv_sub_integer_def integer_sub_fpv_def field_simps)

context constraint_system
begin

lemma dec_mul_integer:
  "dec (lc_vars (fp_repr x) \<union> lc_vars n) P (mul_integer cs x n) (\<lambda>_. True) (\<lambda>y. lc_vars (fp_repr y))
    (\<lambda>y \<rho>. lc_eval \<rho> (fp_repr y) = lc_eval \<rho> (fp_repr x) * lc_eval \<rho> n)"
  unfolding mul_integer_def by (rule dec_andthen [OF dec_product]) (auto intro!: dec_yield)

lemma dec_mul_fixed_point:
  "dec (lc_vars (fp_repr x) \<union> lc_vars (fp_repr y)) P (mul_fixed_point cs x y) (\<lambda>_. True) (\<lambda>z. lc_vars (fp_repr z))
    (\<lambda>z \<rho>. lc_eval \<rho> (fp_repr z) = inverse two_to_m * (lc_eval \<rho> (fp_repr x) * lc_eval \<rho> (fp_repr y)))"
  unfolding mul_fixed_point_def by (rule dec_andthen [OF dec_product]) (auto intro!: dec_yield)

lemma dec_call:
  assumes "dec V (\<lambda>_. True) m R W Q" "\<And>x \<rho>. Q x \<rho> \<Longrightarrow> Q' x \<rho>"
  shows "\<exists>x s'. m s = Returns (x, s') \<and> (\<forall>\<rho>. sat s' \<rho> \<longrightarrow> sat s \<rho> \<and> Q' x \<rho>)"
proof -
  obtain x s' where run: "m s = Returns (x, s')"
    using decidesE [OF assms(1), of s] by metis
  have "sat s' \<rho> \<longrightarrow> sat s \<rho> \<and> Q' x \<rho>" for \<rho>
    using dec_sound [OF assms(1) run, of \<rho>] assms(2) by simp
  with run show ?thesis
    by (intro exI conjI allI)
qed

lemma fixed_point_calls:
  assumes "(two_to_m :: 'f) \<noteq> 0"
  shows "\<exists>z s'. mul_fixed_point cs x y s = Returns (z, s') \<and> (\<forall>\<rho>. sat s' \<rho> \<longrightarrow> sat s \<rho> \<and> fpv_value \<rho> z = fpv_value \<rho> x * fpv_value \<rho> y)"
    "\<exists>z s'. mul_integer cs x n s = Returns (z, s') \<and> (\<forall>\<rho>. sat s' \<rho> \<longrightarrow> sat s \<rho> \<and> fpv_value \<rho> z = fpv_value \<rho> x * lc_eval \<rho> n)"
    "\<exists>z s'. fpv_equal cs x y s = Returns (z, s') \<and> (\<forall>\<rho>. sat s' \<rho> \<longrightarrow> sat s \<rho> \<and> \<rho> z = of_bool (fpv_value \<rho> x = fpv_value \<rho> y))"
    "\<exists>z s'. equal_integer cs x v s = Returns (z, s') \<and> (\<forall>\<rho>. sat s' \<rho> \<longrightarrow> sat s \<rho> \<and> \<rho> z = of_bool (fpv_value \<rho> x = \<rho> v))"
    "\<exists>s'. constraint_equal_integer cs x v s = Returns ((), s') \<and> (\<forall>\<rho>. sat s' \<rho> \<longleftrightarrow> sat s \<rho> \<and> fpv_value \<rho> x = \<rho> v)"
proof -
  show "\<exists>z s'. mul_fixed_point cs x y s = Returns (z, s') \<and> (\<forall>\<rho>. sat s' \<rho> \<longrightarrow> sat s \<rho> \<and> fpv_value \<rho> z = fpv_value \<rho> x * fpv_value \<rho> y)"
    by (rule dec_call [OF dec_mul_fixed_point]) (use assms in \<open>simp add: fpv_value_def field_simps\<close>)
  show "\<exists>z s'. mul_integer cs x n s = Returns (z, s') \<and> (\<forall>\<rho>. sat s' \<rho> \<longrightarrow> sat s \<rho> \<and> fpv_value \<rho> z = fpv_value \<rho> x * lc_eval \<rho> n)"
    by (rule dec_call [OF dec_mul_integer]) (use assms in \<open>simp add: fpv_value_def\<close>)
  show "\<exists>z s'. fpv_equal cs x y s = Returns (z, s') \<and> (\<forall>\<rho>. sat s' \<rho> \<longrightarrow> sat s \<rho> \<and> \<rho> z = of_bool (fpv_value \<rho> x = fpv_value \<rho> y))"
    unfolding fpv_equal_def by (rule dec_call [OF dec_eq]) (use assms in \<open>simp add: fpv_value_def\<close>)
  show "\<exists>z s'. equal_integer cs x v s = Returns (z, s') \<and> (\<forall>\<rho>. sat s' \<rho> \<longrightarrow> sat s \<rho> \<and> \<rho> z = of_bool (fpv_value \<rho> x = \<rho> v))"
    unfolding equal_integer_def fpv_equal_def by (rule dec_call [OF dec_eq]) (use assms in \<open>simp add: fpv_value_def shift_integer_def divide_eq_eq mult.commute\<close>)
  show "\<exists>s'. constraint_equal_integer cs x v s = Returns ((), s') \<and> (\<forall>\<rho>. sat s' \<rho> \<longleftrightarrow> sat s \<rho> \<and> fpv_value \<rho> x = \<rho> v)"
    using assms by (simp add: constraint_equal_integer_def constraint_equal_def constrain_def effect_def shift_integer_def sat_constrain fpv_value_def
        divide_eq_eq mult.commute)
qed

lemma dec_select_vector:
  assumes "length a = length b"
  shows "dec (lc_vars c \<union> state_vars a \<union> state_vars b) P (select_vector cs a b c) (\<lambda>_. True) (\<lambda>outs. \<Union>i<length a. lc_vars (outs ! i))
    (\<lambda>outs \<rho>. \<forall>i<length a. lc_eval \<rho> (outs ! i) = lc_eval \<rho> (a ! i) * lc_eval \<rho> c + lc_eval \<rho> (b ! i) * (1 - lc_eval \<rho> c))"
proof (rule dec_gadget)
  fix s
  obtain outs s' where run: "select_each cs c (zip a b) s = (outs, s')"
    by fastforce
  have len: "length outs = length a"
    using select_each_length [OF run] assms by simp
  have outs: "(\<Union>i<length a. lc_vars (outs ! i)) = \<Union>(lc_vars ` set outs)"
    unfolding len [symmetric] by (auto simp: set_conv_nth)
  have "gad (lc_vars c \<union> state_vars a \<union> state_vars b) (\<Union>i<length a. lc_vars (outs ! i)) s s'
      (\<lambda>\<rho>. \<forall>i<length a. lc_eval \<rho> (outs ! i) = lc_eval \<rho> (a ! i) * lc_eval \<rho> c + lc_eval \<rho> (b ! i) * (1 - lc_eval \<rho> c))"
    using select_each_gadget [OF run] unfolding outs
  proof (rule gadget_weaken)
    show "lc_vars c \<union> (\<Union>(a, b)\<in>set (zip a b). lc_vars a \<union> lc_vars b) \<subseteq> lc_vars c \<union> state_vars a \<union> state_vars b \<union> const_vars"
      by (auto dest: set_zip_leftD set_zip_rightD)
    show "\<forall>i<length a. lc_eval \<rho> (outs ! i) = lc_eval \<rho> (a ! i) * lc_eval \<rho> c + lc_eval \<rho> (b ! i) * (1 - lc_eval \<rho> c)"
      if "map (lc_eval \<rho>) outs = map (\<lambda>(a, b). lc_eval \<rho> a * lc_eval \<rho> c + lc_eval \<rho> b * (1 - lc_eval \<rho> c)) (zip a b)" for \<rho>
      using that len assms by (simp add: list_eq_iff_nth_eq)
  qed auto
  then show "\<exists>x s'. select_vector cs a b c s = Returns (x, s') \<and> gad (lc_vars c \<union> state_vars a \<union> state_vars b) (\<Union>i<length a. lc_vars (x ! i)) s s'
      (\<lambda>\<rho>. \<forall>i<length a. lc_eval \<rho> (x ! i) = lc_eval \<rho> (a ! i) * lc_eval \<rho> c + lc_eval \<rho> (b ! i) * (1 - lc_eval \<rho> c))"
    using run assms by (auto simp: select_vector_def)
qed

lemma dec_select2:
  "dec (lc_vars c \<union> lc_vars a \<union> lc_vars a' \<union> lc_vars b \<union> lc_vars b') P (select_vector cs [a, a'] [b, b'] c) (\<lambda>_. True) (\<lambda>outs. lc_vars (outs ! 0) \<union> lc_vars (outs ! 1))
    (\<lambda>outs \<rho>. lc_eval \<rho> (outs ! 0) = lc_eval \<rho> a * lc_eval \<rho> c + lc_eval \<rho> b * (1 - lc_eval \<rho> c)
      \<and> lc_eval \<rho> (outs ! 1) = lc_eval \<rho> a' * lc_eval \<rho> c + lc_eval \<rho> b' * (1 - lc_eval \<rho> c))"
  by (rule dec_weaken [OF dec_select_vector]) (auto simp: lessThan_Suc numeral_2_eq_2 less_Suc_eq)

lemma dec_select4:
  "dec ({d, x0, x1, x2, x3, y0, y1, y2, y3}) P (select_vector cs [lc_var x0, lc_var x1, lc_var x2, lc_var x3] [lc_var y0, lc_var y1, lc_var y2, lc_var y3] (lc_var d))
    (\<lambda>_. True) (\<lambda>outs. lc_vars (outs ! 0) \<union> lc_vars (outs ! 1) \<union> lc_vars (outs ! 2) \<union> lc_vars (outs ! 3))
    (\<lambda>outs \<rho>. lc_eval \<rho> (outs ! 0) = \<rho> x0 * \<rho> d + \<rho> y0 * (1 - \<rho> d) \<and> lc_eval \<rho> (outs ! 1) = \<rho> x1 * \<rho> d + \<rho> y1 * (1 - \<rho> d)
      \<and> lc_eval \<rho> (outs ! 2) = \<rho> x2 * \<rho> d + \<rho> y2 * (1 - \<rho> d) \<and> lc_eval \<rho> (outs ! 3) = \<rho> x3 * \<rho> d + \<rho> y3 * (1 - \<rho> d))"
  by (rule dec_weaken [OF dec_select_vector]) (auto simp: lessThan_Suc numeral_eq_Suc less_Suc_eq)

lemma dec_matching_engine:
  assumes "(2 :: 'f) \<noteq> 0"
  shows "dec (matching_vars o1 o2 b1 b2 m) P (matching_engine_check_single_prover canon cs o1 o2 b1 b2 m)
    (\<lambda>\<rho>. valid_match_relation (order_at \<rho> o1) (order_at \<rho> o2) (balance_at \<rho> b1) (balance_at \<rho> b2) (match_at \<rho> m)) (\<lambda>_. {}) (\<lambda>_ _. True)"
proof -
  define V where "V = matching_vars o1 o2 b1 b2 m"
  note step = dec_step [OF _ depends_valid_match [of o1 o2 b1 b2 m, folded V_def]]
  note scope = matching_scope [where ?o1.0 = o1 and ?o2.0 = o2 and ?b1.0 = b1 and ?b2.0 = b2 and m = m, folded V_def]
  have vars: "ov_quote_mint o1 \<in> V" "ov_base_mint o1 \<in> V" "ov_side o1 \<in> V" "ov_amount o1 \<in> V" "lc_vars (fp_repr (ov_price o1)) \<subseteq> V"
    "ov_quote_mint o2 \<in> V" "ov_base_mint o2 \<in> V" "ov_side o2 \<in> V" "ov_amount o2 \<in> V" "lc_vars (fp_repr (ov_price o2)) \<subseteq> V"
    "bv_mint b1 \<in> V" "bv_amount b1 \<in> V" "bv_mint b2 \<in> V" "bv_amount b2 \<in> V"
    "mr_quote_mint m \<in> V" "mr_base_mint m \<in> V" "mr_quote_amount m \<in> V" "mr_base_amount m \<in> V" "mr_direction m \<in> V" "mr_max_minus_min_amount m \<in> V"
    "mr_min_amount_order_index m \<in> V" "lc_vars (fp_repr (mr_execution_price m)) \<subseteq> V"
    using scope by (auto simp: order_vars_def balance_vars_def match_vars_def)
  note simps = valid_match_relation_def Let_def const_value
  note ranges = constrain_geq_range
  have "dec V P (matching_engine_check_single_prover canon cs o1 o2 b1 b2 m)
    (\<lambda>\<rho>. valid_match_relation (order_at \<rho> o1) (order_at \<rho> o2) (balance_at \<rho> b1) (balance_at \<rho> b2) (match_at \<rho> m)) (\<lambda>_. {}) (\<lambda>_ _. True)"
    unfolding matching_engine_check_single_prover_def constraint_equal_integer_def constraint_equal_def ranges list.map
    apply (rule step [OF dec_constrain [of _ V]], (auto simp: vars simps)[4])
    apply (rule step [OF dec_constrain [of _ V]], (auto simp: vars simps)[4])
    apply (rule step [OF dec_constrain [of _ V]], (auto simp: vars simps)[4])
    apply (rule step [OF dec_constrain [of _ V]], (auto simp: vars simps)[4])
    apply (rule step [OF dec_constrain [of _ V]], (auto simp: vars simps)[4])
    apply (rule step [OF dec_constrain [of _ V]], (auto simp: vars simps)[4])
    apply (rule step [OF dec_select2])
       apply (use vars in auto)[3]
    apply (rule step [OF dec_range])
         apply (auto simp: POSITIVE_SCALAR_MAX_BITS_def)[5]
    apply (rule step [OF dec_mul_integer])
       apply (use vars in auto)[3]
    apply (rule step [OF dec_constrain [of _ "V \<union> lc_vars _"]])
        apply (use vars in \<open>auto simp: simps fpv_add_def\<close>)[4]
    apply (rule step [OF dec_product])
       apply (use vars in auto)[3]
    apply (rule step [OF dec_constrain [of _ "{_}"]])
        apply (auto simp: simps)[4]
    apply (rule step [OF dec_select])
       apply (use vars in auto)[3]
    apply (rule step [OF dec_constrain [of _ "V \<union> lc_vars _"]])
        apply (use vars in \<open>auto simp: simps\<close>)[4]
    apply (rule step [OF dec_range])
         apply (use vars in \<open>auto simp: POSITIVE_SCALAR_MAX_BITS_def\<close>)[5]
    apply (rule step [OF dec_constrain [of _ "V"]])
        apply (use vars in \<open>auto simp: simps\<close>)[4]
    apply (rule step [OF dec_mul_integer])
       apply (use vars in auto)[3]
    apply (rule step [OF dec_constrain [of _ "V \<union> lc_vars _"]])
        apply (use vars in \<open>auto simp: simps shift_integer_def\<close>)[4]
    apply (rule step [OF dec_select4])
       apply (use vars in auto)[3]
    apply (rule step [OF dec_constrain [of _ "V \<union> lc_vars _"]])
        apply (use vars in \<open>auto simp: simps\<close>)[4]
    apply (rule step [OF dec_constrain [of _ "V \<union> lc_vars _"]])
        apply (use vars in \<open>auto simp: simps\<close>)[4]
    apply (rule step [OF dec_range])
         apply (use vars in \<open>auto simp: POSITIVE_SCALAR_MAX_BITS_def\<close>)[5]
    apply (rule dec_last [OF dec_range])
       apply (use vars in \<open>auto simp: POSITIVE_SCALAR_MAX_BITS_def\<close>)[3]
    apply (simp add: simps fpv_add_def shift_integer_def)
    apply (elim conjE)
    apply (intro conjI minimum_selected [OF assms])
          apply simp_all
    done
  then show ?thesis
    by (simp only: V_def)
qed

end

subsection \<open>What a proof of VALID MATCH MPC shows\<close>

text \<open>
  An example: an order to buy 10 at a price of 1 and an order to sell 1000 at a price of 3, matched
  on 1000 at a price of 2, by parties whose balances are zero.
\<close>

definition forged_order1 :: "(nat, rat) OrderVar" where
  "forged_order1 = \<lparr>ov_quote_mint = 2, ov_base_mint = 3, ov_side = 1, ov_price = \<lparr>fp_repr = lc_var 4\<rparr>, ov_amount = 5, ov_timestamp = 1\<rparr>"

definition forged_order2 :: "(nat, rat) OrderVar" where
  "forged_order2 = \<lparr>ov_quote_mint = 2, ov_base_mint = 3, ov_side = 0, ov_price = \<lparr>fp_repr = lc_var 6\<rparr>, ov_amount = 7, ov_timestamp = 1\<rparr>"

definition forged_match :: "(nat, rat) match_var" where
  "forged_match = \<lparr>mr_quote_mint = 2, mr_base_mint = 3, mr_quote_amount = 8, mr_base_amount = 7, mr_direction = 1,
    mr_execution_price = \<lparr>fp_repr = lc_var 9\<rparr>, mr_max_minus_min_amount = 10, mr_min_amount_order_index = 0\<rparr>"

definition forged_values :: "rat list" where
  "forged_values = [6, 5, two_to_m, 10, 3 * two_to_m, 1000, 2000, 2 * two_to_m, -990]"

lemma forged_assigned:
  "r1cs_sat (committed forged_values) (r1cs_assigned (committed forged_values))"
  "valid_match_relation (order_at (r1cs_assigned (committed forged_values)) forged_order1) (order_at (r1cs_assigned (committed forged_values)) forged_order2)
    (balance_at (r1cs_assigned (committed forged_values)) \<lparr>bv_mint = 2, bv_amount = 1\<rparr>) (balance_at (r1cs_assigned (committed forged_values)) \<lparr>bv_mint = 3, bv_amount = 1\<rparr>)
    (match_at (r1cs_assigned (committed forged_values)) forged_match)"
  using r1cs.honest_sat [OF committed_honest]
  by (auto simp: valid_match_relation_def forged_order1_def forged_order2_def forged_match_def forged_values_def Let_def r1cs_assigned_def committed_def)

text \<open>
  C22: the verifier's check of a match proves exactly that both orders are on the match's pair and on
  opposite sides, that the price is the midpoint of theirs, that the base amount is the amount of
  one of the orders, that price times base amount is exactly the quote amount, and that the
  balances have the mints the parties pay in. That the prices overlap, that the amount is the
  smaller one and that the balances cover it is not among it.\<close>

theorem valid_match_exact:
  fixes cs :: "('s, 'v, 'f::field) cs_ops"
  assumes "constraint_system cs sat wires assigned" "(2 :: 'f) \<noteq> 0" and "closed_state sat wires s" "matching_vars o1 o2 b1 b2 m \<subseteq> wires s"
  shows "\<exists>s'. matching_engine_check_single_prover canon cs o1 o2 b1 b2 m s = Returns ((), s')
    \<and> (\<forall>\<rho>. sat s \<rho> \<longrightarrow> ((\<exists>\<rho>'. (\<forall>v\<in>wires s. \<rho>' v = \<rho> v) \<and> sat s' \<rho>')
        \<longleftrightarrow> valid_match_relation (order_at \<rho> o1) (order_at \<rho> o2) (balance_at \<rho> b1) (balance_at \<rho> b2) (match_at \<rho> m)))"
  using constraint_system.dec_exact [OF assms(1) constraint_system.dec_matching_engine [OF assms(1,2)] depends_valid_match assms(3,4)] by simp

theorem valid_match_exact_witness:
  "\<exists>s' \<rho>. matching_engine_check_single_prover (\<lambda>x. nat \<lfloor>x\<rfloor>) r1cs_ops forged_order1 forged_order2 \<lparr>bv_mint = 2, bv_amount = 1\<rparr> \<lparr>bv_mint = 3, bv_amount = 1\<rparr> forged_match
      (committed forged_values) = Returns ((), s')
    \<and> r1cs_sat s' \<rho> \<and> \<rho> (ov_amount forged_order1) = 10 \<and> \<rho> (mr_base_amount forged_match) = 1000 \<and> \<rho> 1 = 0"
proof -
  let ?s = "committed forged_values" and ?b1 = "\<lparr>bv_mint = 2, bv_amount = 1\<rparr>" and ?b2 = "\<lparr>bv_mint = 3, bv_amount = 1\<rparr>"
  have scope: "matching_vars forged_order1 forged_order2 ?b1 ?b2 forged_match \<subseteq> r1cs_wires ?s"
    by (auto simp: matching_vars_def order_vars_def balance_vars_def match_vars_def forged_order1_def forged_order2_def forged_match_def forged_values_def)
  obtain s' where run: "matching_engine_check_single_prover (\<lambda>x. nat \<lfloor>x\<rfloor>) r1cs_ops forged_order1 forged_order2 ?b1 ?b2 forged_match ?s = Returns ((), s')"
    and exact: "\<And>\<rho>. r1cs_sat ?s \<rho> \<Longrightarrow> (\<exists>\<rho>'. (\<forall>v\<in>r1cs_wires ?s. \<rho>' v = \<rho> v) \<and> r1cs_sat s' \<rho>')
        \<longleftrightarrow> valid_match_relation (order_at \<rho> forged_order1) (order_at \<rho> forged_order2) (balance_at \<rho> ?b1) (balance_at \<rho> ?b2) (match_at \<rho> forged_match)"
    using valid_match_exact [OF r1cs_contract _ committed_closed scope, of "\<lambda>x. nat \<lfloor>x\<rfloor>"] by auto
  obtain \<rho> where \<rho>: "\<forall>v\<in>r1cs_wires ?s. \<rho> v = r1cs_assigned ?s v" "r1cs_sat s' \<rho>"
    using exact [OF forged_assigned(1)] forged_assigned(2) by blast
  have "\<rho> 5 = 10" "\<rho> 7 = 1000" "\<rho> 1 = 0"
    using bspec [OF \<rho>(1), of 5] bspec [OF \<rho>(1), of 7] bspec [OF \<rho>(1), of 1] by (simp_all add: forged_values_def r1cs_assigned_def committed_def r1cs_wires_def)
  with run \<rho>(2) show ?thesis
    by (intro exI [of _ s'] exI [of _ \<rho>]) (simp add: forged_order1_def forged_match_def)
qed

text \<open>
  The operations on fixed point variables compute on the numbers they stand for: sums,
  differences and negations for every assignment, and products and comparisons in every
  assignment that satisfies their constraints; constraining a fixed point variable to an integer
  variable adds exactly that equation.\<close>

theorem fixed_point_arithmetic:
  fixes cs :: "('s, 'v, 'f::field) cs_ops"
  assumes "constraint_system cs sat wires assigned" "(two_to_m :: 'f) \<noteq> 0"
  shows "(\<forall>\<rho>. fpv_value \<rho> (fpv_sub (fpv_add x y) (fpv_neg z)) = fpv_value \<rho> x + fpv_value \<rho> y + fpv_value \<rho> z
      \<and> fpv_value \<rho> (fpv_sub_integer (integer_sub_fpv u (fpv_add_integer x v)) w) = \<rho> u - (fpv_value \<rho> x + \<rho> v) - \<rho> w)
    \<and> (\<exists>z s'. mul_fixed_point cs x y s = Returns (z, s') \<and> (\<forall>\<rho>. sat s' \<rho> \<longrightarrow> sat s \<rho> \<and> fpv_value \<rho> z = fpv_value \<rho> x * fpv_value \<rho> y))
    \<and> (\<exists>z s'. mul_integer cs x n s = Returns (z, s') \<and> (\<forall>\<rho>. sat s' \<rho> \<longrightarrow> sat s \<rho> \<and> fpv_value \<rho> z = fpv_value \<rho> x * lc_eval \<rho> n))
    \<and> (\<exists>z s'. fpv_equal cs x y s = Returns (z, s') \<and> (\<forall>\<rho>. sat s' \<rho> \<longrightarrow> sat s \<rho> \<and> \<rho> z = of_bool (fpv_value \<rho> x = fpv_value \<rho> y)))
    \<and> (\<exists>z s'. equal_integer cs x v s = Returns (z, s') \<and> (\<forall>\<rho>. sat s' \<rho> \<longrightarrow> sat s \<rho> \<and> \<rho> z = of_bool (fpv_value \<rho> x = \<rho> v)))
    \<and> (\<exists>s'. constraint_equal_integer cs x v s = Returns ((), s') \<and> (\<forall>\<rho>. sat s' \<rho> \<longleftrightarrow> sat s \<rho> \<and> fpv_value \<rho> x = \<rho> v))"
  by (intro conjI allI constraint_system.fixed_point_calls [OF assms]) (simp_all add: fixed_point_values [OF assms(2)])

theorem fixed_point_arithmetic_witness:
  "\<exists>z s'. mul_fixed_point r1cs_ops \<lparr>fp_repr = lc_var 2\<rparr> \<lparr>fp_repr = lc_var 3\<rparr> (committed [3 * two_to_m, two_to_m / 2 :: rat]) = Returns (z, s')
    \<and> (\<forall>\<rho>. r1cs_sat s' \<rho> \<longrightarrow> fpv_value \<rho> z = fpv_value \<rho> \<lparr>fp_repr = lc_var 2\<rparr> * fpv_value \<rho> \<lparr>fp_repr = lc_var 3\<rparr>)"
proof -
  have "(two_to_m :: rat) \<noteq> 0"
    by (simp add: two_to_m_def)
  from fixed_point_arithmetic [OF r1cs_contract this, of "\<lparr>fp_repr = lc_var 2\<rparr>" "\<lparr>fp_repr = lc_var 3\<rparr>" "\<lparr>fp_repr = lc_var 2\<rparr>" 2 2 2 "committed [3 * two_to_m, two_to_m / 2]" "lc_var 2"]
  have "\<exists>z s'. mul_fixed_point r1cs_ops \<lparr>fp_repr = lc_var 2\<rparr> \<lparr>fp_repr = lc_var 3\<rparr> (committed [3 * two_to_m, two_to_m / 2 :: rat]) = Returns (z, s')
      \<and> (\<forall>\<rho>. r1cs_sat s' \<rho> \<longrightarrow> r1cs_sat (committed [3 * two_to_m, two_to_m / 2]) \<rho>
        \<and> fpv_value \<rho> z = fpv_value \<rho> \<lparr>fp_repr = lc_var 2\<rparr> * fpv_value \<rho> \<lparr>fp_repr = lc_var 3\<rparr>)"
    by (elim conjE)
  then show ?thesis
    by fast
qed

end
