(* ===== verification/Valid_Match_Encryption.thy ===== *)
theory Valid_Match_Encryption
  imports Circuit_Choice Valid_Settle Valid_Match
begin

section \<open>ElGamal encryption and VALID MATCH ENCRYPTION\<close>

text \<open>
  The encryption gadget of \<open>zk_gadgets/elgamal.rs\<close> and the circuit of
  \<open>zk_circuits/valid_match_encryption.rs\<close>: after a match, the prover shows that the notes of the
  two parties, of their relayers and of the protocol follow from the match, that their
  commitments are right and that the volumes are encrypted for who redeems them. The number of
  bits of the encryption randomness is the parameter \<open>N\<close>.
\<close>

definition DEFAULT_ELGAMAL_GENERATOR_scalar :: "'f::field" where
  "DEFAULT_ELGAMAL_GENERATOR_scalar = 2"

definition elgamal_encrypt ::
  "nat \<Rightarrow> ('f::field \<Rightarrow> nat) \<Rightarrow> ('s, 'v, 'f) cs_ops \<Rightarrow> 'f \<Rightarrow> ('v, 'f) lc \<Rightarrow> ('v, 'f) lc \<Rightarrow> ('v, 'f) lc \<Rightarrow> ('s, ('v, 'f) lc \<times> ('v, 'f) lc) circ" where
  "elgamal_encrypt N canon cs generator randomness plaintext pub_key =
    andthen (exp_private_fixed_base N canon cs generator randomness) (\<lambda>ciphertext1.
    andthen (exp_private N canon cs pub_key randomness) (\<lambda>partial_shared_secret.
    andthen (total (cs_product cs partial_shared_secret plaintext)) (\<lambda>blinded_plaintext.
    yield (ciphertext1, lc_var blinded_plaintext))))"

record ('m, 'fee, 'v) ValidMatchEncryptionWitnessVar =
  me_match_res :: 'm
  me_party0_fee :: 'fee
  me_party1_fee :: 'fee
  me_party0_randomness_hash :: 'v
  me_party1_randomness_hash :: 'v
  me_party0_note :: "'v NoteVar"
  me_party1_note :: "'v NoteVar"
  me_relayer0_note :: "'v NoteVar"
  me_relayer1_note :: "'v NoteVar"
  me_protocol_note :: "'v NoteVar"
  me_elgamal_randomness :: "'v list"

record ('p, 'v) ValidMatchEncryptionStatementVar =
  ms_party0_note_commit :: 'v
  ms_party1_note_commit :: 'v
  ms_relayer0_note_commit :: 'v
  ms_relayer1_note_commit :: 'v
  ms_protocol_note_commit :: 'v
  ms_pk_settle_party0 :: 'v
  ms_pk_settle_party1 :: 'v
  ms_pk_settle_relayer0 :: 'v
  ms_pk_settle_relayer1 :: 'v
  ms_pk_settle_protocol :: 'v
  ms_protocol_fee :: 'p
  ms_volume1_ciphertext1 :: "'v ElGamalCiphertextVar"
  ms_volume2_ciphertext1 :: "'v ElGamalCiphertextVar"
  ms_volume1_ciphertext2 :: "'v ElGamalCiphertextVar"
  ms_volume2_ciphertext2 :: "'v ElGamalCiphertextVar"
  ms_mint1_protocol_ciphertext :: "'v ElGamalCiphertextVar"
  ms_volume1_protocol_ciphertext :: "'v ElGamalCiphertextVar"
  ms_mint2_protocol_ciphertext :: "'v ElGamalCiphertextVar"
  ms_volume2_protocol_ciphertext :: "'v ElGamalCiphertextVar"
  ms_randomness_protocol_ciphertext :: "'v ElGamalCiphertextVar"

type_synonym ('v, 'f) encryption_witness_var = "(('v, 'f) match_var, ('v, 'f) FeeVar, 'v) ValidMatchEncryptionWitnessVar"
type_synonym ('v, 'f) encryption_statement_var = "(('v, 'f) FixedPointVar, 'v) ValidMatchEncryptionStatementVar"
type_synonym 'f encryption_witness_value = "(('f, 'f) MatchResultVar, 'f FeeValue, 'f) ValidMatchEncryptionWitnessVar"
type_synonym 'f encryption_statement_value = "('f, 'f) ValidMatchEncryptionStatementVar"

subsection \<open>The circuit\<close>

text \<open>The code repeats these three steps for each of the nine ciphertexts.\<close>

definition check_encryption ::
  "nat \<Rightarrow> ('f::field \<Rightarrow> nat) \<Rightarrow> ('s, 'v, 'f) cs_ops \<Rightarrow> 'v \<Rightarrow> 'v \<Rightarrow> 'v \<Rightarrow> 'v ElGamalCiphertextVar \<Rightarrow> ('s, unit) circ" where
  "check_encryption N canon cs randomness plaintext pub_key ciphertext =
    andthen (elgamal_encrypt N canon cs DEFAULT_ELGAMAL_GENERATOR_scalar (lc_var randomness) (lc_var plaintext) (lc_var pub_key)) (\<lambda>expected_ciphertext.
    andthen (constrain cs (lc_sub (fst expected_ciphertext) (lc_var (ev_partial_shared_secret ciphertext)))) (\<lambda>_.
    constrain cs (lc_sub (snd expected_ciphertext) (lc_var (ev_encrypted_message ciphertext)))))"

definition check_encryptions ::
  "nat \<Rightarrow> ('f::field \<Rightarrow> nat) \<Rightarrow> ('s, 'v, 'f) cs_ops \<Rightarrow> ('v, 'f) encryption_witness_var \<Rightarrow> ('v, 'f) encryption_statement_var \<Rightarrow> ('s, unit) circ" where
  "check_encryptions N canon cs witness statement = (let check = check_encryption N canon cs; r = me_elgamal_randomness witness in
    andthen (check (r ! 0) (nv_volume1 (me_party0_note witness)) (ms_pk_settle_party0 statement) (ms_volume1_ciphertext1 statement)) (\<lambda>_.
    andthen (check (r ! 1) (nv_volume2 (me_party0_note witness)) (ms_pk_settle_party0 statement) (ms_volume2_ciphertext1 statement)) (\<lambda>_.
    andthen (check (r ! 2) (nv_volume1 (me_party1_note witness)) (ms_pk_settle_party1 statement) (ms_volume1_ciphertext2 statement)) (\<lambda>_.
    andthen (check (r ! 3) (nv_volume2 (me_party1_note witness)) (ms_pk_settle_party1 statement) (ms_volume2_ciphertext2 statement)) (\<lambda>_.
    andthen (check (r ! 4) (nv_mint1 (me_protocol_note witness)) (ms_pk_settle_protocol statement) (ms_mint1_protocol_ciphertext statement)) (\<lambda>_.
    andthen (check (r ! 5) (nv_volume1 (me_protocol_note witness)) (ms_pk_settle_protocol statement) (ms_volume1_protocol_ciphertext statement)) (\<lambda>_.
    andthen (check (r ! 6) (nv_mint2 (me_protocol_note witness)) (ms_pk_settle_protocol statement) (ms_mint2_protocol_ciphertext statement)) (\<lambda>_.
    andthen (check (r ! 7) (nv_volume2 (me_protocol_note witness)) (ms_pk_settle_protocol statement) (ms_volume2_protocol_ciphertext statement)) (\<lambda>_.
    check (r ! 8) (nv_randomness (me_protocol_note witness)) (ms_pk_settle_protocol statement) (ms_randomness_protocol_ciphertext statement))))))))))"

text \<open>A share of an amount, rounded down, compared with the volume of a note.\<close>

definition floor_share ::
  "('f::field \<Rightarrow> nat) \<Rightarrow> ('s, 'v, 'f) cs_ops \<Rightarrow> ('v, 'f) FixedPointVar \<Rightarrow> 'v \<Rightarrow> ('s, 'v) circ" where
  "floor_share canon cs share total_amount = andthen (mul_integer cs share (lc_var total_amount)) (fpv_floor canon cs)"

definition net_share ::
  "('s, 'v, 'f::field) cs_ops \<Rightarrow> ('v, 'f) FeeVar \<Rightarrow> ('v, 'f) encryption_statement_var \<Rightarrow> ('v, 'f) FixedPointVar" where
  "net_share cs fee statement = fpv_sub (integer_sub_fpv (var_one cs) (fv_percentage_fee fee)) (ms_protocol_fee statement)"

definition all_eight :: "('s, 'v, 'f::field) cs_ops \<Rightarrow> 'v list \<Rightarrow> ('s, 'v) circ" where
  "all_eight cs bits = total (eq_gadget cs (foldl (\<lambda>acc b. lc_add acc (lc_var b)) (lc_var (hd bits)) (tl bits)) (lc_scale 8 (lc_one cs)))"

definition party0_buy_base_constraints_satisfied ::
  "('f::field \<Rightarrow> nat) \<Rightarrow> ('s, 'v, 'f) cs_ops \<Rightarrow> ('v, 'f) encryption_witness_var \<Rightarrow> ('v, 'f) encryption_statement_var \<Rightarrow> ('s, 'v) circ" where
  "party0_buy_base_constraints_satisfied canon cs witness statement = (let
      eq = (\<lambda>a b. total (eq_gadget cs (lc_var a) (lc_var b))); m = me_match_res witness in
    andthen (floor_share canon cs (net_share cs (me_party0_fee witness) statement) (mr_base_amount m)) (\<lambda>party0_base_expected.
    andthen (eq (nv_volume1 (me_party0_note witness)) party0_base_expected) (\<lambda>p0_mint1_constraint.
    andthen (eq (nv_volume2 (me_party0_note witness)) (mr_quote_amount m)) (\<lambda>p0_mint2_constraint.
    andthen (eq (nv_volume1 (me_party1_note witness)) (mr_base_amount m)) (\<lambda>p1_mint1_constraint.
    andthen (floor_share canon cs (net_share cs (me_party1_fee witness) statement) (mr_quote_amount m)) (\<lambda>party1_quote_expected.
    andthen (eq (nv_volume2 (me_party1_note witness)) party1_quote_expected) (\<lambda>p1_mint2_constraint.
    andthen (floor_share canon cs (fv_percentage_fee (me_party0_fee witness)) (mr_base_amount m)) (\<lambda>relayer0_mint1_expected.
    andthen (eq (nv_volume1 (me_relayer0_note witness)) relayer0_mint1_expected) (\<lambda>relayer0_mint1_constraint.
    andthen (eq (nv_volume2 (me_relayer0_note witness)) (var_zero cs)) (\<lambda>relayer0_mint2_constraint.
    andthen (eq (nv_volume1 (me_relayer1_note witness)) (var_zero cs)) (\<lambda>relayer1_mint1_constraint.
    andthen (floor_share canon cs (fv_percentage_fee (me_party1_fee witness)) (mr_quote_amount m)) (\<lambda>relayer1_mint2_expected.
    andthen (eq (nv_volume2 (me_relayer1_note witness)) relayer1_mint2_expected) (\<lambda>relayer1_mint2_constraint.
    all_eight cs [p0_mint1_constraint, p0_mint2_constraint, p1_mint1_constraint, p1_mint2_constraint,
      relayer0_mint1_constraint, relayer0_mint2_constraint, relayer1_mint1_constraint, relayer1_mint2_constraint])))))))))))))"

definition party1_buy_base_constraints_satisfied ::
  "('f::field \<Rightarrow> nat) \<Rightarrow> ('s, 'v, 'f) cs_ops \<Rightarrow> ('v, 'f) encryption_witness_var \<Rightarrow> ('v, 'f) encryption_statement_var \<Rightarrow> ('s, 'v) circ" where
  "party1_buy_base_constraints_satisfied canon cs witness statement = (let
      eq = (\<lambda>a b. total (eq_gadget cs (lc_var a) (lc_var b))); m = me_match_res witness in
    andthen (eq (nv_volume1 (me_party0_note witness)) (mr_base_amount m)) (\<lambda>p0_mint1_constraint.
    andthen (floor_share canon cs (net_share cs (me_party0_fee witness) statement) (mr_quote_amount m)) (\<lambda>party0_quote_expected.
    andthen (eq (nv_volume2 (me_party0_note witness)) party0_quote_expected) (\<lambda>p0_mint2_constraint.
    andthen (floor_share canon cs (net_share cs (me_party1_fee witness) statement) (mr_base_amount m)) (\<lambda>party1_base_expected.
    andthen (eq (nv_volume1 (me_party1_note witness)) party1_base_expected) (\<lambda>p1_mint1_constraint.
    andthen (eq (nv_volume2 (me_party1_note witness)) (mr_quote_amount m)) (\<lambda>p1_mint2_constraint.
    andthen (eq (nv_volume1 (me_relayer0_note witness)) (var_zero cs)) (\<lambda>relayer0_mint1_constraint.
    andthen (floor_share canon cs (fv_percentage_fee (me_party0_fee witness)) (mr_quote_amount m)) (\<lambda>relayer0_mint2_expected.
    andthen (eq (nv_volume2 (me_relayer0_note witness)) relayer0_mint2_expected) (\<lambda>relayer0_mint2_constraint.
    andthen (floor_share canon cs (fv_percentage_fee (me_party1_fee witness)) (mr_base_amount m)) (\<lambda>relayer1_mint1_expected.
    andthen (eq (nv_volume1 (me_relayer1_note witness)) relayer1_mint1_expected) (\<lambda>relayer1_mint1_constraint.
    andthen (eq (nv_volume2 (me_relayer1_note witness)) (var_zero cs)) (\<lambda>relayer1_mint2_constraint.
    all_eight cs [p0_mint1_constraint, p0_mint2_constraint, p1_mint1_constraint, p1_mint2_constraint,
      relayer0_mint1_constraint, relayer0_mint2_constraint, relayer1_mint1_constraint, relayer1_mint2_constraint])))))))))))))"

text \<open>
  The constraints of \<open>validate_notes\<close> that hold in both directions, as the linear combinations
  that are constrained to zero, in the order of the code.
\<close>

definition note_constraints ::
  "('s, 'v, 'f::field) cs_ops \<Rightarrow> ('v, 'f) encryption_witness_var \<Rightarrow> ('v, 'f) lc list" where
  "note_constraints cs witness = (let v = lc_var; m = me_match_res witness;
      p0 = me_party0_note witness; p1 = me_party1_note witness; r0 = me_relayer0_note witness; r1 = me_relayer1_note witness;
      pr = me_protocol_note witness; f0 = me_party0_fee witness; f1 = me_party1_fee witness;
      h0 = me_party0_randomness_hash witness; h1 = me_party1_randomness_hash witness in
    map (\<lambda>n. lc_sub (v (mr_base_mint m)) (v (nv_mint1 n))) [p0, p1, r0, r1, pr]
    @ map (\<lambda>n. lc_sub (v (mr_quote_mint m)) (v (nv_mint2 n))) [p0, p1, r0, r1, pr]
    @ [lc_sub (v (nv_direction1 p0)) (v (mr_direction m)), lc_add (lc_sub (v (nv_direction1 p1)) (lc_one cs)) (v (mr_direction m)),
       v (nv_direction1 r0), v (nv_direction1 r1), v (nv_direction1 pr)]
    @ [lc_add (lc_sub (v (nv_direction2 p0)) (lc_one cs)) (v (mr_direction m)), lc_sub (v (nv_direction2 p1)) (v (mr_direction m)),
       v (nv_direction2 r0), v (nv_direction2 r1), v (nv_direction2 pr)]
    @ [lc_sub (v (nv_fee_mint p0)) (v (fv_gas_addr f0)), lc_sub (v (nv_fee_mint p1)) (v (fv_gas_addr f1)),
       lc_sub (v (nv_fee_mint r0)) (v (fv_gas_addr f0)), lc_sub (v (nv_fee_mint r1)) (v (fv_gas_addr f1)), v (nv_fee_mint pr)]
    @ [lc_sub (v (nv_fee_volume p0)) (v (fv_gas_token_amount f0)), lc_sub (v (nv_fee_volume p1)) (v (fv_gas_token_amount f1)),
       lc_sub (v (nv_fee_volume r0)) (v (fv_gas_token_amount f0)), lc_sub (v (nv_fee_volume r1)) (v (fv_gas_token_amount f1)), v (nv_fee_volume pr)]
    @ [lc_sub (v (nv_fee_direction p0)) (lc_one cs), lc_sub (v (nv_fee_direction p1)) (lc_one cs),
       v (nv_fee_direction r0), v (nv_fee_direction r1), v (nv_fee_direction pr)]
    @ [lc_sub (v (nv_type p0)) (lc_one cs), lc_sub (v (nv_type p1)) (lc_one cs), v (nv_type r0), v (nv_type r1), v (nv_type pr)]
    @ [lc_sub (v (nv_randomness p0)) (v h0), lc_sub (v (nv_randomness p1)) (v h1),
       lc_sub (lc_sub (v (nv_randomness r0)) (v h0)) (lc_one cs), lc_sub (lc_sub (v (nv_randomness r1)) (v h1)) (lc_one cs),
       lc_sub (lc_sub (v (nv_randomness pr)) (v h0)) (v h1)])"

definition validate_notes ::
  "('f::field \<Rightarrow> nat) \<Rightarrow> ('s, 'v, 'f) cs_ops \<Rightarrow> ('v, 'f) encryption_witness_var \<Rightarrow> ('v, 'f) encryption_statement_var \<Rightarrow> ('s, unit) circ" where
  "validate_notes canon cs witness statement = (let m = me_match_res witness in
    andthen (party0_buy_base_constraints_satisfied canon cs witness statement) (\<lambda>party0_buy_constraints.
    andthen (party1_buy_base_constraints_satisfied canon cs witness statement) (\<lambda>party0_sell_constraints.
    andthen (total (select_gadget cs (lc_var party0_sell_constraints) (lc_var party0_buy_constraints) (lc_var (mr_direction m)))) (\<lambda>selected_constraint_set.
    andthen (constrain cs (lc_sub (lc_one cs) selected_constraint_set)) (\<lambda>_.
    andthen (floor_share canon cs (ms_protocol_fee statement) (mr_base_amount m)) (\<lambda>protocol_expected_v1.
    andthen (floor_share canon cs (ms_protocol_fee statement) (mr_quote_amount m)) (\<lambda>protocol_expected_v2.
    andthen (constrain cs (lc_sub (lc_var protocol_expected_v1) (lc_var (nv_volume1 (me_protocol_note witness))))) (\<lambda>_.
    andthen (constrain cs (lc_sub (lc_var protocol_expected_v2) (lc_var (nv_volume2 (me_protocol_note witness))))) (\<lambda>_.
    for_each (constrain cs) (note_constraints cs witness))))))))))"

definition validate_note_commitments ::
  "('s, 'v, 'f::field) cs_ops \<Rightarrow> 'f PoseidonSpongeParameters \<Rightarrow> ('v, 'f) encryption_witness_var \<Rightarrow> ('v, 'f) encryption_statement_var \<Rightarrow> ('s, unit) circ" where
  "validate_note_commitments cs p witness statement =
    andthen (gadget_note_commit cs p (me_party0_note witness) (ms_pk_settle_party0 statement)) (\<lambda>party0_note_commit_res.
    andthen (constrain cs (lc_sub (lc_var (ms_party0_note_commit statement)) party0_note_commit_res)) (\<lambda>_.
    andthen (gadget_note_commit cs p (me_party1_note witness) (ms_pk_settle_party1 statement)) (\<lambda>party1_note_commit_res.
    andthen (constrain cs (lc_sub (lc_var (ms_party1_note_commit statement)) party1_note_commit_res)) (\<lambda>_.
    andthen (gadget_note_commit cs p (me_relayer0_note witness) (ms_pk_settle_relayer0 statement)) (\<lambda>relayer0_note_commit_res.
    andthen (constrain cs (lc_sub (lc_var (ms_relayer0_note_commit statement)) relayer0_note_commit_res)) (\<lambda>_.
    andthen (gadget_note_commit cs p (me_relayer1_note witness) (ms_pk_settle_relayer1 statement)) (\<lambda>relayer1_note_commit_res.
    andthen (constrain cs (lc_sub (lc_var (ms_relayer1_note_commit statement)) relayer1_note_commit_res)) (\<lambda>_.
    andthen (gadget_note_commit cs p (me_protocol_note witness) (ms_pk_settle_protocol statement)) (\<lambda>protocol_note_commit_res.
    constrain cs (lc_sub (lc_var (ms_protocol_note_commit statement)) protocol_note_commit_res))))))))))"

definition valid_match_encryption ::
  "nat \<Rightarrow> ('f::field \<Rightarrow> nat) \<Rightarrow> ('s, 'v, 'f) cs_ops \<Rightarrow> 'f PoseidonSpongeParameters \<Rightarrow> ('v, 'f) encryption_witness_var \<Rightarrow> ('v, 'f) encryption_statement_var
    \<Rightarrow> ('s, unit) circ" where
  "valid_match_encryption N canon cs p witness statement =
    andthen (check_encryptions N canon cs witness statement) (\<lambda>_.
    andthen (validate_notes canon cs witness statement) (\<lambda>_.
    validate_note_commitments cs p witness statement))"


subsection \<open>The relation it proves\<close>

text \<open>
  What the check of a ciphertext amounts to: the two exponentiations decompose the randomness
  each on its own, into field elements that need not be bits.
\<close>

definition ciphertext_at :: "('v \<Rightarrow> 'f) \<Rightarrow> 'v ElGamalCiphertextVar \<Rightarrow> 'f ElGamalCiphertextVar" where
  "ciphertext_at \<rho> c = \<lparr>ev_partial_shared_secret = \<rho> (ev_partial_shared_secret c), ev_encrypted_message = \<rho> (ev_encrypted_message c)\<rparr>"

definition ciphertext_vars :: "'v ElGamalCiphertextVar \<Rightarrow> 'v set" where
  "ciphertext_vars c = {ev_partial_shared_secret c, ev_encrypted_message c}"

definition encrypts :: "nat \<Rightarrow> 'f::field \<Rightarrow> 'f \<Rightarrow> 'f \<Rightarrow> 'f ElGamalCiphertextVar \<Rightarrow> bool" where
  "encrypts N r x pk c \<longleftrightarrow> ev_partial_shared_secret c \<in> powers N DEFAULT_ELGAMAL_GENERATOR_scalar r
    \<and> ev_encrypted_message c \<in> (\<lambda>y. y * x) ` powers N pk r"

definition encryption_witness_at :: "('v \<Rightarrow> 'f::field) \<Rightarrow> ('v, 'f) encryption_witness_var \<Rightarrow> 'f encryption_witness_value" where
  "encryption_witness_at \<rho> w = \<lparr>me_match_res = match_at \<rho> (me_match_res w), me_party0_fee = fee_at \<rho> (me_party0_fee w),
    me_party1_fee = fee_at \<rho> (me_party1_fee w), me_party0_randomness_hash = \<rho> (me_party0_randomness_hash w),
    me_party1_randomness_hash = \<rho> (me_party1_randomness_hash w), me_party0_note = note_at \<rho> (me_party0_note w),
    me_party1_note = note_at \<rho> (me_party1_note w), me_relayer0_note = note_at \<rho> (me_relayer0_note w),
    me_relayer1_note = note_at \<rho> (me_relayer1_note w), me_protocol_note = note_at \<rho> (me_protocol_note w),
    me_elgamal_randomness = map \<rho> (me_elgamal_randomness w)\<rparr>"

definition encryption_statement_at :: "('v \<Rightarrow> 'f::field) \<Rightarrow> ('v, 'f) encryption_statement_var \<Rightarrow> 'f encryption_statement_value" where
  "encryption_statement_at \<rho> st = \<lparr>ms_party0_note_commit = \<rho> (ms_party0_note_commit st), ms_party1_note_commit = \<rho> (ms_party1_note_commit st),
    ms_relayer0_note_commit = \<rho> (ms_relayer0_note_commit st), ms_relayer1_note_commit = \<rho> (ms_relayer1_note_commit st),
    ms_protocol_note_commit = \<rho> (ms_protocol_note_commit st), ms_pk_settle_party0 = \<rho> (ms_pk_settle_party0 st),
    ms_pk_settle_party1 = \<rho> (ms_pk_settle_party1 st), ms_pk_settle_relayer0 = \<rho> (ms_pk_settle_relayer0 st),
    ms_pk_settle_relayer1 = \<rho> (ms_pk_settle_relayer1 st), ms_pk_settle_protocol = \<rho> (ms_pk_settle_protocol st),
    ms_protocol_fee = lc_eval \<rho> (fp_repr (ms_protocol_fee st)),
    ms_volume1_ciphertext1 = ciphertext_at \<rho> (ms_volume1_ciphertext1 st), ms_volume2_ciphertext1 = ciphertext_at \<rho> (ms_volume2_ciphertext1 st),
    ms_volume1_ciphertext2 = ciphertext_at \<rho> (ms_volume1_ciphertext2 st), ms_volume2_ciphertext2 = ciphertext_at \<rho> (ms_volume2_ciphertext2 st),
    ms_mint1_protocol_ciphertext = ciphertext_at \<rho> (ms_mint1_protocol_ciphertext st),
    ms_volume1_protocol_ciphertext = ciphertext_at \<rho> (ms_volume1_protocol_ciphertext st),
    ms_mint2_protocol_ciphertext = ciphertext_at \<rho> (ms_mint2_protocol_ciphertext st),
    ms_volume2_protocol_ciphertext = ciphertext_at \<rho> (ms_volume2_protocol_ciphertext st),
    ms_randomness_protocol_ciphertext = ciphertext_at \<rho> (ms_randomness_protocol_ciphertext st)\<rparr>"

definition encryption_witness_vars :: "('v, 'f) encryption_witness_var \<Rightarrow> 'v set" where
  "encryption_witness_vars w = match_vars (me_match_res w) \<union> fee_vars (me_party0_fee w) \<union> fee_vars (me_party1_fee w)
    \<union> {me_party0_randomness_hash w, me_party1_randomness_hash w} \<union> note_vars (me_party0_note w) \<union> note_vars (me_party1_note w)
    \<union> note_vars (me_relayer0_note w) \<union> note_vars (me_relayer1_note w) \<union> note_vars (me_protocol_note w) \<union> set (me_elgamal_randomness w)"

definition encryption_statement_vars :: "('v, 'f) encryption_statement_var \<Rightarrow> 'v set" where
  "encryption_statement_vars st = {ms_party0_note_commit st, ms_party1_note_commit st, ms_relayer0_note_commit st, ms_relayer1_note_commit st,
      ms_protocol_note_commit st, ms_pk_settle_party0 st, ms_pk_settle_party1 st, ms_pk_settle_relayer0 st, ms_pk_settle_relayer1 st,
      ms_pk_settle_protocol st} \<union> lc_vars (fp_repr (ms_protocol_fee st))
    \<union> ciphertext_vars (ms_volume1_ciphertext1 st) \<union> ciphertext_vars (ms_volume2_ciphertext1 st) \<union> ciphertext_vars (ms_volume1_ciphertext2 st)
    \<union> ciphertext_vars (ms_volume2_ciphertext2 st) \<union> ciphertext_vars (ms_mint1_protocol_ciphertext st) \<union> ciphertext_vars (ms_volume1_protocol_ciphertext st)
    \<union> ciphertext_vars (ms_mint2_protocol_ciphertext st) \<union> ciphertext_vars (ms_volume2_protocol_ciphertext st)
    \<union> ciphertext_vars (ms_randomness_protocol_ciphertext st)"

definition encryption_vars :: "('v, 'f) encryption_witness_var \<Rightarrow> ('v, 'f) encryption_statement_var \<Rightarrow> 'v set" where
  "encryption_vars w st = encryption_witness_vars w \<union> encryption_statement_vars st"

lemma encryption_at_simps [simp]:
  "me_match_res (encryption_witness_at \<rho> w) = match_at \<rho> (me_match_res w)" "me_party0_fee (encryption_witness_at \<rho> w) = fee_at \<rho> (me_party0_fee w)"
  "me_party1_fee (encryption_witness_at \<rho> w) = fee_at \<rho> (me_party1_fee w)"
  "me_party0_randomness_hash (encryption_witness_at \<rho> w) = \<rho> (me_party0_randomness_hash w)"
  "me_party1_randomness_hash (encryption_witness_at \<rho> w) = \<rho> (me_party1_randomness_hash w)"
  "me_party0_note (encryption_witness_at \<rho> w) = note_at \<rho> (me_party0_note w)" "me_party1_note (encryption_witness_at \<rho> w) = note_at \<rho> (me_party1_note w)"
  "me_relayer0_note (encryption_witness_at \<rho> w) = note_at \<rho> (me_relayer0_note w)"
  "me_relayer1_note (encryption_witness_at \<rho> w) = note_at \<rho> (me_relayer1_note w)"
  "me_protocol_note (encryption_witness_at \<rho> w) = note_at \<rho> (me_protocol_note w)"
  "me_elgamal_randomness (encryption_witness_at \<rho> w) = map \<rho> (me_elgamal_randomness w)"
  by (simp_all add: encryption_witness_at_def)

lemma statement_at_simps [simp]:
  "ms_party0_note_commit (encryption_statement_at \<rho> st) = \<rho> (ms_party0_note_commit st)" "ms_party1_note_commit (encryption_statement_at \<rho> st) = \<rho> (ms_party1_note_commit st)"
  "ms_relayer0_note_commit (encryption_statement_at \<rho> st) = \<rho> (ms_relayer0_note_commit st)"
  "ms_relayer1_note_commit (encryption_statement_at \<rho> st) = \<rho> (ms_relayer1_note_commit st)"
  "ms_protocol_note_commit (encryption_statement_at \<rho> st) = \<rho> (ms_protocol_note_commit st)"
  "ms_pk_settle_party0 (encryption_statement_at \<rho> st) = \<rho> (ms_pk_settle_party0 st)" "ms_pk_settle_party1 (encryption_statement_at \<rho> st) = \<rho> (ms_pk_settle_party1 st)"
  "ms_pk_settle_relayer0 (encryption_statement_at \<rho> st) = \<rho> (ms_pk_settle_relayer0 st)"
  "ms_pk_settle_relayer1 (encryption_statement_at \<rho> st) = \<rho> (ms_pk_settle_relayer1 st)"
  "ms_pk_settle_protocol (encryption_statement_at \<rho> st) = \<rho> (ms_pk_settle_protocol st)"
  "ms_volume1_ciphertext1 (encryption_statement_at \<rho> st) = ciphertext_at \<rho> (ms_volume1_ciphertext1 st)"
  "ms_volume2_ciphertext1 (encryption_statement_at \<rho> st) = ciphertext_at \<rho> (ms_volume2_ciphertext1 st)"
  "ms_volume1_ciphertext2 (encryption_statement_at \<rho> st) = ciphertext_at \<rho> (ms_volume1_ciphertext2 st)"
  "ms_volume2_ciphertext2 (encryption_statement_at \<rho> st) = ciphertext_at \<rho> (ms_volume2_ciphertext2 st)"
  "ms_mint1_protocol_ciphertext (encryption_statement_at \<rho> st) = ciphertext_at \<rho> (ms_mint1_protocol_ciphertext st)"
  "ms_volume1_protocol_ciphertext (encryption_statement_at \<rho> st) = ciphertext_at \<rho> (ms_volume1_protocol_ciphertext st)"
  "ms_mint2_protocol_ciphertext (encryption_statement_at \<rho> st) = ciphertext_at \<rho> (ms_mint2_protocol_ciphertext st)"
  "ms_volume2_protocol_ciphertext (encryption_statement_at \<rho> st) = ciphertext_at \<rho> (ms_volume2_protocol_ciphertext st)"
  "ms_randomness_protocol_ciphertext (encryption_statement_at \<rho> st) = ciphertext_at \<rho> (ms_randomness_protocol_ciphertext st)"
  by (simp_all add: encryption_statement_at_def)

lemma encryption_scope:
  "match_vars (me_match_res w) \<subseteq> encryption_vars w st" "fee_vars (me_party0_fee w) \<subseteq> encryption_vars w st" "fee_vars (me_party1_fee w) \<subseteq> encryption_vars w st"
  "note_vars (me_party0_note w) \<subseteq> encryption_vars w st" "note_vars (me_party1_note w) \<subseteq> encryption_vars w st"
  "note_vars (me_relayer0_note w) \<subseteq> encryption_vars w st" "note_vars (me_relayer1_note w) \<subseteq> encryption_vars w st"
  "note_vars (me_protocol_note w) \<subseteq> encryption_vars w st" "set (me_elgamal_randomness w) \<subseteq> encryption_vars w st"
  unfolding encryption_vars_def encryption_witness_vars_def by blast+

lemma ciphertext_scope:
  "ciphertext_vars (ms_volume1_ciphertext1 st) \<subseteq> encryption_vars w st" "ciphertext_vars (ms_volume2_ciphertext1 st) \<subseteq> encryption_vars w st"
  "ciphertext_vars (ms_volume1_ciphertext2 st) \<subseteq> encryption_vars w st" "ciphertext_vars (ms_volume2_ciphertext2 st) \<subseteq> encryption_vars w st"
  "ciphertext_vars (ms_mint1_protocol_ciphertext st) \<subseteq> encryption_vars w st" "ciphertext_vars (ms_volume1_protocol_ciphertext st) \<subseteq> encryption_vars w st"
  "ciphertext_vars (ms_mint2_protocol_ciphertext st) \<subseteq> encryption_vars w st" "ciphertext_vars (ms_volume2_protocol_ciphertext st) \<subseteq> encryption_vars w st"
  "ciphertext_vars (ms_randomness_protocol_ciphertext st) \<subseteq> encryption_vars w st" "lc_vars (fp_repr (ms_protocol_fee st)) \<subseteq> encryption_vars w st"
  unfolding encryption_vars_def encryption_statement_vars_def by blast+

lemma encryption_variables:
  "v \<in> {me_party0_randomness_hash w, me_party1_randomness_hash w, ms_party0_note_commit st, ms_party1_note_commit st, ms_relayer0_note_commit st,
    ms_relayer1_note_commit st, ms_protocol_note_commit st, ms_pk_settle_party0 st, ms_pk_settle_party1 st, ms_pk_settle_relayer0 st, ms_pk_settle_relayer1 st,
    ms_pk_settle_protocol st} \<Longrightarrow> v \<in> encryption_vars w st"
  by (auto simp: encryption_vars_def encryption_witness_vars_def encryption_statement_vars_def)

lemma depends_ciphertext_at: "ciphertext_vars c \<subseteq> V \<Longrightarrow> depends V (\<lambda>\<rho>. ciphertext_at \<rho> c :: 'f::field ElGamalCiphertextVar)"
  by (rule depends_via [of "map lc_var [ev_partial_shared_secret c, ev_encrypted_message c]"]) (simp_all add: ciphertext_vars_def ciphertext_at_def)

lemma depends_encryption:
  fixes w :: "('v, 'f::field) encryption_witness_var"
  shows "depends (encryption_vars w st) (\<lambda>\<rho>. (encryption_witness_at \<rho> w, encryption_statement_at \<rho> st))"
proof (rule dependsI2)
  fix \<rho> \<rho>' :: "'v \<Rightarrow> 'f" assume agree: "\<forall>v\<in>encryption_vars w st. \<rho> v = \<rho>' v"
  note same = depends_eq [OF _ agree]
  have "match_at \<rho> (me_match_res w) = match_at \<rho>' (me_match_res w)"
    "fee_at \<rho> (me_party0_fee w) = fee_at \<rho>' (me_party0_fee w)" "fee_at \<rho> (me_party1_fee w) = fee_at \<rho>' (me_party1_fee w)"
    "note_at \<rho> (me_party0_note w) = note_at \<rho>' (me_party0_note w)" "note_at \<rho> (me_party1_note w) = note_at \<rho>' (me_party1_note w)"
    "note_at \<rho> (me_relayer0_note w) = note_at \<rho>' (me_relayer0_note w)" "note_at \<rho> (me_relayer1_note w) = note_at \<rho>' (me_relayer1_note w)"
    "note_at \<rho> (me_protocol_note w) = note_at \<rho>' (me_protocol_note w)"
    by (rule same [OF depends_match_at] same [OF depends_fee_at] same [OF depends_note_at], rule encryption_scope)+
  moreover have "ciphertext_at \<rho> c = ciphertext_at \<rho>' c"
    if "c \<in> {ms_volume1_ciphertext1 st, ms_volume2_ciphertext1 st, ms_volume1_ciphertext2 st, ms_volume2_ciphertext2 st, ms_mint1_protocol_ciphertext st,
      ms_volume1_protocol_ciphertext st, ms_mint2_protocol_ciphertext st, ms_volume2_protocol_ciphertext st, ms_randomness_protocol_ciphertext st}" for c
    using that ciphertext_scope [of st w] by (intro same [OF depends_ciphertext_at]) blast
  moreover have "lc_eval \<rho> (fp_repr (ms_protocol_fee st)) = lc_eval \<rho>' (fp_repr (ms_protocol_fee st))"
    by (rule same [OF depends_lc], rule ciphertext_scope)
  moreover have "\<rho> v = \<rho>' v" if "v \<in> {me_party0_randomness_hash w, me_party1_randomness_hash w, ms_party0_note_commit st, ms_party1_note_commit st,
      ms_relayer0_note_commit st, ms_relayer1_note_commit st, ms_protocol_note_commit st, ms_pk_settle_party0 st, ms_pk_settle_party1 st, ms_pk_settle_relayer0 st,
      ms_pk_settle_relayer1 st, ms_pk_settle_protocol st}" for v
    by (rule bspec [OF agree], rule encryption_variables, rule that)
  moreover have "map \<rho> (me_elgamal_randomness w) = map \<rho>' (me_elgamal_randomness w)"
    by (rule map_cong [OF refl], rule bspec [OF agree], erule subsetD [OF encryption_scope(9)])
  ultimately show "(encryption_witness_at \<rho> w, encryption_statement_at \<rho> st) = (encryption_witness_at \<rho>' w, encryption_statement_at \<rho>' st)"
    by (simp add: encryption_witness_at_def encryption_statement_at_def)
qed

text \<open>
  The volumes of a match where the first party buys, as far as the constraints fix them: the
  amounts that have no fee. The rounded shares are quotients that the prover chooses. The bit a
  set of such constraints gives may be zero in any case, and one where the fixed amounts are right.
\<close>

definition buy_volumes :: "('m, 'fee, 'f::field) ValidMatchEncryptionWitnessVar \<Rightarrow> 'f \<Rightarrow> 'f \<Rightarrow> bool" where
  "buy_volumes w base quote \<longleftrightarrow> nv_volume2 (me_party0_note w) = quote \<and> nv_volume1 (me_party1_note w) = base
    \<and> nv_volume2 (me_relayer0_note w) = 0 \<and> nv_volume1 (me_relayer1_note w) = 0"

definition sell_volumes :: "('m, 'fee, 'f::field) ValidMatchEncryptionWitnessVar \<Rightarrow> 'f \<Rightarrow> 'f \<Rightarrow> bool" where
  "sell_volumes w base quote \<longleftrightarrow> nv_volume1 (me_party0_note w) = base \<and> nv_volume2 (me_party1_note w) = quote
    \<and> nv_volume1 (me_relayer0_note w) = 0 \<and> nv_volume2 (me_relayer1_note w) = 0"

definition at_most :: "bool \<Rightarrow> 'f::field set" where
  "at_most c = {0, of_bool c}"

definition ones :: "'v list \<Rightarrow> ('v \<Rightarrow> 'f::field) \<Rightarrow> bool" where
  "ones bs \<rho> \<longleftrightarrow> (\<forall>b\<in>set bs. \<rho> b = 1)"

lemma sum_bits_full:
  fixes xs :: "'f::field list"
  assumes "set xs \<subseteq> {0, 1}" "\<And>n. 0 < n \<Longrightarrow> n \<le> length xs \<Longrightarrow> (of_nat n :: 'f) \<noteq> 0"
  shows "sum_list xs = of_nat (length xs) \<longleftrightarrow> (\<forall>x\<in>set xs. x = 1)"
proof -
  let ?k = "length (filter (\<lambda>x. x = 0) xs)"
  have sum: "sum_list xs + of_nat ?k = of_nat (length xs)"
    using assms(1) by (induction xs) auto
  have "sum_list xs = of_nat (length xs) \<longleftrightarrow> (of_nat ?k :: 'f) = 0"
    unfolding sum [symmetric] by simp
  moreover have "(of_nat ?k :: 'f) = 0 \<longleftrightarrow> ?k = 0"
    using assms(2) [of ?k] by (cases "?k = 0") simp_all
  moreover have "?k = 0 \<longleftrightarrow> (\<forall>x\<in>set xs. x = 1)"
    using assms(1) by (auto simp: filter_empty_conv)
  ultimately show ?thesis
    by simp
qed

lemma depends_ones:
  assumes "set bs \<subseteq> V" "depends V c"
  shows "depends V (\<lambda>\<rho>. G (ones bs \<rho> \<and> c \<rho>))"
proof (rule dependsI2)
  fix \<rho> \<rho>' :: "'a \<Rightarrow> 'b" assume agree: "\<forall>v\<in>V. \<rho> v = \<rho>' v"
  have "ones bs \<rho> = ones bs \<rho>'"
    unfolding ones_def by (rule ball_cong) (use assms(1) agree in auto)
  then show "G (ones bs \<rho> \<and> c \<rho>) = G (ones bs \<rho>' \<and> c \<rho>')"
    using depends_eq [OF assms(2) agree] by simp
qed

lemma sum_of_bits:
  fixes \<rho> :: "'v \<Rightarrow> 'f::field"
  shows "lc_eval \<rho> (foldl (\<lambda>acc b. lc_add acc (lc_var b)) a bs) = lc_eval \<rho> a + sum_list (map \<rho> bs)"
    "lc_vars (foldl (\<lambda>acc b. lc_add acc (lc_var b)) (a :: ('v, 'f) lc) bs) \<subseteq> lc_vars a \<union> set bs"
  by (induction bs arbitrary: a) (fastforce simp: add.assoc)+

lemma andthen_assoc: "andthen (andthen m k) h = andthen m (\<lambda>x. andthen (k x) h)"
proof (rule ext)
  show "andthen (andthen m k) h s = andthen m (\<lambda>x. andthen (k x) h) s" for s
    by (cases "m s") (auto simp: andthen_def)
qed

text \<open>The relation: the ciphertexts, the volumes, the other fields of the notes and their commitments.\<close>

definition encryptions_hold :: "nat \<Rightarrow> 'f::field encryption_witness_value \<Rightarrow> 'f encryption_statement_value \<Rightarrow> bool" where
  "encryptions_hold N w st \<longleftrightarrow> (let r = me_elgamal_randomness w in
    encrypts N (r ! 0) (nv_volume1 (me_party0_note w)) (ms_pk_settle_party0 st) (ms_volume1_ciphertext1 st)
    \<and> encrypts N (r ! 1) (nv_volume2 (me_party0_note w)) (ms_pk_settle_party0 st) (ms_volume2_ciphertext1 st)
    \<and> encrypts N (r ! 2) (nv_volume1 (me_party1_note w)) (ms_pk_settle_party1 st) (ms_volume1_ciphertext2 st)
    \<and> encrypts N (r ! 3) (nv_volume2 (me_party1_note w)) (ms_pk_settle_party1 st) (ms_volume2_ciphertext2 st)
    \<and> encrypts N (r ! 4) (nv_mint1 (me_protocol_note w)) (ms_pk_settle_protocol st) (ms_mint1_protocol_ciphertext st)
    \<and> encrypts N (r ! 5) (nv_volume1 (me_protocol_note w)) (ms_pk_settle_protocol st) (ms_volume1_protocol_ciphertext st)
    \<and> encrypts N (r ! 6) (nv_mint2 (me_protocol_note w)) (ms_pk_settle_protocol st) (ms_mint2_protocol_ciphertext st)
    \<and> encrypts N (r ! 7) (nv_volume2 (me_protocol_note w)) (ms_pk_settle_protocol st) (ms_volume2_protocol_ciphertext st)
    \<and> encrypts N (r ! 8) (nv_randomness (me_protocol_note w)) (ms_pk_settle_protocol st) (ms_randomness_protocol_ciphertext st))"

definition volumes_settled :: "'f::field encryption_witness_value \<Rightarrow> bool" where
  "volumes_settled w \<longleftrightarrow> (let m = me_match_res w;
      buy = buy_volumes w (mr_base_amount m) (mr_quote_amount m); sell = sell_volumes w (mr_base_amount m) (mr_quote_amount m) in
    buy \<and> mr_direction m = 0 \<or> sell \<and> mr_direction m = 1 \<or> buy \<and> sell)"

definition note_fields :: "'f::field encryption_witness_value \<Rightarrow> bool" where
  "note_fields w \<longleftrightarrow> (let m = me_match_res w; d = mr_direction m; f0 = me_party0_fee w; f1 = me_party1_fee w;
      h0 = me_party0_randomness_hash w; h1 = me_party1_randomness_hash w;
      p0 = me_party0_note w; p1 = me_party1_note w; r0 = me_relayer0_note w; r1 = me_relayer1_note w; pr = me_protocol_note w in
    (\<forall>n\<in>set [p0, p1, r0, r1, pr]. nv_mint1 n = mr_base_mint m \<and> nv_mint2 n = mr_quote_mint m)
    \<and> nv_direction1 p0 = d \<and> nv_direction2 p0 = 1 - d \<and> nv_direction1 p1 = 1 - d \<and> nv_direction2 p1 = d
    \<and> (\<forall>n\<in>set [r0, r1, pr]. nv_direction1 n = 0 \<and> nv_direction2 n = 0 \<and> nv_fee_direction n = 0 \<and> nv_type n = 0)
    \<and> (\<forall>n\<in>set [p0, p1]. nv_fee_direction n = 1 \<and> nv_type n = 1)
    \<and> (\<forall>n\<in>set [p0, r0]. nv_fee_mint n = f_gas_addr f0 \<and> nv_fee_volume n = f_gas_token_amount f0)
    \<and> (\<forall>n\<in>set [p1, r1]. nv_fee_mint n = f_gas_addr f1 \<and> nv_fee_volume n = f_gas_token_amount f1)
    \<and> nv_fee_mint pr = 0 \<and> nv_fee_volume pr = 0
    \<and> nv_randomness p0 = h0 \<and> nv_randomness p1 = h1 \<and> nv_randomness r0 = h0 + 1 \<and> nv_randomness r1 = h1 + 1 \<and> nv_randomness pr = h0 + h1)"

definition notes_committed :: "'f::field PoseidonSpongeParameters \<Rightarrow> 'f encryption_witness_value \<Rightarrow> 'f encryption_statement_value \<Rightarrow> bool" where
  "notes_committed p w st \<longleftrightarrow> ms_party0_note_commit st = note_commitment p (me_party0_note w) (ms_pk_settle_party0 st)
    \<and> ms_party1_note_commit st = note_commitment p (me_party1_note w) (ms_pk_settle_party1 st)
    \<and> ms_relayer0_note_commit st = note_commitment p (me_relayer0_note w) (ms_pk_settle_relayer0 st)
    \<and> ms_relayer1_note_commit st = note_commitment p (me_relayer1_note w) (ms_pk_settle_relayer1 st)
    \<and> ms_protocol_note_commit st = note_commitment p (me_protocol_note w) (ms_pk_settle_protocol st)"

definition valid_match_encryption_relation ::
  "nat \<Rightarrow> 'f::field PoseidonSpongeParameters \<Rightarrow> 'f encryption_witness_value \<Rightarrow> 'f encryption_statement_value \<Rightarrow> bool" where
  "valid_match_encryption_relation N p w st \<longleftrightarrow> encryptions_hold N w st \<and> volumes_settled w \<and> note_fields w \<and> notes_committed p w st"

lemmas depends_encryption_relation =
  depends_comp [OF depends_encryption, where h = "\<lambda>(w, st). h w st" for h, unfolded prod.case]

lemma selected_bit:
  fixes d :: "'f::field"
  shows "(\<exists>x\<in>at_most buy. \<exists>y\<in>at_most sell. y * d + x * (1 - d) = 1) \<longleftrightarrow> buy \<and> d = 0 \<or> sell \<and> d = 1 \<or> buy \<and> sell"
  by (cases buy; cases sell) (auto simp: at_most_def)

context constraint_system
begin

lemma den_encrypt:
  assumes "N \<le> 256"
  shows "den (lc_vars r \<union> lc_vars x \<union> lc_vars pk) P (elgamal_encrypt N canon cs g r x pk) (\<lambda>c. lc_vars (fst c) \<union> lc_vars (snd c))
    (\<lambda>c \<rho>. (lc_eval \<rho> (fst c), lc_eval \<rho> (snd c)))
    (\<lambda>\<rho>. powers N g (lc_eval \<rho> r) \<times> (\<lambda>y. y * lc_eval \<rho> x) ` powers N (lc_eval \<rho> pk) (lc_eval \<rho> r))"
proof -
  define V where "V = lc_vars r \<union> lc_vars x \<union> lc_vars pk"
  have dep: "depends V (\<lambda>\<rho>. lc_eval \<rho> r)" "depends V (\<lambda>\<rho>. lc_eval \<rho> x)" "depends V (\<lambda>\<rho>. lc_eval \<rho> pk)"
    by (auto simp: V_def intro!: depends_lc)
  have tail: "den (V \<union> lc_vars c1) P' (andthen (exp_private N canon cs pk r) (\<lambda>secret. andthen (total (cs_product cs secret x)) (\<lambda>b. yield (c1, lc_var b))))
      (\<lambda>c. lc_vars (fst c) \<union> lc_vars (snd c)) (\<lambda>c \<rho>. (lc_eval \<rho> (fst c), lc_eval \<rho> (snd c)))
      (\<lambda>\<rho>. {lc_eval \<rho> c1} \<times> (\<lambda>y. y * lc_eval \<rho> x) ` powers N (lc_eval \<rho> pk) (lc_eval \<rho> r))" for c1 P'
  proof (rule den_choice [OF den_exp_private [OF assms], where B = "\<lambda>y \<rho>. {(lc_eval \<rho> c1, y * lc_eval \<rho> x)}"])
    fix secret :: "('v \<times> 'f) list"
    let ?V = "V \<union> lc_vars c1 \<union> lc_vars secret"
    let ?P = "\<lambda>\<rho>. P' \<rho> \<and> lc_eval \<rho> secret \<in> powers N (lc_eval \<rho> pk) (lc_eval \<rho> r)"
    show "den ?V ?P (andthen (total (cs_product cs secret x)) (\<lambda>b. yield (c1, lc_var b)))
        (\<lambda>c. lc_vars (fst c) \<union> lc_vars (snd c)) (\<lambda>c \<rho>. (lc_eval \<rho> (fst c), lc_eval \<rho> (snd c)))
        (\<lambda>\<rho>. {(lc_eval \<rho> c1, lc_eval \<rho> secret * lc_eval \<rho> x)})"
    proof (rule den_known [OF dec_product])
      fix b
      show "den (?V \<union> {b}) (\<lambda>\<rho>. ?P \<rho> \<and> \<rho> b = lc_eval \<rho> secret * lc_eval \<rho> x) (yield (c1, lc_var b))
          (\<lambda>c. lc_vars (fst c) \<union> lc_vars (snd c)) (\<lambda>c \<rho>. (lc_eval \<rho> (fst c), lc_eval \<rho> (snd c)))
          (\<lambda>\<rho>. {(lc_eval \<rho> c1, lc_eval \<rho> secret * lc_eval \<rho> x)})"
        by (rule den_return) auto
      show "depends ?V (\<lambda>\<rho>. {(lc_eval \<rho> c1, lc_eval \<rho> secret * lc_eval \<rho> x)})"
        by (rule depends_via [of "[c1, secret, x]"]) (auto simp: V_def)
    qed (auto simp: V_def)
    show "depends (V \<union> lc_vars c1) (\<lambda>\<rho>. {(lc_eval \<rho> c1, y * lc_eval \<rho> x)})" for y
      by (rule depends_via [of "[c1, x]"]) (auto simp: V_def)
  qed (auto simp: V_def)
  have "den V P (elgamal_encrypt N canon cs g r x pk) (\<lambda>c. lc_vars (fst c) \<union> lc_vars (snd c)) (\<lambda>c \<rho>. (lc_eval \<rho> (fst c), lc_eval \<rho> (snd c)))
    (\<lambda>\<rho>. powers N g (lc_eval \<rho> r) \<times> (\<lambda>y. y * lc_eval \<rho> x) ` powers N (lc_eval \<rho> pk) (lc_eval \<rho> r))"
    unfolding elgamal_encrypt_def
  proof (rule den_choice [OF den_exp_private_fixed_base [OF assms], where B = "\<lambda>c \<rho>. {c} \<times> (\<lambda>y. y * lc_eval \<rho> x) ` powers N (lc_eval \<rho> pk) (lc_eval \<rho> r)"])
    show "depends V (\<lambda>\<rho>. {c} \<times> (\<lambda>y. y * lc_eval \<rho> x) ` powers N (lc_eval \<rho> pk) (lc_eval \<rho> r))" for c
      by (rule depends_via [of "[r, x, pk]"]) (auto simp: V_def)
  qed (use tail in \<open>auto simp: V_def\<close>)
  then show ?thesis
    by (simp only: V_def)
qed

lemma dec_check_encryption:
  assumes "N \<le> 256"
  shows "dec ({r, x, pk} \<union> ciphertext_vars c) P (check_encryption N canon cs r x pk c)
    (\<lambda>\<rho>. encrypts N (\<rho> r) (\<rho> x) (\<rho> pk) (ciphertext_at \<rho> c)) (\<lambda>_. {}) (\<lambda>_ _. True)"
proof -
  let ?V = "{r, x, pk} \<union> ciphertext_vars c"
  show ?thesis
    unfolding check_encryption_def
  proof (rule dec_choose [OF den_encrypt [OF assms], where B = "\<lambda>y \<rho>. fst y = \<rho> (ev_partial_shared_secret c) \<and> snd y = \<rho> (ev_encrypted_message c)"])
    fix e :: "('v \<times> 'f) list \<times> ('v \<times> 'f) list" and P'
    let ?U = "?V \<union> (lc_vars (fst e) \<union> lc_vars (snd e))"
    let ?R = "\<lambda>\<rho>. lc_eval \<rho> (fst e) = \<rho> (ev_partial_shared_secret c) \<and> lc_eval \<rho> (snd e) = \<rho> (ev_encrypted_message c)"
    have dep: "depends ?U ?R"
      by (rule depends_via [of "[fst e, snd e, lc_var (ev_partial_shared_secret c), lc_var (ev_encrypted_message c)]"])
        (auto simp: ciphertext_vars_def)
    have "dec ?U P' (andthen (constrain cs (lc_sub (fst e) (lc_var (ev_partial_shared_secret c)))) (\<lambda>_.
        constrain cs (lc_sub (snd e) (lc_var (ev_encrypted_message c))))) ?R (\<lambda>_. {}) (\<lambda>_ _. True)" for P'
      by (rule dec_step [OF dec_constrain_equal [where V = ?U] dep], auto simp: ciphertext_vars_def)
        (rule dec_last [OF dec_constrain_equal [where V = ?U]], auto simp: ciphertext_vars_def)
    then show "dec ?U (\<lambda>\<rho>. P \<rho> \<and> (lc_eval \<rho> (fst e), lc_eval \<rho> (snd e)) \<in> powers N DEFAULT_ELGAMAL_GENERATOR_scalar (lc_eval \<rho> (lc_var r))
          \<times> (\<lambda>y. y * lc_eval \<rho> (lc_var x)) ` powers N (lc_eval \<rho> (lc_var pk)) (lc_eval \<rho> (lc_var r)))
        (andthen (constrain cs (lc_sub (fst e) (lc_var (ev_partial_shared_secret c)))) (\<lambda>_.
        constrain cs (lc_sub (snd e) (lc_var (ev_encrypted_message c)))))
        (\<lambda>\<rho>. fst (lc_eval \<rho> (fst e), lc_eval \<rho> (snd e)) = \<rho> (ev_partial_shared_secret c)
          \<and> snd (lc_eval \<rho> (fst e), lc_eval \<rho> (snd e)) = \<rho> (ev_encrypted_message c)) (\<lambda>_. {}) (\<lambda>_ _. True)"
      by simp
    show "depends ?V (\<lambda>\<rho>. fst y = \<rho> (ev_partial_shared_secret c) \<and> snd y = \<rho> (ev_encrypted_message c))" for y :: "'f \<times> 'f"
      by (rule depends_via [of "[lc_var (ev_partial_shared_secret c), lc_var (ev_encrypted_message c)]"]) (auto simp: ciphertext_vars_def)
    show "(\<exists>y\<in>powers N DEFAULT_ELGAMAL_GENERATOR_scalar (lc_eval \<rho> (lc_var r)) \<times> (\<lambda>y. y * lc_eval \<rho> (lc_var x)) ` powers N (lc_eval \<rho> (lc_var pk)) (lc_eval \<rho> (lc_var r)).
        fst y = \<rho> (ev_partial_shared_secret c) \<and> snd y = \<rho> (ev_encrypted_message c))
        = encrypts N (\<rho> r) (\<rho> x) (\<rho> pk) (ciphertext_at \<rho> c)" for \<rho>
      by (force simp: encrypts_def ciphertext_at_def)
  qed auto
qed

lemma den_floor:
  "den (lc_vars (fp_repr share) \<union> {a}) P (floor_share canon cs share a) (\<lambda>q. {q}) (\<lambda>q \<rho>. \<rho> q) (\<lambda>_. UNIV)"
proof -
  have "den (lc_vars (fp_repr y)) P (fpv_floor canon cs y) (\<lambda>q. {q}) (\<lambda>q \<rho>. \<rho> q) (\<lambda>_. UNIV)" for y P
    unfolding fpv_floor_def
  proof (rule den_choice [OF den_quotient, where B = "\<lambda>y _. {y}"])
    fix qr :: "'v \<times> 'v"
    show "den (lc_vars (fp_repr y) \<union> (case qr of (q, r) \<Rightarrow> {q})) (\<lambda>\<rho>. P \<rho> \<and> (case qr of (q, r) \<Rightarrow> \<lambda>\<rho>. \<rho> q) \<rho> \<in> UNIV)
        (case qr of (q, _) \<Rightarrow> yield q) (\<lambda>q. {q}) (\<lambda>q \<rho>. \<rho> q) (\<lambda>\<rho>. {(case qr of (q, r) \<Rightarrow> \<lambda>\<rho>. \<rho> q) \<rho>})"
      by (cases qr) (auto intro!: den_return)
  qed (auto simp: DEFAULT_PRECISION_def POSITIVE_SCALAR_MAX_BITS_def)
  note floor = this
  show ?thesis
    unfolding floor_share_def
    by (rule den_known [OF dec_mul_integer], force, rule den_weaken [OF floor, where f = id]) auto
qed

lemma den_free_bit:
  "den (lc_vars (fp_repr share) \<union> {a, v}) P (andthen (floor_share canon cs share a) (\<lambda>q. total (eq_gadget cs (lc_var v) (lc_var q))))
    (\<lambda>b. {b}) (\<lambda>b \<rho>. \<rho> b) (\<lambda>_. {0, 1})"
proof (rule den_choice [OF den_floor, where B = "\<lambda>y \<rho>. {of_bool (\<rho> v = y)}"])
  fix q
  show "den (lc_vars (fp_repr share) \<union> {a, v} \<union> {q}) (\<lambda>\<rho>. P \<rho> \<and> \<rho> q \<in> UNIV) (total (eq_gadget cs (lc_var v) (lc_var q)))
      (\<lambda>b. {b}) (\<lambda>b \<rho>. \<rho> b) (\<lambda>\<rho>. {of_bool (\<rho> v = \<rho> q)})"
    by (rule den_weaken [OF den_of_dec [OF dec_eq [where P = "\<lambda>_. True"], where val = "\<lambda>b \<rho>. \<rho> b" and g = "\<lambda>\<rho>. of_bool (\<rho> v = \<rho> q)"], where f = id])
      (auto intro!: depends_comp2 [where h = "\<lambda>x y. of_bool (x = y)"])
  show "depends (lc_vars (fp_repr share) \<union> {a, v}) (\<lambda>\<rho> :: 'v \<Rightarrow> 'f. {of_bool (\<rho> v = y) :: 'f})" for y
    by (rule depends_comp [where h = "\<lambda>x. {of_bool (x = y)}"]) auto
  show "(\<Union>y\<in>UNIV. {of_bool (\<rho> v = y)}) = {0, 1}" for \<rho> :: "'v \<Rightarrow> 'f"
    using exI [of "\<lambda>x. \<rho> v \<noteq> x" "\<rho> v + 1"] by (auto split: if_splits simp: of_bool_def)
qed auto

text \<open>A step of a set of constraints whose bit the prover chooses, and one whose bit is fixed.\<close>

lemma den_share_step:
  assumes "lc_vars (fp_repr share) \<union> {a, v} \<subseteq> V \<union> const_vars" "set bs \<subseteq> V" "depends V c"
    "\<And>x. G False \<union> G x = at_most x" "\<And>b. den (insert b V) (\<lambda>\<rho>. P \<rho> \<and> \<rho> b \<in> {0, 1}) (k b) W' val' (\<lambda>\<rho>. G (ones (b # bs) \<rho> \<and> c \<rho>))"
  shows "den V P (andthen (floor_share canon cs share a) (\<lambda>q. andthen (total (eq_gadget cs (lc_var v) (lc_var q))) k)) W' val'
    (\<lambda>\<rho>. at_most (ones bs \<rho> \<and> c \<rho>))"
  unfolding andthen_assoc [symmetric]
proof (rule den_choice [OF den_free_bit, where B = "\<lambda>y \<rho>. G (y = 1 \<and> ones bs \<rho> \<and> c \<rho>)"])
  show "den (V \<union> {b}) (\<lambda>\<rho>. P \<rho> \<and> \<rho> b \<in> {0, 1}) (k b) W' val' (\<lambda>\<rho>. G (\<rho> b = 1 \<and> ones bs \<rho> \<and> c \<rho>))" for b
    using assms(5) [of b] by (simp add: ones_def conj_assoc)
  show "depends V (\<lambda>\<rho>. G (y = 1 \<and> ones bs \<rho> \<and> c \<rho>))" for y :: 'f
    by (rule depends_ones [OF assms(2,3), where G = "\<lambda>x. G (y = 1 \<and> x)"])
  show "(\<Union>y\<in>{0, 1 :: 'f}. G (y = 1 \<and> ones bs \<rho> \<and> c \<rho>)) = at_most (ones bs \<rho> \<and> c \<rho>)" for \<rho> :: "'v \<Rightarrow> 'f"
    using assms(4) [of "ones bs \<rho> \<and> c \<rho>"] by simp
qed (use assms(1) in auto)

lemma den_fixed_step:
  assumes "{a, b} \<subseteq> V \<union> const_vars" "set bs \<subseteq> V" "depends V c"
    "\<And>x. den (insert x V) (\<lambda>\<rho>. P \<rho> \<and> \<rho> x = of_bool (\<rho> a = \<rho> b)) (k x) W' val' (\<lambda>\<rho>. G (ones bs \<rho> \<and> c \<rho>))"
  shows "den V P (andthen (total (eq_gadget cs (lc_var a) (lc_var b))) k) W' val' (\<lambda>\<rho>. G (ones bs \<rho> \<and> c \<rho>))"
proof (rule den_known [OF dec_eq])
  show "den (V \<union> {x}) (\<lambda>\<rho>. P \<rho> \<and> \<rho> x = of_bool (lc_eval \<rho> (lc_var a) = lc_eval \<rho> (lc_var b))) (k x) W' val' (\<lambda>\<rho>. G (ones bs \<rho> \<and> c \<rho>))" for x
    using assms(4) [of x] by simp
  show "depends V (\<lambda>\<rho>. G (ones bs \<rho> \<and> c \<rho>))"
    by (rule depends_ones [OF assms(2,3)])
qed (use assms(1) in auto)

lemma den_all_eight:
  assumes "\<And>n. 0 < n \<Longrightarrow> n \<le> 8 \<Longrightarrow> (of_nat n :: 'f) \<noteq> 0" "set bits \<subseteq> V" "length bits = 8" "set bs \<subseteq> V" "depends V c"
    "\<And>\<rho>. P \<rho> \<Longrightarrow> \<rho> (var_zero cs) = 0 \<Longrightarrow> (\<forall>b\<in>set bits. \<rho> b \<in> {0, 1}) \<and> (ones bits \<rho> \<longleftrightarrow> ones bs \<rho> \<and> c \<rho>)"
  shows "den V P (all_eight cs bits) (\<lambda>x. {x}) (\<lambda>x \<rho>. \<rho> x) (\<lambda>\<rho>. {of_bool (ones bs \<rho> \<and> c \<rho>)})"
proof -
  obtain b0 bs' where bits: "bits = b0 # bs'"
    using assms(3) by (cases bits) auto
  have eq: "(lc_eval \<rho> (foldl (\<lambda>acc b. lc_add acc (lc_var b)) (lc_var (hd bits)) (tl bits)) = lc_eval \<rho> (lc_scale 8 (lc_one cs))) = (ones bs \<rho> \<and> c \<rho>)"
    if "P \<rho>" "\<rho> (var_one cs) = 1" "\<rho> (var_zero cs) = 0" for \<rho>
    using sum_bits_full [of "map \<rho> bits"] assms(1,3) assms(6) [OF that(1,3)] that(2) by (auto simp: bits sum_of_bits ones_def)
  have "den V P (all_eight cs bits) (\<lambda>x. {x}) (\<lambda>x \<rho>. \<rho> x) (\<lambda>\<rho>. {y. True \<and> y = of_bool (ones bs \<rho> \<and> c \<rho>)})"
  proof (rule den_of_dec)
    show "dec V P (all_eight cs bits) (\<lambda>_. True) (\<lambda>x. {x}) (\<lambda>x \<rho>. \<rho> x = of_bool (ones bs \<rho> \<and> c \<rho>))"
      unfolding all_eight_def
      by (rule dec_weaken [OF dec_eq]) (use sum_of_bits(2) [of "lc_var b0" bs'] assms(2) eq in \<open>auto simp: bits\<close>)
    show "depends V (\<lambda>\<rho>. of_bool (ones bs \<rho> \<and> c \<rho>))"
      by (rule depends_ones [OF assms(4,5)])
  qed
  then show ?thesis
    by simp
qed

lemma net_share_vars:
  "lc_vars (fp_repr (net_share cs f st)) \<subseteq> const_vars \<union> lc_vars (fp_repr (fv_percentage_fee f)) \<union> lc_vars (fp_repr (ms_protocol_fee st))"
  by (auto simp: net_share_def fpv_sub_def integer_sub_fpv_def fpv_add_integer_def fpv_neg_def)

lemma at_most_choice: "at_most False \<union> at_most x = at_most x" "{of_bool False} \<union> {of_bool x} = at_most x"
  by (auto simp: at_most_def)

lemma volume_vars:
  assumes "encryption_vars w st \<subseteq> V"
  shows "{mr_base_amount (me_match_res w), mr_quote_amount (me_match_res w), nv_volume1 (me_party0_note w), nv_volume2 (me_party0_note w),
      nv_volume1 (me_party1_note w), nv_volume2 (me_party1_note w), nv_volume1 (me_relayer0_note w), nv_volume2 (me_relayer0_note w),
      nv_volume1 (me_relayer1_note w), nv_volume2 (me_relayer1_note w)} \<subseteq> V"
    "lc_vars (fp_repr (fv_percentage_fee (me_party0_fee w))) \<subseteq> V" "lc_vars (fp_repr (fv_percentage_fee (me_party1_fee w))) \<subseteq> V"
    "lc_vars (fp_repr (net_share cs (me_party0_fee w) st)) \<subseteq> V \<union> const_vars" "lc_vars (fp_repr (net_share cs (me_party1_fee w) st)) \<subseteq> V \<union> const_vars"
    "lc_vars (fp_repr (ms_protocol_fee st)) \<subseteq> V"
proof -
  have "fee_vars (me_party0_fee w) \<subseteq> V" "fee_vars (me_party1_fee w) \<subseteq> V" and protocol: "lc_vars (fp_repr (ms_protocol_fee st)) \<subseteq> V"
    using assms encryption_scope(2,3) [of w st] ciphertext_scope(10) [of st w] by blast+
  then show fees: "lc_vars (fp_repr (fv_percentage_fee (me_party0_fee w))) \<subseteq> V" "lc_vars (fp_repr (fv_percentage_fee (me_party1_fee w))) \<subseteq> V"
    by (auto simp: fee_vars_def)
  show "lc_vars (fp_repr (net_share cs (me_party0_fee w) st)) \<subseteq> V \<union> const_vars"
    using net_share_vars [of "me_party0_fee w" st] fees protocol by blast
  show "lc_vars (fp_repr (net_share cs (me_party1_fee w) st)) \<subseteq> V \<union> const_vars"
    using net_share_vars [of "me_party1_fee w" st] fees protocol by blast
  show "{mr_base_amount (me_match_res w), mr_quote_amount (me_match_res w), nv_volume1 (me_party0_note w), nv_volume2 (me_party0_note w),
      nv_volume1 (me_party1_note w), nv_volume2 (me_party1_note w), nv_volume1 (me_relayer0_note w), nv_volume2 (me_relayer0_note w),
      nv_volume1 (me_relayer1_note w), nv_volume2 (me_relayer1_note w)} \<subseteq> V"
    using assms encryption_scope(1,4-7) [of w st] by (auto simp: note_vars_def match_vars_def)
qed (use assms ciphertext_scope(10) [of st w] in blast)

lemma den_buy:
  assumes "\<And>n. 0 < n \<Longrightarrow> n \<le> 8 \<Longrightarrow> (of_nat n :: 'f) \<noteq> 0" "encryption_vars w st \<subseteq> V"
  shows "den V P (party0_buy_base_constraints_satisfied canon cs w st) (\<lambda>b. {b}) (\<lambda>b \<rho>. \<rho> b)
    (\<lambda>\<rho>. at_most (buy_volumes (encryption_witness_at \<rho> w) (\<rho> (mr_base_amount (me_match_res w))) (\<rho> (mr_quote_amount (me_match_res w)))))"
proof -
  let ?c = "\<lambda>\<rho>. buy_volumes (encryption_witness_at \<rho> w) (\<rho> (mr_base_amount (me_match_res w))) (\<rho> (mr_quote_amount (me_match_res w)))"
  note vars = volume_vars [OF assms(2)]
  have dep: "depends V ?c"
    by (rule depends_via [of "map lc_var [mr_base_amount (me_match_res w), mr_quote_amount (me_match_res w), nv_volume2 (me_party0_note w),
        nv_volume1 (me_party1_note w), nv_volume2 (me_relayer0_note w), nv_volume1 (me_relayer1_note w)]"]) (use vars(1) in \<open>simp_all add: buy_volumes_def\<close>)
  note share = den_share_step [OF _ _ depends_mono [OF dep] at_most_choice(1)]
  note last = den_share_step [OF _ _ depends_mono [OF dep] at_most_choice(2)]
  note fixed = den_fixed_step [OF _ _ depends_mono [OF dep], where G = at_most]
  have "den V P (party0_buy_base_constraints_satisfied canon cs w st) (\<lambda>b. {b}) (\<lambda>b \<rho>. \<rho> b) (\<lambda>\<rho>. at_most (ones [] \<rho> \<and> ?c \<rho>))"
    unfolding party0_buy_base_constraints_satisfied_def Let_def
    apply (rule share, (use vars in auto)[3])
    apply (rule fixed, (use vars in auto)[3])
    apply (rule fixed, (use vars in auto)[3])
    apply (rule share, (use vars in auto)[3])
    apply (rule share, (use vars in auto)[3])
    apply (rule fixed, (use vars in auto)[3])
    apply (rule fixed, (use vars in auto)[3])
    apply (rule last, (use vars in auto)[3])
    apply (rule den_all_eight [OF assms(1) _ _ _ depends_mono [OF dep]])
          apply (auto simp: ones_def buy_volumes_def)
    done
  then show ?thesis
    by (simp add: ones_def)
qed

lemma den_sell:
  assumes "\<And>n. 0 < n \<Longrightarrow> n \<le> 8 \<Longrightarrow> (of_nat n :: 'f) \<noteq> 0" "encryption_vars w st \<subseteq> V"
  shows "den V P (party1_buy_base_constraints_satisfied canon cs w st) (\<lambda>b. {b}) (\<lambda>b \<rho>. \<rho> b)
    (\<lambda>\<rho>. at_most (sell_volumes (encryption_witness_at \<rho> w) (\<rho> (mr_base_amount (me_match_res w))) (\<rho> (mr_quote_amount (me_match_res w)))))"
proof -
  let ?c = "\<lambda>\<rho>. sell_volumes (encryption_witness_at \<rho> w) (\<rho> (mr_base_amount (me_match_res w))) (\<rho> (mr_quote_amount (me_match_res w)))"
  note vars = volume_vars [OF assms(2)]
  have dep: "depends V ?c"
    by (rule depends_via [of "map lc_var [mr_base_amount (me_match_res w), mr_quote_amount (me_match_res w), nv_volume1 (me_party0_note w),
        nv_volume2 (me_party1_note w), nv_volume1 (me_relayer0_note w), nv_volume2 (me_relayer1_note w)]"]) (use vars(1) in \<open>simp_all add: sell_volumes_def\<close>)
  note share = den_share_step [OF _ _ depends_mono [OF dep] at_most_choice(1)]
  note last = den_share_step [OF _ _ depends_mono [OF dep] at_most_choice(2)]
  note fixed = den_fixed_step [OF _ _ depends_mono [OF dep], where G = at_most]
  have "den V P (party1_buy_base_constraints_satisfied canon cs w st) (\<lambda>b. {b}) (\<lambda>b \<rho>. \<rho> b) (\<lambda>\<rho>. at_most (ones [] \<rho> \<and> ?c \<rho>))"
    unfolding party1_buy_base_constraints_satisfied_def Let_def
    apply (rule fixed, (use vars in auto)[3])
    apply (rule share, (use vars in auto)[3])
    apply (rule share, (use vars in auto)[3])
    apply (rule fixed, (use vars in auto)[3])
    apply (rule fixed, (use vars in auto)[3])
    apply (rule share, (use vars in auto)[3])
    apply (rule last, (use vars in auto)[3])
    apply (rule den_fixed_step [OF _ _ depends_mono [OF dep], where G = "\<lambda>x. {of_bool x}"], (use vars in auto)[3])
    apply (rule den_all_eight [OF assms(1) _ _ _ depends_mono [OF dep]])
          apply (auto simp: ones_def sell_volumes_def)
    done
  then show ?thesis
    by (simp add: ones_def)
qed

lemma note_constraints_at:
  assumes "\<rho> (var_one cs) = 1"
  shows "(\<forall>l\<in>set (note_constraints cs w). lc_eval \<rho> l = 0) \<longleftrightarrow> note_fields (encryption_witness_at \<rho> w)"
  using assms
  by (auto simp: note_constraints_def note_fields_def Let_def algebra_simps eq_neg_iff_add_eq_0)

lemma note_constraint_vars:
  assumes "encryption_vars w st \<subseteq> V" "l \<in> set (note_constraints cs w)"
  shows "lc_vars l \<subseteq> V \<union> const_vars"
proof -
  have "{me_party0_randomness_hash w, me_party1_randomness_hash w} \<subseteq> V"
    using assms(1) encryption_variables [of _ w st] by auto
  moreover have "match_vars (me_match_res w) \<union> fee_vars (me_party0_fee w) \<union> fee_vars (me_party1_fee w) \<union> note_vars (me_party0_note w) \<union> note_vars (me_party1_note w)
      \<union> note_vars (me_relayer0_note w) \<union> note_vars (me_relayer1_note w) \<union> note_vars (me_protocol_note w) \<subseteq> V"
    using assms(1) encryption_scope [of w st] by blast
  ultimately show ?thesis
    using assms(2) by (auto simp: note_constraints_def Let_def match_vars_def fee_vars_def note_vars_def)
qed

text \<open>The protocol's volumes are compared with two quotients, which are the prover's to choose.\<close>

lemma dec_protocol_volumes:
  assumes "encryption_vars w st \<subseteq> V"
  shows "dec V P (andthen (floor_share canon cs (ms_protocol_fee st) (mr_base_amount (me_match_res w))) (\<lambda>q1.
      andthen (floor_share canon cs (ms_protocol_fee st) (mr_quote_amount (me_match_res w))) (\<lambda>q2.
      andthen (constrain cs (lc_sub (lc_var q1) (lc_var (nv_volume1 (me_protocol_note w))))) (\<lambda>_.
      andthen (constrain cs (lc_sub (lc_var q2) (lc_var (nv_volume2 (me_protocol_note w))))) (\<lambda>_. for_each (constrain cs) (note_constraints cs w))))))
    (\<lambda>\<rho>. note_fields (encryption_witness_at \<rho> w)) (\<lambda>_. {}) (\<lambda>_ _. True)"
proof -
  let ?F = "\<lambda>\<rho>. note_fields (encryption_witness_at \<rho> w)" and ?v1 = "nv_volume1 (me_protocol_note w)" and ?v2 = "nv_volume2 (me_protocol_note w)"
  note vars = volume_vars [OF assms]
  have more: "?v1 \<in> V" "?v2 \<in> V"
    using assms encryption_scope(8) [of w st] by (auto simp: note_vars_def)
  have dep: "depends U ?F" if "V \<subseteq> U" for U
    using depends_comp [OF depends_mono [OF depends_encryption subset_trans [OF assms that]], where h = "\<lambda>p. note_fields (fst p)"] by simp
  have dep2: "depends U (\<lambda>\<rho>. \<rho> q2 = \<rho> ?v2 \<and> \<rho> q1 = \<rho> ?v1 \<and> ?F \<rho>)" if "V \<subseteq> U" "q1 \<in> U" "q2 \<in> U" for U q1 q2
  proof -
    have "depends U (\<lambda>\<rho>. ((\<rho> q1, \<rho> q2), (\<rho> ?v1, \<rho> ?v2), ?F \<rho>))"
      by (intro depends_comp2 [where h = Pair] depends_var dep) (use more that in auto)
    from depends_comp [OF this, where h = "\<lambda>((q1, q2), (v1, v2), b). q2 = v2 \<and> q1 = v1 \<and> b"] show ?thesis
      by simp
  qed
  have tail: "dec (V \<union> {q1} \<union> {q2}) Q (andthen (constrain cs (lc_sub (lc_var q1) (lc_var ?v1))) (\<lambda>_.
       andthen (constrain cs (lc_sub (lc_var q2) (lc_var ?v2))) (\<lambda>_. for_each (constrain cs) (note_constraints cs w))))
      (\<lambda>\<rho>. \<rho> q2 = \<rho> ?v2 \<and> \<rho> q1 = \<rho> ?v1 \<and> ?F \<rho>) (\<lambda>_. {}) (\<lambda>_ _. True)" for q1 q2 Q
  proof -
    let ?U = "V \<union> {q1} \<union> {q2}"
    note S = dep2 [of ?U q1 q2]
    show ?thesis
      apply (rule dec_step [OF dec_constrain_equal [where V = ?U] S], (use more in auto)[7])
      apply (rule dec_step [OF dec_constrain_equal [where V = ?U] S], (use more in auto)[7])
      apply (rule dec_last [OF dec_for_each [where V = "V \<union> const_vars" and R = "\<lambda>l \<rho>. lc_eval \<rho> l = 0"]])
      using note_constraint_vars [OF assms]
         apply (auto intro!: dec_constrain depends_comp [OF depends_lc, where h = "\<lambda>x. x = 0"] simp: note_constraints_at)
      done
  qed
  have "dec (V \<union> {q1}) Q (andthen (floor_share canon cs (ms_protocol_fee st) (mr_quote_amount (me_match_res w))) (\<lambda>q2.
      andthen (constrain cs (lc_sub (lc_var q1) (lc_var ?v1))) (\<lambda>_.
      andthen (constrain cs (lc_sub (lc_var q2) (lc_var ?v2))) (\<lambda>_. for_each (constrain cs) (note_constraints cs w)))))
    (\<lambda>\<rho>. \<rho> q1 = \<rho> ?v1 \<and> ?F \<rho>) (\<lambda>_. {}) (\<lambda>_ _. True)" for q1 Q
  proof (rule dec_choose [OF den_floor, where B = "\<lambda>q2 \<rho>. q2 = \<rho> ?v2 \<and> \<rho> q1 = \<rho> ?v1 \<and> ?F \<rho>"])
    show "depends (V \<union> {q1}) (\<lambda>\<rho>. y = \<rho> ?v2 \<and> \<rho> q1 = \<rho> ?v1 \<and> ?F \<rho>)" for y
      by (intro depends_conj depends_comp [where h = "\<lambda>v. y = v"] depends_comp2 [where h = "\<lambda>a b. a = b"] depends_var dep) (use more in auto)
  qed (use vars tail in auto)
  note rest = this
  show ?thesis
  proof (rule dec_choose [OF den_floor, where B = "\<lambda>q1 \<rho>. q1 = \<rho> ?v1 \<and> ?F \<rho>"])
    show "depends V (\<lambda>\<rho>. y = \<rho> ?v1 \<and> ?F \<rho>)" for y
      by (intro depends_conj depends_comp [where h = "\<lambda>v. y = v"] depends_var dep) (use more in auto)
  qed (use vars rest in auto)
qed

lemma dec_validate_notes:
  assumes "\<And>n. 0 < n \<Longrightarrow> n \<le> 8 \<Longrightarrow> (of_nat n :: 'f) \<noteq> 0" "encryption_vars w st \<subseteq> V"
  shows "dec V P (validate_notes canon cs w st) (\<lambda>\<rho>. volumes_settled (encryption_witness_at \<rho> w) \<and> note_fields (encryption_witness_at \<rho> w))
    (\<lambda>_. {}) (\<lambda>_ _. True)"
proof -
  let ?w = "\<lambda>\<rho>. encryption_witness_at \<rho> w" and ?d = "mr_direction (me_match_res w)"
  let ?buy = "\<lambda>w. buy_volumes w (mr_base_amount (me_match_res w)) (mr_quote_amount (me_match_res w))"
  let ?sell = "\<lambda>w. sell_volumes w (mr_base_amount (me_match_res w)) (mr_quote_amount (me_match_res w))"
  let ?sel = "\<lambda>x y w. y * mr_direction (me_match_res w) + x * (1 - mr_direction (me_match_res w)) = (1 :: 'f) \<and> note_fields w"
  let ?rest = "andthen (floor_share canon cs (ms_protocol_fee st) (mr_base_amount (me_match_res w))) (\<lambda>q1.
      andthen (floor_share canon cs (ms_protocol_fee st) (mr_quote_amount (me_match_res w))) (\<lambda>q2.
      andthen (constrain cs (lc_sub (lc_var q1) (lc_var (nv_volume1 (me_protocol_note w))))) (\<lambda>_.
      andthen (constrain cs (lc_sub (lc_var q2) (lc_var (nv_volume2 (me_protocol_note w))))) (\<lambda>_. for_each (constrain cs) (note_constraints cs w)))))"
  have d: "?d \<in> V"
    using assms(2) encryption_scope(1) [of w st] by (auto simp: match_vars_def)
  have dep: "depends U (\<lambda>\<rho>. h (?w \<rho>))" if "V \<subseteq> U" for U and h :: "'f encryption_witness_value \<Rightarrow> bool"
    using depends_comp [OF depends_mono [OF depends_encryption subset_trans [OF assms(2) that]], where h = "\<lambda>p. h (fst p)"] by simp
  have dep1: "depends U (\<lambda>\<rho>. h (\<rho> x) (?w \<rho>))" if "V \<subseteq> U" "x \<in> U" for U x and h :: "'f \<Rightarrow> 'f encryption_witness_value \<Rightarrow> bool"
    using depends_comp2 [OF depends_var [OF that(2)] depends_mono [OF depends_encryption subset_trans [OF assms(2) that(1)]], where h = "\<lambda>x p. h x (fst p)"] by simp
  have dep2: "depends (V \<union> {x} \<union> {y}) (\<lambda>\<rho>. ?sel (\<rho> x) (\<rho> y) (?w \<rho>))" for x y
    by (intro depends_conj depends_comp2 [where h = "\<lambda>a b. a + b = 1"] depends_comp2 [where h = "(*)"] depends_comp [where h = "\<lambda>a. 1 - a"] dep)
      (use d in \<open>auto simp: match_at_def\<close>)
  have selected: "dec (V \<union> {x} \<union> {y}) Q (andthen (total (select_gadget cs (lc_var y) (lc_var x) (lc_var ?d))) (\<lambda>z.
      andthen (constrain cs (lc_sub (lc_one cs) z)) (\<lambda>_. ?rest)))
      (\<lambda>\<rho>. ?sel (\<rho> x) (\<rho> y) (?w \<rho>)) (\<lambda>_. {}) (\<lambda>_ _. True)" for x y Q
    apply (rule dec_step [OF dec_select dep2], (use d in auto)[3])
    apply (rule dec_step [OF dec_constrain [where V = "V \<union> {x} \<union> {y} \<union> lc_vars _"] dep2], (use d in auto)[4])
    apply (rule dec_last [OF dec_protocol_volumes [OF assms(2)]])
     apply auto
    done
  have sells: "dec (V \<union> {x}) Q (andthen (party1_buy_base_constraints_satisfied canon cs w st) (\<lambda>y.
      andthen (total (select_gadget cs (lc_var y) (lc_var x) (lc_var ?d))) (\<lambda>z.
      andthen (constrain cs (lc_sub (lc_one cs) z)) (\<lambda>_. ?rest))))
      (\<lambda>\<rho>. \<exists>y\<in>at_most (?sell (?w \<rho>)). ?sel (\<rho> x) y (?w \<rho>)) (\<lambda>_. {}) (\<lambda>_ _. True)" for x Q
  proof (rule dec_choose [OF den_sell [OF assms], where B = "\<lambda>y \<rho>. ?sel (\<rho> x) y (?w \<rho>)"])
    show "depends (V \<union> {x}) (\<lambda>\<rho>. ?sel (\<rho> x) y (?w \<rho>))" for y
      by (rule dep1 [of "V \<union> {x}" x "\<lambda>x w. ?sel x y w"]) auto
  qed (use selected in auto)
  have all: "(\<exists>x\<in>at_most (?buy (?w \<rho>)). \<exists>y\<in>at_most (?sell (?w \<rho>)). ?sel x y (?w \<rho>)) \<longleftrightarrow> volumes_settled (?w \<rho>) \<and> note_fields (?w \<rho>)" for \<rho>
    using selected_bit [of "?buy (?w \<rho>)" "?sell (?w \<rho>)" "mr_direction (me_match_res (?w \<rho>))"] unfolding volumes_settled_def Let_def by blast
  show ?thesis
    unfolding validate_notes_def Let_def all [symmetric]
  proof (rule dec_choose [OF den_buy [OF assms], where B = "\<lambda>x \<rho>. \<exists>y\<in>at_most (?sell (?w \<rho>)). ?sel x y (?w \<rho>)"])
    show "depends V (\<lambda>\<rho>. \<exists>y\<in>at_most (?sell (?w \<rho>)). ?sel x y (?w \<rho>))" for x
      by (rule dep [of V "\<lambda>w. \<exists>y\<in>at_most (?sell w). ?sel x y w"]) auto
  qed (use sells in auto)
qed

lemma dec_note_commitments:
  assumes "valid_params p" "0 < rate p" "encryption_vars w st \<subseteq> V"
  shows "dec V P (validate_note_commitments cs p w st) (\<lambda>\<rho>. notes_committed p (encryption_witness_at \<rho> w) (encryption_statement_at \<rho> st)) (\<lambda>_. {}) (\<lambda>_ _. True)"
proof -
  note dep = depends_mono [OF depends_encryption_relation [where h = "notes_committed p"] assms(3)]
  note step = dec_step [OF _ dep]
  note vars = subsetD [OF assms(3), OF encryption_variables [where st = st and w = w]]
  note scope = subset_trans [OF encryption_scope(4) assms(3)] subset_trans [OF encryption_scope(5) assms(3)] subset_trans [OF encryption_scope(6) assms(3)]
    subset_trans [OF encryption_scope(7) assms(3)] subset_trans [OF encryption_scope(8) assms(3)]
  show ?thesis
    unfolding validate_note_commitments_def
    apply (rule step [OF dec_note_commit [OF assms(1,2)]], blast, (use vars scope in auto)[2])
    apply (rule step [OF dec_constrain_equal [where V = "V \<union> lc_vars _"]], (use vars in \<open>auto simp: notes_committed_def\<close>)[4])
    apply (rule step [OF dec_note_commit [OF assms(1,2)]], blast, (use vars scope in auto)[2])
    apply (rule step [OF dec_constrain_equal [where V = "V \<union> lc_vars _"]], (use vars in \<open>auto simp: notes_committed_def\<close>)[4])
    apply (rule step [OF dec_note_commit [OF assms(1,2)]], blast, (use vars scope in auto)[2])
    apply (rule step [OF dec_constrain_equal [where V = "V \<union> lc_vars _"]], (use vars in \<open>auto simp: notes_committed_def\<close>)[4])
    apply (rule step [OF dec_note_commit [OF assms(1,2)]], blast, (use vars scope in auto)[2])
    apply (rule step [OF dec_constrain_equal [where V = "V \<union> lc_vars _"]], (use vars in \<open>auto simp: notes_committed_def\<close>)[4])
    apply (rule step [OF dec_note_commit [OF assms(1,2)]], blast, (use vars scope in auto)[2])
    apply (rule dec_last [OF dec_constrain_equal [where V = "V \<union> lc_vars _"]], (use vars in \<open>auto simp: notes_committed_def\<close>))
    done
qed

lemma dec_encryptions:
  assumes "N \<le> 256" "encryption_vars w st \<subseteq> V" "length (me_elgamal_randomness w) = 9"
  shows "dec V P (check_encryptions N canon cs w st) (\<lambda>\<rho>. encryptions_hold N (encryption_witness_at \<rho> w) (encryption_statement_at \<rho> st)) (\<lambda>_. {}) (\<lambda>_ _. True)"
proof -
  note dep = depends_mono [OF depends_encryption_relation [where h = "encryptions_hold N"] assms(2)]
  note step = dec_step [OF _ dep]
  note check = dec_check_encryption [OF assms(1)]
  have len: "length (me_elgamal_randomness w) = 9"
    by (rule assms(3))
  have random: "me_elgamal_randomness w ! i \<in> V" if "i < 9" for i
    by (rule subsetD [OF assms(2)], rule subsetD [OF encryption_scope(9)], rule nth_mem) (simp add: assms(3) that)
  have vars: "{me_elgamal_randomness w ! 0, me_elgamal_randomness w ! 1, me_elgamal_randomness w ! 2, me_elgamal_randomness w ! 3, me_elgamal_randomness w ! 4,
      me_elgamal_randomness w ! 5, me_elgamal_randomness w ! 6, me_elgamal_randomness w ! 7, me_elgamal_randomness w ! 8} \<subseteq> V"
    "{nv_volume1 (me_party0_note w), nv_volume2 (me_party0_note w), nv_volume1 (me_party1_note w), nv_volume2 (me_party1_note w), nv_mint1 (me_protocol_note w),
      nv_volume1 (me_protocol_note w), nv_mint2 (me_protocol_note w), nv_volume2 (me_protocol_note w), nv_randomness (me_protocol_note w)} \<subseteq> V"
    "{ms_pk_settle_party0 st, ms_pk_settle_party1 st, ms_pk_settle_protocol st} \<subseteq> V"
    "ciphertext_vars (ms_volume1_ciphertext1 st) \<subseteq> V" "ciphertext_vars (ms_volume2_ciphertext1 st) \<subseteq> V" "ciphertext_vars (ms_volume1_ciphertext2 st) \<subseteq> V"
    "ciphertext_vars (ms_volume2_ciphertext2 st) \<subseteq> V" "ciphertext_vars (ms_mint1_protocol_ciphertext st) \<subseteq> V" "ciphertext_vars (ms_volume1_protocol_ciphertext st) \<subseteq> V"
    "ciphertext_vars (ms_mint2_protocol_ciphertext st) \<subseteq> V" "ciphertext_vars (ms_volume2_protocol_ciphertext st) \<subseteq> V"
    "ciphertext_vars (ms_randomness_protocol_ciphertext st) \<subseteq> V"
    subgoal using random by auto
    subgoal using assms(2) encryption_scope(4,5,8) [of w st] by (auto simp: note_vars_def)
    subgoal using assms(2) encryption_variables [of _ w st] by auto
    by (rule subset_trans [OF _ assms(2)], rule ciphertext_scope)+
  show ?thesis
    unfolding check_encryptions_def Let_def
    apply (rule step [OF check], blast, (use vars in auto)[1], (use len in \<open>simp add: encryptions_hold_def Let_def\<close>)[1])
    apply (rule step [OF check], blast, (use vars in auto)[1], (use len in \<open>simp add: encryptions_hold_def Let_def\<close>)[1])
    apply (rule step [OF check], blast, (use vars in auto)[1], (use len in \<open>simp add: encryptions_hold_def Let_def\<close>)[1])
    apply (rule step [OF check], blast, (use vars in auto)[1], (use len in \<open>simp add: encryptions_hold_def Let_def\<close>)[1])
    apply (rule step [OF check], blast, (use vars in auto)[1], (use len in \<open>simp add: encryptions_hold_def Let_def\<close>)[1])
    apply (rule step [OF check], blast, (use vars in auto)[1], (use len in \<open>simp add: encryptions_hold_def Let_def\<close>)[1])
    apply (rule step [OF check], blast, (use vars in auto)[1], (use len in \<open>simp add: encryptions_hold_def Let_def\<close>)[1])
    apply (rule step [OF check], blast, (use vars in auto)[1], (use len in \<open>simp add: encryptions_hold_def Let_def\<close>)[1])
    apply (rule dec_last [OF check], (use vars in auto)[1])
    using len by (auto simp: encryptions_hold_def Let_def)
qed

lemma dec_valid_match_encryption:
  assumes "N \<le> 256" "valid_params p" "0 < rate p" "\<And>n. 0 < n \<Longrightarrow> n \<le> 8 \<Longrightarrow> (of_nat n :: 'f) \<noteq> 0" "length (me_elgamal_randomness w) = 9"
  shows "dec (encryption_vars w st) P (valid_match_encryption N canon cs p w st)
    (\<lambda>\<rho>. valid_match_encryption_relation N p (encryption_witness_at \<rho> w) (encryption_statement_at \<rho> st)) (\<lambda>_. {}) (\<lambda>_ _. True)"
  unfolding valid_match_encryption_def
  apply (rule dec_step [OF dec_encryptions [OF assms(1) subset_refl assms(5)] depends_encryption_relation])
     apply (auto simp: valid_match_encryption_relation_def)[3]
  apply (rule dec_step [OF dec_validate_notes [OF assms(4) subset_refl] depends_encryption_relation])
       apply (auto simp: valid_match_encryption_relation_def)[5]
  apply (rule dec_last [OF dec_note_commitments [OF assms(2,3) subset_refl]])
   apply (auto simp: valid_match_encryption_relation_def)
  done

end

subsection \<open>The circuit, exactly\<close>

text \<open>
  An example: party 0 buys ten of the base token for a hundred of the quote token, and the notes
  give party 0 a volume of 7777, party 1 a volume of 4444 and the protocol 99 of each token.
\<close>

definition inflated_note :: "nat \<Rightarrow> nat \<Rightarrow> nat \<Rightarrow> nat \<Rightarrow> nat \<Rightarrow> nat NoteVar" where
  "inflated_note v1 d1 v2 d2 r = \<lparr>nv_mint1 = 2, nv_volume1 = v1, nv_direction1 = d1, nv_mint2 = 3, nv_volume2 = v2, nv_direction2 = d2,
    nv_fee_mint = 16, nv_fee_volume = 17, nv_fee_direction = 0, nv_type = 0, nv_randomness = r\<rparr>"

definition inflated_fee :: "(nat, rat) FeeVar" where
  "inflated_fee = \<lparr>fv_settle_key = 0, fv_gas_addr = 16, fv_gas_token_amount = 17, fv_percentage_fee = \<lparr>fp_repr = lc_var 16\<rparr>\<rparr>"

definition inflated_witness :: "(nat, rat) encryption_witness_var" where
  "inflated_witness = \<lparr>me_match_res = \<lparr>mr_quote_mint = 3, mr_base_mint = 2, mr_quote_amount = 5, mr_base_amount = 4, mr_direction = 1,
      mr_execution_price = \<lparr>fp_repr = lc_var 1\<rparr>, mr_max_minus_min_amount = 1, mr_min_amount_order_index = 1\<rparr>,
    me_party0_fee = inflated_fee, me_party1_fee = inflated_fee, me_party0_randomness_hash = 9, me_party1_randomness_hash = 10,
    me_party0_note = inflated_note 6 1 5 0 9, me_party1_note = inflated_note 4 0 7 1 10,
    me_relayer0_note = inflated_note 1 1 1 1 11\<lparr>nv_fee_direction := 1, nv_type := 1\<rparr>,
    me_relayer1_note = inflated_note 1 1 1 1 12\<lparr>nv_fee_direction := 1, nv_type := 1\<rparr>,
    me_protocol_note = inflated_note 8 1 8 1 13\<lparr>nv_fee_mint := 1, nv_fee_volume := 1, nv_fee_direction := 1, nv_type := 1\<rparr>,
    me_elgamal_randomness = replicate 9 14\<rparr>"

definition inflated_ciphertext :: "nat \<Rightarrow> nat ElGamalCiphertextVar" where
  "inflated_ciphertext x = \<lparr>ev_partial_shared_secret = 15, ev_encrypted_message = x\<rparr>"

definition inflated_statement :: "(nat, rat) encryption_statement_var" where
  "inflated_statement = \<lparr>ms_party0_note_commit = 18, ms_party1_note_commit = 19, ms_relayer0_note_commit = 20, ms_relayer1_note_commit = 21,
    ms_protocol_note_commit = 22, ms_pk_settle_party0 = 0, ms_pk_settle_party1 = 0, ms_pk_settle_relayer0 = 0, ms_pk_settle_relayer1 = 0,
    ms_pk_settle_protocol = 0, ms_protocol_fee = \<lparr>fp_repr = lc_var 17\<rparr>,
    ms_volume1_ciphertext1 = inflated_ciphertext 6, ms_volume2_ciphertext1 = inflated_ciphertext 5, ms_volume1_ciphertext2 = inflated_ciphertext 4,
    ms_volume2_ciphertext2 = inflated_ciphertext 7, ms_mint1_protocol_ciphertext = inflated_ciphertext 2,
    ms_volume1_protocol_ciphertext = inflated_ciphertext 8, ms_mint2_protocol_ciphertext = inflated_ciphertext 3,
    ms_volume2_protocol_ciphertext = inflated_ciphertext 8, ms_randomness_protocol_ciphertext = inflated_ciphertext 13\<rparr>"

definition inflated_values :: "rat list" where
  "inflated_values = (let h = hash_value toy_params in
    [5, 6, 10, 100, 7777, 4444, 99, 40, 50, 41, 51, 90, 3, 8, 30, 2,
     h [5, 7777, 0, 6, 100, 1, 30, 2, 1, 1, 40, 1], h [5, 10, 1, 6, 4444, 0, 30, 2, 1, 1, 50, 1],
     h [5, 0, 0, 6, 0, 0, 30, 2, 0, 0, 41, 1], h [5, 0, 0, 6, 0, 0, 30, 2, 0, 0, 51, 1], h [5, 99, 0, 6, 99, 0, 0, 0, 0, 0, 90, 1]])"

lemma inflated_encrypts: "encrypts 2 3 x 1 \<lparr>ev_partial_shared_secret = 8 :: rat, ev_encrypted_message = x\<rparr>"
proof -
  have "8 \<in> powers 2 (2 :: rat) 3" "1 \<in> powers 2 (1 :: rat) 3"
    unfolding powers_def by (rule image_eqI [of _ _ "[1, 1]"], simp_all)+
  then show ?thesis
    by (force simp: encrypts_def DEFAULT_ELGAMAL_GENERATOR_scalar_def)
qed

lemmas inflated_defs = inflated_witness_def inflated_statement_def inflated_note_def inflated_fee_def inflated_ciphertext_def inflated_values_def

lemma inflated_at:
  "encryption_witness_at (r1cs_assigned (committed inflated_values)) inflated_witness
    = \<lparr>me_match_res = \<lparr>mr_quote_mint = 6, mr_base_mint = 5, mr_quote_amount = 100, mr_base_amount = 10, mr_direction = 0,
        mr_execution_price = 0, mr_max_minus_min_amount = 0, mr_min_amount_order_index = 0\<rparr>,
      me_party0_fee = \<lparr>f_settle_key = 1, f_gas_addr = 30, f_gas_token_amount = 2, f_percentage_fee = 30\<rparr>,
      me_party1_fee = \<lparr>f_settle_key = 1, f_gas_addr = 30, f_gas_token_amount = 2, f_percentage_fee = 30\<rparr>,
      me_party0_randomness_hash = 40, me_party1_randomness_hash = 50,
      me_party0_note = \<lparr>nv_mint1 = 5, nv_volume1 = 7777, nv_direction1 = 0, nv_mint2 = 6, nv_volume2 = 100, nv_direction2 = 1,
        nv_fee_mint = 30, nv_fee_volume = 2, nv_fee_direction = 1, nv_type = 1, nv_randomness = 40\<rparr>,
      me_party1_note = \<lparr>nv_mint1 = 5, nv_volume1 = 10, nv_direction1 = 1, nv_mint2 = 6, nv_volume2 = 4444, nv_direction2 = 0,
        nv_fee_mint = 30, nv_fee_volume = 2, nv_fee_direction = 1, nv_type = 1, nv_randomness = 50\<rparr>,
      me_relayer0_note = \<lparr>nv_mint1 = 5, nv_volume1 = 0, nv_direction1 = 0, nv_mint2 = 6, nv_volume2 = 0, nv_direction2 = 0,
        nv_fee_mint = 30, nv_fee_volume = 2, nv_fee_direction = 0, nv_type = 0, nv_randomness = 41\<rparr>,
      me_relayer1_note = \<lparr>nv_mint1 = 5, nv_volume1 = 0, nv_direction1 = 0, nv_mint2 = 6, nv_volume2 = 0, nv_direction2 = 0,
        nv_fee_mint = 30, nv_fee_volume = 2, nv_fee_direction = 0, nv_type = 0, nv_randomness = 51\<rparr>,
      me_protocol_note = \<lparr>nv_mint1 = 5, nv_volume1 = 99, nv_direction1 = 0, nv_mint2 = 6, nv_volume2 = 99, nv_direction2 = 0,
        nv_fee_mint = 0, nv_fee_volume = 0, nv_fee_direction = 0, nv_type = 0, nv_randomness = 90\<rparr>,
      me_elgamal_randomness = replicate 9 3\<rparr>"
  by (simp add: encryption_witness_at_def inflated_defs Let_def match_at_def fee_at_def note_at_def r1cs_assigned_def committed_def)

lemma inflated_relation:
  "valid_match_encryption_relation 2 toy_params (encryption_witness_at (r1cs_assigned (committed inflated_values)) inflated_witness)
    (encryption_statement_at (r1cs_assigned (committed inflated_values)) inflated_statement)"
proof -
  have cipher: "ciphertext_at (r1cs_assigned (committed inflated_values)) (inflated_ciphertext v)
      = \<lparr>ev_partial_shared_secret = 8, ev_encrypted_message = r1cs_assigned (committed inflated_values) v\<rparr>" for v
    by (simp add: ciphertext_at_def inflated_ciphertext_def inflated_values_def Let_def r1cs_assigned_def committed_def)
  show ?thesis
    using inflated_encrypts unfolding inflated_at
    by (simp add: valid_match_encryption_relation_def encryptions_hold_def volumes_settled_def buy_volumes_def note_fields_def notes_committed_def
        note_commitment_def Let_def inflated_statement_def cipher, simp add: inflated_values_def Let_def r1cs_assigned_def committed_def)
qed

lemma inflated_scope: "encryption_vars inflated_witness inflated_statement \<subseteq> r1cs_wires (committed inflated_values)"
  by (auto simp: encryption_vars_def encryption_witness_vars_def encryption_statement_vars_def match_vars_def fee_vars_def note_vars_def
      ciphertext_vars_def inflated_defs Let_def)

text \<open>
  C33: the circuit proves exactly that each of the nine ciphertexts is an encryption of its
  plaintext for some decompositions of its randomness, that the volumes without a fee are the
  amounts of the match for its direction, that the other fields of the five notes follow from the
  match, the fees and the randomness hashes, and that the five commitments are the notes'. The
  volumes net of fees, the relayers' fees and the protocol's fees are not among it: every value
  of them has a proof, since the quotients they are compared with are not bounded.
\<close>

theorem valid_match_encryption_exact:
  fixes cs :: "('s, 'v, 'f::field) cs_ops"
  assumes "constraint_system cs sat wires assigned" "N \<le> 256" "valid_params p" "0 < rate p" "\<And>n. 0 < n \<Longrightarrow> n \<le> 8 \<Longrightarrow> (of_nat n :: 'f) \<noteq> 0"
    and "length (me_elgamal_randomness w) = 9" "closed_state sat wires s" "encryption_vars w st \<subseteq> wires s"
  shows "\<exists>s'. valid_match_encryption N canon cs p w st s = Returns ((), s')
    \<and> (\<forall>\<rho>. sat s \<rho> \<longrightarrow> ((\<exists>\<rho>'. (\<forall>v\<in>wires s. \<rho>' v = \<rho> v) \<and> sat s' \<rho>')
        \<longleftrightarrow> valid_match_encryption_relation N p (encryption_witness_at \<rho> w) (encryption_statement_at \<rho> st)))"
  using constraint_system.dec_exact [OF assms(1) constraint_system.dec_valid_match_encryption [OF assms(1-6), of st] depends_encryption_relation assms(7,8)]
  by simp

theorem valid_match_encryption_exact_witness:
  "\<exists>s' \<rho>. valid_match_encryption 2 (\<lambda>_. 0) r1cs_ops toy_params inflated_witness inflated_statement (committed inflated_values) = Returns ((), s')
    \<and> r1cs_sat s' \<rho> \<and> (\<forall>v\<in>r1cs_wires (committed inflated_values). \<rho> v = r1cs_assigned (committed inflated_values) v)"
proof -
  let ?s = "committed inflated_values" and ?w = inflated_witness and ?st = inflated_statement
  have len: "length (me_elgamal_randomness ?w) = 9"
    by (simp add: inflated_witness_def)
  obtain s' where run: "valid_match_encryption 2 (\<lambda>_. 0) r1cs_ops toy_params ?w ?st ?s = Returns ((), s')"
    and exact: "\<And>\<rho>. r1cs_sat ?s \<rho> \<Longrightarrow> (\<exists>\<rho>'. (\<forall>v\<in>r1cs_wires ?s. \<rho>' v = \<rho> v) \<and> r1cs_sat s' \<rho>')
        \<longleftrightarrow> valid_match_encryption_relation 2 toy_params (encryption_witness_at \<rho> ?w) (encryption_statement_at \<rho> ?st)"
    using valid_match_encryption_exact [OF r1cs_contract _ toy_params_valid(1) _ _ len committed_closed inflated_scope, where N = 2 and canon = "\<lambda>_. 0"] by auto
  then show ?thesis
    using exact [OF r1cs.honest_sat [OF committed_honest]] inflated_relation by blast
qed

end
