(* ===== verification/Spec2Isabelle.thy ===== *)
theory Spec2Isabelle
  imports Network_Safety Chain_Events Valid_Commitments Valid_Settle Valid_Wallet_Create Valid_Match_Encryption
begin

text \<open>
  A verification of the relayer of a dark pool: nodes gossip orders and peers, pair orders in
  handshakes, run a multi-party computation on the two orders of a handshake, and settle the
  result on chain with zero-knowledge proofs about committed wallets.

  \<^bold>\<open>Parts and how they interact.\<close> The relayer (\<open>core/src\<close>) is a set of workers around a shared
  state (\<open>state/\<close>): the order book, the peer index, the wallets and the handshake priorities.
  The gossip server (\<open>gossip/\<close>) changes that state on messages of other nodes (\<open>gossip_api/\<close>), the
  handshake manager (\<open>handshake/\<close>) picks verified orders, negotiates matches and encumbers the
  wallets of a match. The network manager (\<open>network_manager/\<close>) carries the messages of both: it
  signs what they send, checks the signatures of what arrives and hands it over as jobs. The
  event listener (\<open>chain_events/\<close>) follows the contract: a spent nullifier ends handshakes and
  cancels orders, a new Merkle root moves the wallets' paths and has their proofs renewed by the
  proof manager (\<open>proof_generation/\<close>). The circuits (\<open>circuits/src\<close>) are what the proofs of a
  wallet, a match and a settlement state; \<open>crypto/src\<close> converts between the number types they
  use.

  \<^bold>\<open>Theories.\<close>
  \<^item> \<open>Prelude\<close>: results of fallible and of panicking or blocking calls, step relations and what
    every sequence of steps keeps, words and lists.
  \<^item> \<open>Priority\<close>, \<open>Orderbook\<close>, \<open>Peers\<close>, \<open>Wallets\<close>, \<open>Relayer_State\<close>: the state, one record per
    struct and one function per method; the operations of a part form a step relation and its
    invariants hold in every reachable state.
  \<^item> \<open>Scalars\<close>, \<open>Circuit_Types\<close>: conversions between integers, scalars and field elements, and
    the native wallet and note commitments.
  \<^item> \<open>Handshake_Cache\<close>, \<open>Handshake_State\<close>, \<open>Encumber\<close>, \<open>Handshake_Manager\<close>: the handshake
    worker. A call returns, panics or blocks on a lock its own task holds.
  \<^item> \<open>Gossip_Api\<close>, \<open>Gossip\<close>, \<open>Gossip_Safety\<close>: messages and their authentication, the gossip
    server's handlers and what they guarantee. Every run of the server refines a sequence of
    operations of \<open>Relayer_State\<close>.
  \<^item> \<open>Network_Manager\<close>, \<open>Network_Safety\<close>: the executor of the network manager, its buffer of
    messages before warm-up and its start-up, over a network that is a parameter; which jobs an
    inbound message can cause, and how a node that starts becomes a member of its cluster at
    another node.
  \<^item> \<open>Proof_Manager\<close>, \<open>Chain_Events\<close>: proof jobs and their answers; paging through the events of
    the contract, what each event changes, and the interleaving of the polls that the listener
    spawns as a step relation on their shared state.
  \<^item> \<open>Constraint_System\<close>: the interface of the proof system's constraint system with its laws, as
    a locale interpreted on a rank-1 system with explicit rows.
  \<^item> \<open>Gadgets\<close>, \<open>Poseidon\<close>, \<open>Circuit_Hashes\<close>: the single-prover gadgets of
    \<open>circuits/src/zk_gadgets\<close>, the hash over native values and over variables, commitments,
    nullifiers and Merkle openings.
  \<^item> \<open>Circuit_Monad\<close>, \<open>Circuit_Values\<close>, \<open>Circuit_Choice\<close>: circuits as fallible computations on the
    constraint system, what a circuit decides about the values of its variables, and the exact
    meaning of a gadget that leaves the prover a choice.
  \<^item> \<open>Valid_Commitments\<close>, \<open>Valid_Settle\<close>, \<open>Valid_Wallet_Update\<close>, \<open>Valid_Wallet_Create\<close>,
    \<open>Valid_Match\<close>, \<open>Valid_Match_Encryption\<close>: the circuits of \<open>circuits/src/zk_circuits\<close>. Each has
    a relation on the values of its witness and statement, and a theorem that its constraints
    can be satisfied exactly where the relation holds.

  \<^bold>\<open>Conventions.\<close> Machine integers are words, big integers \<open>nat\<close> or \<open>int\<close>, a scalar is its
  canonical residue; in the circuits a scalar is an element of any field, with its canonical
  integer as an argument where the code uses it. Hash maps are maps, with the iteration order as
  an argument where the code iterates. Clocks, random numbers, signatures, the LRU cache, the
  network and the contract are arguments, and what the code relies on are assumptions of a
  locale that has a concrete interpretation. Loops are structural recursion over the data; only
  the loops over the pages of contract events take a number of pages as fuel, and their theorems
  hold once it exceeds the number of events divided by the page size of 100. The timers and the
  scheduler are modelled by one turn.

  \<^bold>\<open>Not modelled.\<close> Thread start-up, libp2p, the Starknet client, HTTP and websocket servers,
  exchange feeds, terminal interface and command line: they are input and output around the handlers.
  The round constants of the hash enter as a parameter. The multi-prover copies of the gadgets
  repeat the single-prover ones over shares.
\<close>

end
